(* ===== verification/Prelude.thy ===== *)
theory Prelude
  imports Main "HOL-Library.Word"
begin

unbundle bit_operations_syntax

text \<open>
  Shared vocabulary of the development.

  \<^item> results: a fallible Rust function returns \<open>'e + 'a\<close> (\<open>Inl\<close> the error); \<open>res_bind\<close> is the
    question-mark operator and \<open>guard\<close> an early return;
  \<^item> machine integers: times, counters and lengths are natural numbers with the checked and
    saturating operations of \<open>u16\<close>/\<open>u64\<close>/\<open>Duration\<close> written out; packet bytes, ports and 32-bit
    fields are words with their big-endian codecs;
  \<^item> text: a Rust \<open>str\<close> is the list of its UTF-8 bytes (\<open>string\<close>), so \<open>length\<close> is \<open>str::len\<close>;
    the standard-library predicates and splitters the sources use are defined on it.
\<close>

section \<open>Collections of proof rules\<close>

named_theorems res_simps \<open>equations that turn a result equation into its branches\<close>
named_theorems sat_simps \<open>checked and saturating machine arithmetic\<close>

section \<open>Results\<close>

definition res_bind :: "'e + 'a \<Rightarrow> ('a \<Rightarrow> 'e + 'b) \<Rightarrow> 'e + 'b" where
  "res_bind r f = (case r of Inl e \<Rightarrow> Inl e | Inr x \<Rightarrow> f x)"

definition guard :: "bool \<Rightarrow> 'e \<Rightarrow> 'e + 'a \<Rightarrow> 'e + 'a" where
  "guard ok e k = (if ok then k else Inl e)"

definition ok_or :: "'a option \<Rightarrow> 'e \<Rightarrow> 'e + 'a" where
  "ok_or x e = (case x of None \<Rightarrow> Inl e | Some y \<Rightarrow> Inr y)"

definition map_err :: "('e \<Rightarrow> 'f) \<Rightarrow> 'e + 'a \<Rightarrow> 'f + 'a" where
  "map_err f r = (case r of Inl e \<Rightarrow> Inl (f e) | Inr x \<Rightarrow> Inr x)"

definition is_ok :: "'e + 'a \<Rightarrow> bool" where
  "is_ok r = (case r of Inl _ \<Rightarrow> False | Inr _ \<Rightarrow> True)"

lemma res_bind_simps [simp]:
  "res_bind (Inl e) f = Inl e"
  "res_bind (Inr x) f = f x"
  by (simp_all add: res_bind_def)

lemma res_bind_eq_Inr [res_simps]:
  "res_bind r f = Inr y \<longleftrightarrow> (\<exists>x. r = Inr x \<and> f x = Inr y)"
  by (cases r) auto

lemma res_bind_eq_Inl [res_simps]:
  "res_bind r f = Inl e \<longleftrightarrow> r = Inl e \<or> (\<exists>x. r = Inr x \<and> f x = Inl e)"
  by (cases r) auto

lemma guard_eq_Inr [res_simps]: "guard b e k = Inr y \<longleftrightarrow> b \<and> k = Inr y"
  by (simp add: guard_def)

lemma guard_eq_Inl [res_simps]:
  "guard b e k = Inl d \<longleftrightarrow> (\<not> b \<and> d = e) \<or> (b \<and> k = Inl d)"
  by (auto simp: guard_def)

lemma guard_simps [simp]: "guard True e k = k" "guard False e k = Inl e"
  by (simp_all add: guard_def)

lemma ok_or_eq_Inr [res_simps]: "ok_or x e = Inr y \<longleftrightarrow> x = Some y"
  by (cases x) (auto simp: ok_or_def)

lemma ok_or_simps [simp]: "ok_or None e = Inl e" "ok_or (Some y) e = Inr y"
  by (simp_all add: ok_or_def)

lemma map_err_eq_Inr [res_simps]: "map_err f r = Inr y \<longleftrightarrow> r = Inr y"
  by (cases r) (auto simp: map_err_def)

lemma map_err_simps [simp]: "map_err f (Inl e) = Inl (f e)" "map_err f (Inr x) = Inr x"
  by (simp_all add: map_err_def)

lemma is_ok_simps [simp]: "is_ok (Inl e) = False" "is_ok (Inr x) = True"
  by (simp_all add: is_ok_def)

lemma is_ok_iff: "is_ok r \<longleftrightarrow> (\<exists>x. r = Inr x)"
  by (cases r) auto

section \<open>Machine arithmetic on natural numbers\<close>

definition u16_max :: nat where "u16_max = 65535"
definition u32_max :: nat where "u32_max = 4294967295"
definition u64_max :: nat where "u64_max = 18446744073709551615"

definition checked_add_u64 :: "nat \<Rightarrow> nat \<Rightarrow> nat option" where
  "checked_add_u64 a b = (if a + b \<le> u64_max then Some (a + b) else None)"

definition saturating_add_u64 :: "nat \<Rightarrow> nat \<Rightarrow> nat" where
  "saturating_add_u64 a b = min (a + b) u64_max"

definition saturating_sub :: "nat \<Rightarrow> nat \<Rightarrow> nat" where
  "saturating_sub a b = (if b \<le> a then a - b else 0)"

definition saturating_add_u32 :: "nat \<Rightarrow> nat \<Rightarrow> nat" where
  "saturating_add_u32 a b = min (a + b) u32_max"

text \<open>
  \<open>std::time::Duration\<close>: a 64-bit count of seconds and a sub-second count of nanoseconds,
  held here as the total number of nanoseconds.
\<close>

type_synonym duration = nat

definition from_millis :: "nat \<Rightarrow> duration" where "from_millis n = n * 1000000"
definition from_secs :: "nat \<Rightarrow> duration" where "from_secs n = n * 1000000000"
definition as_millis :: "duration \<Rightarrow> nat" where "as_millis d = d div 1000000"

definition duration_max :: duration where
  "duration_max = u64_max * 1000000000 + 999999999"

definition duration_checked_add :: "duration \<Rightarrow> duration \<Rightarrow> duration option" where
  "duration_checked_add a b = (if a + b \<le> duration_max then Some (a + b) else None)"

lemma checked_add_u64_Some [sat_simps]:
  "checked_add_u64 a b = Some c \<longleftrightarrow> c = a + b \<and> a + b \<le> u64_max"
  by (auto simp: checked_add_u64_def)

lemma checked_add_u64_None [sat_simps]: "checked_add_u64 a b = None \<longleftrightarrow> u64_max < a + b"
  by (auto simp: checked_add_u64_def)

lemma duration_checked_add_Some [sat_simps]:
  "duration_checked_add a b = Some c \<longleftrightarrow> c = a + b \<and> a + b \<le> duration_max"
  by (auto simp: duration_checked_add_def)

lemma saturating_sub_eq [sat_simps]: "saturating_sub a b = a - b"
  by (simp add: saturating_sub_def)

lemma saturating_add_u64_exact [sat_simps]:
  "a + b \<le> u64_max \<Longrightarrow> saturating_add_u64 a b = a + b"
  by (simp add: saturating_add_u64_def)

lemma saturating_add_u64_le: "saturating_add_u64 a b \<le> a + b"
  by (simp add: saturating_add_u64_def)

lemma from_millis_mono: "a \<le> b \<Longrightarrow> from_millis a \<le> from_millis b"
  by (simp add: from_millis_def)

lemma as_millis_from_millis [simp]: "as_millis (from_millis n) = n"
  by (simp add: as_millis_def from_millis_def)

section \<open>Bytes and big-endian words\<close>

type_synonym byte = "8 word"
type_synonym bytes = "8 word list"
type_synonym u16 = "16 word"
type_synonym u32 = "32 word"

definition be16 :: "u16 \<Rightarrow> bytes" where
  "be16 w = [ucast (drop_bit 8 w), ucast w]"

definition be32 :: "u32 \<Rightarrow> bytes" where
  "be32 w = [ucast (drop_bit 24 w), ucast (drop_bit 16 w), ucast (drop_bit 8 w), ucast w]"

definition of_be16 :: "byte \<Rightarrow> byte \<Rightarrow> u16" where
  "of_be16 a b = push_bit 8 (ucast a) + ucast b"

definition of_be32 :: "byte \<Rightarrow> byte \<Rightarrow> byte \<Rightarrow> byte \<Rightarrow> u32" where
  "of_be32 a b c d = push_bit 24 (ucast a) + push_bit 16 (ucast b) + push_bit 8 (ucast c) + ucast d"

lemma length_be16 [simp]: "length (be16 w) = 2"
  by (simp add: be16_def)

lemma length_be32 [simp]: "length (be32 w) = 4"
  by (simp add: be32_def)

lemma of_be16_be16 [simp]: "of_be16 (ucast (drop_bit 8 w)) (ucast w) = (w :: u16)"
proof -
  have "of_be16 (ucast (drop_bit 8 w)) (ucast w) =
      push_bit 8 (ucast (ucast (drop_bit 8 w) :: byte)) OR ucast (ucast w :: byte)"
    unfolding of_be16_def
    by (rule disjunctive_add) (auto simp: bit_simps)
  also have "\<dots> = w"
    by (rule bit_word_eqI) (auto simp: bit_simps)
  finally show ?thesis .
qed

lemma of_be32_be32 [simp]:
  "of_be32 (ucast (drop_bit 24 w)) (ucast (drop_bit 16 w)) (ucast (drop_bit 8 w)) (ucast w) = (w :: u32)"
proof -
  let ?a = "push_bit 24 (ucast (ucast (drop_bit 24 w) :: byte)) :: u32"
  let ?b = "push_bit 16 (ucast (ucast (drop_bit 16 w) :: byte)) :: u32"
  let ?c = "push_bit 8 (ucast (ucast (drop_bit 8 w) :: byte)) :: u32"
  let ?d = "ucast (ucast w :: byte) :: u32"
  have ab: "?a + ?b = ?a OR ?b"
    by (rule disjunctive_add) (auto simp: bit_simps)
  have abc: "(?a OR ?b) + ?c = (?a OR ?b) OR ?c"
    by (rule disjunctive_add) (auto simp: bit_simps)
  have abcd: "((?a OR ?b) OR ?c) + ?d = ((?a OR ?b) OR ?c) OR ?d"
    by (rule disjunctive_add) (auto simp: bit_simps)
  have "((?a OR ?b) OR ?c) OR ?d = w"
  proof (rule bit_word_eqI)
    fix n
    assume "n < LENGTH(32)"
    consider "n < 8" | "8 \<le> n \<and> n < 16" | "16 \<le> n \<and> n < 24" | "24 \<le> n" by linarith
    then show "bit (((?a OR ?b) OR ?c) OR ?d) n = bit w n"
      using \<open>n < LENGTH(32)\<close> by cases (auto simp: bit_simps)
  qed
  then show ?thesis
    by (simp only: of_be32_def ab abc abcd)
qed

text \<open>Slices with Rust's bounds check: \<open>None\<close> is the panic of an index out of range.\<close>

definition nth_opt :: "'a list \<Rightarrow> nat \<Rightarrow> 'a option" where
  "nth_opt xs i = (if i < length xs then Some (xs ! i) else None)"

definition slice :: "'a list \<Rightarrow> nat \<Rightarrow> nat \<Rightarrow> 'a list option" where
  "slice xs a b = (if a \<le> b \<and> b \<le> length xs then Some (take (b - a) (drop a xs)) else None)"

lemma nth_opt_Some [simp]: "i < length xs \<Longrightarrow> nth_opt xs i = Some (xs ! i)"
  by (simp add: nth_opt_def)

lemma slice_Some [simp]:
  "a \<le> b \<Longrightarrow> b \<le> length xs \<Longrightarrow> slice xs a b = Some (take (b - a) (drop a xs))"
  by (simp add: slice_def)

text \<open>A fixed-size buffer after a callee wrote \<open>bs\<close> into it.\<close>

definition fill_buffer :: "nat \<Rightarrow> bytes \<Rightarrow> bytes" where
  "fill_buffer n bs = take n (bs @ replicate n 0)"

lemma length_fill_buffer [simp]: "length (fill_buffer n bs) = n"
  by (simp add: fill_buffer_def)

text \<open>\<open>to_be_bytes\<close> of an unsigned integer of \<open>k\<close> bytes.\<close>

fun be_bytes :: "nat \<Rightarrow> nat \<Rightarrow> bytes" where
  "be_bytes 0 n = []"
| "be_bytes (Suc k) n = be_bytes k (n div 256) @ [of_nat (n mod 256)]"

lemma length_be_bytes [simp]: "length (be_bytes k n) = k"
  by (induction k arbitrary: n) auto

lemma be_bytes_inject: "m < 256 ^ k \<Longrightarrow> n < 256 ^ k \<Longrightarrow> be_bytes k m = be_bytes k n \<longleftrightarrow> m = n"
proof (induction k arbitrary: m n)
  case (Suc k)
  have d: "m div 256 < 256 ^ k" "n div 256 < 256 ^ k" using Suc.prems by (simp_all add: less_mult_imp_div_less mult.commute)
  have "(of_nat (m mod 256) :: byte) = of_nat (n mod 256) \<longleftrightarrow> m mod 256 = n mod 256"
    by (simp add: word_of_nat_eq_iff take_bit_nat_def)
  then show ?case using Suc.IH [OF d] by simp (metis div_mult_mod_eq)
qed simp

section \<open>IPv4 addresses\<close>

type_synonym ipv4 = u32

definition ipv4_new :: "byte \<Rightarrow> byte \<Rightarrow> byte \<Rightarrow> byte \<Rightarrow> ipv4" where
  "ipv4_new a b c d = of_be32 a b c d"

definition octets :: "ipv4 \<Rightarrow> bytes" where "octets a = be32 a"
definition octet0 :: "ipv4 \<Rightarrow> byte" where "octet0 a = ucast (drop_bit 24 a)"
definition ipv4_unspecified :: ipv4 where "ipv4_unspecified = 0"
definition is_unspecified :: "ipv4 \<Rightarrow> bool" where "is_unspecified a \<longleftrightarrow> a = 0"
definition is_broadcast :: "ipv4 \<Rightarrow> bool" where "is_broadcast a \<longleftrightarrow> a = 0xFFFFFFFF"
definition is_multicast :: "ipv4 \<Rightarrow> bool" where
  "is_multicast a \<longleftrightarrow> 224 \<le> octet0 a \<and> octet0 a \<le> 239"
definition is_loopback :: "ipv4 \<Rightarrow> bool" where "is_loopback a \<longleftrightarrow> octet0 a = 127"

section \<open>Text\<close>

abbreviation code :: "char \<Rightarrow> nat" where "code c \<equiv> of_char c"

definition is_ascii_digit :: "char \<Rightarrow> bool" where
  "is_ascii_digit c \<longleftrightarrow> 48 \<le> code c \<and> code c \<le> 57"
definition is_ascii_upper :: "char \<Rightarrow> bool" where
  "is_ascii_upper c \<longleftrightarrow> 65 \<le> code c \<and> code c \<le> 90"
definition is_ascii_lower :: "char \<Rightarrow> bool" where
  "is_ascii_lower c \<longleftrightarrow> 97 \<le> code c \<and> code c \<le> 122"
definition is_ascii_alphanumeric :: "char \<Rightarrow> bool" where
  "is_ascii_alphanumeric c \<longleftrightarrow> is_ascii_digit c \<or> is_ascii_upper c \<or> is_ascii_lower c"
definition is_ascii_graphic :: "char \<Rightarrow> bool" where
  "is_ascii_graphic c \<longleftrightarrow> 33 \<le> code c \<and> code c \<le> 126"
definition is_lower_hex_digit :: "char \<Rightarrow> bool" where
  "is_lower_hex_digit c \<longleftrightarrow> is_ascii_digit c \<or> (97 \<le> code c \<and> code c \<le> 102)"
definition is_ascii_hexdigit :: "char \<Rightarrow> bool" where
  "is_ascii_hexdigit c \<longleftrightarrow> is_lower_hex_digit c \<or> (65 \<le> code c \<and> code c \<le> 70)"

definition to_ascii_lower :: "char \<Rightarrow> char" where
  "to_ascii_lower c = (if is_ascii_upper c then char_of (code c + 32) else c)"
definition to_ascii_lowercase :: "string \<Rightarrow> string" where
  "to_ascii_lowercase s = map to_ascii_lower s"

fun strip_prefix :: "string \<Rightarrow> string \<Rightarrow> string option" where
  "strip_prefix [] s = Some s"
| "strip_prefix (p # ps) [] = None"
| "strip_prefix (p # ps) (c # s) = (if p = c then strip_prefix ps s else None)"

definition ends_with :: "string \<Rightarrow> string \<Rightarrow> bool" where
  "ends_with s suf \<longleftrightarrow> length suf \<le> length s \<and> drop (length s - length suf) s = suf"

lemma strip_prefix_Some: "strip_prefix p s = Some r \<longleftrightarrow> s = p @ r"
  by (induction p s rule: strip_prefix.induct) auto

lemma is_lower_hex_to_ascii_lower:
  "is_ascii_hexdigit c \<Longrightarrow> is_lower_hex_digit (to_ascii_lower c)"
  by (auto simp: is_ascii_hexdigit_def to_ascii_lower_def is_lower_hex_digit_def is_ascii_digit_def
      is_ascii_upper_def)

text \<open>
  Unicode white space on UTF-8 text: \<open>ws_width s\<close> is the number of bytes of the white-space scalar
  value \<open>s\<close> begins with, or 0. Continuation bytes never match, so scanning byte by byte meets
  exactly the scalar values of valid UTF-8.
\<close>

definition ws_width :: "string \<Rightarrow> nat" where
  "ws_width s = (case map code (take 3 s) of
      [] \<Rightarrow> 0
    | a # r \<Rightarrow>
        if (9 \<le> a \<and> a \<le> 13) \<or> a = 32 then 1
        else (case r of
            [] \<Rightarrow> 0
          | b # q \<Rightarrow>
              if a = 194 \<and> (b = 133 \<or> b = 160) then 2
              else (case q of
                  [] \<Rightarrow> 0
                | c # _ \<Rightarrow>
                    if (a = 225 \<and> b = 154 \<and> c = 128)
                      \<or> (a = 226 \<and> b = 128 \<and> (128 \<le> c \<and> c \<le> 138 \<or> c = 168 \<or> c = 169 \<or> c = 175))
                      \<or> (a = 226 \<and> b = 129 \<and> c = 159)
                      \<or> (a = 227 \<and> b = 128 \<and> c = 128)
                    then 3 else 0)))"

function trim_start :: "string \<Rightarrow> string" where
  "trim_start s = (if ws_width s = 0 \<or> s = [] then s else trim_start (drop (ws_width s) s))"
  by pat_completeness auto
termination
  by (relation "measure length") auto

declare trim_start.simps [simp del]

fun trim_end :: "string \<Rightarrow> string" where
  "trim_end [] = []"
| "trim_end (c # s) = (if trim_start (c # s) = [] then [] else c # trim_end s)"

definition trim :: "string \<Rightarrow> string" where
  "trim s = trim_end (trim_start s)"

function split_ws :: "string \<Rightarrow> string \<Rightarrow> string list" where
  "split_ws cur [] = (if cur = [] then [] else [cur])"
| "split_ws cur (c # s) =
    (if ws_width (c # s) = 0 then split_ws (cur @ [c]) s
     else (if cur = [] then [] else [cur]) @ split_ws [] (drop (ws_width (c # s) - 1) s))"
  by pat_completeness auto
termination
  by (relation "measure (\<lambda>(cur, s). length s)") auto

definition split_whitespace :: "string \<Rightarrow> string list" where
  "split_whitespace s = split_ws [] s"

text \<open>\<open>str::lines\<close>: pieces ended by a line feed lose it and one carriage return before it.\<close>

fun lines_from :: "string \<Rightarrow> string \<Rightarrow> string list" where
  "lines_from cur [] = (if cur = [] then [] else [cur])"
| "lines_from cur (c # s) =
    (if code c = 10
     then (if cur \<noteq> [] \<and> code (last cur) = 13 then butlast cur else cur) # lines_from [] s
     else lines_from (cur @ [c]) s)"

definition lines :: "string \<Rightarrow> string list" where
  "lines s = lines_from [] s"

text \<open>\<open>u32::from_str_radix\<close>: an optional plus sign, then at least one digit; overflow is an error.\<close>

definition digit_value :: "char \<Rightarrow> nat option" where
  "digit_value c =
    (if is_ascii_digit c then Some (code c - 48)
     else if is_ascii_lower c then Some (code c - 87)
     else if is_ascii_upper c then Some (code c - 55)
     else None)"

fun digits_value :: "nat \<Rightarrow> nat \<Rightarrow> string \<Rightarrow> nat option" where
  "digits_value radix acc [] = Some acc"
| "digits_value radix acc (c # s) =
    (case digit_value c of
       None \<Rightarrow> None
     | Some d \<Rightarrow> if d < radix then digits_value radix (acc * radix + d) s else None)"

definition from_str_radix :: "nat \<Rightarrow> nat \<Rightarrow> string \<Rightarrow> nat option" where
  "from_str_radix bound radix s =
    (let digits = (case s of [] \<Rightarrow> [] | c # r \<Rightarrow> if c = CHR ''+'' then r else s)
     in if digits = [] then None
        else (case digits_value radix 0 digits of
                None \<Rightarrow> None
              | Some v \<Rightarrow> if v \<le> bound then Some v else None))"

lemma digits_value_ge: "digits_value radix acc s = Some v \<Longrightarrow> 0 < radix \<Longrightarrow> acc \<le> v"
proof (induction radix acc s rule: digits_value.induct)
  case (2 radix acc c s)
  then obtain d where d: "d < radix" and rec: "digit_value c = Some d"
      "digits_value radix (acc * radix + d) s = Some v"
    by (auto split: option.splits if_splits)
  with 2 have "acc * radix + d \<le> v" by simp
  moreover have "acc \<le> acc * radix" using \<open>0 < radix\<close> by simp
  ultimately show ?case by linarith
qed simp

lemma from_str_radix_bound: "from_str_radix bound radix s = Some v \<Longrightarrow> v \<le> bound"
  by (auto simp: from_str_radix_def Let_def split: if_splits option.splits list.splits)

end
