(* ===== verification/Externals.thy ===== *)
theory Externals
  imports Prelude
begin

text \<open>
  The boundary of the program: JSON values as the sources build and inspect them, and the
  third-party crates the sources call, as parameters.

  A \<open>serde_json::Value\<close> is the datatype \<open>json\<close>; an object is the list of its members in
  iteration order. The record \<open>crates\<close> holds the functions of crates that are not part of the
  repository (printing and parsing of JSON text, URL parsing, SHA-256, HMAC, hexadecimal);
  every definition that uses one takes the record as its first argument and no property of these
  functions is assumed unless a theorem names it.
\<close>

section \<open>JSON values\<close>

datatype json_number = PosInt nat | NegInt int | Float string

datatype json =
    JNull
  | JBool bool
  | JNum json_number
  | JStr string
  | JArr "json list"
  | JObj "(string \<times> json) list"

definition as_object :: "json \<Rightarrow> (string \<times> json) list option" where
  "as_object v = (case v of JObj m \<Rightarrow> Some m | _ \<Rightarrow> None)"

definition as_str :: "json \<Rightarrow> string option" where
  "as_str v = (case v of JStr s \<Rightarrow> Some s | _ \<Rightarrow> None)"

definition as_bool :: "json \<Rightarrow> bool option" where
  "as_bool v = (case v of JBool b \<Rightarrow> Some b | _ \<Rightarrow> None)"

definition as_u64 :: "json \<Rightarrow> nat option" where
  "as_u64 v = (case v of JNum (PosInt n) \<Rightarrow> Some n | _ \<Rightarrow> None)"

definition is_null :: "json \<Rightarrow> bool" where
  "is_null v \<longleftrightarrow> v = JNull"

definition json_get :: "json \<Rightarrow> string \<Rightarrow> json option" where
  "json_get v k = (case v of JObj m \<Rightarrow> map_of m k | _ \<Rightarrow> None)"

definition json_u64 :: "nat \<Rightarrow> json" where "json_u64 n = JNum (PosInt n)"

lemma as_object_Some [simp]: "as_object v = Some m \<longleftrightarrow> v = JObj m"
  by (cases v) (auto simp: as_object_def)

lemma as_str_Some [simp]: "as_str v = Some t \<longleftrightarrow> v = JStr t"
  by (cases v) (auto simp: as_str_def)

lemma as_object_JObj [simp]: "as_object (JObj m) = Some m" and as_str_JStr [simp]: "as_str (JStr t) = Some t"
  by simp_all

text \<open>Lexicographic order of UTF-8 byte strings, the key order of \<open>BTreeMap<String, _>\<close>.\<close>

fun str_less :: "string \<Rightarrow> string \<Rightarrow> bool" where
  "str_less [] [] = False"
| "str_less [] (_ # _) = True"
| "str_less (_ # _) [] = False"
| "str_less (a # x) (b # y) = (if code a = code b then str_less x y else code a < code b)"

fun btree_insert :: "string \<Rightarrow> 'a \<Rightarrow> (string \<times> 'a) list \<Rightarrow> (string \<times> 'a) list" where
  "btree_insert k v [] = [(k, v)]"
| "btree_insert k v ((k', v') # m) =
    (if k = k' then (k, v) # m
     else if str_less k k' then (k, v) # (k', v') # m
     else (k', v') # btree_insert k v m)"

definition btree_collect :: "(string \<times> 'a) list \<Rightarrow> (string \<times> 'a) list" where
  "btree_collect kvs = fold (\<lambda>(k, v). btree_insert k v) kvs []"

text \<open>\<open>sort_json\<close> of \<open>src/protocol.rs\<close> and \<open>src/diagnostics.rs\<close> (the same function twice).\<close>

fun sort_json :: "json \<Rightarrow> json" where
  "sort_json (JArr items) = JArr (map sort_json items)"
| "sort_json (JObj items) = JObj (btree_collect (map (\<lambda>(k, v). (k, sort_json v)) items))"
| "sort_json v = v"

section \<open>Order facts\<close>

lemma code_inject: "code a = code b \<longleftrightarrow> a = b"
  by simp

lemma code_linear: "a \<noteq> b \<Longrightarrow> \<not> code a < code b \<Longrightarrow> code b < code a"
  using code_inject [of a b] by linarith

lemma str_less_irrefl [simp]: "\<not> str_less x x"
  by (induction x) auto

lemma str_less_trans: "str_less x y \<Longrightarrow> str_less y z \<Longrightarrow> str_less x z"
proof (induction x y arbitrary: z rule: str_less.induct)
  case (4 a x b y)
  then show ?case by (cases z) (auto split: if_splits)
next
  case (2 c x)
  then show ?case by (cases z) auto
qed auto

lemma str_less_linear: "x \<noteq> y \<Longrightarrow> \<not> str_less x y \<Longrightarrow> str_less y x"
  by (induction x y rule: str_less.induct) (auto split: if_splits intro: code_linear)

definition keys_sorted :: "(string \<times> 'a) list \<Rightarrow> bool" where
  "keys_sorted m \<longleftrightarrow> sorted_wrt str_less (map fst m)"

lemma set_keys_btree_insert: "fst ` set (btree_insert k v m) = insert k (fst ` set m)"
  by (induction k v m rule: btree_insert.induct) auto

lemma keys_sorted_btree_insert: "keys_sorted m \<Longrightarrow> keys_sorted (btree_insert k v m)"
proof (induction k v m rule: btree_insert.induct)
  case (1 k v)
  then show ?case by (simp add: keys_sorted_def)
next
  case (2 k v k' v' m)
  have ins: "set (map fst (btree_insert k v m)) = insert k (set (map fst m))"
    by (simp add: set_keys_btree_insert)
  show ?case
    using 2 ins
    by (auto simp: keys_sorted_def intro: str_less_trans dest: str_less_linear)
qed

lemma keys_sorted_btree_collect: "keys_sorted (btree_collect kvs)"
proof -
  have "keys_sorted m \<Longrightarrow> keys_sorted (fold (\<lambda>(k, v). btree_insert k v) kvs m)" for m
    by (induction kvs arbitrary: m) (auto simp: keys_sorted_btree_insert)
  then show ?thesis by (simp add: btree_collect_def keys_sorted_def)
qed

lemma map_of_btree_insert: "map_of (btree_insert k v m) = (map_of m)(k \<mapsto> v)"
  by (induction k v m rule: btree_insert.induct) auto

section \<open>Third-party crates\<close>

text \<open>What the sources read off a \<open>url::Url\<close>.\<close>

record url =
  url_text :: string
  url_scheme :: string
  url_host_str :: "string option"
  url_host_ipv4 :: "ipv4 option"
  url_username :: string
  url_password :: "string option"
  url_query :: "string option"
  url_fragment :: "string option"
  url_path :: string
  url_port_or_default :: "nat option"

record crates =
  hex_encode :: "bytes \<Rightarrow> string"
  json_to_vec :: "json \<Rightarrow> bytes option"
  json_to_string :: "json \<Rightarrow> string option"
  json_from_slice :: "bytes \<Rightarrow> json option"
  url_parse :: "string \<Rightarrow> url option"
  url_join :: "url \<Rightarrow> string \<Rightarrow> url option"
  sha256_digest :: "bytes \<Rightarrow> bytes"
  hmac_sha256 :: "bytes \<Rightarrow> bytes \<Rightarrow> bytes"
  hex_decode :: "string \<Rightarrow> bytes option"
  base64_no_pad_decode :: "string \<Rightarrow> bytes option"

text \<open>The bytes of a text, and the text of bytes.\<close>

definition as_bytes :: "string \<Rightarrow> bytes" where
  "as_bytes s = map (\<lambda>c. of_nat (code c)) s"

lemma unat_as_bytes: "map unat (as_bytes s) = map code s"
  by (simp add: as_bytes_def unat_of_nat take_bit_eq_mod of_char_mod_256)

lemma as_bytes_inverse: "map (\<lambda>b. char_of (unat b)) (as_bytes s) = s"
proof -
  have "map (\<lambda>b. char_of (unat b)) (as_bytes s) = map char_of (map unat (as_bytes s))" by simp
  then show ?thesis unfolding unat_as_bytes by (simp add: map_idI)
qed

end
