(* ===== verification/Protocol.thy ===== *)
theory Protocol
  imports Externals "HOL-Library.Monad_Syntax"
begin

text \<open>
  The runtime-bootstrap protocol of \<open>src/protocol.rs\<close>: the response record and the validity of its
  access block, the supervision and logging decisions read from it, identity discovery and request
  signing through the bridge, and the binding check of the response to the request.

  The bridge is the parameter \<open>call\<close>: a state-passing function from method and parameters to a
  result or a \<open>BridgeError\<close>. Decoding a response body into the record (\<open>serde\<close>'s derived
  \<open>Deserialize\<close>) is the parameter \<open>decode\<close>.
\<close>

section \<open>Errors\<close>

datatype bridge_error =
    InvalidSocketName | InvalidSocketAddress | Connect | TimeoutConfiguration | Write | Read
  | Timeout | Eof | ResponseTooLarge | InvalidJson | JsonRpcVersion | IdMismatch
  | RpcError "int option" | MissingResult

datatype protocol_error =
    BridgeSetup bridge_error
  | DeploymentIdentityBridge bridge_error
  | InvalidDeploymentIdentity
  | PublicKeyBridge bridge_error
  | InvalidPublicKey
  | AssignedProcessorsBridge bridge_error
  | ProcessorMatchCount
  | SignerBridge bridge_error
  | InvalidSignature
  | TimestampOverflow
  | Serialization
  | InvalidResponse
  | ResponseBinding

section \<open>The access block\<close>

datatype endpoint_probe =
    ProbeHttp string "string option"
  | ProbeTcp nat
  | ProbeExec "string list"

record endpoint_health =
  eh_live :: "endpoint_probe option"
  eh_ready :: "endpoint_probe option"

record endpoint_publication =
  ep_use_site :: string
  ep_service_name :: string
  ep_local_port :: nat
  ep_health :: "endpoint_health option"

definition MAX_ENDPOINT_PUBLICATIONS :: nat where "MAX_ENDPOINT_PUBLICATIONS = 8"

definition starts_with :: "string \<Rightarrow> string \<Rightarrow> bool" where
  "starts_with s p \<longleftrightarrow> strip_prefix p s \<noteq> None"

definition is_ascii_control :: "char \<Rightarrow> bool" where
  "is_ascii_control c \<longleftrightarrow> code c < 32 \<or> code c = 127"

fun probe_valid :: "endpoint_probe \<Rightarrow> bool" where
  "probe_valid (ProbeHttp path contains) \<longleftrightarrow>
     starts_with path ''/'' \<and> length path \<le> 256
     \<and> \<not> (\<exists>c \<in> set path. is_ascii_control c \<or> c = CHR '' '')
     \<and> (case contains of None \<Rightarrow> True | Some needle \<Rightarrow> needle \<noteq> [] \<and> length needle \<le> 256)"
| "probe_valid (ProbeTcp port) \<longleftrightarrow> port > 0"
| "probe_valid (ProbeExec argv) \<longleftrightarrow>
     argv \<noteq> [] \<and> length argv \<le> 32 \<and> (\<forall>a \<in> set argv. a \<noteq> [] \<and> length a \<le> 1024)"

definition health_valid :: "endpoint_health \<Rightarrow> bool" where
  "health_valid h \<longleftrightarrow>
     (eh_live h \<noteq> None \<or> eh_ready h \<noteq> None)
     \<and> (case eh_live h of None \<Rightarrow> True | Some p \<Rightarrow> probe_valid p)
     \<and> (case eh_ready h of None \<Rightarrow> True | Some p \<Rightarrow> probe_valid p)"

definition publication_valid :: "endpoint_publication \<Rightarrow> bool" where
  "publication_valid p \<longleftrightarrow>
     length (ep_use_site p) \<le> 512
     \<and> starts_with (ep_use_site p) ''/ingress/''
     \<and> ends_with (ep_use_site p) ''/provider''
     \<and> ep_service_name p \<noteq> []
     \<and> length (ep_service_name p) \<le> 63
     \<and> (\<forall>c \<in> set (ep_service_name p). is_ascii_alphanumeric c \<or> c = CHR ''-'' \<or> c = CHR ''_'')
     \<and> ep_local_port p > 0
     \<and> (case ep_health p of None \<Rightarrow> True | Some h \<Rightarrow> health_valid h)"

text \<open>The fold over the publications with the set of use sites and the port table it builds.\<close>

fun publications_step :: "string set \<Rightarrow> (nat \<rightharpoonup> string) \<Rightarrow> endpoint_publication list \<Rightarrow> bool" where
  "publications_step sites ports [] = True"
| "publications_step sites ports (p # ps) =
    (publication_valid p
     \<and> ep_use_site p \<notin> sites
     \<and> (let owner = (case ports (ep_local_port p) of None \<Rightarrow> ep_service_name p | Some s \<Rightarrow> s)
        in owner = ep_service_name p
           \<and> publications_step (insert (ep_use_site p) sites) (ports(ep_local_port p \<mapsto> owner)) ps))"

definition publications_valid :: "endpoint_publication list \<Rightarrow> bool" where
  "publications_valid ps \<longleftrightarrow>
     length ps \<le> MAX_ENDPOINT_PUBLICATIONS \<and> publications_step {} Map.empty ps"

datatype provider_kind = Tailscale | Liskov

record access_artifact =
  aa_descriptor_id :: string
  aa_version :: string
  aa_url :: string
  aa_sha256 :: string
  aa_byte_size :: nat

record tailscale_credential =
  tc_schema :: string
  tc_auth_key :: string
  tc_organization_id :: string
  tc_integration_id :: string
  tc_attachment_id :: string
  tc_application_uid :: string
  tc_deployment_id :: string
  tc_job_id :: string
  tc_policy_digest :: string
  tc_expires_at_ms :: nat

datatype launch_profile = TailscaleStandardV1 | TailscaleAcurastProotV1

record tailscale_access =
  ta_kind :: provider_kind
  ta_attachment_id :: string
  ta_expected_tailnet :: string
  ta_setup_deadline_ms :: nat
  ta_fence :: nat
  ta_launch_profile :: "launch_profile option"
  ta_artifact :: access_artifact
  ta_credential :: "tailscale_credential option"
  ta_publications :: "endpoint_publication list"
  ta_ssh_enabled :: bool

definition tailscale_credential_valid_for :: "tailscale_credential \<Rightarrow> tailscale_access \<Rightarrow> bool" where
  "tailscale_credential_valid_for c a \<longleftrightarrow>
     tc_schema c = ''proof.liskov.runtime-ssh-credential.v1''
     \<and> tc_attachment_id c = ta_attachment_id a
     \<and> tc_expires_at_ms c = ta_setup_deadline_ms a
     \<and> tc_auth_key c \<noteq> [] \<and> length (tc_auth_key c) \<le> 512"

definition tailscale_access_valid :: "crates \<Rightarrow> tailscale_access \<Rightarrow> bool" where
  "tailscale_access_valid cr a \<longleftrightarrow>
     (let url_valid = (case url_parse cr (aa_url (ta_artifact a)) of
            None \<Rightarrow> False
          | Some u \<Rightarrow> url_scheme u = ''https'' \<and> url_host_str u \<noteq> None \<and> url_username u = []
                      \<and> url_password u = None \<and> url_fragment u = None)
      in ta_attachment_id a \<noteq> [] \<and> length (ta_attachment_id a) \<le> 256
         \<and> ta_expected_tailnet a \<noteq> [] \<and> ta_expected_tailnet a \<noteq> ''-''
         \<and> length (ta_expected_tailnet a) \<le> 253 \<and> CHR ''/'' \<notin> set (ta_expected_tailnet a)
         \<and> ta_fence a > 0
         \<and> aa_descriptor_id (ta_artifact a) \<noteq> [] \<and> aa_version (ta_artifact a) \<noteq> []
         \<and> length (aa_sha256 (ta_artifact a)) = 64
         \<and> (\<forall>c \<in> set (aa_sha256 (ta_artifact a)). is_ascii_hexdigit c \<and> \<not> is_ascii_upper c)
         \<and> 1 \<le> aa_byte_size (ta_artifact a) \<and> aa_byte_size (ta_artifact a) \<le> 134217728
         \<and> url_valid
         \<and> (case ta_credential a of None \<Rightarrow> True | Some c \<Rightarrow> tailscale_credential_valid_for c a)
         \<and> publications_valid (ta_publications a))"

record managed_binding =
  mb_organization_id :: string
  mb_application_id :: string
  mb_application_uid :: string
  mb_liskov_deployment_id :: string
  mb_deployment_id :: string
  mb_liskov_job_id :: string
  mb_job_id :: string
  mb_policy_digest :: string

record managed_toolchain =
  mt_runtime_contact_sha256 :: string
  mt_dropbear_sha256 :: string
  mt_dropbearkey_sha256 :: string

record managed_credential =
  mc_schema :: string
  mc_connector_token :: string
  mc_attachment_id :: string
  mc_fence :: nat
  mc_expires_at_ms :: nat

record managed_access =
  ma_kind :: provider_kind
  ma_attachment_id :: string
  ma_fence :: nat
  ma_gateway_url :: string
  ma_tunnel_id :: string
  ma_setup_deadline_ms :: nat
  ma_binding :: "managed_binding option"
  ma_authorized_keys :: "string list"
  ma_authorized_key_fingerprints :: "string list"
  ma_toolchain :: "managed_toolchain option"
  ma_credential :: "managed_credential option"

definition has_line_break :: "string \<Rightarrow> bool" where
  "has_line_break s \<longleftrightarrow> (\<exists>c \<in> set s. code c = 13 \<or> code c = 10 \<or> code c = 0)"

definition managed_credential_valid_for :: "managed_credential \<Rightarrow> managed_access \<Rightarrow> bool" where
  "managed_credential_valid_for c a \<longleftrightarrow>
     mc_schema c = ''proof.liskov.runtime-ssh-credential.v2''
     \<and> mc_attachment_id c = ma_attachment_id a
     \<and> mc_fence c = ma_fence a
     \<and> mc_expires_at_ms c \<ge> ma_setup_deadline_ms a
     \<and> length (mc_connector_token c) \<le> 4096
     \<and> count_list (mc_connector_token c) (CHR ''.'') + 1 = 3
     \<and> (\<forall>b \<in> set (mc_connector_token c). is_ascii_graphic b)"

definition valid_managed_binding :: "managed_binding \<Rightarrow> bool" where
  "valid_managed_binding b \<longleftrightarrow>
     (\<forall>v \<in> set [mb_organization_id b, mb_application_id b, mb_application_uid b,
                mb_liskov_deployment_id b, mb_deployment_id b, mb_liskov_job_id b,
                mb_job_id b, mb_policy_digest b].
        v \<noteq> [] \<and> length v \<le> 512 \<and> \<not> has_line_break v)"

definition valid_sha256 :: "string \<Rightarrow> bool" where
  "valid_sha256 v \<longleftrightarrow> length v = 64 \<and> (\<forall>c \<in> set v. is_lower_hex_digit c)"

definition valid_ssh_fingerprint :: "crates \<Rightarrow> string \<Rightarrow> bool" where
  "valid_ssh_fingerprint cr v =
     (case strip_prefix ''SHA256:'' v of
        None \<Rightarrow> False
      | Some e \<Rightarrow> e \<noteq> [] \<and> CHR ''='' \<notin> set e
                 \<and> (case base64_no_pad_decode cr e of None \<Rightarrow> False | Some b \<Rightarrow> length b = 32))"

definition unique_values :: "string list \<Rightarrow> bool" where
  "unique_values vs \<longleftrightarrow> card (set vs) = length vs"

definition managed_access_valid :: "crates \<Rightarrow> managed_access \<Rightarrow> bool" where
  "managed_access_valid cr a \<longleftrightarrow>
     (let gateway_valid = (case url_parse cr (ma_gateway_url a) of
            None \<Rightarrow> False
          | Some u \<Rightarrow> url_scheme u = ''wss'' \<and> url_host_str u \<noteq> None \<and> url_username u = []
                      \<and> url_password u = None \<and> url_query u = None \<and> url_fragment u = None
                      \<and> (url_path u = [] \<or> url_path u = ''/''));
          v1_valid =
            ((case ma_binding a of None \<Rightarrow> False | Some b \<Rightarrow> valid_managed_binding b)
             \<and> (ma_authorized_keys a = []
                \<or> (length (ma_authorized_keys a) \<le> 8
                   \<and> unique_values (ma_authorized_keys a)
                   \<and> (\<forall>v \<in> set (ma_authorized_keys a).
                        starts_with v ''ssh-ed25519 '' \<and> length v \<le> 256 \<and> \<not> has_line_break v)))
             \<and> 1 \<le> length (ma_authorized_key_fingerprints a)
             \<and> length (ma_authorized_key_fingerprints a) \<le> 8
             \<and> unique_values (ma_authorized_key_fingerprints a)
             \<and> (\<forall>v \<in> set (ma_authorized_key_fingerprints a). valid_ssh_fingerprint cr v)
             \<and> (case ma_toolchain a of
                  None \<Rightarrow> False
                | Some t \<Rightarrow> valid_sha256 (mt_runtime_contact_sha256 t)
                            \<and> valid_sha256 (mt_dropbear_sha256 t)
                            \<and> valid_sha256 (mt_dropbearkey_sha256 t))
             \<and> (case ma_credential a of None \<Rightarrow> True | Some c \<Rightarrow> managed_credential_valid_for c a))
      in ma_kind a = Liskov
         \<and> ma_attachment_id a \<noteq> [] \<and> length (ma_attachment_id a) \<le> 256
         \<and> ma_fence a > 0
         \<and> ma_tunnel_id a \<noteq> [] \<and> length (ma_tunnel_id a) \<le> 256
         \<and> (\<forall>c \<in> set (ma_tunnel_id a). is_ascii_alphanumeric c \<or> c = CHR ''_'' \<or> c = CHR ''-'')
         \<and> gateway_valid \<and> v1_valid)"

datatype runtime_access = TailscaleAccess tailscale_access | ManagedAccess managed_access

fun access_valid :: "crates \<Rightarrow> runtime_access \<Rightarrow> bool" where
  "access_valid cr (TailscaleAccess a) \<longleftrightarrow> ta_kind a = Tailscale \<and> tailscale_access_valid cr a"
| "access_valid cr (ManagedAccess a) \<longleftrightarrow> managed_access_valid cr a"

section \<open>The bootstrap response\<close>

datatype log_mode = LogsDisabled | LogsSanitized | LogsRawTailscaledStderr

record provider_logs =
  pl_mode :: log_mode
  pl_expires_at_ms :: "nat option"

record runtime_env_bootstrap =
  re_enabled :: bool
  re_url :: string

record runtime_bootstrap_response =
  rb_ok :: bool
  rb_domain :: string
  rb_application_uid :: string
  rb_application_id :: string
  rb_policy_digest :: string
  rb_deployment_id :: string
  rb_job_id :: string
  rb_processor_id :: string
  rb_runtime_instance_id :: string
  rb_slipway_url :: string
  rb_runtime_env :: "runtime_env_bootstrap option"
  rb_customer_required :: "bool option"
  rb_supervision :: "json option"
  rb_logging :: "json option"
  rb_logging_outage_canary :: bool
  rb_provider_logs :: "provider_logs option"
  rb_access :: "runtime_access option"
  rb_processor_facts :: "json option"
  rb_fact_authorization :: "json option"

definition RUNTIME_BOOTSTRAP_REQUEST_DOMAIN_V2 :: string where
  "RUNTIME_BOOTSTRAP_REQUEST_DOMAIN_V2 = ''proof.liskov.runtime-bootstrap-request.v2''"

definition RUNTIME_BOOTSTRAP_RESPONSE_DOMAIN_V2 :: string where
  "RUNTIME_BOOTSTRAP_RESPONSE_DOMAIN_V2 = ''proof.liskov.runtime-bootstrap-response.v2''"

definition RUNTIME_BOOTSTRAP_TTL_MS :: nat where "RUNTIME_BOOTSTRAP_TTL_MS = 60000"

subsection \<open>Decisions read from the response\<close>

definition logging_enabled :: "runtime_bootstrap_response \<Rightarrow> bool" where
  "logging_enabled r =
     (case rb_logging r of
        None \<Rightarrow> False
      | Some v \<Rightarrow> (case as_object v of
            None \<Rightarrow> False
          | Some m \<Rightarrow> length m = 1
              \<and> (case map_of m ''enabled'' of None \<Rightarrow> False | Some e \<Rightarrow> as_bool e = Some True)))"

definition logging_outage_canary_enabled :: "runtime_bootstrap_response \<Rightarrow> bool" where
  "logging_outage_canary_enabled r \<longleftrightarrow> logging_enabled r \<and> rb_logging_outage_canary r"

definition provider_log_mode :: "runtime_bootstrap_response \<Rightarrow> nat \<Rightarrow> log_mode" where
  "provider_log_mode r now_ms =
     (if \<not> logging_enabled r \<or> rb_access r = None then LogsDisabled
      else (case rb_provider_logs r of
          None \<Rightarrow> LogsDisabled
        | Some p \<Rightarrow> (case pl_mode p of
              LogsDisabled \<Rightarrow> LogsDisabled
            | LogsSanitized \<Rightarrow> (if pl_expires_at_ms p = None then LogsSanitized else LogsDisabled)
            | LogsRawTailscaledStderr \<Rightarrow>
                (case pl_expires_at_ms p of
                   None \<Rightarrow> LogsDisabled
                 | Some e \<Rightarrow>
                     if e > now_ms
                        \<and> (case checked_add_u64 now_ms (60 * 60 * 1000) of
                              None \<Rightarrow> False | Some ceiling \<Rightarrow> e \<le> ceiling)
                     then LogsRawTailscaledStderr else LogsDisabled))))"

definition provider_log_expiry_ms :: "runtime_bootstrap_response \<Rightarrow> nat option" where
  "provider_log_expiry_ms r = do {
     p \<leftarrow> rb_provider_logs r;
     if pl_mode p = LogsRawTailscaledStderr then pl_expires_at_ms p else None
   }"

datatype restart_limit = Attempts nat | ScheduleEnd
datatype supervision_mode = Never | OnFailure restart_limit

record supervision_policy_t =
  sp_mode :: supervision_mode
  sp_server_time_ms :: nat
  sp_schedule_end_ms :: nat

definition present_non_null :: "(string \<times> json) list \<Rightarrow> string \<Rightarrow> bool" where
  "present_non_null m k = (case map_of m k of None \<Rightarrow> False | Some v \<Rightarrow> \<not> is_null v)"

definition parse_restart_limit :: "(string \<times> json) list \<Rightarrow> restart_limit option" where
  "parse_restart_limit limit =
     (if \<exists>k \<in> fst ` set limit. k \<noteq> ''kind'' \<and> k \<noteq> ''maxRestarts'' then None
      else do {
        kind \<leftarrow> Option.bind (map_of limit ''kind'') as_str;
        if kind = ''attempts'' then do {
          n \<leftarrow> Option.bind (map_of limit ''maxRestarts'') as_u64;
          if n \<le> 10 then Some (Attempts n) else None
        }
        else if kind = ''schedule_end'' then
          (if present_non_null limit ''maxRestarts'' then None else Some ScheduleEnd)
        else None
      })"

definition parse_supervision_mode :: "(string \<times> json) list \<Rightarrow> supervision_mode option" where
  "parse_supervision_mode m = do {
     mode \<leftarrow> Option.bind (map_of m ''mode'') as_str;
     if mode = ''never'' then
       (if present_non_null m ''restartLimit'' then None else Some Never)
     else if mode = ''on_failure'' then do {
       limit \<leftarrow> Option.bind (map_of m ''restartLimit'') as_object;
       rl \<leftarrow> parse_restart_limit limit;
       Some (OnFailure rl)
     }
     else None
   }"

definition supervision_policy :: "runtime_bootstrap_response \<Rightarrow> supervision_policy_t option" where
  "supervision_policy r = do {
     v \<leftarrow> rb_supervision r;
     m \<leftarrow> as_object v;
     if \<exists>k \<in> fst ` set m. k \<notin> {''mode'', ''restartLimit'', ''serverTimeMs'', ''scheduleEndMs''}
     then None
     else do {
       mode \<leftarrow> parse_supervision_mode m;
       server \<leftarrow> Option.bind (map_of m ''serverTimeMs'') as_u64;
       schedule \<leftarrow> Option.bind (map_of m ''scheduleEndMs'') as_u64;
       if schedule > server
       then Some \<lparr>sp_mode = mode, sp_server_time_ms = server, sp_schedule_end_ms = schedule\<rparr>
       else None
     }
   }"

section \<open>Identity, request and signature\<close>

record runtime_identity =
  ri_job_id :: string
  ri_processor_id :: string

record unsigned_request =
  uq_domain :: string
  uq_job_id :: string
  uq_processor_id :: string
  uq_nonce :: string
  uq_issued_at_ms :: nat
  uq_expires_at_ms :: nat

record signed_request = unsigned_request +
  sq_signature :: string

type_synonym 's bridge = "'s \<Rightarrow> string \<Rightarrow> json \<Rightarrow> (bridge_error + json) \<times> 's"

definition normalize_hex_exact :: "string \<Rightarrow> nat \<Rightarrow> string option" where
  "normalize_hex_exact value n =
     (let v = to_ascii_lowercase (case strip_prefix ''0x'' value of None \<Rightarrow> value | Some r \<Rightarrow> r)
      in if length v = n * 2 \<and> (\<forall>c \<in> set v. is_ascii_hexdigit c) then Some v else None)"

definition ed25519_key :: "json \<Rightarrow> string option" where
  "ed25519_key keys = do {
     k \<leftarrow> Option.bind (json_get keys ''ed25519'') as_str;
     normalize_hex_exact k 32
   }"

definition matching_processors :: "string \<Rightarrow> (string \<times> json) list \<Rightarrow> string list" where
  "matching_processors current m =
     map fst (filter (\<lambda>(address, keys). ed25519_key keys = Some current) m)"

definition parse_deployment :: "crates \<Rightarrow> json \<Rightarrow> protocol_error + string" where
  "parse_deployment cr deployment =
     (case Option.bind (json_get deployment ''id'') as_str of
        None \<Rightarrow> Inl InvalidDeploymentIdentity
      | Some i \<Rightarrow>
          guard (i \<noteq> []) InvalidDeploymentIdentity
            (guard (case json_get deployment ''origin'' of None \<Rightarrow> False | Some v \<Rightarrow> as_object v \<noteq> None)
               InvalidDeploymentIdentity
               (ok_or (json_to_string cr (sort_json deployment)) Serialization)))"

definition parse_processor :: "string \<Rightarrow> json \<Rightarrow> protocol_error + string" where
  "parse_processor current assigned =
     (case Option.bind (json_get assigned ''processors'') as_object of
        None \<Rightarrow> Inl ProcessorMatchCount
      | Some m \<Rightarrow> (case matching_processors current m of
            [p] \<Rightarrow> (if p = [] then Inl ProcessorMatchCount else Inr p)
          | _ \<Rightarrow> Inl ProcessorMatchCount))"

definition discover_runtime_identity ::
  "crates \<Rightarrow> 's bridge \<Rightarrow> 's \<Rightarrow> (protocol_error + runtime_identity) \<times> 's" where
  "discover_runtime_identity cr call s =
     (case call s ''deployment_id'' (JArr []) of
        (Inl e, s1) \<Rightarrow> (Inl (DeploymentIdentityBridge e), s1)
      | (Inr deployment, s1) \<Rightarrow>
    (case parse_deployment cr deployment of
        Inl e \<Rightarrow> (Inl e, s1)
      | Inr job_id \<Rightarrow>
    (case call s1 ''deployment_publicKeys'' (JArr []) of
        (Inl e, s2) \<Rightarrow> (Inl (PublicKeyBridge e), s2)
      | (Inr public_keys, s2) \<Rightarrow>
    (case Option.bind (json_get public_keys ''publicKeys'') ed25519_key of
        None \<Rightarrow> (Inl InvalidPublicKey, s2)
      | Some current \<Rightarrow>
    (case call s2 ''deployment_assignedProcessors'' (JArr []) of
        (Inl e, s3) \<Rightarrow> (Inl (AssignedProcessorsBridge e), s3)
      | (Inr assigned, s3) \<Rightarrow>
    (case parse_processor current assigned of
        Inl e \<Rightarrow> (Inl e, s3)
      | Inr p \<Rightarrow> (Inr \<lparr>ri_job_id = job_id, ri_processor_id = p\<rparr>, s3)))))))"

definition build_unsigned_request ::
  "runtime_identity \<Rightarrow> string \<Rightarrow> nat \<Rightarrow> protocol_error + unsigned_request" where
  "build_unsigned_request i nonce issued_at_ms =
     res_bind (ok_or (checked_add_u64 issued_at_ms RUNTIME_BOOTSTRAP_TTL_MS) TimestampOverflow)
       (\<lambda>expires. Inr \<lparr>uq_domain = RUNTIME_BOOTSTRAP_REQUEST_DOMAIN_V2, uq_job_id = ri_job_id i,
                       uq_processor_id = ri_processor_id i, uq_nonce = nonce,
                       uq_issued_at_ms = issued_at_ms, uq_expires_at_ms = expires\<rparr>)"

definition unsigned_request_json :: "('a) unsigned_request_scheme \<Rightarrow> (string \<times> json) list" where
  "unsigned_request_json q =
     [(''domain'', JStr (uq_domain q)), (''jobId'', JStr (uq_job_id q)),
      (''processorId'', JStr (uq_processor_id q)), (''nonce'', JStr (uq_nonce q)),
      (''issuedAtMs'', json_u64 (uq_issued_at_ms q)), (''expiresAtMs'', json_u64 (uq_expires_at_ms q))]"

definition signed_request_json :: "signed_request \<Rightarrow> json" where
  "signed_request_json q = JObj (unsigned_request_json q @ [(''signature'', JStr (sq_signature q))])"

definition canonical_unsigned_request_bytes :: "crates \<Rightarrow> unsigned_request \<Rightarrow> protocol_error + bytes" where
  "canonical_unsigned_request_bytes cr q =
     ok_or (json_to_vec cr (sort_json (JObj (unsigned_request_json q)))) Serialization"

definition sign_params :: "crates \<Rightarrow> bytes \<Rightarrow> json" where
  "sign_params cr message =
     JArr [JObj [(''curve'', JStr ''ed25519''), (''bytes'', JStr (hex_encode cr message))]]"

definition sign_request ::
  "crates \<Rightarrow> 's bridge \<Rightarrow> unsigned_request \<Rightarrow> 's \<Rightarrow> (protocol_error + signed_request) \<times> 's" where
  "sign_request cr call q s =
     (case canonical_unsigned_request_bytes cr q of
        Inl e \<Rightarrow> (Inl e, s)
      | Inr message \<Rightarrow>
    (case call s ''signer_sign'' (sign_params cr message) of
        (Inl e, s1) \<Rightarrow> (Inl (SignerBridge e), s1)
      | (Inr result, s1) \<Rightarrow>
    (case Option.bind (Option.bind (json_get result ''bytes'') as_str) (\<lambda>v. normalize_hex_exact v 64) of
        None \<Rightarrow> (Inl InvalidSignature, s1)
      | Some sig \<Rightarrow>
          (Inr (unsigned_request.extend q \<lparr>sq_signature = ''0x'' @ sig\<rparr>), s1))))"

section \<open>The response check\<close>

definition response_well_formed :: "crates \<Rightarrow> runtime_bootstrap_response \<Rightarrow> bool" where
  "response_well_formed cr r \<longleftrightarrow>
     rb_ok r
     \<and> rb_domain r = RUNTIME_BOOTSTRAP_RESPONSE_DOMAIN_V2
     \<and> rb_application_uid r \<noteq> [] \<and> rb_application_id r \<noteq> [] \<and> rb_policy_digest r \<noteq> []
     \<and> rb_deployment_id r \<noteq> [] \<and> rb_slipway_url r \<noteq> []
     \<and> (case rb_runtime_env r of None \<Rightarrow> True | Some e \<Rightarrow> \<not> (re_enabled e \<and> re_url e = []))
     \<and> (case rb_access r of None \<Rightarrow> True | Some a \<Rightarrow> access_valid cr a)"

definition validate_response ::
  "crates \<Rightarrow> (bytes \<Rightarrow> runtime_bootstrap_response option) \<Rightarrow> signed_request \<Rightarrow> bytes
     \<Rightarrow> protocol_error + runtime_bootstrap_response" where
  "validate_response cr decode q body =
     res_bind (ok_or (decode body) InvalidResponse) (\<lambda>r.
       guard (response_well_formed cr r) InvalidResponse
         (guard (rb_job_id r = uq_job_id q \<and> rb_processor_id r = uq_processor_id q
                 \<and> rb_runtime_instance_id r = uq_nonce q)
            ResponseBinding (Inr r)))"

section \<open>Lemmas\<close>

lemma parse_restart_limit_bound: "parse_restart_limit m = Some (Attempts n) \<Longrightarrow> n \<le> 10"
  by (auto simp: parse_restart_limit_def bind_eq_Some_conv split: if_splits)

lemma parse_supervision_mode_bound:
  "parse_supervision_mode m = Some (OnFailure (Attempts n)) \<Longrightarrow> n \<le> 10"
  by (auto simp: parse_supervision_mode_def bind_eq_Some_conv split: if_splits
      dest: parse_restart_limit_bound)

text \<open>The publication fold accepts exactly the lists its comment describes.\<close>

lemma ports_update_iff:
  "(\<forall>q \<in> Q. \<forall>s. (ports(k \<mapsto> v)) (f q) = Some s \<longrightarrow> s = g q) \<longleftrightarrow>
     (\<forall>q \<in> Q. f q = k \<longrightarrow> v = g q) \<and> (\<forall>q \<in> Q. f q \<noteq> k \<longrightarrow> (\<forall>s. ports (f q) = Some s \<longrightarrow> s = g q))"
  by auto

definition ports_agree :: "(nat \<rightharpoonup> string) \<Rightarrow> endpoint_publication list \<Rightarrow> bool" where
  "ports_agree ports ps \<longleftrightarrow>
     (\<forall>p \<in> set ps. \<forall>s. ports (ep_local_port p) = Some s \<longrightarrow> s = ep_service_name p)"

definition ports_owned :: "endpoint_publication list \<Rightarrow> bool" where
  "ports_owned ps \<longleftrightarrow>
     (\<forall>p \<in> set ps. \<forall>q \<in> set ps. ep_local_port p = ep_local_port q \<longrightarrow> ep_service_name p = ep_service_name q)"

lemma ports_Cons:
  "ports_agree ports (p # ps) \<and> ports_owned (p # ps) \<longleftrightarrow>
     (case ports (ep_local_port p) of None \<Rightarrow> True | Some s \<Rightarrow> s = ep_service_name p)
     \<and> ports_agree (ports(ep_local_port p \<mapsto> ep_service_name p)) ps \<and> ports_owned ps"
  (is "?L \<longleftrightarrow> ?R")
proof
  assume ?L
  then have agree: "ports_agree ports (p # ps)" and owned: "ports_owned (p # ps)" by blast+
  have own: "\<forall>q \<in> set ps. ep_local_port q = ep_local_port p \<longrightarrow> ep_service_name p = ep_service_name q"
    using owned unfolding ports_owned_def by (metis list.set_intros)
  have head: "case ports (ep_local_port p) of None \<Rightarrow> True | Some s \<Rightarrow> s = ep_service_name p"
    using agree by (simp add: ports_agree_def split: option.split)
  have tail: "\<forall>q \<in> set ps. \<forall>s. ports (ep_local_port q) = Some s \<longrightarrow> s = ep_service_name q"
    using agree by (simp add: ports_agree_def)
  have "ports_owned ps"
    using owned unfolding ports_owned_def by (meson list.set_intros(2))
  moreover have "ports_agree (ports(ep_local_port p \<mapsto> ep_service_name p)) ps"
    unfolding ports_agree_def ports_update_iff using own tail by blast
  ultimately show ?R using head by blast
next
  assume R: ?R
  then have same: "q \<in> set ps \<Longrightarrow> ep_local_port q = ep_local_port p \<Longrightarrow>
      ep_service_name q = ep_service_name p" for q
    by (auto simp: ports_agree_def)
  have agree: "ports_agree ports (p # ps)"
    unfolding ports_agree_def
  proof (intro ballI allI impI)
    fix q s
    assume q: "q \<in> set (p # ps)" and s: "ports (ep_local_port q) = Some s"
    show "s = ep_service_name q"
    proof (cases "ep_local_port q = ep_local_port p")
      case True
      then show ?thesis using R same q s by (auto split: option.splits)
    next
      case False
      then have "q \<in> set ps" using q by auto
      then show ?thesis using R s False by (auto simp: ports_agree_def)
    qed
  qed
  moreover have "ports_owned (p # ps)"
    using R same unfolding ports_owned_def by (metis set_ConsD)
  ultimately show ?L by simp
qed

lemma publications_step_iff:
  "publications_step sites ports ps \<longleftrightarrow>
     (\<forall>p \<in> set ps. publication_valid p)
     \<and> distinct (map ep_use_site ps) \<and> (\<forall>p \<in> set ps. ep_use_site p \<notin> sites)
     \<and> ports_agree ports ps \<and> ports_owned ps"
proof (induction ps arbitrary: sites ports)
  case Nil
  then show ?case by (simp add: ports_agree_def ports_owned_def)
next
  case (Cons p ps)
  have sites: "distinct (map ep_use_site (p # ps)) \<and> (\<forall>q \<in> set (p # ps). ep_use_site q \<notin> sites) \<longleftrightarrow>
      ep_use_site p \<notin> sites \<and> distinct (map ep_use_site ps)
      \<and> (\<forall>q \<in> set ps. ep_use_site q \<notin> insert (ep_use_site p) sites)"
    by (simp add: image_iff) metis
  have valid: "(\<forall>q \<in> set (p # ps). publication_valid q) \<longleftrightarrow>
      publication_valid p \<and> (\<forall>q \<in> set ps. publication_valid q)"
    by simp
  have "publications_step sites ports (p # ps) \<longleftrightarrow>
      publication_valid p \<and> ep_use_site p \<notin> sites
      \<and> (case ports (ep_local_port p) of None \<Rightarrow> True | Some s \<Rightarrow> s = ep_service_name p)
      \<and> publications_step (insert (ep_use_site p) sites) (ports(ep_local_port p \<mapsto> ep_service_name p)) ps"
    by (cases "ports (ep_local_port p)") (auto simp: Let_def)
  also have "\<dots> \<longleftrightarrow> publication_valid p \<and> ep_use_site p \<notin> sites
      \<and> (\<forall>q \<in> set ps. publication_valid q) \<and> distinct (map ep_use_site ps)
      \<and> (\<forall>q \<in> set ps. ep_use_site q \<notin> insert (ep_use_site p) sites)
      \<and> ports_agree ports (p # ps) \<and> ports_owned (p # ps)"
    unfolding ports_Cons Cons.IH by blast
  also have "\<dots> \<longleftrightarrow> (\<forall>q \<in> set (p # ps). publication_valid q)
      \<and> distinct (map ep_use_site (p # ps)) \<and> (\<forall>q \<in> set (p # ps). ep_use_site q \<notin> sites)
      \<and> ports_agree ports (p # ps) \<and> ports_owned (p # ps)"
    using sites valid by argo
  finally show ?case .
qed

lemma filter_single_split:
  "filter P xs = [x] \<longleftrightarrow> (\<exists>pre post. xs = pre @ x # post \<and> P x \<and> filter P (pre @ post) = [])"
proof
  assume "filter P xs = [x]"
  then obtain pre post where "xs = pre @ x # post" "P x" "\<forall>y \<in> set pre. \<not> P y" "filter P post = []"
    by (auto simp: filter_eq_Cons_iff)
  then show "\<exists>pre post. xs = pre @ x # post \<and> P x \<and> filter P (pre @ post) = []"
    by (intro exI [of _ pre] exI [of _ post]) simp
qed auto

section \<open>Properties\<close>

text \<open>
  C18. The endpoint publication list is accepted exactly when it is short enough, every publication is
  valid, no use site occurs twice, and publications that share a local port name the same service.
\<close>

theorem publications_valid_iff:
  "publications_valid ps \<longleftrightarrow>
     length ps \<le> MAX_ENDPOINT_PUBLICATIONS \<and> list_all publication_valid ps
     \<and> distinct (map ep_use_site ps) \<and> ports_owned ps"
  by (auto simp: publications_valid_def publications_step_iff ports_agree_def list_all_iff)

text \<open>
  The processor identity is taken only from an assignment table with exactly one entry whose
  normalised ed25519 key is the key of this runtime; every other entry has another key.
\<close>

theorem parse_processor_unique:
  "parse_processor current assigned = Inr p \<longleftrightarrow>
     p \<noteq> [] \<and> (\<exists>pre keys post. json_get assigned ''processors'' = Some (JObj (pre @ (p, keys) # post))
       \<and> ed25519_key keys = Some current \<and> matching_processors current (pre @ post) = [])"
  (is "?L \<longleftrightarrow> ?R")
proof -
  have one: "matching_processors current m = [p] \<longleftrightarrow>
      (\<exists>pre keys post. m = pre @ (p, keys) # post \<and> ed25519_key keys = Some current
         \<and> matching_processors current (pre @ post) = [])" for m
    unfolding matching_processors_def map_eq_Cons_conv filter_single_split map_is_Nil_conv
    by (auto simp: filter_single_split)
  have "?L \<longleftrightarrow> p \<noteq> [] \<and> (\<exists>m. json_get assigned ''processors'' = Some (JObj m)
      \<and> matching_processors current m = [p])"
    by (auto simp: parse_processor_def bind_eq_None_conv bind_eq_Some_conv
        split: option.splits list.splits if_splits)
  also have "\<dots> \<longleftrightarrow> ?R" unfolding one by blast
  finally show ?thesis .
qed

end
