(* ===== verification/Contact.thy ===== *)
theory Contact
  imports Protocol
begin

text \<open>
  First contact, \<open>src/contact.rs\<close> and \<open>src/handoff.rs\<close>: URL selection and validation, the bounded
  retry loops around identity discovery and around the signed bootstrap request, the classification
  of failures into exit codes, and the hand-over to the customer command.

  The injected traits \<open>Bridge\<close>, \<open>HttpClient\<close> and \<open>ContactRuntime\<close> are the fields of the record
  \<open>contact_env\<close>, state-passing functions on an arbitrary world. The program's own calls go through
  wrappers that also append to a log, so that statements about what was sent, how often and after
  which delay are statements about that log.
\<close>

section \<open>Configuration\<close>

definition DEFAULT_CORE_URL :: string where
  "DEFAULT_CORE_URL = ''https://runtime.liskov.proof.computer''"

definition CORE_URL_ENV :: string where "CORE_URL_ENV = ''LISKOV_CORE_URL''"

definition resolve_core_url :: "string option \<Rightarrow> (string \<Rightarrow> string option) \<Rightarrow> string" where
  "resolve_core_url cli lookup =
     (case cli of
        Some u \<Rightarrow> u
      | None \<Rightarrow> (case lookup CORE_URL_ENV of Some u \<Rightarrow> u | None \<Rightarrow> DEFAULT_CORE_URL))"

datatype exit_class = ExitConfiguration | ExitProtocol | ExitTemporaryFailure

definition exit_category_code :: "exit_class \<Rightarrow> nat" where
  "exit_category_code c =
     (case c of ExitConfiguration \<Rightarrow> 2 | ExitProtocol \<Rightarrow> 70 | ExitTemporaryFailure \<Rightarrow> 75)"

datatype contact_error =
    Configuration string
  | ProtocolFailed protocol_error
  | Randomness
  | Clock
  | PermanentServerRejection
  | RetryExhausted

definition exit_category :: "contact_error \<Rightarrow> exit_class" where
  "exit_category e =
     (case e of
        Configuration _ \<Rightarrow> ExitConfiguration
      | RetryExhausted \<Rightarrow> ExitTemporaryFailure
      | ProtocolFailed _ \<Rightarrow> ExitProtocol
      | Randomness \<Rightarrow> ExitProtocol
      | Clock \<Rightarrow> ExitProtocol
      | PermanentServerRejection \<Rightarrow> ExitProtocol)"

fun protocol_exit_code :: "protocol_error \<Rightarrow> nat" where
  "protocol_exit_code (BridgeSetup _) = 80"
| "protocol_exit_code (DeploymentIdentityBridge _) = 81"
| "protocol_exit_code InvalidDeploymentIdentity = 82"
| "protocol_exit_code (PublicKeyBridge _) = 83"
| "protocol_exit_code InvalidPublicKey = 84"
| "protocol_exit_code (AssignedProcessorsBridge _) = 85"
| "protocol_exit_code ProcessorMatchCount = 86"
| "protocol_exit_code (SignerBridge _) = 87"
| "protocol_exit_code InvalidSignature = 88"
| "protocol_exit_code TimestampOverflow = 89"
| "protocol_exit_code Serialization = 89"
| "protocol_exit_code InvalidResponse = 91"
| "protocol_exit_code ResponseBinding = 92"

fun diagnostic_exit_code :: "contact_error \<Rightarrow> nat" where
  "diagnostic_exit_code (Configuration _) = 2"
| "diagnostic_exit_code (ProtocolFailed e) = protocol_exit_code e"
| "diagnostic_exit_code PermanentServerRejection = 90"
| "diagnostic_exit_code Randomness = 93"
| "diagnostic_exit_code Clock = 94"
| "diagnostic_exit_code RetryExhausted = 95"

record retry_policy =
  initial_delay :: duration
  interval :: duration
  max_elapsed :: duration
  max_attempts :: nat

definition default_retry_policy :: retry_policy where
  "default_retry_policy =
     \<lparr>initial_delay = from_millis 250, interval = from_secs 2, max_elapsed = from_secs 60,
      max_attempts = 30\<rparr>"

definition validate_core_url :: "crates \<Rightarrow> string \<Rightarrow> contact_error + url" where
  "validate_core_url cr raw =
     (case url_parse cr raw of
        None \<Rightarrow> Inl (Configuration ''invalid core URL'')
      | Some u \<Rightarrow>
          if url_scheme u \<noteq> ''https'' \<or> url_host_str u = None \<or> url_username u \<noteq> []
             \<or> url_password u \<noteq> None \<or> url_query u \<noteq> None \<or> url_fragment u \<noteq> None
          then Inl (Configuration ''core URL must be HTTPS without user information, query, or fragment'')
          else Inr u)"

section \<open>The world and its log\<close>

datatype http_error = HttpTransport | HttpResponseTooLarge

record http_response =
  hr_status :: nat
  hr_body :: bytes

record 'w contact_env =
  env_call :: "'w bridge"
  env_post :: "'w \<Rightarrow> string \<Rightarrow> bytes \<Rightarrow> (http_error + http_response) \<times> 'w"
  env_elapsed :: "'w \<Rightarrow> duration \<times> 'w"
  env_sleep :: "'w \<Rightarrow> duration \<Rightarrow> 'w"
  env_fill_random :: "'w \<Rightarrow> nat \<Rightarrow> (contact_error + bytes) \<times> 'w"
  env_unix_time_ms :: "'w \<Rightarrow> (contact_error + nat) \<times> 'w"

datatype contact_event =
    Called string json
  | Posted string bytes
  | Slept duration duration \<comment> \<open>the time elapsed when the delay was chosen, and the delay\<close>
  | Drawn nat

type_synonym 'w traced = "'w \<times> contact_event list"

definition t_call :: "'w contact_env \<Rightarrow> 'w traced bridge" where
  "t_call env s m p = (case env_call env (fst s) m p of (r, w) \<Rightarrow> (r, w, snd s @ [Called m p]))"

definition t_post ::
  "'w contact_env \<Rightarrow> 'w traced \<Rightarrow> string \<Rightarrow> bytes \<Rightarrow> (http_error + http_response) \<times> 'w traced" where
  "t_post env s u b = (case env_post env (fst s) u b of (r, w) \<Rightarrow> (r, w, snd s @ [Posted u b]))"

definition t_elapsed :: "'w contact_env \<Rightarrow> 'w traced \<Rightarrow> duration \<times> 'w traced" where
  "t_elapsed env s = (case env_elapsed env (fst s) of (d, w) \<Rightarrow> (d, w, snd s))"

definition t_sleep :: "'w contact_env \<Rightarrow> duration \<Rightarrow> 'w traced \<Rightarrow> duration \<Rightarrow> 'w traced" where
  "t_sleep env e s d = (env_sleep env (fst s) d, snd s @ [Slept e d])"

definition t_fill_random ::
  "'w contact_env \<Rightarrow> 'w traced \<Rightarrow> nat \<Rightarrow> (contact_error + bytes) \<times> 'w traced" where
  "t_fill_random env s n = (case env_fill_random env (fst s) n of (r, w) \<Rightarrow> (r, w, snd s @ [Drawn n]))"

definition t_unix_time_ms :: "'w contact_env \<Rightarrow> 'w traced \<Rightarrow> (contact_error + nat) \<times> 'w traced" where
  "t_unix_time_ms env s = (case env_unix_time_ms env (fst s) of (r, w) \<Rightarrow> (r, w, snd s))"

section \<open>Retry\<close>

text \<open>
  Whether the retry budget is spent, shared by both loops. \<open>elapsed()\<close> is read only when the attempt
  limit has not been reached; the time read is kept for the log entry of the delay.
\<close>

definition retry_exhausted ::
  "'w contact_env \<Rightarrow> retry_policy \<Rightarrow> nat \<Rightarrow> duration \<Rightarrow> 'w traced \<Rightarrow> bool \<times> duration \<times> 'w traced" where
  "retry_exhausted env retry attempt next_delay s =
     (if attempt \<ge> max_attempts retry then (True, 0, s)
      else (case t_elapsed env s of (e, s1) \<Rightarrow>
              (case duration_checked_add e next_delay of
                 None \<Rightarrow> (True, e, s1)
               | Some t \<Rightarrow> (t > max_elapsed retry, e, s1))))"

definition identity_error_is_retryable :: "protocol_error \<Rightarrow> bool" where
  "identity_error_is_retryable e =
     (case e of
        DeploymentIdentityBridge _ \<Rightarrow> True
      | InvalidDeploymentIdentity \<Rightarrow> True
      | PublicKeyBridge _ \<Rightarrow> True
      | InvalidPublicKey \<Rightarrow> True
      | AssignedProcessorsBridge _ \<Rightarrow> True
      | ProcessorMatchCount \<Rightarrow> True
      | _ \<Rightarrow> False)"

lemma retry_exhausted_attempts:
  "retry_exhausted env retry attempt d s = (False, e, s1) \<Longrightarrow> attempt < max_attempts retry"
  by (auto simp: retry_exhausted_def split: if_splits)

function identity_loop ::
  "crates \<Rightarrow> 'w contact_env \<Rightarrow> retry_policy \<Rightarrow> nat \<Rightarrow> duration \<Rightarrow> 'w traced
     \<Rightarrow> (contact_error + runtime_identity) \<times> 'w traced" where
  "identity_loop cr env retry attempt next_delay s =
     (case discover_runtime_identity cr (t_call env) s of
        (Inr i, s1) \<Rightarrow> (Inr i, s1)
      | (Inl e, s1) \<Rightarrow>
          if identity_error_is_retryable e
          then (case retry_exhausted env retry (attempt + 1) next_delay s1 of
                  (True, _, s2) \<Rightarrow> (Inl (ProtocolFailed e), s2)
                | (False, t, s2) \<Rightarrow>
                    identity_loop cr env retry (attempt + 1) (interval retry)
                      (t_sleep env t s2 next_delay))
          else (Inl (ProtocolFailed e), s1))"
  by pat_completeness auto
termination
  by (relation "measure (\<lambda>(cr, env, retry, attempt, d, s). max_attempts retry - attempt)")
     (auto dest!: retry_exhausted_attempts [OF sym])

declare identity_loop.simps [simp del]

definition discover_runtime_identity_with_retry ::
  "crates \<Rightarrow> 'w contact_env \<Rightarrow> retry_policy \<Rightarrow> 'w traced \<Rightarrow> (contact_error + runtime_identity) \<times> 'w traced"
where
  "discover_runtime_identity_with_retry cr env retry s =
     identity_loop cr env retry 0 (initial_delay retry) s"

section \<open>The signed request\<close>

text \<open>
  \<open>serde\<close>'s derived decoders of the two response bodies: the bootstrap response, and the error
  envelope with its optional \<open>error\<close> (or \<open>code\<close>) text and \<open>retryable\<close> flag.
\<close>

record decoders =
  decode_bootstrap :: "bytes \<Rightarrow> runtime_bootstrap_response option"
  decode_error_envelope :: "bytes \<Rightarrow> (string option \<times> bool option) option"

datatype attempt_error = Retryable | Permanent | AttemptProtocol protocol_error

definition response_is_retryable :: "decoders \<Rightarrow> http_response \<Rightarrow> bool" where
  "response_is_retryable dec r =
     (let envelope = decode_error_envelope dec (hr_body r);
          retryable = (case envelope of None \<Rightarrow> None | Some (_, b) \<Rightarrow> b);
          error = (case envelope of None \<Rightarrow> None | Some (e, _) \<Rightarrow> e)
      in if retryable = Some True then True
         else if retryable = Some False then False
         else if (case error of None \<Rightarrow> False | Some e \<Rightarrow> ends_with e ''_not_found'') then True
         else hr_status r \<in> {404, 409, 425, 429, 500, 502, 503, 504})"

definition attempt_contact ::
  "crates \<Rightarrow> decoders \<Rightarrow> 'w contact_env \<Rightarrow> string \<Rightarrow> bytes \<Rightarrow> signed_request \<Rightarrow> 'w traced
     \<Rightarrow> (attempt_error + runtime_bootstrap_response) \<times> 'w traced" where
  "attempt_contact cr dec env endpoint body q s =
     (case t_post env s endpoint body of
        (Inl HttpTransport, s1) \<Rightarrow> (Inl Retryable, s1)
      | (Inl HttpResponseTooLarge, s1) \<Rightarrow> (Inl (AttemptProtocol InvalidResponse), s1)
      | (Inr r, s1) \<Rightarrow>
          if 200 \<le> hr_status r \<and> hr_status r < 300
          then (map_err AttemptProtocol (validate_response cr (decode_bootstrap dec) q (hr_body r)), s1)
          else if response_is_retryable dec r then (Inl Retryable, s1)
          else (Inl Permanent, s1))"

function contact_loop ::
  "crates \<Rightarrow> decoders \<Rightarrow> 'w contact_env \<Rightarrow> retry_policy \<Rightarrow> string \<Rightarrow> bytes \<Rightarrow> signed_request
     \<Rightarrow> nat \<Rightarrow> duration \<Rightarrow> 'w traced \<Rightarrow> (contact_error + runtime_bootstrap_response) \<times> 'w traced" where
  "contact_loop cr dec env retry endpoint body q attempt next_delay s =
     (case attempt_contact cr dec env endpoint body q s of
        (Inr r, s1) \<Rightarrow> (Inr r, s1)
      | (Inl Permanent, s1) \<Rightarrow> (Inl PermanentServerRejection, s1)
      | (Inl (AttemptProtocol e), s1) \<Rightarrow> (Inl (ProtocolFailed e), s1)
      | (Inl Retryable, s1) \<Rightarrow>
          (case retry_exhausted env retry (attempt + 1) next_delay s1 of
             (True, _, s2) \<Rightarrow> (Inl RetryExhausted, s2)
           | (False, t, s2) \<Rightarrow>
               contact_loop cr dec env retry endpoint body q (attempt + 1) (interval retry)
                 (t_sleep env t s2 next_delay)))"
  by pat_completeness auto
termination
  by (relation "measure (\<lambda>(cr, dec, env, retry, endpoint, body, q, attempt, d, s).
        max_attempts retry - attempt)")
     (auto dest!: retry_exhausted_attempts [OF sym])

declare contact_loop.simps [simp del]

definition establish_runtime_contact_with ::
  "crates \<Rightarrow> decoders \<Rightarrow> 'w contact_env \<Rightarrow> retry_policy \<Rightarrow> string \<Rightarrow> 'w traced
     \<Rightarrow> (contact_error + runtime_bootstrap_response) \<times> 'w traced" where
  "establish_runtime_contact_with cr dec env retry core_url s =
     (case res_bind (validate_core_url cr core_url)
             (\<lambda>u. ok_or (url_join cr u ''/api/jobs/runtime-bootstrap'') (Configuration ''invalid core URL'')) of
        Inl e \<Rightarrow> (Inl e, s)
      | Inr endpoint \<Rightarrow>
    (case discover_runtime_identity_with_retry cr env retry s of
        (Inl e, s1) \<Rightarrow> (Inl e, s1)
      | (Inr identity, s1) \<Rightarrow>
    (case t_fill_random env s1 16 of
        (Inl e, s2) \<Rightarrow> (Inl e, s2)
      | (Inr nonce, s2) \<Rightarrow>
    (case t_unix_time_ms env s2 of
        (Inl e, s3) \<Rightarrow> (Inl e, s3)
      | (Inr now, s3) \<Rightarrow>
    (case build_unsigned_request identity (hex_encode cr nonce) now of
        Inl e \<Rightarrow> (Inl (ProtocolFailed e), s3)
      | Inr req \<Rightarrow>
    (case sign_request cr (t_call env) req s3 of
        (Inl e, s4) \<Rightarrow> (Inl (ProtocolFailed e), s4)
      | (Inr sreq, s4) \<Rightarrow>
    (case json_to_vec cr (signed_request_json sreq) of
        None \<Rightarrow> (Inl (ProtocolFailed Serialization), s4)
      | Some body \<Rightarrow>
          contact_loop cr dec env retry (url_text endpoint) body sreq 0 (initial_delay retry) s4)))))))"

section \<open>Hand-over\<close>

text \<open>\<open>contact_then_exec\<close>: the executor runs only after a contact that succeeded.\<close>

datatype 'io run_error = RunContact contact_error | RunExec 'io

definition contact_then_exec ::
  "('s \<Rightarrow> (contact_error + unit) \<times> 's) \<Rightarrow> ('s \<Rightarrow> string list \<Rightarrow> ('io + unit) \<times> 's) \<Rightarrow> string list
     \<Rightarrow> 's \<Rightarrow> ('io run_error + unit) \<times> 's" where
  "contact_then_exec contact exec command s =
     (case contact s of
        (Inl e, s1) \<Rightarrow> (Inl (RunContact e), s1)
      | (Inr _, s1) \<Rightarrow> (case exec s1 command of (r, s2) \<Rightarrow> (map_err RunExec r, s2)))"

section \<open>What the log shows\<close>

definition posts :: "contact_event list \<Rightarrow> (string \<times> bytes) list" where
  "posts evs = List.map_filter (\<lambda>e. case e of Posted u b \<Rightarrow> Some (u, b) | _ \<Rightarrow> None) evs"

definition sleeps_within :: "retry_policy \<Rightarrow> contact_event list \<Rightarrow> bool" where
  "sleeps_within retry evs \<longleftrightarrow> (\<forall>t d. Slept t d \<in> set evs \<longrightarrow> t + d \<le> max_elapsed retry)"

lemma posts_simps [simp]:
  "posts [] = []"
  "posts (xs @ ys) = posts xs @ posts ys"
  "posts [Posted u b] = [(u, b)]"
  "posts [Called m p] = []"
  "posts [Slept t d] = []"
  "posts [Drawn n] = []"
  by (simp_all add: posts_def map_filter_simps map_filter_def)

lemma sleeps_within_simps [simp]:
  "sleeps_within retry []"
  "sleeps_within retry (xs @ ys) \<longleftrightarrow> sleeps_within retry xs \<and> sleeps_within retry ys"
  "sleeps_within retry [Posted u b]"
  "sleeps_within retry [Called m p]"
  "sleeps_within retry [Slept t d] \<longleftrightarrow> t + d \<le> max_elapsed retry"
  "sleeps_within retry [Drawn n]"
  by (auto simp: sleeps_within_def)

text \<open>\<open>quiet\<close>: a step that posts nothing and keeps every delay inside the budget.\<close>

definition quiet :: "retry_policy \<Rightarrow> 'w traced \<Rightarrow> 'w traced \<Rightarrow> bool" where
  "quiet retry s s' \<longleftrightarrow> (\<exists>evs. snd s' = snd s @ evs \<and> posts evs = [] \<and> sleeps_within retry evs)"

lemma quiet_refl [simp]: "quiet retry s s"
  by (simp add: quiet_def)

lemma quiet_trans [trans]: "quiet retry s s' \<Longrightarrow> quiet retry s' s'' \<Longrightarrow> quiet retry s s''"
  by (auto simp: quiet_def)

lemma quiet_call: "t_call env s m p = (r, s') \<Longrightarrow> quiet retry s s'"
  by (auto simp: quiet_def t_call_def split: prod.splits intro!: exI [of _ "[Called m p]"])

lemma quiet_fill_random: "t_fill_random env s n = (r, s') \<Longrightarrow> quiet retry s s'"
  by (auto simp: quiet_def t_fill_random_def split: prod.splits intro!: exI [of _ "[Drawn n]"])

lemma quiet_unix_time: "t_unix_time_ms env s = (r, s') \<Longrightarrow> quiet retry s s'"
  by (auto simp: quiet_def t_unix_time_ms_def split: prod.splits)

lemma quiet_retry_exhausted: "retry_exhausted env retry a d s = (b, t, s') \<Longrightarrow> quiet retry s s'"
  by (auto simp: quiet_def retry_exhausted_def t_elapsed_def split: prod.splits if_splits option.splits)

lemma retry_exhausted_time:
  "retry_exhausted env retry a d s = (False, t, s') \<Longrightarrow> t + d \<le> max_elapsed retry"
  by (auto simp: retry_exhausted_def t_elapsed_def duration_checked_add_def
      split: prod.splits if_splits option.splits)

lemma quiet_sleep:
  "retry_exhausted env retry a d s = (False, t, s') \<Longrightarrow> quiet retry s' (t_sleep env t s' d)"
  by (auto simp: quiet_def t_sleep_def dest: retry_exhausted_time intro!: exI [of _ "[Slept t d]"])

lemma quiet_discover:
  "discover_runtime_identity cr (t_call env) s = (r, s') \<Longrightarrow> quiet retry s s'"
  unfolding discover_runtime_identity_def
  by (auto split: prod.splits sum.splits option.splits dest!: quiet_call [where retry = retry]
      intro: quiet_trans)

lemma quiet_sign:
  "sign_request cr (t_call env) q s = (r, s') \<Longrightarrow> quiet retry s s'"
  unfolding sign_request_def
  by (auto split: prod.splits sum.splits option.splits dest!: quiet_call [where retry = retry])

lemma quiet_identity_loop:
  "identity_loop cr env retry attempt d s = (r, s') \<Longrightarrow> quiet retry s s'"
proof (induction cr env retry attempt d s arbitrary: r s' rule: identity_loop.induct)
  case (1 cr env retry attempt d s)
  obtain x s1 where dis: "discover_runtime_identity cr (t_call env) s = (x, s1)" by (metis surj_pair)
  have q1: "quiet retry s s1" by (rule quiet_discover [OF dis])
  show ?case
  proof (cases x)
    case (Inr i)
    with 1(2) dis q1 show ?thesis by (simp add: identity_loop.simps [of cr env retry attempt d s])
  next
    case (Inl e)
    obtain b t s2 where ex: "retry_exhausted env retry (attempt + 1) d s1 = (b, t, s2)"
      by (metis prod_cases3)
    have q2: "quiet retry s s2"
      by (rule quiet_trans [OF q1 quiet_retry_exhausted [OF ex]])
    show ?thesis
    proof (cases "identity_error_is_retryable e \<and> \<not> b")
      case True
      then have rec: "identity_loop cr env retry (attempt + 1) (interval retry) (t_sleep env t s2 d) = (r, s')"
        using 1(2) dis Inl ex by (simp add: identity_loop.simps [of cr env retry attempt d s])
      have "quiet retry (t_sleep env t s2 d) s'"
        by (rule 1(1) [OF dis [symmetric] Inl _ ex [symmetric] _ refl rec]) (use True in auto)
      moreover have "quiet retry s2 (t_sleep env t s2 d)"
        using quiet_sleep [of env retry "attempt + 1" d s1 t s2] ex True by simp
      ultimately show ?thesis using q2 by (blast intro: quiet_trans)
    next
      case False
      then show ?thesis
        using 1(2) dis Inl ex q1 q2 by (auto simp: identity_loop.simps [of cr env retry attempt d s] split: if_splits)
    qed
  qed
qed

text \<open>One attempt posts the body once.\<close>

lemma attempt_contact_log:
  "attempt_contact cr dec env ep body q s = (r, s') \<Longrightarrow> snd s' = snd s @ [Posted ep body]"
  by (auto simp: attempt_contact_def t_post_def split: prod.splits sum.splits http_error.splits if_splits)

lemma attempt_contact_ok:
  "attempt_contact cr dec env ep body q s = (Inr resp, s') \<Longrightarrow>
     \<exists>b. validate_response cr (decode_bootstrap dec) q b = Inr resp"
  by (auto simp: attempt_contact_def t_post_def map_err_eq_Inr
      split: prod.splits sum.splits http_error.splits if_splits)

definition contact_log :: "retry_policy \<Rightarrow> string \<Rightarrow> bytes \<Rightarrow> nat \<Rightarrow> 'w traced \<Rightarrow> 'w traced \<Rightarrow> bool" where
  "contact_log retry ep body n s s' \<longleftrightarrow>
     (\<exists>evs k. snd s' = snd s @ evs \<and> posts evs = replicate k (ep, body)
        \<and> 1 \<le> k \<and> k \<le> max 1 n \<and> sleeps_within retry evs)"

lemma contact_log_last:
  assumes "snd s1 = snd s @ [Posted ep body]" and "quiet retry s1 s'"
  shows "contact_log retry ep body n s s'"
proof -
  from assms(2) obtain evs where evs: "snd s' = snd s1 @ evs" "posts evs = []" "sleeps_within retry evs"
    by (auto simp: quiet_def)
  then have "snd s' = snd s @ (Posted ep body # evs) \<and> posts ([Posted ep body] @ evs) = replicate 1 (ep, body)
      \<and> sleeps_within retry ([Posted ep body] @ evs)"
    using assms(1) by (simp del: append_Cons)
  then show ?thesis
    unfolding contact_log_def by (intro exI [of _ "Posted ep body # evs"] exI [of _ 1]) simp
qed

lemma contact_log_more:
  assumes "snd s1 = snd s @ [Posted ep body]" and "quiet retry s1 s2"
    and "contact_log retry ep body (n - 1) s2 s'" and "1 < n"
  shows "contact_log retry ep body n s s'"
proof -
  from assms(2) obtain ev1 where e1: "snd s2 = snd s1 @ ev1" "posts ev1 = []" "sleeps_within retry ev1"
    by (auto simp: quiet_def)
  from assms(3) obtain ev2 k where e2: "snd s' = snd s2 @ ev2" "posts ev2 = replicate k (ep, body)"
      "1 \<le> k" "k \<le> max 1 (n - 1)" "sleeps_within retry ev2"
    by (auto simp: contact_log_def)
  let ?evs = "[Posted ep body] @ ev1 @ ev2"
  have "snd s' = snd s @ ?evs" "posts ?evs = replicate (Suc k) (ep, body)" "sleeps_within retry ?evs"
    using assms(1) e1 e2 by (simp_all del: append_Cons)
  moreover have "Suc k \<le> max 1 n" using e2(4) assms(4) by auto
  moreover have "1 \<le> Suc k" by simp
  ultimately show ?thesis unfolding contact_log_def by blast
qed

lemma contact_loop_log:
  "contact_loop cr dec env retry ep body q attempt d s = (r, s') \<Longrightarrow>
     contact_log retry ep body (max_attempts retry - attempt) s s'"
proof (induction cr dec env retry ep body q attempt d s arbitrary: r s' rule: contact_loop.induct)
  case (1 cr dec env retry ep body q attempt d s)
  obtain x s1 where att: "attempt_contact cr dec env ep body q s = (x, s1)" by (metis surj_pair)
  note log = attempt_contact_log [OF att]
  note unf = contact_loop.simps [of cr dec env retry ep body q attempt d s]
  show ?case
  proof (cases "x = Inl Retryable")
    case False
    then have "s' = s1" using 1(2) att by (auto simp: unf split: sum.splits attempt_error.splits)
    then show ?thesis using contact_log_last [OF log quiet_refl] by simp
  next
    case True
    obtain b t s2 where ex: "retry_exhausted env retry (attempt + 1) d s1 = (b, t, s2)"
      by (metis prod_cases3)
    note q2 = quiet_retry_exhausted [OF ex]
    show ?thesis
    proof (cases b)
      case True
      then have "s' = s2" using 1(2) att ex \<open>x = Inl Retryable\<close> by (simp add: unf)
      then show ?thesis using contact_log_last [OF log q2] by simp
    next
      case False
      then have rec: "contact_loop cr dec env retry ep body q (attempt + 1) (interval retry)
          (t_sleep env t s2 d) = (r, s')"
        using 1(2) att ex \<open>x = Inl Retryable\<close> by (simp add: unf)
      have "contact_log retry ep body (max_attempts retry - (attempt + 1)) (t_sleep env t s2 d) s'"
        by (rule 1(1) [OF att [symmetric] True _ ex [symmetric] _ refl rec]) (use False in auto)
      moreover have "quiet retry s2 (t_sleep env t s2 d)"
        using quiet_sleep [of env retry "attempt + 1" d s1 t s2] ex False by simp
      moreover have "1 < max_attempts retry - attempt"
        using retry_exhausted_attempts [of env retry "attempt + 1" d s1 t s2] ex False by simp
      ultimately show ?thesis
        using contact_log_more [OF log quiet_trans [OF q2]] by simp
    qed
  qed
qed

lemma contact_loop_ok:
  "contact_loop cr dec env retry ep body q attempt d s = (Inr resp, s') \<Longrightarrow>
     \<exists>b. validate_response cr (decode_bootstrap dec) q b = Inr resp"
proof (induction cr dec env retry ep body q attempt d s arbitrary: s' rule: contact_loop.induct)
  case (1 cr dec env retry ep body q attempt d s)
  obtain x s1 where att: "attempt_contact cr dec env ep body q s = (x, s1)" by (metis surj_pair)
  note unf = contact_loop.simps [of cr dec env retry ep body q attempt d s]
  show ?case
  proof (cases "x = Inl Retryable")
    case False
    then have "x = Inr resp" using 1(2) att by (auto simp: unf split: sum.splits attempt_error.splits)
    then show ?thesis using attempt_contact_ok att by blast
  next
    case True
    obtain b t s2 where ex: "retry_exhausted env retry (attempt + 1) d s1 = (b, t, s2)"
      by (metis prod_cases3)
    have nb: "\<not> b" and rec: "contact_loop cr dec env retry ep body q (attempt + 1) (interval retry)
          (t_sleep env t s2 d) = (Inr resp, s')"
      using 1(2) att ex True by (auto simp: unf split: bool.splits)
    show ?thesis
      by (rule 1(1) [OF att [symmetric] True _ ex [symmetric] _ refl rec]) (use nb in auto)
  qed
qed

text \<open>
  The whole of \<open>establish_runtime_contact_with\<close>: either it ends before anything is posted, or it has
  a signed request and enters the contact loop.
\<close>

lemma establish_cases:
  assumes "establish_runtime_contact_with cr dec env retry url s = (r, s')"
  obtains (early) e where "r = Inl e" "quiet retry s s'"
  | (posted) i nonce now q ep body s4 where
      "build_unsigned_request i (hex_encode cr nonce) now = Inr (unsigned_request.truncate q)"
      "json_to_vec cr (signed_request_json q) = Some body"
      "quiet retry s s4"
      "contact_loop cr dec env retry ep body q 0 (initial_delay retry) s4 = (r, s')"
proof -
  consider e where "r = Inl e" "quiet retry s s'"
    | ep s1 i where
      "discover_runtime_identity_with_retry cr env retry s = (Inr i, s1)"
      "(case t_fill_random env s1 16 of
        (Inl e, s2) \<Rightarrow> (Inl e, s2)
      | (Inr nonce, s2) \<Rightarrow>
    (case t_unix_time_ms env s2 of
        (Inl e, s3) \<Rightarrow> (Inl e, s3)
      | (Inr now, s3) \<Rightarrow>
    (case build_unsigned_request i (hex_encode cr nonce) now of
        Inl e \<Rightarrow> (Inl (ProtocolFailed e), s3)
      | Inr req \<Rightarrow>
    (case sign_request cr (t_call env) req s3 of
        (Inl e, s4) \<Rightarrow> (Inl (ProtocolFailed e), s4)
      | (Inr sreq, s4) \<Rightarrow>
    (case json_to_vec cr (signed_request_json sreq) of
        None \<Rightarrow> (Inl (ProtocolFailed Serialization), s4)
      | Some body \<Rightarrow>
          contact_loop cr dec env retry ep body sreq 0 (initial_delay retry) s4))))) = (r, s')"
    using assms
    by (auto simp: establish_runtime_contact_with_def discover_runtime_identity_with_retry_def
        split: sum.splits prod.splits dest: quiet_identity_loop)
  then show thesis
  proof cases
    case 1
    then show ?thesis by (rule early)
  next
    case 2
    have q1: "quiet retry s s1"
      using 2(1) by (auto simp: discover_runtime_identity_with_retry_def dest: quiet_identity_loop)
    obtain a s2 where ra: "t_fill_random env s1 16 = (a, s2)" by (metis surj_pair)
    note q2 = quiet_trans [OF q1 quiet_fill_random [OF ra]]
    obtain b s3 where ti: "t_unix_time_ms env s2 = (b, s3)" by (metis surj_pair)
    note q3 = quiet_trans [OF q2 quiet_unix_time [OF ti]]
    show ?thesis
    proof (cases "\<exists>nonce now req. a = Inr nonce \<and> b = Inr now
        \<and> build_unsigned_request i (hex_encode cr nonce) now = Inr req")
      case False
      then show ?thesis using 2(2) ra ti q2 q3 by (auto split: sum.splits intro: early)
    next
      case True
      then obtain nonce now req where ab: "a = Inr nonce" "b = Inr now"
          "build_unsigned_request i (hex_encode cr nonce) now = Inr req" by blast
      obtain c s4 where si: "sign_request cr (t_call env) req s3 = (c, s4)" by (metis surj_pair)
      note q4 = quiet_trans [OF q3 quiet_sign [OF si]]
      show ?thesis
      proof (cases "\<exists>sreq body. c = Inr sreq \<and> json_to_vec cr (signed_request_json sreq) = Some body")
        case False
        then show ?thesis using 2(2) ra ti ab si q4 by (auto split: sum.splits option.splits intro: early)
      next
        case True
        then obtain sreq body where c: "c = Inr sreq" "json_to_vec cr (signed_request_json sreq) = Some body"
          by blast
        have "unsigned_request.truncate sreq = req"
          using si c by (auto simp: sign_request_def unsigned_request.defs split: sum.splits prod.splits option.splits)
        then show ?thesis
          using 2(2) ra ti ab si c q4 by (auto intro: posted)
      qed
    qed
  qed
qed

lemma validate_response_Inr:
  "validate_response cr decode q body = Inr resp \<Longrightarrow>
     response_well_formed cr resp \<and> rb_job_id resp = uq_job_id q
     \<and> rb_processor_id resp = uq_processor_id q \<and> rb_runtime_instance_id resp = uq_nonce q"
  by (auto simp: validate_response_def res_simps)

section \<open>Properties\<close>

text \<open>
  C1. Whatever the bridge, the server and the clock do, first contact ends, every request it posts is
  the same body to the same endpoint, it posts at most \<open>max_attempts\<close> of them (one at least is allowed),
  and it never starts a delay that would end after \<open>max_elapsed\<close>.
\<close>

theorem contact_posts_one_bounded_request:
  "\<exists>evs ep body k. snd (snd (establish_runtime_contact_with cr dec env retry url s)) = snd s @ evs
     \<and> posts evs = replicate k (ep, body) \<and> k \<le> max 1 (max_attempts retry) \<and> sleeps_within retry evs"
proof -
  obtain r s' where est: "establish_runtime_contact_with cr dec env retry url s = (r, s')"
    by (metis surj_pair)
  from est show ?thesis
  proof (cases rule: establish_cases)
    case (early e)
    then obtain evs where "snd s' = snd s @ evs" "posts evs = []" "sleeps_within retry evs"
      by (auto simp: quiet_def)
    then show ?thesis using est by (intro exI [of _ evs] exI exI [of _ 0]) simp
  next
    case (posted i nonce now q ep body s4)
    from posted(3) obtain e1 where e1: "snd s4 = snd s @ e1" "posts e1 = []" "sleeps_within retry e1"
      by (auto simp: quiet_def)
    from contact_loop_log [OF posted(4)] obtain e2 k where
      e2: "snd s' = snd s4 @ e2" "posts e2 = replicate k (ep, body)" "k \<le> max 1 (max_attempts retry)"
        "sleeps_within retry e2"
      by (auto simp: contact_log_def)
    show ?thesis using est e1 e2
      by (intro exI [of _ "e1 @ e2"] exI [of _ ep] exI [of _ body] exI [of _ k]) simp
  qed
qed

text \<open>
  C2. A bootstrap response is accepted only if it is well formed and bound to the one request that was
  posted: same job, same processor, and the nonce drawn for this request as the runtime instance. That
  request expires exactly 60 seconds after it was issued, without overflow.
\<close>

theorem contact_response_bound_to_request:
  assumes "establish_runtime_contact_with cr dec env retry url s = (Inr resp, s')"
  shows "response_well_formed cr resp \<and>
    (\<exists>q body ep evs k nonce. snd s' = snd s @ evs \<and> posts evs = replicate k (ep, body) \<and> 1 \<le> k
       \<and> json_to_vec cr (signed_request_json q) = Some body
       \<and> uq_job_id q = rb_job_id resp \<and> uq_processor_id q = rb_processor_id resp
       \<and> uq_nonce q = rb_runtime_instance_id resp \<and> uq_nonce q = hex_encode cr nonce
       \<and> uq_expires_at_ms q = uq_issued_at_ms q + 60000 \<and> uq_expires_at_ms q \<le> u64_max)"
  using assms
proof (cases rule: establish_cases)
  case (early e)
  then show ?thesis by simp
next
  case (posted i nonce now q ep body s4)
  obtain b where b: "validate_response cr (decode_bootstrap dec) q b = Inr resp"
    using contact_loop_ok [OF posted(4)] by blast
  note v = validate_response_Inr [OF b]
  from posted(3) obtain e1 where e1: "snd s4 = snd s @ e1" "posts e1 = []"
    by (auto simp: quiet_def)
  from contact_loop_log [OF posted(4)] obtain e2 k where
    e2: "snd s' = snd s4 @ e2" "posts e2 = replicate k (ep, body)" "1 \<le> k"
    by (auto simp: contact_log_def)
  have q: "uq_nonce q = hex_encode cr nonce" "uq_expires_at_ms q = uq_issued_at_ms q + 60000"
      "uq_expires_at_ms q \<le> u64_max"
    using posted(1)
    by (auto simp: build_unsigned_request_def res_simps sat_simps RUNTIME_BOOTSTRAP_TTL_MS_def
        unsigned_request.defs)
  have "snd s' = snd s @ (e1 @ e2)" "posts (e1 @ e2) = replicate k (ep, body)"
    using e1 e2 by simp_all
  then show ?thesis using v q e2(3) posted(2) by metis
qed

text \<open>A bridge, a server and crates for which contact succeeds at the first request.\<close>

definition sample_key :: string where "sample_key = replicate 64 (CHR ''a'')"

definition sample_crates :: crates where
  "sample_crates =
     \<lparr>hex_encode = (\<lambda>bs. concat (map (\<lambda>b. if b = 0 then ''00'' else ''01'') bs)),
      json_to_vec = (\<lambda>j. Some [7]), json_to_string = (\<lambda>j. Some ''job''), json_from_slice = (\<lambda>b. None),
      url_parse = (\<lambda>t. Some \<lparr>url_text = t, url_scheme = ''https'', url_host_str = Some ''core'',
        url_host_ipv4 = None, url_username = [], url_password = None, url_query = None,
        url_fragment = None, url_path = ''/'', url_port_or_default = Some 443\<rparr>),
      url_join = (\<lambda>u p. Some (u\<lparr>url_text := url_text u @ p\<rparr>)),
      sha256_digest = (\<lambda>b. []), hmac_sha256 = (\<lambda>k m. []), hex_decode = (\<lambda>t. None),
      base64_no_pad_decode = (\<lambda>t. None)\<rparr>"

definition sample_call :: "unit bridge" where
  "sample_call w m p =
     (if m = ''deployment_id'' then Inr (JObj [(''id'', JStr ''4''), (''origin'', JObj [])])
      else if m = ''deployment_publicKeys''
      then Inr (JObj [(''publicKeys'', JObj [(''ed25519'', JStr sample_key)])])
      else if m = ''deployment_assignedProcessors''
      then Inr (JObj [(''processors'', JObj [(''p'', JObj [(''ed25519'', JStr sample_key)])])])
      else Inr (JObj [(''bytes'', JStr (sample_key @ sample_key))]), ())"

definition sample_response :: runtime_bootstrap_response where
  "sample_response =
     \<lparr>rb_ok = True, rb_domain = RUNTIME_BOOTSTRAP_RESPONSE_DOMAIN_V2, rb_application_uid = ''u'',
      rb_application_id = ''a'', rb_policy_digest = ''d'', rb_deployment_id = ''4'', rb_job_id = ''job'',
      rb_processor_id = ''p'', rb_runtime_instance_id = ''0001'', rb_slipway_url = ''s'',
      rb_runtime_env = None, rb_customer_required = None, rb_supervision = None, rb_logging = None,
      rb_logging_outage_canary = False, rb_provider_logs = None, rb_access = None,
      rb_processor_facts = None, rb_fact_authorization = None\<rparr>"

definition sample_env :: "unit contact_env" where
  "sample_env =
     \<lparr>env_call = sample_call, env_post = (\<lambda>w u b. (Inr \<lparr>hr_status = 200, hr_body = [1]\<rparr>, ())),
      env_elapsed = (\<lambda>w. (0, ())), env_sleep = (\<lambda>w d. ()),
      env_fill_random = (\<lambda>w n. (Inr [0, 1], ())), env_unix_time_ms = (\<lambda>w. (Inr 1000, ()))\<rparr>"

definition sample_decoders :: decoders where
  "sample_decoders =
     \<lparr>decode_bootstrap = (\<lambda>b. Some sample_response), decode_error_envelope = (\<lambda>b. None)\<rparr>"

lemma sample_hex:
  assumes "0 < n"
  shows "normalize_hex_exact (replicate (n * 2) (CHR ''a'')) n = Some (replicate (n * 2) (CHR ''a''))"
proof -
  obtain m where m: "n * 2 = Suc m" using assms by (cases "n * 2") auto
  have "strip_prefix ''0x'' (replicate (n * 2) (CHR ''a'')) = None" unfolding m by simp
  then show ?thesis
    by (simp add: normalize_hex_exact_def to_ascii_lowercase_def to_ascii_lower_def is_ascii_upper_def
        is_ascii_hexdigit_def is_lower_hex_digit_def is_ascii_digit_def)
qed

lemma sample_fields:
  "json_to_vec sample_crates j = Some [7]" "json_to_string sample_crates j = Some ''job''"
  "hex_encode sample_crates [0, 1] = ''0001''"
  "url_join sample_crates u p = Some (u\<lparr>url_text := url_text u @ p\<rparr>)"
  "env_call sample_env = sample_call"
  "env_post sample_env w t b = (Inr \<lparr>hr_status = 200, hr_body = [1]\<rparr>, ())"
  "env_fill_random sample_env w n = (Inr [0, 1], ())" "env_unix_time_ms sample_env w = (Inr 1000, ())"
  "decode_bootstrap sample_decoders b = Some sample_response"
  by (simp_all add: sample_crates_def sample_env_def sample_decoders_def)

lemma sample_identity:
  "discover_runtime_identity sample_crates (t_call sample_env) ((), []) =
     (Inr \<lparr>ri_job_id = ''job'', ri_processor_id = ''p''\<rparr>,
      (), [Called ''deployment_id'' (JArr []), Called ''deployment_publicKeys'' (JArr []),
           Called ''deployment_assignedProcessors'' (JArr [])])"
  using sample_hex [of 32]
  by (simp add: discover_runtime_identity_def t_call_def sample_fields sample_call_def
      parse_deployment_def parse_processor_def matching_processors_def json_get_def
      ed25519_key_def sample_key_def)

lemma sample_url: "\<exists>u. validate_core_url sample_crates ''u'' = Inr u"
  by (simp add: validate_core_url_def sample_crates_def)

definition sample_log :: "contact_event list" where
  "sample_log = snd (snd (establish_runtime_contact_with sample_crates sample_decoders sample_env
     default_retry_policy ''u'' ((), [])))"

lemma sample_contact:
  "establish_runtime_contact_with sample_crates sample_decoders sample_env default_retry_policy ''u'' ((), [])
     = (Inr sample_response, (), sample_log)"
proof -
  obtain u where "validate_core_url sample_crates ''u'' = Inr u" using sample_url by blast
  then show ?thesis
    unfolding sample_log_def
    using sample_hex [of 64]
    by (simp add: establish_runtime_contact_with_def discover_runtime_identity_with_retry_def
        identity_loop.simps [of sample_crates] sample_identity sample_fields
        contact_loop.simps [of sample_crates] attempt_contact_def validate_response_def sign_request_def
        build_unsigned_request_def canonical_unsigned_request_bytes_def response_well_formed_def
        t_post_def t_call_def t_fill_random_def t_unix_time_ms_def unsigned_request.defs json_get_def
        sample_call_def sample_response_def sample_key_def replicate_add [symmetric]
        checked_add_u64_def RUNTIME_BOOTSTRAP_TTL_MS_def u64_max_def)
qed

theorem contact_response_bound_to_request_witness:
  "establish_runtime_contact_with sample_crates sample_decoders sample_env default_retry_policy ''u'' ((), [])
     = (Inr sample_response, (), sample_log)
   \<and> response_well_formed sample_crates sample_response
   \<and> (\<exists>(q :: signed_request) nonce. uq_job_id q = rb_job_id sample_response \<and> uq_nonce q = hex_encode sample_crates nonce
        \<and> uq_expires_at_ms q = uq_issued_at_ms q + 60000)"
  using contact_response_bound_to_request [OF sample_contact] sample_contact by blast

end
