(* ===== verification/Environment.thy ===== *)
theory Environment
  imports Contact
begin

text \<open>
  The environment of the customer command: the reserved names (\<open>src/env_names.rs\<close>), the signed
  runtime environment fetched before startup (\<open>src/runtime_env.rs\<close>), the repair of the inherited
  environment (\<open>src/customer_environment.rs\<close>) and the merge of both in \<open>src/supervisor.rs\<close>.

  An environment is an association list in process order; a name or value is its byte string, which
  is also what \<open>OsStr\<close> comparison sees. The guest filesystem is the record \<open>guest_ops\<close> of the trait's
  four methods over an arbitrary filesystem state; \<open>process_filesystem\<close> is the implementation the
  helper runs with, over the two system calls it uses.
\<close>

section \<open>Names\<close>

definition BOOTSTRAP_ENV :: string where "BOOTSTRAP_ENV = ''LISKOV_BOOTSTRAP''"
definition LEGACY_BOOTSTRAP_ENV :: string where "LEGACY_BOOTSTRAP_ENV = ''PROOF_SLIPWAY_BOOTSTRAP''"
definition BOOTSTRAP_ENV_NAMES :: "string list" where "BOOTSTRAP_ENV_NAMES = [BOOTSTRAP_ENV]"
definition RESERVED_BOOTSTRAP_ENV_NAMES :: "string list" where
  "RESERVED_BOOTSTRAP_ENV_NAMES = [BOOTSTRAP_ENV, LEGACY_BOOTSTRAP_ENV]"
definition LOCKBOX_BOOTSTRAP_ENV :: string where "LOCKBOX_BOOTSTRAP_ENV = ''LISKOV_LOCKBOX_BOOTSTRAP''"
definition SUPERVISION_CANARY_ENV :: string where
  "SUPERVISION_CANARY_ENV = ''LISKOV_CARGO_SUPERVISION_CANARY_JSON''"
definition RUNTIME_SSH_CREDENTIAL_ENV :: string where
  "RUNTIME_SSH_CREDENTIAL_ENV = ''LISKOV_RUNTIME_SSH_CREDENTIAL_V1''"

definition PROTECTED_ENV_NAMES :: "string list" where
  "PROTECTED_ENV_NAMES =
     [BOOTSTRAP_ENV, LEGACY_BOOTSTRAP_ENV, SUPERVISION_CANARY_ENV, RUNTIME_SSH_CREDENTIAL_ENV]"

fun first_present :: "string list \<Rightarrow> (string \<Rightarrow> string option) \<Rightarrow> string option" where
  "first_present [] lookup = None"
| "first_present (name # names) lookup =
     (case lookup name of Some v \<Rightarrow> Some v | None \<Rightarrow> first_present names lookup)"

type_synonym environment = "(string \<times> string) list"

section \<open>The signed runtime environment\<close>

datatype runtime_env_error =
    EnvInvalidEndpoint
  | EnvRandomness
  | EnvClock
  | EnvTimestampOverflow
  | EnvSigning bridge_error
  | EnvInvalidSignature
  | EnvSerialization
  | EnvTransport
  | EnvRejected
  | EnvInvalidResponse
  | EnvResponseBinding
  | EnvPanic \<comment> \<open>the \<open>expect\<close> of \<open>canonical_json_bytes\<close>: the process aborts\<close>

definition env_exit_status :: "runtime_env_error \<Rightarrow> nat" where
  "env_exit_status e = (case e of EnvTransport \<Rightarrow> 75 | EnvPanic \<Rightarrow> 101 | _ \<Rightarrow> 70)"

fun env_diagnostic_exit_code :: "runtime_env_error \<Rightarrow> nat" where
  "env_diagnostic_exit_code EnvInvalidEndpoint = 96"
| "env_diagnostic_exit_code EnvRandomness = 97"
| "env_diagnostic_exit_code EnvClock = 98"
| "env_diagnostic_exit_code EnvTimestampOverflow = 98"
| "env_diagnostic_exit_code (EnvSigning _) = 99"
| "env_diagnostic_exit_code EnvInvalidSignature = 99"
| "env_diagnostic_exit_code EnvSerialization = 100"
| "env_diagnostic_exit_code EnvTransport = 101"
| "env_diagnostic_exit_code EnvRejected = 102"
| "env_diagnostic_exit_code EnvInvalidResponse = 103"
| "env_diagnostic_exit_code EnvResponseBinding = 104"
| "env_diagnostic_exit_code EnvPanic = 101"

definition RUNTIME_ENV_REQUEST_DOMAIN_V2 :: string where
  "RUNTIME_ENV_REQUEST_DOMAIN_V2 = ''proof.liskov.runtime-env-request.v2''"
definition RUNTIME_ENV_RESPONSE_DOMAIN_V2 :: string where
  "RUNTIME_ENV_RESPONSE_DOMAIN_V2 = ''proof.liskov.runtime-env-response.v2''"
definition RUNTIME_ENV_REQUEST_TTL_MS :: nat where "RUNTIME_ENV_REQUEST_TTL_MS = 60000"
definition MAX_RUNTIME_ENV_VALUES :: nat where "MAX_RUNTIME_ENV_VALUES = 128"

text \<open>The six texts that bind a response to its request.\<close>

record env_binding =
  eb_application_uid :: string
  eb_application_id :: string
  eb_policy_digest :: string
  eb_job_id :: string
  eb_deployment_id :: string
  eb_processor_id :: string

record unsigned_env_request =
  er_domain :: string
  er_binding :: env_binding
  er_nonce :: string
  er_issued_at_ms :: nat
  er_expires_at_ms :: nat

record runtime_env_response =
  es_ok :: bool
  es_domain :: string
  es_request_id :: string
  es_binding :: env_binding
  es_revision :: string
  es_issued_at_ms :: nat
  es_expires_at_ms :: nat
  es_refresh_after_ms :: nat
  es_values :: environment

definition env_request_fields :: "unsigned_env_request \<Rightarrow> (string \<times> json) list" where
  "env_request_fields q = (let b = er_binding q in
     [(''domain'', JStr (er_domain q)), (''applicationUid'', JStr (eb_application_uid b)),
      (''applicationId'', JStr (eb_application_id b)), (''policyDigest'', JStr (eb_policy_digest b)),
      (''jobId'', JStr (eb_job_id b)), (''deploymentId'', JStr (eb_deployment_id b)),
      (''processorId'', JStr (eb_processor_id b)), (''nonce'', JStr (er_nonce q)),
      (''issuedAtMs'', json_u64 (er_issued_at_ms q)), (''expiresAtMs'', json_u64 (er_expires_at_ms q))])"

definition signed_env_request_json :: "unsigned_env_request \<Rightarrow> string \<Rightarrow> json" where
  "signed_env_request_json q sig = JObj (env_request_fields q @ [(''signature'', JStr sig)])"

definition secure_endpoint :: "crates \<Rightarrow> string \<Rightarrow> runtime_env_error + url" where
  "secure_endpoint cr raw =
     (case url_parse cr raw of
        None \<Rightarrow> Inl EnvInvalidEndpoint
      | Some base \<Rightarrow>
          if url_scheme base \<noteq> ''https'' \<or> url_host_str base = None \<or> url_username base \<noteq> []
             \<or> url_password base \<noteq> None \<or> url_query base \<noteq> None \<or> url_fragment base \<noteq> None
          then Inl EnvInvalidEndpoint
          else ok_or (url_join cr base ''/api/jobs/runtime-env'') EnvInvalidEndpoint)"

definition normalize_signature :: "string \<Rightarrow> string option" where
  "normalize_signature value =
     (let v = to_ascii_lowercase (case strip_prefix ''0x'' value of None \<Rightarrow> value | Some r \<Rightarrow> r)
      in if length v = 128 \<and> (\<forall>c \<in> set v. is_ascii_hexdigit c) then Some v else None)"

definition env_sign ::
  "crates \<Rightarrow> 's bridge \<Rightarrow> bytes \<Rightarrow> 's \<Rightarrow> (runtime_env_error + string) \<times> 's" where
  "env_sign cr call message s =
     (case call s ''signer_sign'' (sign_params cr message) of
        (Inl e, s1) \<Rightarrow> (Inl (EnvSigning e), s1)
      | (Inr result, s1) \<Rightarrow>
          (res_bind (ok_or (Option.bind (Option.bind (json_get result ''bytes'') as_str) normalize_signature)
                       EnvInvalidSignature)
             (\<lambda>v. Inr (''0x'' @ v)), s1))"

fun valid_env_name :: "string \<Rightarrow> bool" where
  "valid_env_name [] = False"
| "valid_env_name (c # cs) =
     ((is_ascii_upper c \<or> c = CHR ''_'')
      \<and> (\<forall>d \<in> set cs. is_ascii_upper d \<or> is_ascii_digit d \<or> d = CHR ''_''))"

definition env_response_well_formed :: "runtime_env_response \<Rightarrow> bool" where
  "env_response_well_formed r \<longleftrightarrow>
     es_ok r \<and> es_domain r = RUNTIME_ENV_RESPONSE_DOMAIN_V2 \<and> es_request_id r \<noteq> []
     \<and> es_revision r \<noteq> [] \<and> es_issued_at_ms r < es_expires_at_ms r
     \<and> es_issued_at_ms r \<le> es_refresh_after_ms r \<and> es_refresh_after_ms r \<le> es_expires_at_ms r"

definition env_values_valid :: "environment \<Rightarrow> bool" where
  "env_values_valid vs \<longleftrightarrow>
     length vs \<le> MAX_RUNTIME_ENV_VALUES
     \<and> (\<forall>(name, value) \<in> set vs.
          valid_env_name name \<and> name \<notin> set PROTECTED_ENV_NAMES \<and> CHR 0x00 \<notin> set value)"

definition env_validate_response ::
  "(bytes \<Rightarrow> runtime_env_response option) \<Rightarrow> unsigned_env_request \<Rightarrow> bytes
     \<Rightarrow> runtime_env_error + environment" where
  "env_validate_response decode q body =
     res_bind (ok_or (decode body) EnvInvalidResponse) (\<lambda>r.
       guard (env_response_well_formed r) EnvInvalidResponse
         (guard (es_binding r = er_binding q) EnvResponseBinding
           (guard (env_values_valid (es_values r)) EnvInvalidResponse (Inr (es_values r)))))"

definition env_request_of ::
  "crates \<Rightarrow> runtime_bootstrap_response \<Rightarrow> nat \<Rightarrow> bytes \<Rightarrow> runtime_env_error + unsigned_env_request" where
  "env_request_of cr b issued_at_ms nonce =
     res_bind (ok_or (checked_add_u64 issued_at_ms RUNTIME_ENV_REQUEST_TTL_MS) EnvTimestampOverflow)
       (\<lambda>expires.
          let binding = \<lparr>eb_application_uid = trim (rb_application_uid b),
                eb_application_id = trim (rb_application_id b),
                eb_policy_digest = to_ascii_lowercase (trim (rb_policy_digest b)),
                eb_job_id = trim (rb_job_id b), eb_deployment_id = trim (rb_deployment_id b),
                eb_processor_id = trim (rb_processor_id b)\<rparr>
          in guard ([] \<notin> set [eb_application_uid binding, eb_application_id binding,
                eb_policy_digest binding, eb_job_id binding, eb_deployment_id binding,
                eb_processor_id binding]) EnvResponseBinding
             (Inr \<lparr>er_domain = RUNTIME_ENV_REQUEST_DOMAIN_V2, er_binding = binding,
                   er_nonce = hex_encode cr nonce, er_issued_at_ms = issued_at_ms,
                   er_expires_at_ms = expires\<rparr>))"

text \<open>
  \<open>load_runtime_environment_with\<close> over the world of \<open>contact_env\<close>; a disabled runtime environment
  needs no request and gives no values. \<open>canonical_json_bytes\<close> serialises the sorted object and
  aborts the process if that fails (status 101, as for every panic).
\<close>

definition canonical_json_bytes :: "crates \<Rightarrow> json \<Rightarrow> bytes option" where
  "canonical_json_bytes cr v = json_to_vec cr (sort_json v)"

definition load_runtime_environment_with ::
  "crates \<Rightarrow> (bytes \<Rightarrow> runtime_env_response option) \<Rightarrow> 'w contact_env \<Rightarrow> runtime_bootstrap_response
     \<Rightarrow> nat \<Rightarrow> bytes \<Rightarrow> 'w traced \<Rightarrow> (runtime_env_error + environment) \<times> 'w traced" where
  "load_runtime_environment_with cr decode env b issued_at_ms nonce s =
     (case rb_runtime_env b of
        None \<Rightarrow> (Inr [], s)
      | Some config \<Rightarrow>
     if \<not> re_enabled config then (Inr [], s)
     else if re_url config \<noteq> rb_slipway_url b then (Inl EnvResponseBinding, s)
     else (case res_bind (secure_endpoint cr (re_url config)) (\<lambda>endpoint.
                   res_bind (env_request_of cr b issued_at_ms nonce) (\<lambda>q. Inr (endpoint, q))) of
        Inl e \<Rightarrow> (Inl e, s)
      | Inr (endpoint, q) \<Rightarrow>
    (case canonical_json_bytes cr (JObj (env_request_fields q)) of
        None \<Rightarrow> (Inl EnvPanic, s)
      | Some message \<Rightarrow>
    (case env_sign cr (t_call env) message s of
        (Inl e, s1) \<Rightarrow> (Inl e, s1)
      | (Inr sig, s1) \<Rightarrow>
    (case json_to_vec cr (signed_env_request_json q sig) of
        None \<Rightarrow> (Inl EnvSerialization, s1)
      | Some body \<Rightarrow>
    (case t_post env s1 (url_text endpoint) body of
        (Inl HttpTransport, s2) \<Rightarrow> (Inl EnvTransport, s2)
      | (Inl HttpResponseTooLarge, s2) \<Rightarrow> (Inl EnvInvalidResponse, s2)
      | (Inr r, s2) \<Rightarrow>
          if \<not> (200 \<le> hr_status r \<and> hr_status r < 300) then (Inl EnvRejected, s2)
          else (env_validate_response decode q (hr_body r), s2)))))))"

definition load_runtime_environment ::
  "crates \<Rightarrow> (bytes \<Rightarrow> runtime_env_response option) \<Rightarrow> 'w contact_env \<Rightarrow> runtime_bootstrap_response
     \<Rightarrow> 'w traced \<Rightarrow> (runtime_env_error + environment) \<times> 'w traced" where
  "load_runtime_environment cr decode env b s =
     (if (case rb_runtime_env b of None \<Rightarrow> True | Some config \<Rightarrow> \<not> re_enabled config) then (Inr [], s)
      else (case t_fill_random env s 16 of
        (Inl _, s1) \<Rightarrow> (Inl EnvRandomness, s1)
      | (Inr nonce, s1) \<Rightarrow>
    (case t_unix_time_ms env s1 of
        (Inl _, s2) \<Rightarrow> (Inl EnvClock, s2)
      | (Inr issued_at_ms, s2) \<Rightarrow>
          load_runtime_environment_with cr decode env b issued_at_ms nonce s2)))"

section \<open>Repair of the inherited environment\<close>

datatype normalization_reason = DirectoryMissing | DirectoryNotWritable | ObjectMissing | Unset | Empty

fun normalization_reason_str :: "normalization_reason \<Rightarrow> string" where
  "normalization_reason_str DirectoryMissing = ''directory_missing''"
| "normalization_reason_str DirectoryNotWritable = ''directory_not_writable''"
| "normalization_reason_str ObjectMissing = ''object_missing''"
| "normalization_reason_str Unset = ''unset''"
| "normalization_reason_str Empty = ''empty''"

type_synonym normalization = "string \<times> normalization_reason"

definition DEFAULT_TMPDIR :: string where "DEFAULT_TMPDIR = ''/tmp''"
definition DEFAULT_PATH :: string where
  "DEFAULT_PATH = ''/usr/local/sbin:/usr/local/bin:/usr/sbin:/usr/bin:/sbin:/bin''"
definition DEFAULT_HOME :: string where "DEFAULT_HOME = ''/root''"

text \<open>The trait \<open>GuestFilesystem\<close> and its implementation over \<open>stat\<close>, \<open>access\<close>, \<open>mkdir\<close>, \<open>chmod\<close>.\<close>

record 'g guest_ops =
  is_directory :: "'g \<Rightarrow> string \<Rightarrow> bool"
  is_writable_directory :: "'g \<Rightarrow> string \<Rightarrow> bool"
  is_file :: "'g \<Rightarrow> string \<Rightarrow> bool"
  create_sticky_directory :: "'g \<Rightarrow> string \<Rightarrow> 'g" \<comment> \<open>mode \<open>0o1777\<close>; its result is ignored\<close>

datatype file_type = TypeDirectory | TypeRegular | TypeOther

record 'g syscalls =
  sys_metadata :: "'g \<Rightarrow> string \<Rightarrow> file_type option"
  sys_access_wx :: "'g \<Rightarrow> string \<Rightarrow> bool"
  sys_create_dir :: "'g \<Rightarrow> string \<Rightarrow> bool \<times> 'g"
  sys_chmod :: "'g \<Rightarrow> string \<Rightarrow> nat \<Rightarrow> 'g"

definition process_filesystem :: "'g syscalls \<Rightarrow> 'g guest_ops" where
  "process_filesystem sys =
     \<lparr>is_directory = (\<lambda>g p. sys_metadata sys g p = Some TypeDirectory),
      is_writable_directory = (\<lambda>g p. sys_metadata sys g p = Some TypeDirectory
         \<and> CHR 0x00 \<notin> set p \<and> sys_access_wx sys g p),
      is_file = (\<lambda>g p. sys_metadata sys g p = Some TypeRegular),
      create_sticky_directory = (\<lambda>g p. case sys_create_dir sys g p of
         (False, g1) \<Rightarrow> g1 | (True, g1) \<Rightarrow> sys_chmod sys g1 p 1023)\<rparr>"

definition env_lookup :: "environment \<Rightarrow> string \<Rightarrow> string option" where
  "env_lookup env name = map_option snd (find (\<lambda>(existing, _). existing = name) env)"

fun env_set :: "environment \<Rightarrow> string \<Rightarrow> string \<Rightarrow> environment" where
  "env_set [] name value = [(name, value)]"
| "env_set ((n, v) # env) name value =
     (if n = name then (n, value) # env else (n, v) # env_set env name value)"

fun split_on :: "(char \<Rightarrow> bool) \<Rightarrow> string \<Rightarrow> string list" where
  "split_on P [] = [[]]"
| "split_on P (c # cs) =
     (if P c then [] # split_on P cs
      else (case split_on P cs of [] \<Rightarrow> [[c]] | e # es \<Rightarrow> (c # e) # es))"

definition preload_resolves :: "'g guest_ops \<Rightarrow> 'g \<Rightarrow> string \<Rightarrow> bool" where
  "preload_resolves guest g value \<longleftrightarrow>
     (\<forall>entry \<in> set (split_on (\<lambda>c. c = CHR '' '' \<or> c = CHR '':'') value).
        entry \<noteq> [] \<longrightarrow> CHR ''/'' \<notin> set entry \<or> is_file guest g entry)"

text \<open>The four rules of \<open>normalize_customer_environment\<close>, in order; each appends to the changes.\<close>

type_synonym 'g repair = "environment \<times> normalization list \<times> 'g"

definition tmpdir_reason :: "'g guest_ops \<Rightarrow> 'g \<Rightarrow> string \<Rightarrow> normalization_reason option" where
  "tmpdir_reason guest g path =
     (if is_writable_directory guest g path then None
      else if is_directory guest g path then Some DirectoryNotWritable
      else Some DirectoryMissing)"

definition normalize_tmpdir :: "'g guest_ops \<Rightarrow> (string \<Rightarrow> bool) \<Rightarrow> 'g repair \<Rightarrow> 'g repair" where
  "normalize_tmpdir guest is_signed r = (case r of (env, changes, g) \<Rightarrow>
     (if is_signed ''TMPDIR'' then r
      else (case env_lookup env ''TMPDIR'' of
        None \<Rightarrow> r
      | Some value \<Rightarrow>
     (case tmpdir_reason guest g value of
        None \<Rightarrow> r
      | Some reason \<Rightarrow>
          (env_set env ''TMPDIR'' DEFAULT_TMPDIR, changes @ [(''TMPDIR'', reason)],
           if is_directory guest g DEFAULT_TMPDIR then g
           else create_sticky_directory guest g DEFAULT_TMPDIR)))))"

definition normalize_preload :: "'g guest_ops \<Rightarrow> (string \<Rightarrow> bool) \<Rightarrow> 'g repair \<Rightarrow> 'g repair" where
  "normalize_preload guest is_signed r = (case r of (env, changes, g) \<Rightarrow>
     (if is_signed ''LD_PRELOAD'' then r
      else (case env_lookup env ''LD_PRELOAD'' of
        None \<Rightarrow> r
      | Some value \<Rightarrow>
          if preload_resolves guest g value then r
          else (filter (\<lambda>(name, _). name \<noteq> ''LD_PRELOAD'') env,
                changes @ [(''LD_PRELOAD'', ObjectMissing)], g))))"

definition normalize_path :: "(string \<Rightarrow> bool) \<Rightarrow> 'g repair \<Rightarrow> 'g repair" where
  "normalize_path is_signed r = (case r of (env, changes, g) \<Rightarrow>
     (if is_signed ''PATH'' then r
      else (case (case env_lookup env ''PATH'' of
                    None \<Rightarrow> Some Unset
                  | Some value \<Rightarrow> if value = [] then Some Empty else None) of
        None \<Rightarrow> r
      | Some reason \<Rightarrow> (env_set env ''PATH'' DEFAULT_PATH, changes @ [(''PATH'', reason)], g))))"

definition normalize_home :: "(string \<Rightarrow> bool) \<Rightarrow> 'g repair \<Rightarrow> 'g repair" where
  "normalize_home is_signed r = (case r of (env, changes, g) \<Rightarrow>
     (if \<not> is_signed ''HOME'' \<and> env_lookup env ''HOME'' = None
      then (env_set env ''HOME'' DEFAULT_HOME, changes @ [(''HOME'', Unset)], g)
      else r))"

definition normalize_customer_environment ::
  "'g guest_ops \<Rightarrow> (string \<Rightarrow> bool) \<Rightarrow> environment \<Rightarrow> 'g \<Rightarrow> 'g repair" where
  "normalize_customer_environment guest is_signed inherited g =
     normalize_home is_signed (normalize_path is_signed
       (normalize_preload guest is_signed (normalize_tmpdir guest is_signed (inherited, [], g))))"

section \<open>The merged environment\<close>

definition merge_runtime_environment :: "environment \<Rightarrow> environment \<Rightarrow> environment" where
  "merge_runtime_environment env runtime_environment =
     fold (\<lambda>(name, value) env. filter (\<lambda>(existing, _). existing \<noteq> name) env @ [(name, value)])
       runtime_environment env"

definition sanitize_environment_values :: "environment \<Rightarrow> environment" where
  "sanitize_environment_values values = filter (\<lambda>(key, _). key \<notin> set PROTECTED_ENV_NAMES) values"

definition HELPER_OWNED_NAMES :: "string list" where
  "HELPER_OWNED_NAMES =
     [''LISKOV_DISCOVERY_FILE'', ''LISKOV_PEER_PROXY'', ''LISKOV_PEER_ADVERTISEMENT_FILE'',
      ''LISKOV_PEER_DIRECTORY_FILE'', ''LISKOV_RUNTIME_INSTANCE_ID'', ''LISKOV_APPLICATION_READINESS'',
      ''LISKOV_APPLICATION_READY_FILE'']"

definition customer_environment ::
  "'g guest_ops \<Rightarrow> environment \<Rightarrow> environment \<Rightarrow> 'g \<Rightarrow> 'g repair" where
  "customer_environment guest inherited runtime_environment g =
     (case normalize_customer_environment guest (\<lambda>name. name \<in> fst ` set runtime_environment)
             (sanitize_environment_values
                (filter (\<lambda>(name, _). name \<notin> set HELPER_OWNED_NAMES) inherited)) g of
        (env, changes, g1) \<Rightarrow> (merge_runtime_environment env runtime_environment, changes, g1))"

section \<open>Lemmas\<close>

lemma env_lookup_map_of: "env_lookup env = map_of env"
proof
  fix name
  show "env_lookup env name = map_of env name"
    by (induction env) (auto simp: env_lookup_def)
qed

lemma map_of_env_set [simp]: "map_of (env_set env name value) = (map_of env)(name \<mapsto> value)"
  by (induction env) auto

lemma map_of_filter_key [simp]:
  "map_of (filter (\<lambda>(k, _). P k) env) n = (if P n then map_of env n else None)"
  by (induction env) auto

lemma map_of_merge:
  "map_of (merge_runtime_environment env rt) = map_of env ++ map_of (rev rt)"
proof (induction rt arbitrary: env)
  case Nil
  then show ?case by (simp add: merge_runtime_environment_def)
next
  case (Cons p rt)
  obtain n v where p: "p = (n, v)" by (cases p)
  have "map_of (filter (\<lambda>(existing, _). existing \<noteq> n) env @ [(n, v)]) = (map_of env)(n \<mapsto> v)"
    by (rule ext) (simp add: map_add_def split: option.split)
  moreover have "merge_runtime_environment env (p # rt) =
      merge_runtime_environment (filter (\<lambda>(existing, _). existing \<noteq> n) env @ [(n, v)]) rt"
    by (simp add: merge_runtime_environment_def p)
  ultimately have "map_of (merge_runtime_environment env (p # rt)) = (map_of env)(n \<mapsto> v) ++ map_of (rev rt)"
    by (simp only: Cons.IH)
  then show ?case by (simp add: p map_add_upd_left map_add_assoc [symmetric])
qed

text \<open>
  What the repair promises of each name, given the values the customer may inherit: \<open>g\<close> is the guest
  before and \<open>g'\<close> after the repair, which may have created \<open>/tmp\<close>.
\<close>

definition repaired_value :: "'g guest_ops \<Rightarrow> 'g \<Rightarrow> 'g \<Rightarrow> string \<Rightarrow> string option \<Rightarrow> string option" where
  "repaired_value guest g g' name visible =
     (if name = ''TMPDIR'' then
        (case visible of None \<Rightarrow> None
         | Some v \<Rightarrow> if is_writable_directory guest g v then Some v else Some DEFAULT_TMPDIR)
      else if name = ''LD_PRELOAD'' then
        (case visible of None \<Rightarrow> None
         | Some v \<Rightarrow> if preload_resolves guest g' v then Some v else None)
      else if name = ''PATH'' then
        (case visible of None \<Rightarrow> Some DEFAULT_PATH
         | Some v \<Rightarrow> if v = [] then Some DEFAULT_PATH else Some v)
      else if name = ''HOME'' then
        (case visible of None \<Rightarrow> Some DEFAULT_HOME | Some v \<Rightarrow> Some v)
      else visible)"

lemma normalize_tmpdir_lookup:
  assumes "normalize_tmpdir guest is_signed (env, ch, g) = (env', ch', g')"
  shows "map_of env' name =
    (if name = ''TMPDIR'' \<and> \<not> is_signed name then repaired_value guest g g' name (map_of env name) else map_of env name)"
  using assms
  by (auto simp: normalize_tmpdir_def env_lookup_map_of tmpdir_reason_def repaired_value_def
      split: if_splits option.splits)

lemma normalize_preload_lookup:
  assumes "normalize_preload guest is_signed (env, ch, g) = (env', ch', g')"
  shows "g' = g \<and> map_of env' name =
    (if name = ''LD_PRELOAD'' \<and> \<not> is_signed name then repaired_value guest g0 g name (map_of env name) else map_of env name)"
  using assms
  by (auto simp: normalize_preload_def env_lookup_map_of repaired_value_def split: if_splits option.splits)

lemma normalize_path_lookup:
  assumes "normalize_path is_signed (env, ch, g) = (env', ch', g')"
  shows "g' = g \<and> map_of env' name =
    (if name = ''PATH'' \<and> \<not> is_signed name then repaired_value guest g0 g name (map_of env name) else map_of env name)"
  using assms
  by (auto simp: normalize_path_def env_lookup_map_of repaired_value_def split: if_splits option.splits)

lemma normalize_home_lookup:
  assumes "normalize_home is_signed (env, ch, g) = (env', ch', g')"
  shows "g' = g \<and> map_of env' name =
    (if name = ''HOME'' \<and> \<not> is_signed name then repaired_value guest g0 g name (map_of env name) else map_of env name)"
  using assms
  by (auto simp: normalize_home_def env_lookup_map_of repaired_value_def split: if_splits option.splits)

lemma normalize_lookup:
  assumes "normalize_customer_environment guest is_signed env g = (env', ch', g')"
  shows "map_of env' name =
    (if is_signed name then map_of env name else repaired_value guest g g' name (map_of env name))"
proof -
  obtain e1 c1 g1 where t: "normalize_tmpdir guest is_signed (env, [], g) = (e1, c1, g1)" by (metis prod_cases3)
  obtain e2 c2 g2 where l: "normalize_preload guest is_signed (e1, c1, g1) = (e2, c2, g2)" by (metis prod_cases3)
  obtain e3 c3 g3 where p: "normalize_path is_signed (e2, c2, g2) = (e3, c3, g3)" by (metis prod_cases3)
  have h: "normalize_home is_signed (e3, c3, g3) = (env', ch', g')"
    using assms t l p by (simp add: normalize_customer_environment_def)
  note T = normalize_tmpdir_lookup [OF t] and L = normalize_preload_lookup [OF l, where ?g0.0 = g]
    and P = normalize_path_lookup [OF p, where ?g0.0 = g and guest = guest]
    and H = normalize_home_lookup [OF h, where ?g0.0 = g and guest = guest]
  have g: "g' = g1" "g2 = g1" "g3 = g1" using L P H by blast+
  consider "name = ''TMPDIR''" | "name = ''LD_PRELOAD''" | "name = ''PATH''" | "name = ''HOME''"
    | "name \<notin> {''TMPDIR'', ''LD_PRELOAD'', ''PATH'', ''HOME''}" by blast
  then show ?thesis
  proof cases
    case 5
    then show ?thesis using T [of name] L [of name] P [of name] H [of name]
      by (simp add: repaired_value_def)
  qed (use T [of name] L [of name] P [of name] H [of name] g in simp_all)
qed

definition visible_environment :: "environment \<Rightarrow> string \<rightharpoonup> string" where
  "visible_environment inherited name =
     (if name \<in> set HELPER_OWNED_NAMES \<or> name \<in> set PROTECTED_ENV_NAMES then None
      else env_lookup inherited name)"

lemma map_of_visible:
  "map_of (sanitize_environment_values (filter (\<lambda>(name, _). name \<notin> set HELPER_OWNED_NAMES) inherited))
     = visible_environment inherited"
  by (rule ext)
     (simp add: sanitize_environment_values_def visible_environment_def env_lookup_map_of del: filter_filter)

lemma customer_environment_lookup:
  assumes "customer_environment guest inherited rt g = (env, ch, g')"
  shows "env_lookup env name =
    (case map_of (rev rt) name of
       Some v \<Rightarrow> Some v
     | None \<Rightarrow> repaired_value guest g g' name (visible_environment inherited name))"
proof -
  obtain e c where
    n: "normalize_customer_environment guest (\<lambda>name. name \<in> fst ` set rt)
          (sanitize_environment_values (filter (\<lambda>(name, _). name \<notin> set HELPER_OWNED_NAMES) inherited)) g
        = (e, c, g')" and e: "env = merge_runtime_environment e rt"
    using assms by (auto simp: customer_environment_def split: prod.splits)
  show ?thesis
  proof (cases "map_of (rev rt) name")
    case None
    then have "name \<notin> fst ` set rt" by (simp add: map_of_eq_None_iff)
    then show ?thesis
      using normalize_lookup [OF n, of name] None unfolding map_of_visible
      by (simp add: e env_lookup_map_of map_of_merge map_add_def)
  next
    case (Some v)
    then show ?thesis by (simp add: e env_lookup_map_of map_of_merge map_add_def)
  qed
qed

lemma protected_not_repaired:
  "name \<in> set PROTECTED_ENV_NAMES \<Longrightarrow> repaired_value guest g g' name (visible_environment inherited name) = None"
  by (auto simp: repaired_value_def visible_environment_def PROTECTED_ENV_NAMES_def BOOTSTRAP_ENV_def
      LEGACY_BOOTSTRAP_ENV_def SUPERVISION_CANARY_ENV_def RUNTIME_SSH_CREDENTIAL_ENV_def)

subsection \<open>The guest filesystem as an interface\<close>

text \<open>
  What the repair relies on: a directory one can create files in is a directory. It makes a second
  repair a no-op once \<open>/tmp\<close> is usable.
\<close>

locale guest_filesystem =
  fixes guest :: "'g guest_ops"
  assumes writable_is_directory: "is_writable_directory guest g p \<Longrightarrow> is_directory guest g p"
begin

lemma tmpdir_keeps_guest:
  assumes "is_writable_directory guest g DEFAULT_TMPDIR"
    and "normalize_tmpdir guest is_signed (env, ch, g) = (env', ch', g')"
  shows "g' = g"
  using assms by (auto simp: normalize_tmpdir_def writable_is_directory split: if_splits option.splits)

lemma normalize_keeps_guest:
  assumes "is_writable_directory guest g DEFAULT_TMPDIR"
    and "normalize_customer_environment guest is_signed env g = (env', ch', g')"
  shows "g' = g"
proof -
  obtain e1 c1 g1 where t: "normalize_tmpdir guest is_signed (env, [], g) = (e1, c1, g1)" by (metis prod_cases3)
  obtain e2 c2 g2 where l: "normalize_preload guest is_signed (e1, c1, g1) = (e2, c2, g2)" by (metis prod_cases3)
  obtain e3 c3 g3 where p: "normalize_path is_signed (e2, c2, g2) = (e3, c3, g3)" by (metis prod_cases3)
  have h: "normalize_home is_signed (e3, c3, g3) = (env', ch', g')"
    using assms(2) t l p by (simp add: normalize_customer_environment_def)
  show ?thesis
    using tmpdir_keeps_guest [OF assms(1) t] normalize_preload_lookup [OF l] normalize_path_lookup [OF p]
      normalize_home_lookup [OF h] by blast
qed

lemma guest_valid_unchanged:
  assumes "\<And>v. map_of env ''TMPDIR'' = Some v \<Longrightarrow> \<not> is_signed ''TMPDIR'' \<Longrightarrow> is_writable_directory guest g v"
    and "\<And>v. map_of env ''LD_PRELOAD'' = Some v \<Longrightarrow> \<not> is_signed ''LD_PRELOAD'' \<Longrightarrow> preload_resolves guest g v"
    and "\<not> is_signed ''PATH'' \<Longrightarrow> map_of env ''PATH'' \<noteq> None \<and> map_of env ''PATH'' \<noteq> Some []"
    and "\<not> is_signed ''HOME'' \<Longrightarrow> map_of env ''HOME'' \<noteq> None"
  shows "normalize_customer_environment guest is_signed env g = (env, [], g)"
proof -
  have "normalize_tmpdir guest is_signed (env, [], g) = (env, [], g)"
    using assms(1) by (auto simp: normalize_tmpdir_def env_lookup_map_of tmpdir_reason_def split: option.split)
  moreover have "normalize_preload guest is_signed (env, [], g) = (env, [], g)"
    using assms(2) by (auto simp: normalize_preload_def env_lookup_map_of split: option.split)
  moreover have "normalize_path is_signed (env, [], g) = (env, [], g)"
    using assms(3) by (cases "is_signed ''PATH''") (auto simp: normalize_path_def env_lookup_map_of)
  moreover have "normalize_home is_signed (env, [], g) = (env, [], g)"
    using assms(4) by (auto simp: normalize_home_def env_lookup_map_of)
  ultimately show ?thesis by (simp add: normalize_customer_environment_def)
qed

lemma normalize_idempotent:
  assumes tmp: "is_writable_directory guest g DEFAULT_TMPDIR"
    and run: "normalize_customer_environment guest is_signed env g = (env', ch', g')"
  shows "normalize_customer_environment guest is_signed env' g' = (env', [], g')"
proof -
  have g: "g' = g" by (rule normalize_keeps_guest [OF tmp run])
  note look = normalize_lookup [OF run]
  show ?thesis
  proof (rule guest_valid_unchanged)
    fix v assume "map_of env' ''TMPDIR'' = Some v" "\<not> is_signed ''TMPDIR''"
    then show "is_writable_directory guest g' v"
      using look [of "''TMPDIR''"] tmp by (auto simp: g repaired_value_def split: option.splits if_splits)
  next
    fix v assume "map_of env' ''LD_PRELOAD'' = Some v" "\<not> is_signed ''LD_PRELOAD''"
    then show "preload_resolves guest g' v"
      using look [of "''LD_PRELOAD''"] by (auto simp: g repaired_value_def split: option.splits if_splits)
  next
    assume "\<not> is_signed ''PATH''"
    then show "map_of env' ''PATH'' \<noteq> None \<and> map_of env' ''PATH'' \<noteq> Some []"
      using look [of "''PATH''"] by (auto simp: repaired_value_def DEFAULT_PATH_def split: option.splits if_splits)
  next
    assume "\<not> is_signed ''HOME''"
    then show "map_of env' ''HOME'' \<noteq> None"
      using look [of "''HOME''"] by (auto simp: repaired_value_def split: option.splits)
  qed
qed

end

interpretation process_fs: guest_filesystem "process_filesystem sys"
  by unfold_locales (simp add: process_filesystem_def)

subsection \<open>The fetched values\<close>

lemma env_validate_response_Inr:
  "env_validate_response decode q body = Inr vs \<longleftrightarrow>
     (\<exists>r. decode body = Some r \<and> env_response_well_formed r \<and> es_binding r = er_binding q
        \<and> env_values_valid (es_values r) \<and> vs = es_values r)"
  by (auto simp: env_validate_response_def res_simps)

lemma env_values_unprotected:
  "env_values_valid vs \<Longrightarrow> name \<in> set PROTECTED_ENV_NAMES \<Longrightarrow> map_of (rev vs) name = None"
  by (auto simp: env_values_valid_def map_of_eq_None_iff)

lemma load_with_Inr:
  assumes "load_runtime_environment_with cr decode env b now nonce s = (Inr vs, s')"
  obtains (disabled) "vs = []" "s' = s" "\<forall>c. rb_runtime_env b = Some c \<longrightarrow> \<not> re_enabled c"
  | (fetched) q endpoint message sig s1 body reply where
      "env_request_of cr b now nonce = Inr q"
      "secure_endpoint cr (rb_slipway_url b) = Inr endpoint"
      "canonical_json_bytes cr (JObj (env_request_fields q)) = Some message"
      "env_sign cr (t_call env) message s = (Inr sig, s1)"
      "json_to_vec cr (signed_env_request_json q sig) = Some body"
      "t_post env s1 (url_text endpoint) body = (Inr reply, s')"
      "200 \<le> hr_status reply" "hr_status reply < 300"
      "env_validate_response decode q (hr_body reply) = Inr vs"
proof (cases "rb_runtime_env b = None \<or> (\<exists>c. rb_runtime_env b = Some c \<and> \<not> re_enabled c)")
  case True
  then show ?thesis
    using assms by (auto simp: load_runtime_environment_with_def intro: disabled)
next
  case False
  then obtain c where c: "rb_runtime_env b = Some c" "re_enabled c" by auto
  then have u: "re_url c = rb_slipway_url b"
    using assms by (auto simp: load_runtime_environment_with_def split: if_splits)
  then obtain endpoint q where e: "secure_endpoint cr (rb_slipway_url b) = Inr endpoint"
      "env_request_of cr b now nonce = Inr q"
    using assms c by (auto simp: load_runtime_environment_with_def split: sum.splits simp: res_simps)
  note start = assms [unfolded load_runtime_environment_with_def]
  then obtain message where m: "canonical_json_bytes cr (JObj (env_request_fields q)) = Some message"
    by (auto simp: c u e split: option.splits)
  obtain sg s1 where sg: "env_sign cr (t_call env) message s = (Inr sg, s1)"
    using start by (auto simp: c u e m split: sum.splits prod.splits)
  obtain body where body: "json_to_vec cr (signed_env_request_json q sg) = Some body"
    using start by (auto simp: c u e m sg split: option.splits)
  obtain x s2 where x: "t_post env s1 (url_text endpoint) body = (x, s2)" by (metis surj_pair)
  obtain reply where "x = Inr reply" "s' = s2" "200 \<le> hr_status reply" "hr_status reply < 300"
      "env_validate_response decode q (hr_body reply) = Inr vs"
    using start by (auto simp: c u e m sg body x split: sum.splits http_error.splits if_splits)
  then show ?thesis using fetched [OF e(2,1) m sg body] x by simp
qed

lemma env_sign_log:
  "env_sign cr (t_call env) message s = (r, s1) \<Longrightarrow> snd s1 = snd s @ [Called ''signer_sign'' (sign_params cr message)]"
  by (auto simp: env_sign_def t_call_def split: prod.splits sum.splits)

lemma env_request_of_Inr:
  assumes "env_request_of cr b now nonce = Inr q"
  shows "er_binding q = \<lparr>eb_application_uid = trim (rb_application_uid b), eb_application_id = trim (rb_application_id b),
      eb_policy_digest = to_ascii_lowercase (trim (rb_policy_digest b)), eb_job_id = trim (rb_job_id b),
      eb_deployment_id = trim (rb_deployment_id b), eb_processor_id = trim (rb_processor_id b)\<rparr>"
    "er_nonce q = hex_encode cr nonce" "er_issued_at_ms q = now" "er_expires_at_ms q = now + 60000"
    "now + 60000 \<le> u64_max"
  using assms by (auto simp: env_request_of_def res_simps sat_simps Let_def RUNTIME_ENV_REQUEST_TTL_MS_def)

section \<open>Properties\<close>

text \<open>
  C19. The environment given to the customer command, name by name: a signed value outranks
  everything; otherwise the customer sees what it may inherit, with the four repairs; names owned by
  the helper and protected names are never inherited.
\<close>

theorem customer_environment_values:
  "env_lookup (fst (customer_environment guest inherited rt g)) name =
     (case map_of (rev rt) name of
        Some v \<Rightarrow> Some v
      | None \<Rightarrow> repaired_value guest g (snd (snd (customer_environment guest inherited rt g))) name
                  (visible_environment inherited name))"
  by (rule customer_environment_lookup) (simp add: prod_eq_iff)

text \<open>
  C20. No protected name reaches the customer command: the values accepted from the signed runtime
  environment never carry one, and the inherited ones are removed.
\<close>

theorem protected_names_never_reach_customer:
  assumes "load_runtime_environment cr decode env b s = (Inr vs, s')"
    and "name \<in> set PROTECTED_ENV_NAMES"
  shows "env_lookup (fst (customer_environment guest inherited vs g)) name = None"
proof -
  have "vs = [] \<or> (\<exists>now nonce s1. load_runtime_environment_with cr decode env b now nonce s1 = (Inr vs, s'))"
    using assms(1) by (auto simp: load_runtime_environment_def split: if_splits sum.splits prod.splits)
  then have "vs = [] \<or> env_values_valid vs"
    by (auto elim!: load_with_Inr simp: env_validate_response_Inr)
  then have "map_of (rev vs) name = None"
    using env_values_unprotected assms(2) by auto
  then show ?thesis
    using customer_environment_lookup [of guest inherited vs g _ _ _ name]
    by (cases "customer_environment guest inherited vs g")
       (simp add: protected_not_repaired [OF assms(2)])
qed

text \<open>
  C21. The environment values come from one signed POST and from its answer alone. The request \<open>q\<close> carries the
  bootstrap's application, policy digest, job, deployment and processor, the drawn nonce and a lifetime of 60
  seconds; its canonical bytes are what the bridge signs, and the body posted to the HTTPS endpoint under the
  bootstrap's own URL is \<open>q\<close> with that signature. The values are those of the well-formed response that the
  answer to this POST, with a success status, decodes to, and this response names the same application,
  policy digest, job, deployment and processor.
\<close>

theorem runtime_environment_bound:
  assumes "load_runtime_environment_with cr decode env b now nonce s = (Inr vs, s')"
    and "rb_runtime_env b = Some c" and "re_enabled c"
  shows "\<exists>q endpoint message sig s1 body reply r.
      env_request_of cr b now nonce = Inr q \<and> er_nonce q = hex_encode cr nonce
    \<and> er_issued_at_ms q = now \<and> er_expires_at_ms q = now + 60000 \<and> now + 60000 \<le> u64_max
    \<and> secure_endpoint cr (rb_slipway_url b) = Inr endpoint
    \<and> canonical_json_bytes cr (JObj (env_request_fields q)) = Some message
    \<and> env_sign cr (t_call env) message s = (Inr sig, s1)
    \<and> json_to_vec cr (signed_env_request_json q sig) = Some body
    \<and> t_post env s1 (url_text endpoint) body = (Inr reply, s')
    \<and> snd s' = snd s @ [Called ''signer_sign'' (sign_params cr message), Posted (url_text endpoint) body]
    \<and> 200 \<le> hr_status reply \<and> hr_status reply < 300
    \<and> decode (hr_body reply) = Some r \<and> env_response_well_formed r \<and> es_values r = vs
    \<and> eb_application_uid (es_binding r) = trim (rb_application_uid b)
    \<and> eb_application_id (es_binding r) = trim (rb_application_id b)
    \<and> eb_policy_digest (es_binding r) = to_ascii_lowercase (trim (rb_policy_digest b))
    \<and> eb_job_id (es_binding r) = trim (rb_job_id b)
    \<and> eb_deployment_id (es_binding r) = trim (rb_deployment_id b)
    \<and> eb_processor_id (es_binding r) = trim (rb_processor_id b)
    \<and> er_binding q = es_binding r"
  using assms(1)
proof (cases rule: load_with_Inr)
  case disabled
  then show ?thesis using assms(2,3) by simp
next
  case (fetched q endpoint message sig s1 body reply)
  obtain r where r: "decode (hr_body reply) = Some r" "env_response_well_formed r"
      "es_binding r = er_binding q" "vs = es_values r"
    using fetched(9) by (auto simp: env_validate_response_Inr)
  have "snd s' = snd s1 @ [Posted (url_text endpoint) body]"
    using fetched(6) by (auto simp: t_post_def split: prod.splits)
  then have "snd s' = snd s @ [Called ''signer_sign'' (sign_params cr message), Posted (url_text endpoint) body]"
    using env_sign_log [OF fetched(4)] by simp
  then show ?thesis
    using fetched r env_request_of_Inr [OF fetched(1)]
    by (intro exI [of _ q] exI [of _ endpoint] exI [of _ message] exI [of _ sig] exI [of _ s1] exI [of _ body]
        exI [of _ reply] exI [of _ r]) simp
qed

text \<open>
  With the helper's own filesystem and a usable \<open>/tmp\<close>, repairing an environment that was
  repaired before changes neither it nor the filesystem, and records no change.
\<close>

theorem normalize_twice:
  assumes "is_writable_directory (process_filesystem sys) g DEFAULT_TMPDIR"
    and "normalize_customer_environment (process_filesystem sys) is_signed env g = (env', ch', g')"
  shows "normalize_customer_environment (process_filesystem sys) is_signed env' g' = (env', [], g')"
  using assms by (rule process_fs.normalize_idempotent)

section \<open>Witnesses\<close>

definition sample_bootstrap :: runtime_bootstrap_response where
  "sample_bootstrap = sample_response\<lparr>rb_runtime_env := Some \<lparr>re_enabled = True, re_url = ''s''\<rparr>\<rparr>"

definition sample_env_response :: runtime_env_response where
  "sample_env_response =
     \<lparr>es_ok = True, es_domain = RUNTIME_ENV_RESPONSE_DOMAIN_V2, es_request_id = ''r'',
      es_binding = \<lparr>eb_application_uid = ''u'', eb_application_id = ''a'', eb_policy_digest = ''d'',
        eb_job_id = ''job'', eb_deployment_id = ''4'', eb_processor_id = ''p''\<rparr>,
      es_revision = ''1'', es_issued_at_ms = 1, es_expires_at_ms = 3, es_refresh_after_ms = 2,
      es_values = [(''KEY'', ''v'')]\<rparr>"

lemma sample_trims:
  "trim ''u'' = ''u''" "trim ''a'' = ''a''" "trim ''d'' = ''d''" "trim ''job'' = ''job''" "trim ''4'' = ''4''"
  "trim ''p'' = ''p''" "to_ascii_lowercase ''d'' = ''d''"
  by code_simp+

lemma sample_env_request:
  "\<exists>q. env_request_of sample_crates sample_bootstrap 1000 [0, 1] = Inr q
      \<and> er_binding q = es_binding sample_env_response"
  by (simp add: env_request_of_def sample_bootstrap_def sample_response_def checked_add_u64_def
      RUNTIME_ENV_REQUEST_TTL_MS_def u64_max_def sample_env_response_def sample_trims)

lemma sample_env_load:
  "fst (load_runtime_environment_with sample_crates (\<lambda>b. Some sample_env_response) sample_env sample_bootstrap
     1000 [0, 1] ((), log)) = Inr [(''KEY'', ''v'')]"
proof -
  have sig: "normalize_signature (replicate 128 (CHR ''a'')) = Some (replicate 128 (CHR ''a''))"
    using sample_hex [of 64] by (simp add: normalize_signature_def normalize_hex_exact_def)
  have "\<exists>endpoint. secure_endpoint sample_crates ''s'' = Inr endpoint"
    by (simp add: secure_endpoint_def sample_crates_def)
  then obtain endpoint where "secure_endpoint sample_crates ''s'' = Inr endpoint" by blast
  moreover obtain q where "env_request_of sample_crates sample_bootstrap 1000 [0, 1] = Inr q"
    "er_binding q = es_binding sample_env_response" using sample_env_request by blast
  moreover have "env_response_well_formed sample_env_response"
    by (simp add: env_response_well_formed_def sample_env_response_def)
  moreover have "env_values_valid (es_values sample_env_response)"
    by code_simp
  moreover have "rb_runtime_env sample_bootstrap = Some \<lparr>re_enabled = True, re_url = ''s''\<rparr>"
    "rb_slipway_url sample_bootstrap = ''s''" "es_values sample_env_response = [(''KEY'', ''v'')]"
    by (simp_all add: sample_bootstrap_def sample_response_def sample_env_response_def)
  ultimately show ?thesis using sig
    by (simp add: load_runtime_environment_with_def env_sign_def canonical_json_bytes_def sample_fields
        t_call_def t_post_def sample_call_def sample_key_def replicate_add [symmetric] json_get_def
        env_validate_response_def)
qed

lemma sample_env_load_now:
  "fst (load_runtime_environment sample_crates (\<lambda>b. Some sample_env_response) sample_env sample_bootstrap
     ((), [])) = Inr [(''KEY'', ''v'')]"
  by (simp add: load_runtime_environment_def sample_bootstrap_def t_fill_random_def t_unix_time_ms_def
      sample_fields sample_env_load [unfolded sample_bootstrap_def])

lemma pair_of_fst: "fst p = a \<Longrightarrow> p = (a, snd p)"
  by (cases p) simp

theorem protected_names_never_reach_customer_witness:
  "fst (load_runtime_environment sample_crates (\<lambda>b. Some sample_env_response) sample_env sample_bootstrap
     ((), [])) = Inr [(''KEY'', ''v'')]
   \<and> ''LISKOV_BOOTSTRAP'' \<in> set PROTECTED_ENV_NAMES
   \<and> env_lookup (fst (customer_environment
        \<lparr>is_directory = (\<lambda>g p. True), is_writable_directory = (\<lambda>g p. True), is_file = (\<lambda>g p. True),
         create_sticky_directory = (\<lambda>g p. g)\<rparr>
        [(''LISKOV_BOOTSTRAP'', ''token'')] [(''KEY'', ''v'')] ())) ''LISKOV_BOOTSTRAP'' = None"
proof -
  have name: "''LISKOV_BOOTSTRAP'' \<in> set PROTECTED_ENV_NAMES"
    by (simp add: PROTECTED_ENV_NAMES_def BOOTSTRAP_ENV_def)
  show ?thesis
    by (intro conjI sample_env_load_now name
        protected_names_never_reach_customer [OF pair_of_fst [OF sample_env_load_now] name])
qed

theorem runtime_environment_bound_witness:
  "fst (load_runtime_environment_with sample_crates (\<lambda>b. Some sample_env_response) sample_env
      sample_bootstrap 1000 [0, 1] ((), [])) = Inr [(''KEY'', ''v'')]
   \<and> (\<exists>q message url body. env_request_of sample_crates sample_bootstrap 1000 [0, 1] = Inr q
        \<and> er_expires_at_ms q = 61000 \<and> eb_policy_digest (er_binding q) = ''d''
        \<and> snd (snd (load_runtime_environment_with sample_crates (\<lambda>b. Some sample_env_response) sample_env
             sample_bootstrap 1000 [0, 1] ((), [])))
          = [Called ''signer_sign'' (sign_params sample_crates message), Posted url body])"
proof -
  have on: "rb_runtime_env sample_bootstrap = Some \<lparr>re_enabled = True, re_url = ''s''\<rparr>"
      "re_enabled \<lparr>re_enabled = True, re_url = ''s''\<rparr>"
    by (simp_all add: sample_bootstrap_def)
  from runtime_environment_bound [OF pair_of_fst [OF sample_env_load [of "[]"]] on]
  obtain q message body and endpoint :: url and r :: runtime_env_response where "env_request_of sample_crates sample_bootstrap 1000 [0, 1] = Inr q"
      "er_expires_at_ms q = 1000 + 60000" "er_binding q = es_binding r"
      "eb_policy_digest (es_binding r) = to_ascii_lowercase (trim (rb_policy_digest sample_bootstrap))"
      "snd (snd (load_runtime_environment_with sample_crates (\<lambda>b. Some sample_env_response) sample_env
         sample_bootstrap 1000 [0, 1] ((), [])))
       = snd ((), []) @ [Called ''signer_sign'' (sign_params sample_crates message), Posted (url_text endpoint) body]"
    by (elim exE conjE) (rule that; assumption)
  moreover have "to_ascii_lowercase (trim (rb_policy_digest sample_bootstrap)) = ''d''"
    by (simp add: sample_bootstrap_def sample_response_def sample_trims)
  ultimately show ?thesis using sample_env_load [of "[]"] by auto
qed

definition sample_syscalls :: "unit syscalls" where
  "sample_syscalls =
     \<lparr>sys_metadata = (\<lambda>g p. if p = ''/tmp'' then Some TypeDirectory else None),
      sys_access_wx = (\<lambda>g p. True), sys_create_dir = (\<lambda>g p. (False, g)), sys_chmod = (\<lambda>g p m. g)\<rparr>"

theorem normalize_twice_witness:
  "normalize_customer_environment (process_filesystem sample_syscalls) (\<lambda>n. False)
      [(''TMPDIR'', ''/data''), (''HOME'', ''/h'')] ()
     = ([(''TMPDIR'', ''/tmp''), (''HOME'', ''/h''), (''PATH'', DEFAULT_PATH)],
        [(''TMPDIR'', DirectoryMissing), (''PATH'', Unset)], ())
   \<and> normalize_customer_environment (process_filesystem sample_syscalls) (\<lambda>n. False)
      [(''TMPDIR'', ''/tmp''), (''HOME'', ''/h''), (''PATH'', DEFAULT_PATH)] ()
     = ([(''TMPDIR'', ''/tmp''), (''HOME'', ''/h''), (''PATH'', DEFAULT_PATH)], [], ())"
proof -
  have tmp: "is_writable_directory (process_filesystem sample_syscalls) () DEFAULT_TMPDIR"
    by (simp add: process_filesystem_def sample_syscalls_def DEFAULT_TMPDIR_def)
  have run: "normalize_customer_environment (process_filesystem sample_syscalls) (\<lambda>n. False)
      [(''TMPDIR'', ''/data''), (''HOME'', ''/h'')] ()
     = ([(''TMPDIR'', ''/tmp''), (''HOME'', ''/h''), (''PATH'', DEFAULT_PATH)],
        [(''TMPDIR'', DirectoryMissing), (''PATH'', Unset)], ())"
    by (simp add: normalize_customer_environment_def normalize_tmpdir_def normalize_preload_def
        normalize_path_def normalize_home_def tmpdir_reason_def env_lookup_def process_filesystem_def
        sample_syscalls_def DEFAULT_TMPDIR_def)
  show ?thesis using normalize_twice [OF tmp run] run by blast
qed

end
