(* ===== verification/Supervisor.thy ===== *)
theory Supervisor
  imports Environment
begin

text \<open>
  The process supervisor of \<open>src/supervisor.rs\<close>: the effective restart policy, the deterministic
  backoff, the poll loop around one customer process, the cleanup of its process group and the restart
  loop, with every report and every early return.

  The operating system is the record \<open>os_calls\<close> over an arbitrary world: the clock, the pending
  signal, \<open>spawn\<close>, \<open>try_wait\<close>, \<open>kill\<close>, \<open>waitpid\<close>, \<open>prctl\<close>, \<open>signal\<close> and \<open>sleep\<close>. A run threads the
  world and a log. Loops that end only when the clock or the customer process lets them take fuel; a
  run that is cut off has the result \<open>None\<close> and keeps its log, so that the safety statements also
  cover runs that never end. Instants and durations are nanoseconds.
\<close>

section \<open>Runs\<close>

type_synonym ('s, 'a) run = "'s \<Rightarrow> 'a option \<times> 's"

definition ret :: "'a \<Rightarrow> ('s, 'a) run" where "ret a s = (Some a, s)"

definition cut_off :: "('s, 'a) run" where "cut_off s = (None, s)"

definition run_bind :: "('s, 'a) run \<Rightarrow> ('a \<Rightarrow> ('s, 'b) run) \<Rightarrow> ('s, 'b) run" where
  "run_bind m f s = (case m s of (None, s1) \<Rightarrow> (None, s1) | (Some a, s1) \<Rightarrow> f a s1)"

definition run_seq :: "('s, unit) run \<Rightarrow> ('s, 'b) run \<Rightarrow> ('s, 'b) run" where
  "run_seq m k = run_bind m (\<lambda>_. k)"

section \<open>The operating system\<close>

record exit_status =
  status_code :: "int option"
  status_signal :: "int option"

datatype wait_answer = WaitFailed | StillRunning | Exited exit_status

type_synonym attrs = "(string \<times> json) list"

record 'w os_calls =
  os_now :: "'w \<Rightarrow> nat \<times> 'w"
  os_take_signal :: "'w \<Rightarrow> int \<times> 'w" \<comment> \<open>the atomic swap; 0 when none is pending\<close>
  os_clear_signal :: "'w \<Rightarrow> 'w"
  os_spawn :: "'w \<Rightarrow> string list \<Rightarrow> environment \<Rightarrow> bool \<Rightarrow> nat option \<times> 'w"
  os_try_wait :: "'w \<Rightarrow> wait_answer \<times> 'w"
  os_kill :: "'w \<Rightarrow> int \<Rightarrow> int \<Rightarrow> int \<times> 'w" \<comment> \<open>0, or the error number\<close>
  os_waitpid_any :: "'w \<Rightarrow> int \<times> 'w"
  os_sleep :: "'w \<Rightarrow> duration \<Rightarrow> 'w"
  os_get_subreaper :: "'w \<Rightarrow> int option \<times> 'w"
  os_set_subreaper :: "'w \<Rightarrow> int \<Rightarrow> bool \<times> 'w"
  os_signal :: "'w \<Rightarrow> int \<Rightarrow> nat \<Rightarrow> nat option \<times> 'w" \<comment> \<open>the previous handler\<close>
  os_session_reports :: "'w \<Rightarrow> (string \<times> attrs) list \<times> 'w" \<comment> \<open>endpoint and sidecar events\<close>
  os_thermal :: "'w \<Rightarrow> attrs option \<times> 'w"
  os_memory :: "'w \<Rightarrow> nat option \<Rightarrow> attrs \<times> 'w"

datatype diagnostic_status = Started | Succeeded | Failed | Info

datatype sup_event =
    Reported string diagnostic_status "string option" attrs
  | ChildBegun
  | ChildEnded
  | FactsStarted string
  | Spawned int environment
  | SpawnFailed
  | Probed int bool
  | Killed int int
  | Waited exit_status
  | Delayed duration
  | TookSignal int
  | OutputFinished

type_synonym 'w sup_state = "'w \<times> sup_event list"

definition log_event :: "sup_event \<Rightarrow> ('w sup_state, unit) run" where
  "log_event e s = (Some (), fst s, snd s @ [e])"

definition os_call :: "('w \<Rightarrow> 'a \<times> 'w) \<Rightarrow> ('w sup_state, 'a) run" where
  "os_call f s = (case f (fst s) of (a, w) \<Rightarrow> (Some a, w, snd s))"

definition os_do :: "('w \<Rightarrow> 'w) \<Rightarrow> ('w sup_state, unit) run" where
  "os_do f s = (Some (), f (fst s), snd s)"

section \<open>Constants\<close>

definition HEALTH_CADENCE :: duration where "HEALTH_CADENCE = from_secs 30"
definition MAX_INITIAL_HEALTH_JITTER :: duration where "MAX_INITIAL_HEALTH_JITTER = from_secs 30"
definition POLL_INTERVAL :: duration where "POLL_INTERVAL = from_millis 25"
definition STABILITY_RESET :: duration where "STABILITY_RESET = from_secs 300"
definition FINAL_RUNWAY :: duration where "FINAL_RUNWAY = from_secs 5"
definition FORWARDED_SIGNAL_GRACE :: duration where "FORWARDED_SIGNAL_GRACE = from_secs 5"
definition CLEANUP_GRACE :: duration where "CLEANUP_GRACE = from_millis 500"
definition BACKOFF_PROFILE :: bytes where "BACKOFF_PROFILE = as_bytes ''runtime-cargo-backoff.v1'' @ [0]"

definition SIGKILL :: int where "SIGKILL = 9"
definition SIGTERM :: int where "SIGTERM = 15"
definition ESRCH :: int where "ESRCH = 3"
definition EPERM :: int where "EPERM = 1"
definition SUPPORTED_SIGNALS :: "int list" where "SUPPORTED_SIGNALS = [1, 2, 3, 10, 12, 15]"

section \<open>Policy and backoff\<close>

datatype supervisor_exit = ExitCode int | ExitSignal int

record effective_policy_t =
  ep_mode :: supervision_mode
  ep_deadline :: "nat option"

text \<open>
  \<open>Instant::checked_add\<close> fails past the largest instant the clock can represent, a parameter.
\<close>

definition effective_policy :: "nat \<Rightarrow> supervision_policy_t option \<Rightarrow> duration \<Rightarrow> nat \<Rightarrow> effective_policy_t" where
  "effective_policy instant_max policy bootstrap_elapsed now =
     (let never = \<lparr>ep_mode = Never, ep_deadline = None\<rparr> in
      case policy of
        None \<Rightarrow> never
      | Some p \<Rightarrow>
          if sp_schedule_end_ms p < sp_server_time_ms p then never
          else let remaining = saturating_sub
                     (from_millis (sp_schedule_end_ms p - sp_server_time_ms p)) bootstrap_elapsed
               in if now + remaining > instant_max then never
                  else \<lparr>ep_mode = sp_mode p, ep_deadline = Some (now + remaining)\<rparr>)"

text \<open>The big-endian value of the first eight digest bytes.\<close>

definition of_be_bytes :: "bytes \<Rightarrow> nat" where
  "of_be_bytes bs = fold (\<lambda>b acc. acc * 256 + unat b) bs 0"

definition deterministic_backoff :: "crates \<Rightarrow> string \<Rightarrow> nat \<Rightarrow> nat \<Rightarrow> duration" where
  "deterministic_backoff cr runtime_instance_id process_attempt consecutive_failure =
     (let exponent = min consecutive_failure 6;
          ceiling_ms = min (1000 * 2 ^ exponent) 60000;
          floor_ms = ceiling_ms div 2;
          digest = sha256_digest cr (BACKOFF_PROFILE @ as_bytes runtime_instance_id @ [0]
                     @ be_bytes 8 process_attempt);
          sample = of_be_bytes (take 8 digest);
          delay_ms = floor_ms + sample mod (ceiling_ms - floor_ms + 1)
      in from_millis delay_ms)"

definition initial_health_jitter :: "crates \<Rightarrow> string \<Rightarrow> nat \<Rightarrow> duration" where
  "initial_health_jitter cr runtime_instance_id process_attempt =
     (let digest = sha256_digest cr (as_bytes ''runtime-cargo-health-jitter.v1'' @ [0]
                     @ as_bytes runtime_instance_id @ be_bytes 8 process_attempt);
          sample = of_be_bytes (take 8 digest);
          max_ms = as_millis MAX_INITIAL_HEALTH_JITTER
      in from_millis (sample mod (max_ms + 1)))"

definition restart_delay ::
  "crates \<Rightarrow> effective_policy_t \<Rightarrow> nat \<Rightarrow> nat \<Rightarrow> nat \<Rightarrow> duration \<Rightarrow> string \<Rightarrow> nat \<Rightarrow> string + duration" where
  "restart_delay cr policy process_attempt restart_count consecutive_failures uptime runtime_instance_id now =
     (case ep_mode policy of
        Never \<Rightarrow> Inl ''policy_never''
      | OnFailure limit \<Rightarrow>
     if (case limit of Attempts max_restarts \<Rightarrow> restart_count \<ge> max_restarts | ScheduleEnd \<Rightarrow> False)
     then Inl ''attempt_limit_reached''
     else (case ep_deadline policy of
        None \<Rightarrow> Inl ''schedule_end_reached''
      | Some deadline \<Rightarrow>
          let remaining = saturating_sub deadline now in
          if remaining \<le> FINAL_RUNWAY then Inl ''schedule_end_reached''
          else let failure_index = (if uptime \<ge> STABILITY_RESET then 0 else consecutive_failures);
                   normal = deterministic_backoff cr runtime_instance_id process_attempt failure_index
               in Inr (min normal (saturating_sub remaining FINAL_RUNWAY))))"

definition duration_ms :: "duration \<Rightarrow> nat" where
  "duration_ms d = (if as_millis d \<le> u64_max then as_millis d else u64_max)"

section \<open>Signals and process groups\<close>

definition take_signal :: "'w os_calls \<Rightarrow> ('w sup_state, int option) run" where
  "take_signal os = run_bind (os_call (os_take_signal os)) (\<lambda>sig.
     if sig = 0 then ret None else run_seq (log_event (TookSignal sig)) (ret (Some sig)))"

definition signal_process_group :: "'w os_calls \<Rightarrow> int \<Rightarrow> int \<Rightarrow> ('w sup_state, bool) run" where
  "signal_process_group os pg sig =
     run_bind (os_call (\<lambda>w. os_kill os w (- pg) sig)) (\<lambda>err.
       run_seq (log_event (Killed pg sig)) (ret (err = 0 \<or> err = ESRCH)))"

definition process_group_exists :: "'w os_calls \<Rightarrow> int \<Rightarrow> ('w sup_state, bool) run" where
  "process_group_exists os pg =
     run_bind (os_call (\<lambda>w. os_kill os w (- pg) 0)) (\<lambda>err.
       run_seq (log_event (Probed pg (err = 0 \<or> err = EPERM))) (ret (err = 0 \<or> err = EPERM)))"

fun reap_descendants :: "nat \<Rightarrow> 'w os_calls \<Rightarrow> ('w sup_state, unit) run" where
  "reap_descendants 0 os = cut_off"
| "reap_descendants (Suc fuel) os =
     run_bind (os_call (os_waitpid_any os)) (\<lambda>pid.
       if pid \<le> 0 then ret () else reap_descendants fuel os)"

fun await_group_end :: "nat \<Rightarrow> 'w os_calls \<Rightarrow> int \<Rightarrow> nat \<Rightarrow> ('w sup_state, unit) run" where
  "await_group_end 0 os pg deadline = cut_off"
| "await_group_end (Suc fuel) os pg deadline =
     run_bind (process_group_exists os pg) (\<lambda>alive.
       if \<not> alive then ret ()
       else run_bind (os_call (os_now os)) (\<lambda>now.
         if \<not> now < deadline then ret ()
         else run_seq (reap_descendants (Suc fuel) os)
           (run_seq (os_do (\<lambda>w. os_sleep os w POLL_INTERVAL))
             (await_group_end fuel os pg deadline))))"

definition terminate_and_reap_group :: "nat \<Rightarrow> 'w os_calls \<Rightarrow> int \<Rightarrow> ('w sup_state, bool) run" where
  "terminate_and_reap_group fuel os pg =
     (if pg \<le> 0 then ret False
      else run_bind (signal_process_group os pg SIGTERM) (\<lambda>_.
        run_bind (os_call (os_now os)) (\<lambda>t1.
        run_seq (await_group_end fuel os pg (t1 + CLEANUP_GRACE))
        (run_bind (process_group_exists os pg) (\<lambda>alive.
        run_seq (if alive then run_bind (signal_process_group os pg SIGKILL) (\<lambda>_. ret ()) else ret ())
        (run_bind (os_call (os_now os)) (\<lambda>t2.
        run_seq (await_group_end fuel os pg (t2 + CLEANUP_GRACE))
        (run_seq (reap_descendants fuel os)
        (run_bind (process_group_exists os pg) (\<lambda>alive. ret (\<not> alive)))))))))))"

fun sleep_until :: "nat \<Rightarrow> 'w os_calls \<Rightarrow> nat \<Rightarrow> ('w sup_state, int option) run" where
  "sleep_until 0 os deadline = cut_off"
| "sleep_until (Suc fuel) os deadline =
     run_bind (os_call (os_now os)) (\<lambda>now.
       if \<not> now < deadline then ret None
       else run_bind (take_signal os) (\<lambda>sig.
         case sig of
           Some n \<Rightarrow> ret (Some n)
         | None \<Rightarrow> run_bind (os_call (os_now os)) (\<lambda>now2.
             run_seq (os_do (\<lambda>w. os_sleep os w (min POLL_INTERVAL (saturating_sub deadline now2))))
               (sleep_until fuel os deadline))))"

definition sleep_interruptibly :: "nat \<Rightarrow> 'w os_calls \<Rightarrow> duration \<Rightarrow> ('w sup_state, int option) run" where
  "sleep_interruptibly fuel os d =
     run_bind (os_call (os_now os)) (\<lambda>now.
       run_seq (log_event (Delayed d)) (sleep_until fuel os (now + d)))"

text \<open>Installing the signal handlers and the subreaper flag, and what the guard's drop restores.\<close>

definition CAPTURE_SIGNAL :: nat where "CAPTURE_SIGNAL = 1"

fun restore_handlers :: "'w os_calls \<Rightarrow> (int \<times> nat) list \<Rightarrow> ('w sup_state, unit) run" where
  "restore_handlers os [] = ret ()"
| "restore_handlers os ((sig, handler) # rest) =
     run_bind (os_call (\<lambda>w. os_signal os w sig handler)) (\<lambda>_. restore_handlers os rest)"

fun install_handlers ::
  "'w os_calls \<Rightarrow> int list \<Rightarrow> (int \<times> nat) list \<Rightarrow> ('w sup_state, bool \<times> (int \<times> nat) list) run" where
  "install_handlers os [] done_so_far = ret (True, done_so_far)"
| "install_handlers os (sig # sigs) done_so_far =
     run_bind (os_call (\<lambda>w. os_signal os w sig CAPTURE_SIGNAL)) (\<lambda>previous.
       case previous of
         None \<Rightarrow> ret (False, done_so_far)
       | Some handler \<Rightarrow> install_handlers os sigs (done_so_far @ [(sig, handler)]))"

definition install_process_authority ::
  "'w os_calls \<Rightarrow> ('w sup_state, ((int \<times> nat) list \<times> int) option) run" where
  "install_process_authority os =
     run_seq (os_do (os_clear_signal os))
     (run_bind (os_call (os_get_subreaper os)) (\<lambda>was.
       case was of
         None \<Rightarrow> ret None
       | Some was_subreaper \<Rightarrow>
           run_bind (os_call (\<lambda>w. os_set_subreaper os w 1)) (\<lambda>ok.
             if \<not> ok then ret None
             else run_bind (install_handlers os SUPPORTED_SIGNALS []) (\<lambda>r.
               case r of
                 (True, handlers) \<Rightarrow> ret (Some (handlers, was_subreaper))
               | (False, handlers) \<Rightarrow>
                   run_seq (restore_handlers os handlers)
                     (run_bind (os_call (\<lambda>w. os_set_subreaper os w was_subreaper)) (\<lambda>_. ret None))))))"

definition drop_process_authority ::
  "'w os_calls \<Rightarrow> (int \<times> nat) list \<times> int \<Rightarrow> ('w sup_state, unit) run" where
  "drop_process_authority os g =
     run_seq (restore_handlers os (fst g))
       (run_bind (os_call (\<lambda>w. os_set_subreaper os w (snd g))) (\<lambda>_. ret ()))"

section \<open>Reports\<close>

text \<open>
  What is fixed for a whole supervision: whether there is a reporter and an access session, the
  command and its environment, whether output is captured, and the identity the backoff is keyed on.
\<close>

record supervision =
  sv_reporter :: bool
  sv_session :: bool
  sv_command :: "string list"
  sv_environment :: environment
  sv_capture :: bool
  sv_instance :: string
  sv_policy :: effective_policy_t
  sv_version :: string

definition report ::
  "supervision \<Rightarrow> string \<Rightarrow> diagnostic_status \<Rightarrow> string option \<Rightarrow> attrs \<Rightarrow> ('w sup_state, unit) run" where
  "report sv stage status c attrs =
     (if sv_reporter sv then log_event (Reported stage status c attrs) else ret ())"

definition attempt_attrs :: "nat \<Rightarrow> nat \<Rightarrow> attrs" where
  "attempt_attrs process_attempt restart_count =
     [(''processAttempt'', json_u64 process_attempt), (''restartCount'', json_u64 restart_count)]"

definition json_int :: "int \<Rightarrow> json" where
  "json_int i = (if i < 0 then JNum (NegInt i) else JNum (PosInt (nat i)))"

text \<open>\<open>with_readings\<close>: the thermal keys when the class could be read, then the memory keys.\<close>

definition with_readings :: "attrs \<Rightarrow> attrs option \<Rightarrow> attrs \<Rightarrow> attrs" where
  "with_readings attrs thermal memory =
     attrs @ (case thermal of None \<Rightarrow> [] | Some t \<Rightarrow> t) @ memory"

definition report_with_readings ::
  "'w os_calls \<Rightarrow> supervision \<Rightarrow> nat option \<Rightarrow> string \<Rightarrow> diagnostic_status \<Rightarrow> attrs \<Rightarrow> ('w sup_state, unit) run"
where
  "report_with_readings os sv workload stage status attrs =
     run_bind (os_call (os_thermal os)) (\<lambda>thermal.
       run_bind (os_call (\<lambda>w. os_memory os w workload)) (\<lambda>memory.
         report sv stage status None (with_readings attrs thermal memory)))"

fun log_reports :: "(string \<times> attrs) list \<Rightarrow> ('w sup_state, unit) run" where
  "log_reports [] = ret ()"
| "log_reports ((stage, attrs) # rest) =
     run_seq (log_event (Reported stage Info None attrs)) (log_reports rest)"

definition session_events :: "'w os_calls \<Rightarrow> supervision \<Rightarrow> ('w sup_state, unit) run" where
  "session_events os sv =
     (if sv_session sv
      then run_bind (os_call (os_session_reports os)) (\<lambda>rs.
             if sv_reporter sv then log_reports rs else ret ())
      else ret ())"

definition end_child :: "supervision \<Rightarrow> ('w sup_state, unit) run" where
  "end_child sv = (if sv_reporter sv then log_event ChildEnded else ret ())"

datatype failure_reason = ExitNonzero int | SignalUnexpected int

fun restart_reason :: "failure_reason \<Rightarrow> string" where
  "restart_reason (ExitNonzero _) = ''exit_nonzero''"
| "restart_reason (SignalUnexpected _) = ''signal_unexpected''"

fun fatal_code :: "failure_reason \<Rightarrow> string" where
  "fatal_code (ExitNonzero _) = ''process_exit_nonzero''"
| "fatal_code (SignalUnexpected _) = ''process_signal_unexpected''"

fun failure_exit :: "failure_reason \<Rightarrow> supervisor_exit" where
  "failure_exit (ExitNonzero c) = ExitCode c"
| "failure_exit (SignalUnexpected n) = ExitSignal n"

definition exit_attrs :: "nat \<Rightarrow> nat \<Rightarrow> attrs \<Rightarrow> duration \<Rightarrow> bool \<Rightarrow> bool \<Rightarrow> attrs" where
  "exit_attrs process_attempt restart_count outcome uptime final_attempt cleanup_complete =
     attempt_attrs process_attempt restart_count @ outcome
     @ [(''uptimeMs'', json_u64 (duration_ms uptime)), (''final'', JBool final_attempt),
        (''cleanupComplete'', JBool cleanup_complete)]"

fun report_attempt_failure ::
  "'w os_calls \<Rightarrow> supervision \<Rightarrow> failure_reason \<Rightarrow> nat \<Rightarrow> nat \<Rightarrow> duration \<Rightarrow> bool \<Rightarrow> bool \<Rightarrow> ('w sup_state, unit) run"
where
  "report_attempt_failure os sv (ExitNonzero c) pa rc uptime cleanup final_attempt =
     report_with_readings os sv None ''runtime.cargo.process.exited'' Failed
       (exit_attrs pa rc [(''exitCode'', json_int c)] uptime final_attempt cleanup)"
| "report_attempt_failure os sv (SignalUnexpected sig) pa rc uptime cleanup final_attempt =
     report_with_readings os sv None ''runtime.cargo.process.signaled'' Failed
       (exit_attrs pa rc [(''signal'', json_int sig), (''signalSource'', JStr ''child_unexpected'')]
          uptime final_attempt cleanup)"

definition report_final_failure ::
  "supervision \<Rightarrow> failure_reason \<Rightarrow> string \<Rightarrow> nat \<Rightarrow> nat \<Rightarrow> duration \<Rightarrow> bool \<Rightarrow> ('w sup_state, unit) run" where
  "report_final_failure sv failure disposition pa rc uptime cleanup =
     report sv ''runtime.fatal.cargo.process'' Failed (Some (fatal_code failure))
       (attempt_attrs pa rc
        @ [(''uptimeMs'', json_u64 (duration_ms uptime)), (''cleanupComplete'', JBool cleanup),
           (''restartDisposition'', JStr disposition),
           (case failure of ExitNonzero c \<Rightarrow> (''exitCode'', json_int c)
            | SignalUnexpected sig \<Rightarrow> (''signal'', json_int sig))])"

definition schedule_restart ::
  "supervision \<Rightarrow> failure_reason \<Rightarrow> nat \<Rightarrow> duration \<Rightarrow> ('w sup_state, unit) run" where
  "schedule_restart sv failure pa delay =
     report sv ''runtime.cargo.process.restart_scheduled'' Info None
       [(''fromProcessAttempt'', json_u64 pa),
        (''toProcessAttempt'', json_u64 (saturating_add_u64 pa 1)),
        (''reason'', JStr (restart_reason failure)), (''delayMs'', json_u64 (duration_ms delay))]"

section \<open>One customer process\<close>

text \<open>
  The poll loop. It ends with the status of the process and whether a signal was forwarded, or with
  an exit of the supervisor after a failed \<open>kill\<close> or \<open>wait\<close>.
\<close>

definition fatal_supervisor ::
  "nat \<Rightarrow> 'w os_calls \<Rightarrow> supervision \<Rightarrow> int \<Rightarrow> string \<Rightarrow> nat \<Rightarrow> nat \<Rightarrow> ('w sup_state, supervisor_exit) run" where
  "fatal_supervisor fuel os sv pg reason pa rc =
     run_bind (terminate_and_reap_group fuel os pg) (\<lambda>cleanup.
       run_seq (end_child sv)
         (run_seq (report sv ''runtime.fatal.cargo.supervisor'' Failed (Some reason)
             (attempt_attrs pa rc @ [(''cleanupComplete'', JBool cleanup)]))
           (ret (ExitCode 70))))"

definition forward_signal ::
  "'w os_calls \<Rightarrow> int \<Rightarrow> (int \<times> nat) option \<Rightarrow> ('w sup_state, bool \<times> (int \<times> nat) option) run" where
  "forward_signal os pg forwarded =
     run_bind (take_signal os) (\<lambda>sig.
       case sig of
         None \<Rightarrow> ret (True, forwarded)
       | Some n \<Rightarrow>
           if forwarded \<noteq> None then ret (True, forwarded)
           else run_bind (signal_process_group os pg n) (\<lambda>ok.
             if \<not> ok then ret (False, forwarded)
             else run_bind (os_call (os_now os)) (\<lambda>now. ret (True, Some (n, now)))))"

definition force_cleanup ::
  "'w os_calls \<Rightarrow> int \<Rightarrow> (int \<times> nat) option \<Rightarrow> bool \<Rightarrow> ('w sup_state, bool) run" where
  "force_cleanup os pg forwarded forced =
     (case forwarded of
        None \<Rightarrow> ret forced
      | Some (_, forwarded_at) \<Rightarrow>
          if forced then ret forced
          else run_bind (os_call (os_now os)) (\<lambda>now.
            if saturating_sub now forwarded_at \<ge> FORWARDED_SIGNAL_GRACE
            then run_bind (signal_process_group os pg SIGKILL) (\<lambda>_. ret True)
            else ret forced))"

definition health_beat ::
  "'w os_calls \<Rightarrow> supervision \<Rightarrow> nat \<Rightarrow> nat \<Rightarrow> nat \<Rightarrow> nat \<Rightarrow> ('w sup_state, nat) run" where
  "health_beat os sv root pa rc next_health =
     run_bind (os_call (os_now os)) (\<lambda>now.
       if now \<ge> next_health
       then run_seq (report_with_readings os sv (Some root) ''runtime.health'' Info (attempt_attrs pa rc))
              (run_bind (os_call (os_now os)) (\<lambda>now2. ret (now2 + HEALTH_CADENCE)))
       else ret next_health)"

fun poll_child ::
  "nat \<Rightarrow> 'w os_calls \<Rightarrow> supervision \<Rightarrow> int \<Rightarrow> nat \<Rightarrow> nat \<Rightarrow> nat \<Rightarrow> nat \<Rightarrow> (int \<times> nat) option \<Rightarrow> bool
     \<Rightarrow> ('w sup_state, supervisor_exit + exit_status \<times> bool) run" where
  "poll_child 0 os sv pg root pa rc next_health forwarded forced = cut_off"
| "poll_child (Suc fuel) os sv pg root pa rc next_health forwarded forced =
     run_seq (session_events os sv)
     (run_bind (forward_signal os pg forwarded) (\<lambda>(ok, forwarded).
       if \<not> ok then run_bind (fatal_supervisor (Suc fuel) os sv pg ''signal_forward_failed'' pa rc) (\<lambda>e. ret (Inl e))
       else run_bind (force_cleanup os pg forwarded forced) (\<lambda>forced.
         run_bind (os_call (os_try_wait os)) (\<lambda>answer.
           case answer of
             Exited status \<Rightarrow>
               run_seq (log_event (Waited status)) (ret (Inr (status, forwarded \<noteq> None)))
           | WaitFailed \<Rightarrow>
               run_bind (fatal_supervisor (Suc fuel) os sv pg ''wait_failed'' pa rc) (\<lambda>e. ret (Inl e))
           | StillRunning \<Rightarrow>
               run_bind (health_beat os sv root pa rc next_health) (\<lambda>next_health.
                 run_seq (os_do (\<lambda>w. os_sleep os w POLL_INTERVAL))
                   (poll_child fuel os sv pg root pa rc next_health forwarded forced))))))"

text \<open>What follows the status: the exits after a forwarded signal, success, failure or a restart.\<close>

definition finish_forwarded ::
  "'w os_calls \<Rightarrow> supervision \<Rightarrow> exit_status \<Rightarrow> nat \<Rightarrow> nat \<Rightarrow> duration \<Rightarrow> ('w sup_state, supervisor_exit) run" where
  "finish_forwarded os sv status pa rc uptime =
     (case status_code status of
        Some c \<Rightarrow>
          run_seq (report_with_readings os sv None ''runtime.cargo.process.exited''
              (if c = 0 then Succeeded else Failed)
              (exit_attrs pa rc [(''exitCode'', json_int c)] uptime True True))
            (ret (ExitCode c))
      | None \<Rightarrow>
          let sig = (case status_signal status of Some n \<Rightarrow> n | None \<Rightarrow> SIGKILL) in
          run_seq (report_with_readings os sv None ''runtime.cargo.process.signaled'' Info
              (exit_attrs pa rc [(''signal'', json_int sig), (''signalSource'', JStr ''supervisor_forwarded'')]
                 uptime True True))
            (ret (ExitSignal sig)))"

definition status_failure :: "exit_status \<Rightarrow> failure_reason option" where
  "status_failure status =
     (case status_code status of
        Some c \<Rightarrow> if c = 0 then None else Some (ExitNonzero c)
      | None \<Rightarrow> Some (SignalUnexpected (case status_signal status of Some n \<Rightarrow> n | None \<Rightarrow> SIGKILL)))"

definition restart_or_exit ::
  "nat \<Rightarrow> crates \<Rightarrow> 'w os_calls \<Rightarrow> supervision \<Rightarrow> failure_reason \<Rightarrow> nat \<Rightarrow> nat \<Rightarrow> nat \<Rightarrow> duration
     \<Rightarrow> ('w sup_state, supervisor_exit option) run" where
  "restart_or_exit fuel cr os sv failure pa rc cf uptime =
     run_bind (os_call (os_now os)) (\<lambda>now.
       case restart_delay cr (sv_policy sv) pa rc cf uptime (sv_instance sv) now of
         Inr delay \<Rightarrow>
           run_seq (report_attempt_failure os sv failure pa rc uptime True False)
           (run_seq (schedule_restart sv failure pa delay)
           (run_bind (sleep_interruptibly fuel os delay) (\<lambda>sig.
             ret (case sig of Some n \<Rightarrow> Some (ExitSignal n) | None \<Rightarrow> None))))
       | Inl disposition \<Rightarrow>
           run_seq (report_final_failure sv failure disposition pa rc uptime True)
             (ret (Some (failure_exit failure))))"

definition settle_attempt ::
  "nat \<Rightarrow> crates \<Rightarrow> 'w os_calls \<Rightarrow> supervision \<Rightarrow> int \<Rightarrow> exit_status \<Rightarrow> bool \<Rightarrow> nat \<Rightarrow> nat \<Rightarrow> nat \<Rightarrow> duration
     \<Rightarrow> ('w sup_state, supervisor_exit option) run" where
  "settle_attempt fuel cr os sv pg status was_forwarded pa rc cf uptime =
     run_bind (terminate_and_reap_group fuel os pg) (\<lambda>cleanup.
     run_seq (end_child sv)
     (run_seq (if sv_capture sv then log_event OutputFinished else ret ())
     (if \<not> cleanup
      then run_seq (report sv ''runtime.fatal.cargo.supervisor'' Failed (Some ''cleanup_failed'')
               (attempt_attrs pa rc @ [(''cleanupComplete'', JBool False)]))
             (ret (Some (ExitCode 70)))
      else if was_forwarded
      then run_bind (finish_forwarded os sv status pa rc uptime) (\<lambda>e. ret (Some e))
      else (case status_failure status of
          None \<Rightarrow>
            run_seq (report_with_readings os sv None ''runtime.cargo.process.exited'' Succeeded
                (exit_attrs pa rc [(''exitCode'', json_int 0)] uptime True True))
              (ret (Some (ExitCode 0)))
        | Some failure \<Rightarrow> restart_or_exit fuel cr os sv failure pa rc cf uptime))))"

text \<open>
  One round of the restart loop: \<open>None\<close> asks for the next process and gives the uptime of this one.
\<close>

definition i32_of_pid :: "nat \<Rightarrow> int" where
  "i32_of_pid pid = (if pid \<le> 2147483647 then int pid else 2147483647)"

definition run_child ::
  "nat \<Rightarrow> crates \<Rightarrow> 'w os_calls \<Rightarrow> supervision \<Rightarrow> nat \<Rightarrow> nat \<Rightarrow> nat \<Rightarrow> nat \<Rightarrow> nat
     \<Rightarrow> ('w sup_state, supervisor_exit option \<times> duration) run" where
  "run_child fuel cr os sv pid started_at pa rc cf =
     (let pg = i32_of_pid pid in
      run_seq (log_event (Spawned pg (sv_environment sv)))
      (run_seq (report sv ''runtime.cargo.process.started'' Started None (attempt_attrs pa rc))
      (run_bind (os_call (os_now os)) (\<lambda>now.
      run_bind (poll_child fuel os sv pg pid pa rc
          (now + initial_health_jitter cr (sv_instance sv) pa) None False) (\<lambda>outcome.
      case outcome of
        Inl e \<Rightarrow> ret (Some e, 0)
      | Inr (status, was_forwarded) \<Rightarrow>
          run_bind (os_call (os_now os)) (\<lambda>now2.
          run_bind (settle_attempt fuel cr os sv pg status was_forwarded pa rc cf
              (saturating_sub now2 started_at)) (\<lambda>e.
            ret (e, saturating_sub now2 started_at))))))))"

definition start_child ::
  "nat \<Rightarrow> crates \<Rightarrow> 'w os_calls \<Rightarrow> supervision \<Rightarrow> nat \<Rightarrow> nat \<Rightarrow> nat \<Rightarrow> nat
     \<Rightarrow> ('w sup_state, supervisor_exit option \<times> duration) run" where
  "start_child fuel cr os sv started_at pa rc cf =
     run_bind (os_call (\<lambda>w. os_spawn os w (sv_command sv) (sv_environment sv) (sv_capture sv))) (\<lambda>child.
     case child of
       None \<Rightarrow>
         run_seq (log_event SpawnFailed)
         (run_seq (end_child sv)
         (run_seq (report sv ''runtime.fatal.cargo.process'' Failed (Some ''process_start_failed'')
             (attempt_attrs pa rc @ [(''runtimeContactVersion'', JStr (sv_version sv))]))
           (ret (Some (ExitCode 126), 0))))
     | Some pid \<Rightarrow> run_child fuel cr os sv pid started_at pa rc cf)"

definition attempt_child ::
  "nat \<Rightarrow> crates \<Rightarrow> 'w os_calls \<Rightarrow> supervision \<Rightarrow> string list \<Rightarrow> nat \<Rightarrow> nat \<Rightarrow> nat
     \<Rightarrow> ('w sup_state, supervisor_exit option \<times> duration) run" where
  "attempt_child fuel cr os sv tasks pa rc cf =
     run_seq (session_events os sv)
     (run_bind (take_signal os) (\<lambda>sig.
     case sig of
       Some n \<Rightarrow> ret (Some (ExitSignal n), 0)
     | None \<Rightarrow>
     run_seq (fold (\<lambda>t m. run_seq m (log_event (FactsStarted t))) tasks (ret ()))
     (run_bind (os_call (os_now os)) (\<lambda>started_at.
     run_seq (if sv_reporter sv then log_event ChildBegun else ret ())
     (start_child fuel cr os sv started_at pa rc cf)))))"

definition next_failures :: "nat \<Rightarrow> duration \<Rightarrow> nat" where
  "next_failures consecutive_failures uptime =
     (if uptime \<ge> STABILITY_RESET then 1 else saturating_add_u32 consecutive_failures 1)"

text \<open>The restart loop; without fuel left it asks for more rounds (\<open>None\<close> inside \<open>Some\<close>).\<close>

fun supervise_loop ::
  "nat \<Rightarrow> nat \<Rightarrow> crates \<Rightarrow> 'w os_calls \<Rightarrow> supervision \<Rightarrow> string list \<Rightarrow> nat \<Rightarrow> nat \<Rightarrow> nat
     \<Rightarrow> ('w sup_state, supervisor_exit option) run" where
  "supervise_loop 0 fuel cr os sv tasks pa rc cf = ret None"
| "supervise_loop (Suc rounds) fuel cr os sv tasks pa rc cf =
     run_bind (attempt_child fuel cr os sv tasks pa rc cf) (\<lambda>(e, uptime).
       case e of
         Some e \<Rightarrow> ret (Some e)
       | None \<Rightarrow> supervise_loop rounds fuel cr os sv [] (saturating_add_u64 pa 1)
                   (saturating_add_u64 rc 1) (next_failures cf uptime))"

definition report_environment_normalized :: "supervision \<Rightarrow> normalization list \<Rightarrow> ('w sup_state, unit) run" where
  "report_environment_normalized sv normalized =
     (if normalized = [] then ret ()
      else report sv ''runtime.environment.normalized'' Info None
        [(''normalized'', JArr (map (\<lambda>(name, reason).
           JObj [(''name'', JStr name), (''reason'', JStr (normalization_reason_str reason))]) normalized))])"

text \<open>
  \<open>supervise_with_reporter_and_environment\<close>. The environment has been repaired against the guest
  filesystem before; \<open>sv_policy\<close> and \<open>sv_environment\<close> of the argument are replaced by the ones computed
  here.
\<close>

definition supervise_with_reporter_and_environment ::
  "nat \<Rightarrow> nat \<Rightarrow> nat \<Rightarrow> crates \<Rightarrow> 'w os_calls \<Rightarrow> supervision \<Rightarrow> string list \<Rightarrow> runtime_bootstrap_response
     \<Rightarrow> duration \<Rightarrow> environment \<times> normalization list \<Rightarrow> ('w sup_state, supervisor_exit option) run" where
  "supervise_with_reporter_and_environment rounds fuel instant_max cr os sv tasks bootstrap elapsed env =
     (if sv_command sv = []
      then run_seq (report sv ''runtime.fatal.cargo.process'' Failed (Some ''process_start_failed'')
               (attempt_attrs 0 0))
             (ret (Some (ExitCode 126)))
      else run_bind (install_process_authority os) (\<lambda>authority.
        case authority of
          None \<Rightarrow>
            run_seq (report sv ''runtime.fatal.cargo.supervisor'' Failed (Some ''internal_failure'') [])
              (ret (Some (ExitCode 70)))
        | Some g \<Rightarrow>
            run_bind (os_call (os_now os)) (\<lambda>now.
            let sv = sv\<lparr>sv_policy := effective_policy instant_max (supervision_policy bootstrap) elapsed now,
                        sv_environment := fst env,
                        sv_instance := rb_runtime_instance_id bootstrap\<rparr> in
            run_seq (report_environment_normalized sv (snd env))
            (run_bind (supervise_loop rounds fuel cr os sv tasks 0 0 0) (\<lambda>e.
              run_seq (drop_process_authority os g) (ret e))))))"

end
