(* ===== verification/SupervisorProofs.thy ===== *)
theory SupervisorProofs
  imports Supervisor
begin

text \<open>
  What the supervisor guarantees. The log of a run is read by a monitor; triples over the monitor are
  proved for each step of the supervisor, also for runs that are cut off, and give the properties at
  the end: how many processes are started, that a process group is gone before the next process
  starts, where an exit code comes from, the bounds of the restart delay and that cleanup ends.
\<close>

section \<open>A monitor over the log\<close>

text \<open>
  The monitor reads the log once: which process group was started last, whether its last probe (or
  its start) says that it is alive, how many processes were started and the last status collected.
  It has no value as soon as a process is started while a group is alive, or a foreign group probed.
\<close>

record monitor_state =
  mo_group :: "int option"
  mo_alive :: bool
  mo_count :: nat
  mo_last :: "exit_status option"

fun mon_step :: "sup_event \<Rightarrow> monitor_state option \<Rightarrow> monitor_state option" where
  "mon_step e None = None"
| "mon_step (Spawned pg env) (Some m) =
     (if mo_alive m then None
      else Some (m\<lparr>mo_group := Some pg, mo_alive := True, mo_count := Suc (mo_count m)\<rparr>))"
| "mon_step (Probed pg alive) (Some m) =
     (if mo_group m = Some pg then Some (m\<lparr>mo_alive := alive\<rparr>) else None)"
| "mon_step (Waited status) (Some m) = Some (m\<lparr>mo_last := Some status\<rparr>)"
| "mon_step e (Some m) = Some m"

definition monitor :: "sup_event list \<Rightarrow> monitor_state option" where
  "monitor evs = fold mon_step evs (Some \<lparr>mo_group = None, mo_alive = False, mo_count = 0, mo_last = None\<rparr>)"

lemma monitor_append [simp]: "monitor (evs @ [e]) = mon_step e (monitor evs)"
  by (simp add: monitor_def)

text \<open>
  Triples of runs over the monitor: \<open>n\<close> holds of a run that is cut off, \<open>q\<close> of one that returns.
\<close>

definition triple ::
  "(monitor_state option \<Rightarrow> bool) \<Rightarrow> ('w sup_state, 'a) run \<Rightarrow> (monitor_state option \<Rightarrow> bool)
     \<Rightarrow> ('a \<Rightarrow> monitor_state option \<Rightarrow> bool) \<Rightarrow> bool" where
  "triple p m n q \<longleftrightarrow> (\<forall>s. p (monitor (snd s)) \<longrightarrow>
     (case m s of (None, s') \<Rightarrow> n (monitor (snd s')) | (Some a, s') \<Rightarrow> q a (monitor (snd s'))))"

lemma triple_ret: "(\<And>st. p st \<Longrightarrow> q a st) \<Longrightarrow> triple p (ret a) n q"
  by (simp add: triple_def ret_def)

lemma triple_cut: "(\<And>st. p st \<Longrightarrow> n st) \<Longrightarrow> triple p cut_off n q"
  by (simp add: triple_def cut_off_def)

lemma triple_log: "(\<And>st. p st \<Longrightarrow> q () (mon_step e st)) \<Longrightarrow> triple p (log_event e) n q"
  by (simp add: triple_def log_event_def)

lemma triple_os_call: "(\<And>a st. p st \<Longrightarrow> q a st) \<Longrightarrow> triple p (os_call f) n q"
  by (auto simp: triple_def os_call_def split: prod.splits)

lemma triple_os_do: "(\<And>st. p st \<Longrightarrow> q () st) \<Longrightarrow> triple p (os_do f) n q"
  by (auto simp: triple_def os_do_def)

lemma triple_bind:
  assumes "triple p m n r" and "\<And>a. triple (r a) (f a) n q"
  shows "triple p (run_bind m f) n q"
  unfolding triple_def
proof (intro allI impI)
  fix s :: "'a sup_state"
  assume p: "p (monitor (snd s))"
  obtain x s1 where m: "m s = (x, s1)" by (metis surj_pair)
  have one: "case x of None \<Rightarrow> n (monitor (snd s1)) | Some a \<Rightarrow> r a (monitor (snd s1))"
  proof -
    from assms(1) [unfolded triple_def, rule_format, OF p] show ?thesis by (simp add: m)
  qed
  show "case run_bind m f s of (None, s') \<Rightarrow> n (monitor (snd s')) | (Some a, s') \<Rightarrow> q a (monitor (snd s'))"
  proof (cases x)
    case None
    then show ?thesis using one by (simp add: run_bind_def m)
  next
    case (Some a)
    then have "r a (monitor (snd s1))" using one by simp
    from assms(2) [unfolded triple_def, rule_format, OF this] show ?thesis
      by (simp add: run_bind_def m Some)
  qed
qed

lemma triple_seq: "triple p m n (\<lambda>_. r) \<Longrightarrow> triple r k n q \<Longrightarrow> triple p (run_seq m k) n q"
  unfolding run_seq_def by (rule triple_bind)

lemma triple_conseq:
  assumes t: "triple p m n q" and "\<And>st. p' st \<Longrightarrow> p st" and "\<And>st. n st \<Longrightarrow> n' st"
    and "\<And>a st. q a st \<Longrightarrow> q' a st"
  shows "triple p' m n' q'"
  unfolding triple_def
proof (intro allI impI)
  fix s :: "'a sup_state"
  assume "p' (monitor (snd s))"
  then have "p (monitor (snd s))" by (rule assms(2))
  from t [unfolded triple_def, rule_format, OF this] show "case m s of (None, s') \<Rightarrow> n' (monitor (snd s')) | (Some a, s') \<Rightarrow> q' a (monitor (snd s'))"
    by (cases "m s"; cases "fst (m s)") (simp_all add: assms(3,4))
qed

lemma triple_if:
  "(b \<Longrightarrow> triple p m n q) \<Longrightarrow> (\<not> b \<Longrightarrow> triple p k n q) \<Longrightarrow> triple p (if b then m else k) n q"
  by simp

lemma triple_assume: "(b \<Longrightarrow> triple p m n q) \<Longrightarrow> triple (\<lambda>st. b \<and> p st) m n q"
  by (auto simp: triple_def)

lemma triple_ex:
  fixes m :: "('w sup_state, 'a) run"
  assumes "\<And>x. triple (p x) m n q"
  shows "triple (\<lambda>st. \<exists>x. p x st) m n q"
  unfolding triple_def
proof (intro allI impI, elim exE)
  fix s :: "'w sup_state" and x
  assume "p x (monitor (snd s))"
  from assms [unfolded triple_def, rule_format, OF this]
  show "case m s of (None, s') \<Rightarrow> n (monitor (snd s')) | (Some a, s') \<Rightarrow> q a (monitor (snd s'))" .
qed

text \<open>Runs that the monitor does not see.\<close>

definition silent :: "('w sup_state, 'a) run \<Rightarrow> bool" where
  "silent m \<longleftrightarrow> (\<forall>s. monitor (snd (snd (m s))) = monitor (snd s))"

lemma silent_ret [simp]: "silent (ret a)" by (simp add: silent_def ret_def)
lemma silent_cut [simp]: "silent cut_off" by (simp add: silent_def cut_off_def)
lemma silent_os_call [simp]: "silent (os_call f)"
  by (simp add: silent_def os_call_def split: prod.splits)
lemma silent_os_do [simp]: "silent (os_do f)" by (simp add: silent_def os_do_def)

lemma silent_log:
  "(\<And>m. mon_step e (Some m) = Some m) \<Longrightarrow> silent (log_event e :: ('w sup_state, unit) run)"
  unfolding silent_def log_event_def
proof
  fix s :: "'w sup_state"
  assume same: "\<And>m. mon_step e (Some m) = Some m"
  show "monitor (snd (snd (Some (), fst s, snd s @ [e]))) = monitor (snd s)"
    by (cases "monitor (snd s)") (simp_all add: same)
qed

lemma silent_log_simps [simp]:
  "silent (log_event (Reported a b c d))" "silent (log_event ChildBegun)" "silent (log_event ChildEnded)"
  "silent (log_event (FactsStarted t))" "silent (log_event SpawnFailed)" "silent (log_event (Killed pg sig))"
  "silent (log_event (Delayed delay))" "silent (log_event (TookSignal n))" "silent (log_event OutputFinished)"
  by (rule silent_log, simp)+

lemma silent_bind [intro!]:
  assumes "silent m" and "\<And>a. silent (f a)"
  shows "silent (run_bind m f)"
  unfolding silent_def
proof
  fix s :: "'a sup_state"
  obtain r s1 where m: "m s = (r, s1)" by (metis surj_pair)
  have "monitor (snd s1) = monitor (snd s)" using assms(1) m unfolding silent_def by (metis snd_conv)
  moreover have "monitor (snd (snd (f a s1))) = monitor (snd s1)" for a
    using assms(2) unfolding silent_def by blast
  ultimately show "monitor (snd (snd (run_bind m f s))) = monitor (snd s)"
    by (cases r) (simp_all add: run_bind_def m)
qed

lemma silent_seq [intro!]: "silent m \<Longrightarrow> silent k \<Longrightarrow> silent (run_seq m k)"
  by (simp add: run_seq_def silent_bind)

lemma silent_triple:
  assumes "silent m" and "\<And>st. p st \<Longrightarrow> n st" and "\<And>a st. p st \<Longrightarrow> q a st"
  shows "triple p m n q"
  unfolding triple_def
proof (intro allI impI)
  fix s :: "'a sup_state"
  assume "p (monitor (snd s))"
  moreover obtain r s' where m: "m s = (r, s')" by (metis surj_pair)
  moreover have "monitor (snd s') = monitor (snd s)" using assms(1) m unfolding silent_def by (metis snd_conv)
  ultimately show "case m s of (None, s') \<Rightarrow> n (monitor (snd s')) | (Some a, s') \<Rightarrow> q a (monitor (snd s'))"
    using assms(2,3) by (simp split: option.split)
qed

lemma silent_take_signal [simp]: "silent (take_signal os)"
  unfolding take_signal_def by (auto split: if_splits)

lemma silent_signal_group [simp]: "silent (signal_process_group os pg sig)"
  unfolding signal_process_group_def by auto

lemma silent_reap [simp]: "silent (reap_descendants fuel os)"
  by (induction fuel) auto

lemma silent_sleep_until [simp]: "silent (sleep_until fuel os deadline)"
  by (induction fuel) (auto split: option.splits)

lemma silent_sleep [simp]: "silent (sleep_interruptibly fuel os d)"
  unfolding sleep_interruptibly_def by auto

lemma silent_report [simp]: "silent (report sv stage status c attrs)"
  unfolding report_def by simp

lemma silent_readings [simp]: "silent (report_with_readings os sv wl stage status attrs)"
  unfolding report_with_readings_def by auto

lemma silent_log_reports [simp]: "silent (log_reports rs)"
  by (induction rs) auto

lemma silent_session [simp]: "silent (session_events os sv)"
  unfolding session_events_def by auto

lemma silent_end_child [simp]: "silent (end_child sv)"
  unfolding end_child_def by simp

lemma silent_failure_reports [simp]:
  "silent (report_attempt_failure os sv failure pa rc uptime cleanup final_attempt)"
  "silent (report_final_failure sv failure disposition pa rc uptime cleanup)"
  "silent (schedule_restart sv failure pa delay)"
  by (cases failure; simp) (simp_all add: report_final_failure_def schedule_restart_def)

lemma silent_forward [simp]: "silent (forward_signal os pg forwarded)"
  unfolding forward_signal_def by (auto split: option.splits)

lemma silent_force [simp]: "silent (force_cleanup os pg forwarded forced)"
  unfolding force_cleanup_def by (auto split: option.splits)

lemma silent_health [simp]: "silent (health_beat os sv root pa rc next_health)"
  unfolding health_beat_def by auto

lemma silent_finish_forwarded [simp]: "silent (finish_forwarded os sv status pa rc uptime)"
  unfolding finish_forwarded_def by (auto simp: Let_def split: option.splits)

lemma silent_restart_or_exit [simp]: "silent (restart_or_exit fuel cr os sv failure pa rc cf uptime)"
  unfolding restart_or_exit_def by (auto split: sum.splits)

lemma silent_tasks: "silent m \<Longrightarrow> silent (fold (\<lambda>t m. run_seq m (log_event (FactsStarted t))) tasks m)"
proof (induction tasks arbitrary: m)
  case (Cons t tasks)
  then have "silent (run_seq m (log_event (FactsStarted t)))" by (intro silent_seq) simp_all
  then show ?case by (simp add: Cons.IH)
qed simp

lemma silent_restore [simp]: "silent (restore_handlers os hs)"
  by (induction hs) auto

lemma silent_install [simp]: "silent (install_handlers os sigs hs)"
  by (induction sigs arbitrary: hs) (auto split: option.splits)

lemma silent_authority [simp]: "silent (install_process_authority os)" "silent (drop_process_authority os g)"
  unfolding install_process_authority_def drop_process_authority_def
  by (auto split: option.splits bool.splits)

section \<open>The supervisor seen by the monitor\<close>

definition up :: "int \<Rightarrow> nat \<Rightarrow> exit_status option \<Rightarrow> monitor_state option \<Rightarrow> bool" where
  "up pg c w st \<longleftrightarrow>
     (\<exists>m. st = Some m \<and> mo_group m = Some pg \<and> mo_count m = c \<and> mo_last m = w)"

definition down :: "nat \<Rightarrow> exit_status option \<Rightarrow> monitor_state option \<Rightarrow> bool" where
  "down c w st \<longleftrightarrow> (\<exists>m. st = Some m \<and> \<not> mo_alive m \<and> mo_count m = c \<and> mo_last m = w)"

definition fine :: "nat \<Rightarrow> monitor_state option \<Rightarrow> bool" where
  "fine k st \<longleftrightarrow> (\<exists>m. st = Some m \<and> mo_count m \<le> k)"

lemma up_fine: "up pg c w st \<Longrightarrow> c \<le> k \<Longrightarrow> fine k st"
  by (auto simp: up_def fine_def)

lemma down_fine: "down c w st \<Longrightarrow> c \<le> k \<Longrightarrow> fine k st"
  by (auto simp: down_def fine_def)

lemma probe_triple:
  "triple (up pg c w) (process_group_exists os pg) n (\<lambda>alive st. up pg c w st \<and> (\<not> alive \<longrightarrow> down c w st))"
  unfolding process_group_exists_def
  by (rule triple_bind [where r = "\<lambda>_. up pg c w"], rule triple_os_call, assumption,
      rule triple_seq [OF triple_log triple_ret])
     (auto simp: up_def down_def)

lemma await_triple:
  assumes "c \<le> k"
  shows "triple (up pg c w) (await_group_end fuel os pg deadline) (fine k) (\<lambda>_. up pg c w)"
proof (induction fuel)
  case 0
  then show ?case using assms by (auto intro: triple_cut up_fine)
next
  case (Suc fuel)
  have rest: "triple (up pg c w) (run_seq (reap_descendants (Suc fuel) os)
      (run_seq (os_do (\<lambda>w. os_sleep os w POLL_INTERVAL)) (await_group_end fuel os pg deadline)))
      (fine k) (\<lambda>_. up pg c w)"
    using assms
    by (intro triple_seq [where r = "up pg c w"] Suc.IH silent_triple) (auto simp: up_fine simp del: reap_descendants.simps)
  show ?case unfolding await_group_end.simps
  proof (rule triple_bind [OF triple_conseq [OF probe_triple [of pg c w os "fine k"], where q' = "\<lambda>_. up pg c w"]])
    fix alive
    show "triple (up pg c w) (if \<not> alive then ret () else run_bind (os_call (os_now os)) (\<lambda>now.
         if \<not> now < deadline then ret ()
         else run_seq (reap_descendants (Suc fuel) os)
           (run_seq (os_do (\<lambda>w. os_sleep os w POLL_INTERVAL))
             (await_group_end fuel os pg deadline)))) (fine k) (\<lambda>_. up pg c w)"
      by (intro triple_if triple_ret triple_bind [where r = "\<lambda>_. up pg c w"] triple_os_call rest) auto
  qed auto
qed

lemma terminate_triple:
  assumes "c \<le> k"
  shows "triple (up pg c w) (terminate_and_reap_group fuel os pg) (fine k)
    (\<lambda>done st. up pg c w st \<and> (done \<longrightarrow> down c w st))"
proof -
  note fin = up_fine [OF _ assms]
  have quiet: "silent m \<Longrightarrow> triple (up pg c w) m (fine k) (\<lambda>_. up pg c w)" for m :: "('a sup_state, 'b) run"
    by (rule silent_triple) (auto intro: fin)
  have probe: "triple (up pg c w) (process_group_exists os pg) (fine k) (\<lambda>_. up pg c w)"
    by (rule triple_conseq [OF probe_triple [where n = "fine k"]]) auto
  have last: "triple (up pg c w) (run_bind (process_group_exists os pg) (\<lambda>alive. ret (\<not> alive))) (fine k)
      (\<lambda>done st. up pg c w st \<and> (done \<longrightarrow> down c w st))"
    by (rule triple_bind [OF probe_triple]) (auto intro: triple_ret)
  show ?thesis
    unfolding terminate_and_reap_group_def
    by (intro triple_if triple_ret last triple_bind [OF quiet] triple_bind [OF probe]
        triple_seq [OF await_triple [OF assms]] triple_seq [OF quiet])
       (auto split: if_splits)
qed

lemma fatal_supervisor_triple:
  assumes "c \<le> k"
  shows "triple (up pg c w) (fatal_supervisor fuel os sv pg reason pa rc) (fine k)
    (\<lambda>e st. e = ExitCode 70 \<and> up pg c w st)"
  unfolding fatal_supervisor_def
  by (rule triple_bind [OF triple_conseq [OF terminate_triple [OF assms], where q' = "\<lambda>_. up pg c w"]])
     (auto intro!: triple_seq [where r = "up pg c w"] silent_triple triple_ret intro: up_fine [OF _ assms])

lemma poll_child_triple:
  assumes "c \<le> k"
  shows "triple (up pg c w) (poll_child fuel os sv pg root pa rc next_health forwarded forced) (fine k)
    (\<lambda>r st. case r of Inl e \<Rightarrow> e = ExitCode 70 \<and> up pg c w st
            | Inr (status, _) \<Rightarrow> up pg c (Some status) st)"
    (is "triple _ _ _ ?Q")
proof (induction fuel arbitrary: next_health forwarded forced)
  case 0
  then show ?case using assms by (auto intro: triple_cut up_fine)
next
  case (Suc fuel)
  note fin = up_fine [OF _ assms]
  have quiet: "silent m \<Longrightarrow> triple (up pg c w) m (fine k) (\<lambda>_. up pg c w)" for m :: "('a sup_state, 'b) run"
    by (rule silent_triple) (auto intro: fin)
  have fatal: "triple (up pg c w) (run_bind (fatal_supervisor (Suc fuel) os sv pg reason pa rc) (\<lambda>e. ret (Inl e)))
      (fine k) ?Q" for reason
    by (rule triple_bind [OF fatal_supervisor_triple [OF assms]]) (auto intro: triple_ret)
  have waited: "triple (up pg c w) (run_seq (log_event (Waited status)) (ret (Inr (status, b)))) (fine k) ?Q"
    for status b
    by (rule triple_seq [where r = "up pg c (Some status)"]) (auto intro!: triple_log triple_ret simp: up_def)
  have again: "triple (up pg c w) (run_bind (health_beat os sv root pa rc next_health) (\<lambda>next_health.
      run_seq (os_do (\<lambda>w. os_sleep os w POLL_INTERVAL))
        (poll_child fuel os sv pg root pa rc next_health fw fo))) (fine k) ?Q" for fw fo
    by (intro triple_bind [OF quiet] triple_seq [OF quiet] Suc.IH) auto
  have wait: "triple (up pg c w) (case answer of
      Exited status \<Rightarrow> run_seq (log_event (Waited status)) (ret (Inr (status, fw \<noteq> None)))
    | WaitFailed \<Rightarrow> run_bind (fatal_supervisor (Suc fuel) os sv pg ''wait_failed'' pa rc) (\<lambda>e. ret (Inl e))
    | StillRunning \<Rightarrow> run_bind (health_beat os sv root pa rc next_health) (\<lambda>next_health.
        run_seq (os_do (\<lambda>w. os_sleep os w POLL_INTERVAL))
          (poll_child fuel os sv pg root pa rc next_health fw fo))) (fine k) ?Q" for answer fw fo
    using waited fatal again by (cases answer) auto
  have forced: "triple (up pg c w) (run_bind (force_cleanup os pg fw forced) (\<lambda>forced.
      run_bind (os_call (os_try_wait os)) (\<lambda>answer. case answer of
        Exited status \<Rightarrow> run_seq (log_event (Waited status)) (ret (Inr (status, fw \<noteq> None)))
      | WaitFailed \<Rightarrow> run_bind (fatal_supervisor (Suc fuel) os sv pg ''wait_failed'' pa rc) (\<lambda>e. ret (Inl e))
      | StillRunning \<Rightarrow> run_bind (health_beat os sv root pa rc next_health) (\<lambda>next_health.
          run_seq (os_do (\<lambda>w. os_sleep os w POLL_INTERVAL))
            (poll_child fuel os sv pg root pa rc next_health fw forced))))) (fine k) ?Q" for fw
    by (intro triple_bind [OF quiet] wait) simp_all
  show ?case
    unfolding poll_child.simps
  proof (intro triple_seq [OF quiet] triple_bind [OF quiet], goal_cases)
    case (3 a)
    obtain ok fw where a: "a = (ok, fw)" by (cases a)
    show ?case unfolding a prod.case by (rule triple_if, rule fatal, rule forced)
  qed simp_all
qed

definition allowed :: "effective_policy_t \<Rightarrow> nat \<Rightarrow> bool" where
  "allowed policy rc =
     (case ep_mode policy of
        Never \<Rightarrow> False
      | OnFailure (Attempts n) \<Rightarrow> rc < n
      | OnFailure ScheduleEnd \<Rightarrow> True)"

lemma restart_delay_allowed: "restart_delay cr p pa rc cf uptime i now = Inr d \<Longrightarrow> allowed p rc"
  by (auto simp: restart_delay_def allowed_def split: supervision_mode.splits restart_limit.splits if_splits)

text \<open>An exit code is the customer's, or one of the supervisor's own.\<close>

fun exit_from :: "exit_status option \<Rightarrow> supervisor_exit \<Rightarrow> bool" where
  "exit_from w (ExitSignal n) = True"
| "exit_from w (ExitCode c) = (c = 70 \<or> c = 126 \<or> (\<exists>status. w = Some status \<and> status_code status = Some c))"

lemma failure_exit_from:
  "status_failure status = Some failure \<Longrightarrow> exit_from (Some status) (failure_exit failure)"
  by (auto simp: status_failure_def split: option.splits if_splits)

lemma triple_add_result:
  assumes "triple p m n q" and "\<And>s a s'. m s = (Some a, s') \<Longrightarrow> R a"
  shows "triple p m n (\<lambda>a st. q a st \<and> R a)"
  unfolding triple_def
proof (intro allI impI)
  fix s :: "'a sup_state"
  assume "p (monitor (snd s))"
  from assms(1) [unfolded triple_def, rule_format, OF this]
  show "case m s of (None, s') \<Rightarrow> n (monitor (snd s'))
      | (Some a, s') \<Rightarrow> q a (monitor (snd s')) \<and> R a"
    using assms(2) [of s] by (cases "m s"; cases "fst (m s)") simp_all
qed

lemma restart_or_exit_result:
  "restart_or_exit fuel cr os sv failure pa rc cf uptime s = (Some e, s') \<Longrightarrow>
     (case e of None \<Rightarrow> allowed (sv_policy sv) rc | Some (ExitCode c) \<Rightarrow> failure_exit failure = ExitCode c
      | Some (ExitSignal n) \<Rightarrow> True)"
  by (cases failure)
     (auto simp: restart_or_exit_def run_bind_def run_seq_def ret_def
      split: prod.splits option.splits sum.splits supervisor_exit.splits dest!: restart_delay_allowed)

lemma settle_triple:
  assumes "c \<le> k"
  shows "triple (up pg c (Some status)) (settle_attempt fuel cr os sv pg status fwd pa rc cf uptime) (fine k)
    (\<lambda>r st. case r of
       None \<Rightarrow> allowed (sv_policy sv) rc \<and> down c (Some status) st
     | Some e \<Rightarrow> exit_from (Some status) e \<and> up pg c (Some status) st)"
    (is "triple _ _ _ ?Q")
proof -
  note fin = up_fine [OF _ assms]
  let ?R = "\<lambda>done st. up pg c (Some status) st \<and> (done \<longrightarrow> down c (Some status) st)"
  have quiet: "silent m \<Longrightarrow> triple (?R cleanup) m (fine k) (\<lambda>_. ?R cleanup)"
    for m :: "('a sup_state, 'b) run" and cleanup
    by (rule silent_triple) (auto intro: fin)
  have finish: "triple (?R cleanup) (run_seq m (ret (Some e))) (fine k) ?Q"
    if "silent m" "exit_from (Some status) e" for m :: "('a sup_state, unit) run" and e cleanup
    by (rule triple_seq [OF quiet [OF that(1)]]) (auto intro!: triple_ret simp: that(2))
  have fwd: "triple (?R cleanup) (run_bind (finish_forwarded os sv status pa rc uptime) (\<lambda>e. ret (Some e)))
      (fine k) ?Q" for cleanup
  proof (rule triple_bind [OF triple_add_result [OF quiet, where R = "exit_from (Some status)"]])
    fix s e s'
    assume "finish_forwarded os sv status pa rc uptime s = (Some e, s')"
    then show "exit_from (Some status) e"
      by (auto simp: finish_forwarded_def run_seq_def run_bind_def ret_def Let_def split: option.splits prod.splits)
  qed (auto intro!: triple_ret)
  have restart: "triple (?R True) (restart_or_exit fuel cr os sv failure pa rc cf uptime) (fine k) ?Q"
    if failure: "status_failure status = Some failure" for failure
  proof -
    have "triple (?R True) (restart_or_exit fuel cr os sv failure pa rc cf uptime) (fine k) (\<lambda>_. ?R True)"
      by (rule quiet) simp
    from triple_add_result [OF this restart_or_exit_result] show ?thesis
      by (rule triple_conseq)
         (use failure_exit_from [OF failure] in \<open>auto split: option.splits supervisor_exit.splits\<close>)
  qed
  have settled: "triple (?R True) (case status_failure status of
      None \<Rightarrow> run_seq (report_with_readings os sv None ''runtime.cargo.process.exited'' Succeeded
                (exit_attrs pa rc [(''exitCode'', json_int 0)] uptime True True))
              (ret (Some (ExitCode 0)))
    | Some failure \<Rightarrow> restart_or_exit fuel cr os sv failure pa rc cf uptime) (fine k) ?Q"
  proof (cases "status_failure status")
    case None
    then have "exit_from (Some status) (ExitCode 0)"
      by (auto simp: status_failure_def split: option.splits if_splits)
    then show ?thesis unfolding None option.case by (rule finish [rotated]) simp
  next
    case (Some failure)
    show ?thesis using restart [OF Some] by (simp only: Some option.case)
  qed
  show ?thesis
    unfolding settle_attempt_def
  proof (rule triple_bind [OF terminate_triple [OF assms]], rule triple_seq [OF quiet], simp,
      rule triple_seq [OF quiet], simp, rule triple_if, rule finish, simp, simp, rule triple_if, rule fwd)
    fix cleanup
    assume "\<not> \<not> cleanup"
    then have "cleanup = True" by simp
    with settled show "triple (?R cleanup) (case status_failure status of
      None \<Rightarrow> run_seq (report_with_readings os sv None ''runtime.cargo.process.exited'' Succeeded
                (exit_attrs pa rc [(''exitCode'', json_int 0)] uptime True True))
              (ret (Some (ExitCode 0)))
    | Some failure \<Rightarrow> restart_or_exit fuel cr os sv failure pa rc cf uptime) (fine k) ?Q" by simp
  qed
qed

text \<open>What one round of the restart loop leaves behind, when \<open>c\<close> processes were started before it.\<close>

definition round_post ::
  "nat \<Rightarrow> nat \<Rightarrow> effective_policy_t \<Rightarrow> nat \<Rightarrow> supervisor_exit option \<times> duration \<Rightarrow> monitor_state option \<Rightarrow> bool"
where
  "round_post c k policy rc r st =
     (case fst r of
        None \<Rightarrow> allowed policy rc \<and> (\<exists>w. down (Suc c) w st)
      | Some e \<Rightarrow> \<exists>m. st = Some m \<and> mo_count m \<le> k \<and> exit_from (mo_last m) e)"

lemma run_child_triple:
  assumes k: "Suc c \<le> k"
  shows "triple (down c w) (run_child fuel cr os sv pid started_at pa rc cf) (fine k)
    (round_post c k (sv_policy sv) rc)"
proof -
  define pg where "pg = i32_of_pid pid"
  have quiet: "silent m \<Longrightarrow> triple (up pg (Suc c) w) m (fine k) (\<lambda>_. up pg (Suc c) w)"
    for m :: "('a sup_state, 'b) run" and w
    by (rule silent_triple) (auto intro: up_fine [OF _ k])
  have settled: "triple (up pg (Suc c) (Some status))
      (run_bind (settle_attempt fuel cr os sv pg status fwd pa rc cf uptime) (\<lambda>e. ret (e, uptime))) (fine k)
      (round_post c k (sv_policy sv) rc)" for status fwd uptime
    by (rule triple_bind [OF settle_triple [OF k]], rule triple_ret)
       (auto split: option.splits simp: up_def round_post_def k)
  have outcome: "triple
      (\<lambda>st. case outcome of Inl e \<Rightarrow> e = ExitCode 70 \<and> up pg (Suc c) w st
            | Inr (status, _) \<Rightarrow> up pg (Suc c) (Some status) st)
      (case outcome of
         Inl e \<Rightarrow> ret (Some e, 0)
       | Inr (status, fwd) \<Rightarrow> run_bind (os_call (os_now os)) (\<lambda>now2.
           run_bind (settle_attempt fuel cr os sv pg status fwd pa rc cf (saturating_sub now2 started_at))
             (\<lambda>e. ret (e, saturating_sub now2 started_at)))) (fine k) (round_post c k (sv_policy sv) rc)"
    for outcome
  proof (cases outcome)
    case (Inl e)
    then show ?thesis using k by (auto intro!: triple_ret simp: up_def round_post_def)
  next
    case (Inr p)
    obtain status fwd where p: "p = (status, fwd)" by (cases p)
    show ?thesis
      unfolding Inr p sum.case prod.case by (rule triple_bind [OF quiet settled]) simp
  qed
  have spawn: "triple (down c w) (log_event (Spawned pg env)) (fine k) (\<lambda>_. up pg (Suc c) w)" for env
    by (rule triple_log) (force simp: down_def up_def)
  show ?thesis
    unfolding run_child_def Let_def pg_def [symmetric]
    by (intro triple_seq [OF spawn] triple_seq [OF quiet] triple_bind [OF quiet]
        triple_bind [OF poll_child_triple [OF k]] outcome) simp_all
qed

lemma attempt_child_triple:
  assumes "Suc c \<le> k"
  shows "triple (down c w) (attempt_child fuel cr os sv tasks pa rc cf) (fine k)
    (round_post c k (sv_policy sv) rc)"
proof -
  have k: "c \<le> k" using assms by simp
  have quiet: "silent m \<Longrightarrow> triple (down c w) m (fine k) (\<lambda>_. down c w)" for m :: "('a sup_state, 'b) run"
    by (rule silent_triple) (auto intro: down_fine [OF _ k])
  have early: "triple (down c w) (ret (Some e, 0)) (fine k) (round_post c k (sv_policy sv) rc)"
    if "exit_from None e" for e
    using that k by (cases e) (auto intro!: triple_ret simp: down_def round_post_def)
  have start: "triple (down c w) (start_child fuel cr os sv started_at pa rc cf) (fine k)
      (round_post c k (sv_policy sv) rc)" for started_at
    unfolding start_child_def
  proof (rule triple_bind [OF quiet], simp)
    fix child :: "nat option"
    show "triple (down c w) (case child of
       None \<Rightarrow>
         run_seq (log_event SpawnFailed)
         (run_seq (end_child sv)
         (run_seq (report sv ''runtime.fatal.cargo.process'' Failed (Some ''process_start_failed'')
             (attempt_attrs pa rc @ [(''runtimeContactVersion'', JStr (sv_version sv))]))
           (ret (Some (ExitCode 126), 0))))
     | Some pid \<Rightarrow> run_child fuel cr os sv pid started_at pa rc cf) (fine k)
      (round_post c k (sv_policy sv) rc)"
      by (cases child; simp only: option.case)
         (intro triple_seq [OF quiet] early, simp_all add: run_child_triple [OF assms])
  qed
  have go: "triple (down c w) (run_seq (fold (\<lambda>t m. run_seq m (log_event (FactsStarted t))) tasks (ret ()))
     (run_bind (os_call (os_now os)) (\<lambda>started_at.
     run_seq (if sv_reporter sv then log_event ChildBegun else ret ())
     (start_child fuel cr os sv started_at pa rc cf)))) (fine k) (round_post c k (sv_policy sv) rc)"
    by (intro triple_seq [OF quiet] triple_bind [OF quiet] start) (simp_all add: silent_tasks)
  show ?thesis
    unfolding attempt_child_def
  proof (rule triple_seq [OF quiet], simp, rule triple_bind [OF quiet], simp)
    fix sig :: "int option"
    show "triple (down c w) (case sig of Some n \<Rightarrow> ret (Some (ExitSignal n), 0)
       | None \<Rightarrow> run_seq (fold (\<lambda>t m. run_seq m (log_event (FactsStarted t))) tasks (ret ()))
     (run_bind (os_call (os_now os)) (\<lambda>started_at.
     run_seq (if sv_reporter sv then log_event ChildBegun else ret ())
     (start_child fuel cr os sv started_at pa rc cf)))) (fine k) (round_post c k (sv_policy sv) rc)"
      by (cases sig; simp only: option.case) (rule go, rule early, simp)
  qed
qed

text \<open>How many processes a policy allows after \<open>rc\<close> restarts, this one included.\<close>

fun processes_left :: "supervision_mode \<Rightarrow> nat \<Rightarrow> nat option" where
  "processes_left Never rc = Some 1"
| "processes_left (OnFailure (Attempts n)) rc = Some (Suc (n - rc))"
| "processes_left (OnFailure ScheduleEnd) rc = None"

lemma allowed_left:
  assumes "allowed policy rc" and "processes_left (ep_mode policy) rc = Some j" and "rc < u64_max"
  shows "\<exists>i. j = Suc i \<and> processes_left (ep_mode policy) (saturating_add_u64 rc 1) = Some i"
  using assms
  by (cases "(ep_mode policy, rc)" rule: processes_left.cases)
     (auto simp: allowed_def saturating_add_u64_def)

lemma supervise_loop_triple:
  assumes "processes_left (ep_mode (sv_policy sv)) rc = Some j" and "rc + j \<le> u64_max" and "c + j \<le> k"
  shows "triple (down c w) (supervise_loop rounds fuel cr os sv tasks pa rc cf) (fine k)
    (\<lambda>r st. \<exists>m. st = Some m \<and> mo_count m \<le> k
       \<and> (case r of None \<Rightarrow> rounds < j | Some e \<Rightarrow> exit_from (mo_last m) e))"
  using assms
proof (induction rounds arbitrary: tasks pa rc cf j c w)
  case 0
  then have "0 < j" by (cases "(ep_mode (sv_policy sv), rc)" rule: processes_left.cases) auto
  then show ?case using 0(3) by (auto intro!: triple_ret simp: down_def)
next
  case (Suc rounds)
  have j: "0 < j" using Suc(2) by (cases "(ep_mode (sv_policy sv), rc)" rule: processes_left.cases) auto
  have k: "Suc c \<le> k" using j Suc(4) by simp
  show ?case
    unfolding supervise_loop.simps
  proof (rule triple_bind [OF attempt_child_triple [OF k]])
    fix r :: "supervisor_exit option \<times> duration"
    obtain e uptime where r: "r = (e, uptime)" by (cases r)
    let ?post = "\<lambda>r st. \<exists>m. st = Some m \<and> mo_count m \<le> k
       \<and> (case r of None \<Rightarrow> Suc rounds < j | Some e \<Rightarrow> exit_from (mo_last m) e)"
    let ?again = "supervise_loop rounds fuel cr os sv [] (saturating_add_u64 pa 1)
                   (saturating_add_u64 rc 1) (next_failures cf uptime)"
    have again: "triple (down (Suc c) w') ?again (fine k) ?post" if ok: "allowed (sv_policy sv) rc" for w'
    proof -
      have rc: "rc < u64_max" using j Suc(3) by simp
      obtain i where i: "j = Suc i"
        "processes_left (ep_mode (sv_policy sv)) (saturating_add_u64 rc 1) = Some i"
        using allowed_left [OF ok Suc(2) rc] by blast
      have "saturating_add_u64 rc 1 = Suc rc" using rc by (simp add: saturating_add_u64_def)
      then show ?thesis
        using Suc(3,4) i by (intro triple_conseq [OF Suc.IH [OF i(2)]]) (auto split: option.splits)
    qed
    show "triple (round_post c k (sv_policy sv) rc r)
      (case r of (e, uptime) \<Rightarrow> case e of Some e \<Rightarrow> ret (Some e)
        | None \<Rightarrow> supervise_loop rounds fuel cr os sv [] (saturating_add_u64 pa 1)
                   (saturating_add_u64 rc 1) (next_failures cf uptime)) (fine k) ?post"
    proof (cases e)
      case None
      have "triple (\<lambda>st. allowed (sv_policy sv) rc \<and> (\<exists>w. down (Suc c) w st)) ?again (fine k) ?post"
        by (rule triple_assume, rule triple_ex, rule again)
      moreover have "round_post c k (sv_policy sv) rc r =
          (\<lambda>st. allowed (sv_policy sv) rc \<and> (\<exists>w. down (Suc c) w st))"
        by (rule ext) (simp add: round_post_def r None)
      ultimately show ?thesis by (simp add: r None)
    next
      case (Some x)
      show ?thesis unfolding r Some prod.case option.case
        by (rule triple_ret) (simp add: round_post_def)
    qed
  qed
qed

section \<open>Bounds of the restart delay\<close>

lemma offset_mod_le: "lo \<le> hi \<Longrightarrow> lo + x mod (hi - lo + 1) \<le> (hi :: nat)"
  using mod_less_divisor [of "hi - lo + 1" x] by linarith

lemma deterministic_backoff_bounds:
  fixes n :: nat
  defines "hi \<equiv> min (1000 * 2 ^ min n 6) 60000"
  shows "from_millis (hi div 2) \<le> deterministic_backoff cr i pa n
   \<and> deterministic_backoff cr i pa n \<le> from_millis hi"
proof -
  obtain x where "deterministic_backoff cr i pa n = from_millis (hi div 2 + x mod (hi - hi div 2 + 1))"
    by (simp only: deterministic_backoff_def Let_def hi_def)
  then show ?thesis using offset_mod_le [of "hi div 2" hi x] by (auto intro!: from_millis_mono)
qed

text \<open>The number of processes a bootstrap response allows; its policy decides as the code reads it.\<close>

definition max_processes :: "runtime_bootstrap_response \<Rightarrow> nat option" where
  "max_processes b =
     (case supervision_policy b of None \<Rightarrow> Some 1 | Some p \<Rightarrow> processes_left (sp_mode p) 0)"

definition spawn_count :: "sup_event list \<Rightarrow> nat" where
  "spawn_count evs = length (filter (\<lambda>e. case e of Spawned _ _ \<Rightarrow> True | _ \<Rightarrow> False) evs)"

lemma spawn_count_monitor: "monitor evs = Some m \<Longrightarrow> mo_count m = spawn_count evs"
proof (induction evs arbitrary: m rule: rev_induct)
  case Nil
  then show ?case by (auto simp: monitor_def spawn_count_def)
next
  case (snoc e evs)
  then show ?case
    by (cases e; cases "monitor evs") (auto simp: spawn_count_def split: if_splits)
qed

lemma max_processes_bound: "max_processes b = Some k \<Longrightarrow> 1 \<le> k \<and> k \<le> 11"
proof -
  assume k: "max_processes b = Some k"
  show ?thesis
  proof (cases "supervision_policy b")
    case None
    then show ?thesis using k by (simp add: max_processes_def)
  next
    case (Some p)
    have "sp_mode p = OnFailure (Attempts n) \<Longrightarrow> n \<le> 10" for n
      using Some parse_supervision_mode_bound
      by (auto simp: supervision_policy_def bind_eq_Some_conv split: if_splits)
    then show ?thesis
      using k Some by (cases "(sp_mode p, 0 :: nat)" rule: processes_left.cases) (auto simp: max_processes_def)
  qed
qed

lemma effective_policy_processes:
  assumes "max_processes b = Some k"
  shows "\<exists>j. processes_left (ep_mode (effective_policy im (supervision_policy b) el now)) 0 = Some j \<and> 1 \<le> j \<and> j \<le> k"
  using assms max_processes_bound [OF assms]
  by (auto simp: effective_policy_def max_processes_def Let_def split: option.splits)

lemma supervise_wrap:
  fixes os :: "'w os_calls"
  assumes loop: "\<And>sv' now. sv_policy sv' = effective_policy im (supervision_policy b) el now \<Longrightarrow>
      triple (down 0 None) (supervise_loop rounds fuel cr os sv' tasks 0 0 0) (fine k) post"
    and early: "\<And>st e. down 0 None st \<Longrightarrow> e = ExitCode 70 \<or> e = ExitCode 126 \<Longrightarrow> post (Some e) st"
    and fin: "\<And>r st. post r st \<Longrightarrow> fine k st"
  shows "triple (down 0 None)
    (supervise_with_reporter_and_environment rounds fuel im cr os sv tasks b el env) (fine k) post"
proof -
  have quiet: "silent m \<Longrightarrow> triple (down 0 None) m (fine k) (\<lambda>_. down 0 None)" for m :: "('w sup_state, 'b) run"
    by (rule silent_triple) (auto intro: down_fine)
  have quiet_post: "silent m \<Longrightarrow> triple (post r) m (fine k) (\<lambda>_. post r)" for m :: "('w sup_state, unit) run" and r
    by (rule silent_triple) (auto intro: fin)
  have early_exit: "triple (down 0 None) (run_seq (report sv a b' c d :: ('w sup_state, unit) run) (ret (Some e)))
      (fine k) post" if "e = ExitCode 70 \<or> e = ExitCode 126" for a b' c d e
    by (rule triple_seq [OF quiet]) (use that early in \<open>auto intro!: triple_ret\<close>)
  have run: "triple (down 0 None) (run_bind (supervise_loop rounds fuel cr os sv' tasks 0 0 0) (\<lambda>e.
      run_seq (drop_process_authority os g) (ret e))) (fine k) post"
    if "sv_policy sv' = effective_policy im (supervision_policy b) el now" for sv' :: supervision and g now
    by (rule triple_bind [OF loop [OF that]], rule triple_seq [OF quiet_post], simp, rule triple_ret)
  have authority: "triple (down 0 None) (case authority of
          None \<Rightarrow> run_seq (report sv ''runtime.fatal.cargo.supervisor'' Failed (Some ''internal_failure'') [])
              (ret (Some (ExitCode 70)))
        | Some g \<Rightarrow>
            run_bind (os_call (os_now os)) (\<lambda>now.
            let sv = sv\<lparr>sv_policy := effective_policy im (supervision_policy b) el now,
                        sv_environment := fst env, sv_instance := rb_runtime_instance_id b\<rparr> in
            run_seq (report_environment_normalized sv (snd env))
            (run_bind (supervise_loop rounds fuel cr os sv tasks 0 0 0) (\<lambda>e.
              run_seq (drop_process_authority os g) (ret e))))) (fine k) post" for authority
    by (cases authority; simp only: option.case Let_def)
       (rule early_exit, simp, rule triple_bind [OF quiet], simp, rule triple_seq [OF quiet],
        simp add: report_environment_normalized_def, rule run, simp)
  show ?thesis
    unfolding supervise_with_reporter_and_environment_def
    by (rule triple_if, rule early_exit, simp, rule triple_bind [OF quiet], simp, rule authority)
qed

lemma supervise_bounded:
  assumes "max_processes b = Some k"
  shows "triple (down 0 None)
    (supervise_with_reporter_and_environment rounds fuel im cr os sv tasks b el env) (fine k)
    (\<lambda>r st. fine k st \<and> (r = None \<longrightarrow> rounds < k))"
proof (rule supervise_wrap)
  fix sv' :: supervision and now
  assume policy: "sv_policy sv' = effective_policy im (supervision_policy b) el now"
  have k: "k \<le> 11" using max_processes_bound [OF assms] by auto
  obtain j where j: "processes_left (ep_mode (sv_policy sv')) 0 = Some j" "1 \<le> j" "j \<le> k"
    using effective_policy_processes [OF assms, of im el now] policy by auto
  show "triple (down 0 None) (supervise_loop rounds fuel cr os sv' tasks 0 0 0) (fine k)
      (\<lambda>r st. fine k st \<and> (r = None \<longrightarrow> rounds < k))"
    by (rule triple_conseq [OF supervise_loop_triple [OF j(1), where k = k]])
       (use j k in \<open>auto simp: u64_max_def fine_def split: option.splits\<close>)
qed (auto intro: down_fine)

lemma supervise_loop_orderly:
  "triple (down c w) (supervise_loop rounds fuel cr os sv tasks pa rc cf) (fine (c + rounds))
    (\<lambda>r st. \<exists>m. st = Some m \<and> mo_count m \<le> c + rounds
       \<and> (case r of None \<Rightarrow> True | Some e \<Rightarrow> exit_from (mo_last m) e))"
proof (induction rounds arbitrary: tasks pa rc cf c w)
  case 0
  then show ?case by (auto intro!: triple_ret simp: down_def)
next
  case (Suc rounds)
  show ?case
    unfolding supervise_loop.simps
  proof (rule triple_bind [OF attempt_child_triple])
    show "Suc c \<le> c + Suc rounds" by simp
    fix r :: "supervisor_exit option \<times> duration"
    obtain e uptime where r: "r = (e, uptime)" by (cases r)
    let ?post = "\<lambda>r st. \<exists>m. st = Some m \<and> mo_count m \<le> c + Suc rounds
       \<and> (case r of None \<Rightarrow> True | Some e \<Rightarrow> exit_from (mo_last m) e)"
    show "triple (round_post c (c + Suc rounds) (sv_policy sv) rc r)
      (case r of (e, uptime) \<Rightarrow> case e of Some e \<Rightarrow> ret (Some e)
        | None \<Rightarrow> supervise_loop rounds fuel cr os sv [] (saturating_add_u64 pa 1)
                   (saturating_add_u64 rc 1) (next_failures cf uptime)) (fine (c + Suc rounds)) ?post"
    proof (cases e)
      case None
      have "triple (\<lambda>st. \<exists>w. down (Suc c) w st) (supervise_loop rounds fuel cr os sv []
          (saturating_add_u64 pa 1) (saturating_add_u64 rc 1) (next_failures cf uptime))
          (fine (c + Suc rounds)) ?post"
        using Suc.IH [of "Suc c"] by (auto intro!: triple_ex)
      from triple_conseq [OF this, where p' = "round_post c (c + Suc rounds) (sv_policy sv) rc r"]
      show ?thesis by (simp add: r None round_post_def)
    next
      case (Some x)
      show ?thesis unfolding r Some prod.case option.case
        by (rule triple_ret) (simp add: round_post_def)
    qed
  qed
qed

lemma supervise_orderly:
  "triple (down 0 None)
    (supervise_with_reporter_and_environment rounds fuel im cr os sv tasks b el env) (fine rounds)
    (\<lambda>r st. \<exists>m. st = Some m \<and> mo_count m \<le> rounds
       \<and> (case r of None \<Rightarrow> True | Some e \<Rightarrow> exit_from (mo_last m) e))"
  by (rule supervise_wrap, rule supervise_loop_orderly [of 0, simplified])
     (auto simp: down_def fine_def)

lemma triple_empty_log:
  assumes "triple (down 0 None) m n q"
  shows "case m (w, []) of (None, s') \<Rightarrow> n (monitor (snd s')) | (Some a, s') \<Rightarrow> q a (monitor (snd s'))"
proof -
  have "down 0 None (monitor (snd (w, [])))" by (simp add: monitor_def down_def)
  from assms [unfolded triple_def, rule_format, OF this] show ?thesis .
qed

lemma fold_mon_None [simp]: "fold mon_step evs None = None"
  by (induction evs) auto

lemma monitor_prefix: "monitor (xs @ ys) \<noteq> None \<Longrightarrow> monitor xs \<noteq> None"
  by (rule notI) (simp add: monitor_def)

definition is_probe :: "sup_event \<Rightarrow> bool" where
  "is_probe e = (case e of Probed _ _ \<Rightarrow> True | _ \<Rightarrow> False)"

definition is_wait :: "sup_event \<Rightarrow> bool" where
  "is_wait e = (case e of Waited _ \<Rightarrow> True | _ \<Rightarrow> False)"

lemma monitor_last_probe:
  assumes "fold mon_step mid (Some m) = Some m'" and "mo_group m = Some pg" and "spawn_count mid = 0"
  shows "mo_group m' = Some pg
    \<and> (mo_alive m \<longrightarrow> mo_alive m' \<or> (\<exists>m1 m2. mid = m1 @ Probed pg False # m2 \<and> list_all (\<lambda>e. \<not> is_probe e) m2))"
  using assms
proof (induction mid arbitrary: m' rule: rev_induct)
  case Nil
  then show ?case by simp
next
  case (snoc e mid)
  obtain m1 where m1: "fold mon_step mid (Some m) = Some m1"
    using snoc.prems(1) by (cases "fold mon_step mid (Some m)") auto
  have "spawn_count mid = 0" using snoc.prems(3) by (simp add: spawn_count_def split: if_splits)
  note IH = snoc.IH [OF m1 snoc.prems(2) this]
  have e: "mon_step e (Some m1) = Some m'" using snoc.prems(1) m1 by simp
  have no_spawn: "\<And>p env. e \<noteq> Spawned p env" using snoc.prems(3) by (auto simp: spawn_count_def)
  show ?case
  proof (cases "is_probe e")
    case True
    then obtain q alive where p: "e = Probed q alive" by (auto simp: is_probe_def split: sup_event.splits)
    then have "q = pg" "m' = m1\<lparr>mo_alive := alive\<rparr>" using e IH by (auto split: if_splits)
    then have "mo_group m' = Some pg \<and> (mo_alive m' \<or> mid @ [e] = mid @ Probed pg False # [])"
      using IH p by (cases alive) simp_all
    then show ?thesis by (metis list.pred_inject(1))
  next
    case False
    then have same: "mo_group m' = mo_group m1" "mo_alive m' = mo_alive m1"
      using e no_spawn by (cases e; auto simp: is_probe_def)+
    have ext: "mid = x @ Probed pg False # y \<Longrightarrow> list_all (\<lambda>e. \<not> is_probe e) y \<Longrightarrow>
        mid @ [e] = x @ Probed pg False # (y @ [e]) \<and> list_all (\<lambda>e. \<not> is_probe e) (y @ [e])" for x y
      using False by simp
    show ?thesis using IH same ext by metis
  qed
qed

lemma probed_before_spawn:
  assumes "monitor (pre @ Spawned pg env # mid @ Spawned pg' env' # post) \<noteq> None"
    and "spawn_count mid = 0"
  shows "\<exists>m1 m2. mid = m1 @ Probed pg False # m2 \<and> list_all (\<lambda>e. \<not> is_probe e) m2"
proof -
  have "monitor ((pre @ [Spawned pg env] @ mid @ [Spawned pg' env']) @ post) \<noteq> None"
    using assms(1) by simp
  then have full: "monitor (pre @ [Spawned pg env] @ mid @ [Spawned pg' env']) \<noteq> None"
    by (rule monitor_prefix)
  then obtain m0 where m0: "monitor (pre @ [Spawned pg env]) = Some m0"
    using monitor_prefix [of "pre @ [Spawned pg env]" "mid @ [Spawned pg' env']"] by auto
  then have grp: "mo_group m0 = Some pg" "mo_alive m0"
    by (cases "monitor pre"; auto split: if_splits)+
  obtain m1 where m1: "fold mon_step mid (Some m0) = Some m1"
    using full m0 by (cases "fold mon_step mid (Some m0)") (auto simp: monitor_def)
  have "\<not> mo_alive m1" using full m0 m1 by (auto simp: monitor_def)
  then show ?thesis using monitor_last_probe [OF m1 grp(1) assms(2)] grp(2) by blast
qed

lemma monitor_last_wait:
  "monitor evs = Some m \<Longrightarrow> mo_last m = Some status \<Longrightarrow>
     \<exists>pre post. evs = pre @ Waited status # post \<and> list_all (\<lambda>e. \<not> is_wait e) post"
proof (induction evs arbitrary: m rule: rev_induct)
  case Nil
  then show ?case by (auto simp: monitor_def)
next
  case (snoc e evs)
  obtain m1 where m1: "monitor evs = Some m1" using snoc.prems(1) by (cases "monitor evs") auto
  have e: "mon_step e (Some m1) = Some m" using snoc.prems(1) m1 by simp
  show ?case
  proof (cases "is_wait e")
    case True
    then show ?thesis using e snoc.prems(2)
      by (intro exI [of _ evs] exI [of _ "[]"]) (auto simp: is_wait_def split: sup_event.splits)
  next
    case False
    then have "mo_last m1 = Some status"
      using e snoc.prems(2) by (cases e) (auto simp: is_wait_def split: if_splits)
    from snoc.IH [OF m1 this] obtain pre post where
      "evs = pre @ Waited status # post" "list_all (\<lambda>e. \<not> is_wait e) post" by blast
    then show ?thesis using False by (intro exI [of _ pre] exI [of _ "post @ [e]"]) simp
  qed
qed

section \<open>Cleanup ends\<close>

text \<open>
  What the operating system has to promise for the loops over the clock to end: the clock never runs
  backwards, a sleep lasts at least as long as asked, and at most \<open>z\<close> children are ever waiting to be
  reaped.
\<close>

definition os_progress :: "'w os_calls \<Rightarrow> ('w \<Rightarrow> nat) \<Rightarrow> ('w \<Rightarrow> nat) \<Rightarrow> nat \<Rightarrow> bool" where
  "os_progress os clock zombies z \<longleftrightarrow>
     (\<forall>w. fst (os_now os w) = clock w \<and> clock w \<le> clock (snd (os_now os w)))
     \<and> (\<forall>w p n. clock w \<le> clock (snd (os_kill os w p n)))
     \<and> (\<forall>w. clock w \<le> clock (snd (os_waitpid_any os w)))
     \<and> (\<forall>w d. clock w + d \<le> clock (os_sleep os w d))
     \<and> (\<forall>w. zombies w \<le> z)
     \<and> (\<forall>w. 0 < fst (os_waitpid_any os w) \<longrightarrow> zombies (snd (os_waitpid_any os w)) < zombies w)"

definition returns :: "('w \<Rightarrow> nat) \<Rightarrow> nat \<Rightarrow> ('w sup_state, 'a) run \<Rightarrow> 'w sup_state \<Rightarrow> bool" where
  "returns clock t m s \<longleftrightarrow> (\<exists>a s'. m s = (Some a, s') \<and> clock (fst s) + t \<le> clock (fst s'))"

lemma returns_ret [simp]: "returns clock 0 (ret a) s"
  by (simp add: returns_def ret_def)

lemma returns_log [simp]: "returns clock 0 (log_event e) s"
  by (simp add: returns_def log_event_def)

lemma returns_bind:
  assumes "returns clock t m s"
    and "\<And>a s'. m s = (Some a, s') \<Longrightarrow> clock (fst s) + t \<le> clock (fst s') \<Longrightarrow> returns clock u (f a) s'"
  shows "returns clock (t + u) (run_bind m f) s"
proof -
  obtain a s' where 1: "m s = (Some a, s')" "clock (fst s) + t \<le> clock (fst s')"
    using assms(1) by (auto simp: returns_def)
  from assms(2) [OF this] obtain b s'' where "f a s' = (Some b, s'')" "clock (fst s') + u \<le> clock (fst s'')"
    by (auto simp: returns_def)
  then show ?thesis using 1 by (auto simp: returns_def run_bind_def)
qed

lemma returns_seq:
  "returns clock t m s \<Longrightarrow> (\<And>s'. clock (fst s) + t \<le> clock (fst s') \<Longrightarrow> returns clock u k s')
     \<Longrightarrow> returns clock (t + u) (run_seq m k) s"
  unfolding run_seq_def by (rule returns_bind)

lemmas returns_bind0 = returns_bind [where t = 0 and u = 0, simplified]
lemmas returns_seq0 = returns_seq [where t = 0 and u = 0, simplified]

lemma returns_os_call: "(\<And>w. clock w \<le> clock (snd (f w))) \<Longrightarrow> returns clock 0 (os_call f) s"
  by (simp add: returns_def os_call_def split: prod.splits) (metis fst_conv snd_conv surj_pair)

lemma reap_returns:
  assumes "os_progress os clock zombies z" and "zombies (fst s) < fuel"
  shows "returns clock 0 (reap_descendants fuel os) s"
  using assms(2)
proof (induction fuel arbitrary: s)
  case (Suc fuel)
  obtain pid w where p: "os_waitpid_any os (fst s) = (pid, w)" by (metis surj_pair)
  have c: "clock (fst s) \<le> clock w" and dec: "0 < pid \<Longrightarrow> zombies w < zombies (fst s)"
    using assms(1) p unfolding os_progress_def by (metis fst_conv snd_conv)+
  have step: "os_call (os_waitpid_any os) s = (Some pid, w, snd s)" by (simp add: os_call_def p)
  show ?case
  proof (cases "pid \<le> 0")
    case True
    then show ?thesis using c by (simp add: returns_def run_bind_def step ret_def)
  next
    case False
    then have "returns clock 0 (reap_descendants fuel os) (w, snd s)"
      using dec Suc by (intro Suc.IH) auto
    then show ?thesis using c False by (fastforce simp: returns_def run_bind_def step)
  qed
qed simp

lemma progress_now: "os_progress os clock zombies z \<Longrightarrow> returns clock 0 (os_call (os_now os)) s"
  by (rule returns_os_call) (simp add: os_progress_def)

lemma progress_signal: "os_progress os clock zombies z \<Longrightarrow> returns clock 0 (signal_process_group os pg sig) s"
  unfolding signal_process_group_def
  by (intro returns_bind0 returns_os_call returns_seq0) (simp_all add: os_progress_def)

lemma progress_probe: "os_progress os clock zombies z \<Longrightarrow> returns clock 0 (process_group_exists os pg) s"
  unfolding process_group_exists_def
  by (intro returns_bind0 returns_os_call returns_seq0) (simp_all add: os_progress_def)

lemma progress_sleep: "os_progress os clock zombies z \<Longrightarrow> returns clock d (os_do (\<lambda>w. os_sleep os w d)) s"
  by (simp add: os_progress_def returns_def os_do_def)

lemma returns_weaken: "returns clock t m s \<Longrightarrow> returns clock 0 m s"
  by (fastforce simp: returns_def)

lemma await_returns:
  fixes os :: "'w os_calls"
  assumes progress: "os_progress os clock zombies z"
    and "deadline \<le> clock (fst s) + n * POLL_INTERVAL" and "n + z < fuel"
  shows "returns clock 0 (await_group_end fuel os pg deadline) s"
  using assms(2,3)
proof (induction n arbitrary: s fuel)
  case 0
  then obtain f where f: "fuel = Suc f" by (cases fuel) auto
  show ?case unfolding f await_group_end.simps
  proof (rule returns_bind0 [OF progress_probe [OF progress]])
    fix alive and s1 :: "'w sup_state"
    assume c1: "clock (fst s) \<le> clock (fst s1)"
    obtain w where now: "os_call (os_now os) s1 = (Some (clock (fst s1)), w, snd s1)" "clock (fst s1) \<le> clock w"
      using progress unfolding os_progress_def os_call_def by (metis (no_types, lifting) case_prod_beta prod.collapse)
    show "returns clock 0 (if \<not> alive then ret () else run_bind (os_call (os_now os)) (\<lambda>now.
         if \<not> now < deadline then ret ()
         else run_seq (reap_descendants (Suc f) os)
           (run_seq (os_do (\<lambda>w. os_sleep os w POLL_INTERVAL)) (await_group_end f os pg deadline)))) s1"
      using 0 c1 now by (cases s1) (auto simp: returns_def run_bind_def ret_def)
  qed
next
  case (Suc n)
  then obtain f where f: "fuel = Suc f" by (cases fuel) auto
  have reap: "returns clock 0 (reap_descendants (Suc f) os) s'" for s'
    using progress Suc(3) f by (intro reap_returns [OF progress]) (auto simp: os_progress_def intro: le_less_trans)
  have again: "returns clock 0 (run_seq (os_do (\<lambda>w. os_sleep os w POLL_INTERVAL)) (await_group_end f os pg deadline)) s'"
    if "clock (fst s) \<le> clock (fst s')" for s'
    by (rule returns_weaken, rule returns_seq [OF progress_sleep [OF progress], where u = 0], rule Suc.IH)
       (use that Suc(2,3) f in auto)
  have rest: "returns clock 0 (run_seq (reap_descendants (Suc f) os)
      (run_seq (os_do (\<lambda>w. os_sleep os w POLL_INTERVAL)) (await_group_end f os pg deadline))) s'"
    if "clock (fst s) \<le> clock (fst s')" for s'
    by (rule returns_seq0 [OF reap again]) (use that in auto)
  show ?case unfolding f await_group_end.simps
  proof (rule returns_bind0 [OF progress_probe [OF progress]])
    fix alive and s1 :: "'w sup_state"
    assume c1: "clock (fst s) \<le> clock (fst s1)"
    show "returns clock 0 (if \<not> alive then ret () else run_bind (os_call (os_now os)) (\<lambda>now.
         if \<not> now < deadline then ret ()
         else run_seq (reap_descendants (Suc f) os)
           (run_seq (os_do (\<lambda>w. os_sleep os w POLL_INTERVAL)) (await_group_end f os pg deadline)))) s1"
    proof (cases alive)
      case True
      show ?thesis
        by (simp only: True not_True_eq_False if_False, rule returns_bind0 [OF progress_now [OF progress]])
           (auto intro!: rest intro: order_trans [OF c1] simp del: reap_descendants.simps)
    qed simp
  qed
qed

lemma terminate_returns:
  fixes os :: "'w os_calls"
  assumes progress: "os_progress os clock zombies z" and fuel: "20 + z < fuel"
  shows "returns clock 0 (terminate_and_reap_group fuel os pg) s"
proof -
  have grace: "CLEANUP_GRACE = 20 * POLL_INTERVAL" by (simp add: CLEANUP_GRACE_def POLL_INTERVAL_def from_millis_def)
  have wait: "returns clock 0 (run_seq (await_group_end fuel os pg (t + CLEANUP_GRACE)) k) s2"
    if "os_call (os_now os) s1 = (Some t, s2)" "\<And>s'. returns clock 0 k s'"
    for t s1 s2 and k :: "('w sup_state, 'b) run"
  proof (rule returns_seq0 [OF await_returns [OF progress, where n = 20] that(2)])
    have "t = clock (fst s1)" "clock (fst s1) \<le> clock (fst s2)"
      using that(1) progress by (auto simp: os_call_def os_progress_def split: prod.splits) (metis fst_conv snd_conv)+
    then show "t + CLEANUP_GRACE \<le> clock (fst s2) + 20 * POLL_INTERVAL" by (simp add: grace)
  qed (use fuel in simp)
  have kill: "returns clock 0 (if alive then run_bind (signal_process_group os pg SIGKILL) (\<lambda>_. ret ()) else ret ()) s'"
    for alive s'
    by (auto intro!: returns_bind0 progress_signal [OF progress])
  have reap: "returns clock 0 (reap_descendants fuel os) s'" for s'
    using progress fuel by (intro reap_returns [OF progress]) (auto simp: os_progress_def intro: le_less_trans)
  show ?thesis
    unfolding terminate_and_reap_group_def
    by (auto intro!: returns_bind0 [OF progress_signal [OF progress]] returns_bind0 [OF progress_now [OF progress]]
        returns_bind0 [OF progress_probe [OF progress]] returns_seq0 [OF kill] returns_seq0 [OF reap]
        elim!: wait simp del: await_group_end.simps reap_descendants.simps)
qed

section \<open>Properties\<close>

text \<open>
  C3. However the customer process fails, and whatever the operating system answers, the supervisor
  starts at most as many processes as the signed policy allows: one without a policy or with the
  policy \<open>never\<close>, one more than \<open>maxRestarts\<close> otherwise, and never more than eleven.
\<close>

theorem restarts_bounded:
  "case max_processes b of
     None \<Rightarrow> (\<exists>p. supervision_policy b = Some p \<and> sp_mode p = OnFailure ScheduleEnd)
   | Some k \<Rightarrow> k \<le> 11 \<and> spawn_count (snd (snd (supervise_with_reporter_and_environment
        rounds fuel im cr os sv tasks b el env (w, [])))) \<le> k"
proof (cases "max_processes b")
  case None
  then obtain p where p: "supervision_policy b = Some p" "processes_left (sp_mode p) 0 = None"
    by (auto simp: max_processes_def split: option.splits)
  then have "sp_mode p = OnFailure ScheduleEnd"
    by (cases "(sp_mode p, 0 :: nat)" rule: processes_left.cases) auto
  then show ?thesis using None p by simp
next
  case (Some k)
  from triple_empty_log [OF supervise_bounded [OF this, where rounds = rounds and fuel = fuel and im = im and cr = cr
      and os = os and sv = sv and tasks = tasks and el = el and env = env], where w = w]
  have "fine k (monitor (snd (snd (supervise_with_reporter_and_environment
      rounds fuel im cr os sv tasks b el env (w, [])))))"
    by (auto split: prod.splits option.splits)
  then show ?thesis
    using Some max_processes_bound [OF Some] by (auto simp: fine_def dest: spawn_count_monitor)
qed

text \<open>
  C4. A supervision whose policy bounds the restarts ends: with as many rounds as the policy allows
  processes, the restart loop never asks for another one.
\<close>

theorem bounded_supervision_ends:
  assumes "max_processes b = Some k" and "k \<le> rounds"
  shows "fst (supervise_with_reporter_and_environment rounds fuel im cr os sv tasks b el env (w, []))
    \<noteq> Some None"
  using triple_empty_log [OF supervise_bounded [OF assms(1), where rounds = rounds and fuel = fuel and im = im and cr = cr
      and os = os and sv = sv and tasks = tasks and el = el and env = env], where w = w] assms(2)
  by (auto split: prod.splits option.splits)

text \<open>
  C5. A customer process is never started while the process group of the previous one may be alive:
  between two starts the last probe of the previous group found it gone.
\<close>

theorem group_gone_before_restart:
  assumes "snd (snd (supervise_with_reporter_and_environment rounds fuel im cr os sv tasks b el env (w, [])))
      = pre @ Spawned pg e # mid @ Spawned pg' e' # post"
    and "spawn_count mid = 0"
  shows "\<exists>m1 m2. mid = m1 @ Probed pg False # m2 \<and> list_all (\<lambda>e. \<not> is_probe e) m2"
proof -
  have "monitor (snd (snd (supervise_with_reporter_and_environment
      rounds fuel im cr os sv tasks b el env (w, [])))) \<noteq> None"
    using triple_empty_log [OF supervise_orderly [where rounds = rounds and fuel = fuel and im = im and cr = cr
      and os = os and sv = sv and tasks = tasks and b = b and el = el and env = env], where w = w]
    by (auto simp: fine_def split: prod.splits option.splits)
  then show ?thesis unfolding assms(1) by (rule probed_before_spawn [OF _ assms(2)])
qed

text \<open>
  C6. The supervisor's exit code is the customer's: apart from its own codes 70 and 126, it is the
  code of the last status it collected.
\<close>

theorem exit_code_is_the_customers:
  assumes "supervise_with_reporter_and_environment rounds fuel im cr os sv tasks b el env (w, [])
      = (Some (Some (ExitCode c)), s')"
    and "c \<noteq> 70" and "c \<noteq> 126"
  shows "\<exists>pre status post. snd s' = pre @ Waited status # post \<and> list_all (\<lambda>e. \<not> is_wait e) post
    \<and> status_code status = Some c"
proof -
  from triple_empty_log [OF supervise_orderly [where rounds = rounds and fuel = fuel and im = im and cr = cr
      and os = os and sv = sv and tasks = tasks and b = b and el = el and env = env], where w = w]
  obtain m where m: "monitor (snd s') = Some m" "exit_from (mo_last m) (ExitCode c)"
    unfolding assms(1) by auto
  then obtain status where "mo_last m = Some status" "status_code status = Some c"
    using assms(2,3) by auto
  then show ?thesis using monitor_last_wait [OF m(1)] by blast
qed

text \<open>
  A restart is delayed by at most a minute and never so long that less than the final runway of
  five seconds is left before the schedule ends.
\<close>

theorem restart_delay_leaves_runway:
  assumes "restart_delay cr policy pa rc cf uptime i now = Inr d"
  shows "\<exists>deadline. ep_deadline policy = Some deadline \<and> now + d + from_secs 5 \<le> deadline
    \<and> d \<le> from_secs 60"
proof -
  obtain deadline n where "ep_deadline policy = Some deadline" "FINAL_RUNWAY < deadline - now"
      "d = min (deterministic_backoff cr i pa n) (deadline - now - FINAL_RUNWAY)"
    using assms
    by (auto simp: restart_delay_def Let_def saturating_sub_def
        split: supervision_mode.splits restart_limit.splits if_splits option.splits)
  moreover have "deterministic_backoff cr i pa n \<le> from_millis 60000"
    using deterministic_backoff_bounds [where cr = cr and i = i and pa = pa and n = n] from_millis_mono
    by (meson min.cobounded2 order_trans)
  ultimately show ?thesis by (auto simp: FINAL_RUNWAY_def from_secs_def from_millis_def)
qed

text \<open>
  The backoff doubles from a second to a minute with the consecutive failures and always lies in
  the upper half of that ceiling, whatever the digest is.
\<close>

theorem backoff_in_upper_half:
  "from_millis (min (1000 * 2 ^ min n 6) 60000 div 2) \<le> deterministic_backoff cr i pa n
   \<and> deterministic_backoff cr i pa n \<le> from_millis (min (1000 * 2 ^ min n 6) 60000)"
  by (rule deterministic_backoff_bounds)

text \<open>
  C7. Cleanup ends. If the clock advances with the sleeps and only finitely many children wait to be
  reaped, terminating a process group returns, after at most twenty polls for each of its two graces.
\<close>

theorem cleanup_returns:
  assumes "os_progress os clock zombies z" and "20 + z < fuel"
  shows "\<exists>complete s'. terminate_and_reap_group fuel os pg s = (Some complete, s')"
  using terminate_returns [OF assms, of pg s] by (auto simp: returns_def)

section \<open>Witnesses\<close>

text \<open>A machine whose first process exits with code 1 and whose second exits with code 0.\<close>

definition sample_os :: "(nat \<times> nat) os_calls" where
  "sample_os =
     \<lparr>os_now = (\<lambda>w. (fst w, w)), os_take_signal = (\<lambda>w. (0, w)), os_clear_signal = (\<lambda>w. w),
      os_spawn = (\<lambda>w c e o'. (Some (100 + snd w), (fst w, Suc (snd w)))),
      os_try_wait = (\<lambda>w. (Exited \<lparr>status_code = Some (if snd w = 1 then 1 else 0), status_signal = None\<rparr>, w)),
      os_kill = (\<lambda>w p n. (3, w)), os_waitpid_any = (\<lambda>w. (0, w)),
      os_sleep = (\<lambda>w d. (fst w + d + 10000000000, snd w)), os_get_subreaper = (\<lambda>w. (Some 0, w)),
      os_set_subreaper = (\<lambda>w n. (True, w)), os_signal = (\<lambda>w n h. (Some 0, w)),
      os_session_reports = (\<lambda>w. ([], w)), os_thermal = (\<lambda>w. (None, w)), os_memory = (\<lambda>w r. ([], w))\<rparr>"

definition sample_supervised :: runtime_bootstrap_response where
  "sample_supervised = sample_response\<lparr>rb_supervision := Some (JObj
     [(''mode'', JStr ''on_failure''),
      (''restartLimit'', JObj [(''kind'', JStr ''attempts''), (''maxRestarts'', json_u64 1)]),
      (''serverTimeMs'', json_u64 0), (''scheduleEndMs'', json_u64 100000)])\<rparr>"

definition sample_supervision :: supervision where
  "sample_supervision =
     \<lparr>sv_reporter = False, sv_session = False, sv_command = [''run''], sv_environment = [], sv_capture = False,
      sv_instance = [], sv_policy = \<lparr>ep_mode = Never, ep_deadline = None\<rparr>, sv_version = ''1''\<rparr>"

definition sample_run :: "supervisor_exit option option \<times> (nat \<times> nat) sup_state" where
  "sample_run = supervise_with_reporter_and_environment 2 2 (10 ^ 30) sample_crates sample_os
     sample_supervision [] sample_supervised 0 ([], []) ((0, 0), [])"


lemma sample_policy:
  "supervision_policy sample_supervised =
     Some \<lparr>sp_mode = OnFailure (Attempts 1), sp_server_time_ms = 0, sp_schedule_end_ms = 100000\<rparr>"
  by (simp add: supervision_policy_def sample_supervised_def parse_supervision_mode_def parse_restart_limit_def
     json_u64_def as_u64_def)

lemma sample_digest: "sha256_digest sample_crates b = []"
  by (simp add: sample_crates_def)

lemma sample_os_fields:
  "os_now sample_os w = (fst w, w)" "os_take_signal sample_os w = (0, w)" "os_clear_signal sample_os w = w"
  "os_spawn sample_os w c e o' = (Some (100 + snd w), (fst w, Suc (snd w)))"
  "os_try_wait sample_os w = (Exited \<lparr>status_code = Some (if snd w = 1 then 1 else 0), status_signal = None\<rparr>, w)"
  "os_kill sample_os w p n = (3, w)" "os_waitpid_any sample_os w = (0, w)"
  "os_sleep sample_os w d = (fst w + d + 10000000000, snd w)" "os_get_subreaper sample_os w = (Some 0, w)"
  "os_set_subreaper sample_os w m = (True, w)" "os_signal sample_os w n h = (Some 0, w)"
  "os_thermal sample_os w = (None, w)" "os_memory sample_os w r = ([], w)"
  by (simp_all add: sample_os_def)

lemmas run_defs = run_bind_def run_seq_def ret_def os_call_def os_do_def log_event_def

lemma sample_take: "take_signal sample_os (w, l) = (Some None, w, l)"
  by (simp add: take_signal_def run_defs sample_os_fields)

lemma sample_terminate:
  "0 < pg \<Longrightarrow> terminate_and_reap_group (Suc f) sample_os pg (w, l) = (Some True, w,
     l @ [Killed pg 15, Probed pg False, Probed pg False, Probed pg False, Probed pg False])"
  by (simp add: terminate_and_reap_group_def signal_process_group_def process_group_exists_def run_defs
      sample_os_fields ESRCH_def EPERM_def SIGTERM_def)

definition sample_status :: "nat \<times> nat \<Rightarrow> exit_status" where
  "sample_status w = \<lparr>status_code = Some (if snd w = 1 then 1 else 0), status_signal = None\<rparr>"

lemma sample_poll:
  "\<not> sv_session sv \<Longrightarrow> poll_child (Suc f) sample_os sv pg root pa rc nh None False (w, l) =
     (Some (Inr (sample_status w, False)), w, l @ [Waited (sample_status w)])"
  by (simp add: run_defs session_events_def forward_signal_def sample_take force_cleanup_def
      sample_os_fields sample_status_def)

lemma sample_sleep:
  "0 < d \<Longrightarrow> d \<le> 10000000000 \<Longrightarrow>
   sleep_interruptibly (Suc (Suc f)) sample_os d ((t, n), l)
     = (Some None, (t + min POLL_INTERVAL d + 10000000000, n), l @ [Delayed d])"
  by (simp add: sleep_interruptibly_def run_defs sample_os_fields take_signal_def saturating_sub_def)

lemma sample_delay:
  "restart_delay sample_crates \<lparr>ep_mode = OnFailure (Attempts 1), ep_deadline = Some 100000000000\<rparr>
     0 0 0 0 i 0 = Inr 500000000"
  by (simp add: restart_delay_def deterministic_backoff_def sample_digest of_be_bytes_def Let_def
      from_millis_def saturating_sub_def FINAL_RUNWAY_def from_secs_def STABILITY_RESET_def)

lemma sample_settle_failure:
  assumes "\<not> sv_reporter sv" "\<not> sv_capture sv" "0 < pg"
    and "sv_policy sv = \<lparr>ep_mode = OnFailure (Attempts 1), ep_deadline = Some 100000000000\<rparr>"
  shows "settle_attempt 2 sample_crates sample_os sv pg (sample_status (0, 1)) False 0 0 0 0 ((0, 1), l) =
     (Some None, (10025000000, 1), l @ [Killed pg 15, Probed pg False, Probed pg False, Probed pg False,
       Probed pg False, Delayed 500000000])"
  using assms sample_delay [of "sv_instance sv"] sample_terminate [OF assms(3), of 1 "(0, 1)" l]
  by (simp add: settle_attempt_def run_defs end_child_def status_failure_def sample_status_def numeral_2_eq_2
      restart_or_exit_def sample_os_fields report_def schedule_restart_def report_with_readings_def
      sample_sleep [where f = 0, simplified] POLL_INTERVAL_def from_millis_def)

lemma sample_settle_success:
  assumes "\<not> sv_reporter sv" "\<not> sv_capture sv" "0 < pg"
  shows "settle_attempt 2 sample_crates sample_os sv pg (sample_status (t, 2)) False pa rc cf uptime (w, l) =
     (Some (Some (ExitCode 0)), w, l @ [Killed pg 15, Probed pg False, Probed pg False, Probed pg False,
       Probed pg False])"
  using assms sample_terminate [OF assms(3), of 1 w l]
  by (simp add: settle_attempt_def run_defs end_child_def status_failure_def sample_status_def numeral_2_eq_2
      sample_os_fields report_def report_with_readings_def)


abbreviation sample_cleanup :: "int \<Rightarrow> sup_event list" where
  "sample_cleanup pg \<equiv> [Killed pg 15, Probed pg False, Probed pg False, Probed pg False, Probed pg False]"

definition sample_sv :: supervision where
  "sample_sv = sample_supervision
     \<lparr>sv_policy := \<lparr>ep_mode = OnFailure (Attempts 1), ep_deadline = Some 100000000000\<rparr>,
      sv_environment := [], sv_instance := ''0001''\<rparr>"

lemma sample_sv_fields [simp]:
  "\<not> sv_reporter sample_sv" "\<not> sv_session sample_sv" "\<not> sv_capture sample_sv" "sv_environment sample_sv = []"
  "sv_policy sample_sv = \<lparr>ep_mode = OnFailure (Attempts 1), ep_deadline = Some 100000000000\<rparr>"
  by (simp_all add: sample_sv_def sample_supervision_def)

lemma sample_first:
  "attempt_child 2 sample_crates sample_os sample_sv [] 0 0 0 ((0, 0), l) =
     (Some (None, 0), (10025000000, 1),
      l @ [Spawned 100 [], Waited (sample_status (0, 1))] @ sample_cleanup 100 @ [Delayed 500000000])"
  by (simp add: attempt_child_def start_child_def run_child_def run_defs session_events_def sample_take
      sample_os_fields i32_of_pid_def report_def sample_poll [where f = 1, simplified Suc_1] sample_settle_failure [simplified]
      saturating_sub_def
      del: poll_child.simps)

lemma sample_second:
  "attempt_child 2 sample_crates sample_os sample_sv [] pa rc cf ((t, 1), l) =
     (Some (Some (ExitCode 0), 0), (t, 2),
      l @ [Spawned 101 [], Waited (sample_status (t, 2))] @ sample_cleanup 101)"
  by (simp add: attempt_child_def start_child_def run_child_def run_defs session_events_def sample_take
      sample_os_fields i32_of_pid_def report_def sample_poll [where f = 1, simplified Suc_1] sample_settle_success [simplified]
      saturating_sub_def
      numeral_2_eq_2 [symmetric] del: poll_child.simps)

lemma sample_effective:
  "effective_policy (10 ^ 30) (supervision_policy sample_supervised) 0 0 =
     \<lparr>ep_mode = OnFailure (Attempts 1), ep_deadline = Some 100000000000\<rparr>"
  by (simp add: effective_policy_def sample_policy Let_def saturating_sub_def from_millis_def)

definition supervised_log :: "sup_event list" where
  "supervised_log = [Spawned 100 [], Waited (sample_status (0, 1))] @ sample_cleanup 100 @ [Delayed 500000000,
     Spawned 101 [], Waited (sample_status (10025000000, 2))] @ sample_cleanup 101"

lemma sample_run_value: "sample_run = (Some (Some (ExitCode 0)), (10025000000, 2), supervised_log)"
proof -
  have loop: "supervise_loop 2 2 sample_crates sample_os sample_sv [] 0 0 0 ((0, 0), []) =
      (Some (Some (ExitCode 0)), (10025000000, 2), supervised_log)"
    by (simp only: numeral_2_eq_2 supervise_loop.simps)
       (simp add: run_bind_def ret_def sample_first [simplified] sample_second [simplified] supervised_log_def numeral_2_eq_2 [symmetric])
  have sv: "sample_supervision\<lparr>sv_policy := effective_policy (10 ^ 30) (supervision_policy sample_supervised) 0 0,
      sv_environment := fst ([], []), sv_instance := rb_runtime_instance_id sample_supervised\<rparr> = sample_sv"
  proof -
    have "rb_runtime_instance_id sample_supervised = ''0001''"
      by (simp add: sample_supervised_def sample_response_def)
    then show ?thesis by (simp only: sample_sv_def sample_effective fst_conv)
  qed
  have authority: "install_process_authority sample_os ((0, 0), []) =
      (Some (Some (map (\<lambda>n. (n, 0)) SUPPORTED_SIGNALS, 0)), (0, 0), [])"
    by (simp add: install_process_authority_def run_defs sample_os_fields SUPPORTED_SIGNALS_def)
  have drop: "drop_process_authority sample_os (map (\<lambda>n. (n, 0)) SUPPORTED_SIGNALS, 0) s = (Some (), s)" for s
    by (cases s) (simp add: drop_process_authority_def run_defs sample_os_fields SUPPORTED_SIGNALS_def)
  have cmd: "sv_command sample_supervision \<noteq> []" by (simp add: sample_supervision_def)
  show ?thesis
    unfolding sample_run_def supervise_with_reporter_and_environment_def
    using cmd loop sv
    by (simp add: run_defs authority drop sample_os_fields report_environment_normalized_def Let_def
        del: supervise_loop.simps)
qed


lemma sample_max: "max_processes sample_supervised = Some 2"
  by (simp add: max_processes_def sample_policy)

theorem bounded_supervision_ends_witness:
  "max_processes sample_supervised = Some 2 \<and> fst sample_run = Some (Some (ExitCode 0)) \<and> fst sample_run \<noteq> Some None"
  using bounded_supervision_ends [OF sample_max order_refl, of 2 "10 ^ 30" sample_crates sample_os
      sample_supervision "[]" 0 "([], [])" "(0, 0)"] sample_max sample_run_value
  by (simp add: sample_run_def)

theorem group_gone_before_restart_witness:
  "\<exists>mid post. snd (snd sample_run) = [] @ Spawned 100 [] # mid @ Spawned 101 [] # post
     \<and> spawn_count mid = 0
     \<and> (\<exists>m1 m2. mid = m1 @ Probed 100 False # m2 \<and> list_all (\<lambda>e. \<not> is_probe e) m2)"
proof -
  let ?mid = "[Waited (sample_status (0, 1))] @ sample_cleanup 100 @ [Delayed 500000000]"
  let ?post = "[Waited (sample_status (10025000000, 2))] @ sample_cleanup 101"
  have log: "snd (snd sample_run) = [] @ Spawned 100 [] # ?mid @ Spawned 101 [] # ?post"
    by (simp add: sample_run_value supervised_log_def)
  have none: "spawn_count ?mid = 0" by (simp add: spawn_count_def)
  show ?thesis
    using group_gone_before_restart [OF log [unfolded sample_run_def] none] log none by blast
qed

theorem exit_code_is_the_customers_witness:
  "fst sample_run = Some (Some (ExitCode 0)) \<and>
   (\<exists>pre status post. supervised_log = pre @ Waited status # post \<and> list_all (\<lambda>e. \<not> is_wait e) post
      \<and> status_code status = Some 0)"
  using exit_code_is_the_customers [OF sample_run_value [unfolded sample_run_def]] by (simp add: sample_run_value)

theorem restart_delay_leaves_runway_witness:
  "restart_delay sample_crates \<lparr>ep_mode = OnFailure (Attempts 1), ep_deadline = Some 100000000000\<rparr>
     0 0 0 0 [] 0 = Inr 500000000
   \<and> 0 + 500000000 + from_secs 5 \<le> (100000000000 :: nat) \<and> (500000000 :: nat) \<le> from_secs 60"
  using restart_delay_leaves_runway [OF sample_delay [of "[]"]] sample_delay [of "[]"] by simp

theorem cleanup_returns_witness:
  "os_progress sample_os fst (\<lambda>w. 0) 0
   \<and> (\<exists>complete s'. terminate_and_reap_group 21 sample_os 100 ((0, 0), []) = (Some complete, s'))"
proof -
  have "os_progress sample_os fst (\<lambda>w. 0) 0" by (simp add: os_progress_def sample_os_fields)
  then show ?thesis using cleanup_returns [of sample_os fst "\<lambda>w. 0" 0 21 100 "((0, 0), [])"] by simp
qed

end
