(* ===== verification/Descriptor.thy ===== *)
theory Descriptor
  imports Environment
begin

text \<open>
  The traversal grant: \<open>src/network_traversal/mod.rs\<close> (closed refusals, text and digest checks, bounded
  and canonical encodings), \<open>descriptor.rs\<close> (the immutable experiment descriptor and its validation)
  and \<open>reserve.rs\<close> (the time reservation of the collector).

  The structs are records with the source's fields; their \<open>serde\<close> encodings are written out as
  \<open>_json\<close> functions (camel-case keys in field order, absent options as \<open>null\<close>). Unsigned fields are
  naturals: the code only compares them, and its two additions are checked.
\<close>

section \<open>Refusals and encodings\<close>

datatype traversal_refusal =
    Malformed | UnknownVersion | WrongDomain | InvalidBinding | InvalidScope | InvalidBudget
  | InvalidDeadline | InvalidConsent | InvalidPair | InvalidProof | Oversize | NotYetValid | Expired
  | InsufficientTime | InvalidMac | NonCanonical
  | RefusalPanic \<comment> \<open>the \<open>expect\<close> of \<open>canonical_json_bytes\<close>\<close>

definition TRAVERSAL_BLOCK_MAX_BYTES :: nat where "TRAVERSAL_BLOCK_MAX_BYTES = 8 * 1024"
definition TRAVERSAL_ENVELOPE_MAX_BYTES :: nat where "TRAVERSAL_ENVELOPE_MAX_BYTES = 16 * 1024"
definition TRAVERSAL_CAPABILITY_MAX_MS :: nat where "TRAVERSAL_CAPABILITY_MAX_MS = 120000"
definition TRAVERSAL_EXPERIMENT_MAX_MS :: nat where "TRAVERSAL_EXPERIMENT_MAX_MS = 30000"
definition TRAVERSAL_CLEANUP_RESERVE_MS :: nat where "TRAVERSAL_CLEANUP_RESERVE_MS = 5000"
definition SAFE_INTEGER :: nat where "SAFE_INTEGER = 9007199254740991"

definition text_ok :: "string \<Rightarrow> bool" where
  "text_ok s \<longleftrightarrow> s \<noteq> [] \<and> length s \<le> 128 \<and> (\<forall>c \<in> set s. is_ascii_graphic c)"

definition lower_hex :: "string \<Rightarrow> nat \<Rightarrow> bool" where
  "lower_hex s n \<longleftrightarrow> length s = n * 2 \<and> (\<forall>c \<in> set s. is_lower_hex_digit c)"

definition digest :: "string \<Rightarrow> bool" where
  "digest s = (case strip_prefix ''sha256:'' s of None \<Rightarrow> False | Some h \<Rightarrow> lower_hex h 32)"

definition prefixed_hex :: "string \<Rightarrow> nat \<Rightarrow> bool" where
  "prefixed_hex s n = (case strip_prefix ''0x'' s of None \<Rightarrow> False | Some h \<Rightarrow> lower_hex h n)"

definition canonical :: "crates \<Rightarrow> json \<Rightarrow> traversal_refusal + bytes" where
  "canonical cr v = ok_or (canonical_json_bytes cr v) RefusalPanic"

definition sha256 :: "crates \<Rightarrow> bytes \<Rightarrow> string" where
  "sha256 cr bs = ''sha256:'' @ hex_encode cr (sha256_digest cr bs)"

definition bounded :: "crates \<Rightarrow> json \<Rightarrow> nat \<Rightarrow> traversal_refusal + unit" where
  "bounded cr v limit =
     res_bind (ok_or (json_to_vec cr v) Malformed) (\<lambda>bs. guard (length bs \<le> limit) Oversize (Inr ()))"

definition json_opt :: "('a \<Rightarrow> json) \<Rightarrow> 'a option \<Rightarrow> json" where
  "json_opt f x = (case x of None \<Rightarrow> JNull | Some v \<Rightarrow> f v)"

section \<open>Enumerations\<close>

datatype traversal_mode = ModeObserve | ModeMapping | ModePair

datatype traversal_operation =
    DiscoverGateway | ObserveMapping | ObserveFiltering | BaselineTcp | BaselineUdp | RegisterEndpoint
  | MapPcp | MapNatPmp | MapUpnp | PairDirectUdp | PairRelayControl

datatype router_protocol = RouterPcp | RouterNatPmp | RouterUpnpIgd

datatype participant_role = RoleFirst | RoleSecond

fun mode_name :: "traversal_mode \<Rightarrow> string" where
  "mode_name ModeObserve = ''observe''"
| "mode_name ModeMapping = ''mapping''"
| "mode_name ModePair = ''pair''"

text \<open>The derived order of the operations is the order of their declaration.\<close>

fun operation_rank :: "traversal_operation \<Rightarrow> nat" where
  "operation_rank DiscoverGateway = 0"
| "operation_rank ObserveMapping = 1"
| "operation_rank ObserveFiltering = 2"
| "operation_rank BaselineTcp = 3"
| "operation_rank BaselineUdp = 4"
| "operation_rank RegisterEndpoint = 5"
| "operation_rank MapPcp = 6"
| "operation_rank MapNatPmp = 7"
| "operation_rank MapUpnp = 8"
| "operation_rank PairDirectUdp = 9"
| "operation_rank PairRelayControl = 10"

lemma operation_rank_inj: "operation_rank a = operation_rank b \<Longrightarrow> a = b"
  by (cases a; cases b) simp_all

instantiation traversal_operation :: linorder
begin

definition less_eq_traversal_operation :: "traversal_operation \<Rightarrow> traversal_operation \<Rightarrow> bool" where
  "less_eq_traversal_operation a b \<longleftrightarrow> operation_rank a \<le> operation_rank b"

definition less_traversal_operation :: "traversal_operation \<Rightarrow> traversal_operation \<Rightarrow> bool" where
  "less_traversal_operation a b \<longleftrightarrow> operation_rank a < operation_rank b"

instance
  by standard (auto simp: less_eq_traversal_operation_def less_traversal_operation_def
      dest: operation_rank_inj)

end

fun protocol_rank :: "router_protocol \<Rightarrow> nat" where
  "protocol_rank RouterPcp = 0"
| "protocol_rank RouterNatPmp = 1"
| "protocol_rank RouterUpnpIgd = 2"

lemma protocol_rank_inj: "protocol_rank a = protocol_rank b \<Longrightarrow> a = b"
  by (cases a; cases b) simp_all

instantiation router_protocol :: linorder
begin

definition less_eq_router_protocol :: "router_protocol \<Rightarrow> router_protocol \<Rightarrow> bool" where
  "less_eq_router_protocol a b \<longleftrightarrow> protocol_rank a \<le> protocol_rank b"

definition less_router_protocol :: "router_protocol \<Rightarrow> router_protocol \<Rightarrow> bool" where
  "less_router_protocol a b \<longleftrightarrow> protocol_rank a < protocol_rank b"

instance
  by standard (auto simp: less_eq_router_protocol_def less_router_protocol_def dest: protocol_rank_inj)

end

fun operation_name :: "traversal_operation \<Rightarrow> string" where
  "operation_name DiscoverGateway = ''discover_gateway''"
| "operation_name ObserveMapping = ''observe_mapping''"
| "operation_name ObserveFiltering = ''observe_filtering''"
| "operation_name BaselineTcp = ''baseline_tcp''"
| "operation_name BaselineUdp = ''baseline_udp''"
| "operation_name RegisterEndpoint = ''register_endpoint''"
| "operation_name MapPcp = ''map_pcp''"
| "operation_name MapNatPmp = ''map_nat_pmp''"
| "operation_name MapUpnp = ''map_upnp''"
| "operation_name PairDirectUdp = ''pair_direct_udp''"
| "operation_name PairRelayControl = ''pair_relay_control''"

fun router_protocol_name :: "router_protocol \<Rightarrow> string" where
  "router_protocol_name RouterPcp = ''pcp''"
| "router_protocol_name RouterNatPmp = ''nat_pmp''"
| "router_protocol_name RouterUpnpIgd = ''upnp_igd''"

fun role_name :: "participant_role \<Rightarrow> string" where
  "role_name RoleFirst = ''first''"
| "role_name RoleSecond = ''second''"

section \<open>Budgets, consent, pair\<close>

record traversal_budgets =
  tb_experiment_ms :: nat
  tb_cleanup_reserve_ms :: nat
  tb_outbound_datagrams :: nat
  tb_datagram_bytes :: nat
  tb_control_requests :: nat
  tb_external_dialbacks :: nat
  tb_relay_bytes_per_direction :: nat
  tb_concurrent_mapping_leases :: nat
  tb_cleanup_datagrams :: nat
  tb_cleanup_control_requests :: nat

definition budgets_validate :: "traversal_budgets \<Rightarrow> traversal_refusal + unit" where
  "budgets_validate b =
     (if tb_experiment_ms b = 0
         \<or> tb_experiment_ms b > TRAVERSAL_EXPERIMENT_MAX_MS
         \<or> tb_cleanup_reserve_ms b = 0
         \<or> tb_cleanup_reserve_ms b > TRAVERSAL_CLEANUP_RESERVE_MS
         \<or> tb_cleanup_reserve_ms b \<ge> tb_experiment_ms b
         \<or> tb_outbound_datagrams b > 64
         \<or> tb_datagram_bytes b > 512
         \<or> tb_control_requests b > 12
         \<or> tb_external_dialbacks b > 4
         \<or> tb_relay_bytes_per_direction b > 65536
         \<or> tb_concurrent_mapping_leases b > 2
         \<or> tb_cleanup_datagrams b > tb_outbound_datagrams b
         \<or> tb_cleanup_control_requests b > tb_control_requests b
         \<or> (tb_outbound_datagrams b > 0 \<and> tb_datagram_bytes b = 0)
      then Inl InvalidBudget else Inr ())"

record mapping_consent =
  mc_consent_reference :: string
  mc_processor_allowlist_digest :: string
  mc_exclusive_reservation_digest :: string
  mc_prior_uncertainty_resolved :: bool
  mc_finite_expiry_verified :: bool
  mc_expires_at_ms :: nat
  mc_protocols :: "router_protocol list"
  mc_requested_lease_sec :: nat
  mc_maximum_lease_sec :: nat

record traversal_participant =
  tp_role :: participant_role
  tp_launch_instance_digest :: string
  tp_claim_authority_digest :: string
  tp_runtime_signer :: string

record traversal_pair =
  pr_pair_id :: string
  pr_expires_at_ms :: nat
  pr_first :: traversal_participant
  pr_second :: traversal_participant

record traversal_descriptor =
  td_version :: nat
  td_run_id :: string
  td_mode :: traversal_mode
  td_claim_authority_digest :: string
  td_profile_version :: string
  td_catalog_version :: string
  td_artifact_digest :: string
  td_helper_version :: string
  td_helper_digest :: string
  td_endpoint_set_revision :: string
  td_issued_at_ms :: nat
  td_expires_at_ms :: nat
  td_deadline_ms :: nat
  td_operations :: "traversal_operation list"
  td_budgets :: traversal_budgets
  td_mapping :: "mapping_consent option"
  td_pair :: "traversal_pair option"
  td_participant_role :: "participant_role option"

section \<open>Encodings\<close>

definition budgets_json :: "traversal_budgets \<Rightarrow> json" where
  "budgets_json b = JObj
     [(''experimentMs'', json_u64 (tb_experiment_ms b)),
      (''cleanupReserveMs'', json_u64 (tb_cleanup_reserve_ms b)),
      (''outboundDatagrams'', json_u64 (tb_outbound_datagrams b)),
      (''datagramBytes'', json_u64 (tb_datagram_bytes b)),
      (''controlRequests'', json_u64 (tb_control_requests b)),
      (''externalDialbacks'', json_u64 (tb_external_dialbacks b)),
      (''relayBytesPerDirection'', json_u64 (tb_relay_bytes_per_direction b)),
      (''concurrentMappingLeases'', json_u64 (tb_concurrent_mapping_leases b)),
      (''cleanupDatagrams'', json_u64 (tb_cleanup_datagrams b)),
      (''cleanupControlRequests'', json_u64 (tb_cleanup_control_requests b))]"

definition consent_json :: "mapping_consent \<Rightarrow> json" where
  "consent_json c = JObj
     [(''consentReference'', JStr (mc_consent_reference c)),
      (''processorAllowlistDigest'', JStr (mc_processor_allowlist_digest c)),
      (''exclusiveReservationDigest'', JStr (mc_exclusive_reservation_digest c)),
      (''priorUncertaintyResolved'', JBool (mc_prior_uncertainty_resolved c)),
      (''finiteExpiryVerified'', JBool (mc_finite_expiry_verified c)),
      (''expiresAtMs'', json_u64 (mc_expires_at_ms c)),
      (''protocols'', JArr (map (\<lambda>p. JStr (router_protocol_name p)) (mc_protocols c))),
      (''requestedLeaseSec'', json_u64 (mc_requested_lease_sec c)),
      (''maximumLeaseSec'', json_u64 (mc_maximum_lease_sec c))]"

definition participant_json :: "traversal_participant \<Rightarrow> json" where
  "participant_json p = JObj
     [(''role'', JStr (role_name (tp_role p))),
      (''launchInstanceDigest'', JStr (tp_launch_instance_digest p)),
      (''claimAuthorityDigest'', JStr (tp_claim_authority_digest p)),
      (''runtimeSigner'', JStr (tp_runtime_signer p))]"

definition pair_json :: "traversal_pair \<Rightarrow> json" where
  "pair_json p = JObj
     [(''pairId'', JStr (pr_pair_id p)), (''expiresAtMs'', json_u64 (pr_expires_at_ms p)),
      (''participants'', JArr [participant_json (pr_first p), participant_json (pr_second p)])]"

definition descriptor_json :: "traversal_descriptor \<Rightarrow> json" where
  "descriptor_json d = JObj
     [(''version'', json_u64 (td_version d)), (''runId'', JStr (td_run_id d)),
      (''mode'', JStr (mode_name (td_mode d))),
      (''claimAuthorityDigest'', JStr (td_claim_authority_digest d)),
      (''profileVersion'', JStr (td_profile_version d)),
      (''catalogVersion'', JStr (td_catalog_version d)),
      (''artifactDigest'', JStr (td_artifact_digest d)),
      (''helperVersion'', JStr (td_helper_version d)),
      (''helperDigest'', JStr (td_helper_digest d)),
      (''endpointSetRevision'', JStr (td_endpoint_set_revision d)),
      (''issuedAtMs'', json_u64 (td_issued_at_ms d)), (''expiresAtMs'', json_u64 (td_expires_at_ms d)),
      (''deadlineMs'', json_u64 (td_deadline_ms d)),
      (''operations'', JArr (map (\<lambda>x. JStr (operation_name x)) (td_operations d))),
      (''budgets'', budgets_json (td_budgets d)), (''mapping'', json_opt consent_json (td_mapping d)),
      (''pair'', json_opt pair_json (td_pair d)),
      (''participantRole'', json_opt (\<lambda>r. JStr (role_name r)) (td_participant_role d))]"

section \<open>Validation\<close>

text \<open>\<open>windows(2).any(|w| w[0] >= w[1])\<close>, negated.\<close>

fun ascending :: "'a :: linorder list \<Rightarrow> bool" where
  "ascending (x # y # zs) = (x < y \<and> ascending (y # zs))"
| "ascending _ = True"

fun operation_allowed :: "traversal_mode \<Rightarrow> traversal_operation \<Rightarrow> bool" where
  "operation_allowed m MapPcp = (m = ModeMapping)"
| "operation_allowed m MapNatPmp = (m = ModeMapping)"
| "operation_allowed m MapUpnp = (m = ModeMapping)"
| "operation_allowed m RegisterEndpoint = (m = ModePair)"
| "operation_allowed m PairDirectUdp = (m = ModePair)"
| "operation_allowed m PairRelayControl = (m = ModePair)"
| "operation_allowed m DiscoverGateway = (m \<noteq> ModePair)"
| "operation_allowed m ObserveMapping = (m \<noteq> ModePair)"
| "operation_allowed m ObserveFiltering = (m \<noteq> ModePair)"
| "operation_allowed m BaselineTcp = (m \<noteq> ModePair)"
| "operation_allowed m BaselineUdp = (m \<noteq> ModePair)"

fun mutates :: "router_protocol \<Rightarrow> traversal_operation" where
  "mutates RouterPcp = MapPcp"
| "mutates RouterNatPmp = MapNatPmp"
| "mutates RouterUpnpIgd = MapUpnp"

definition binding_ok :: "traversal_descriptor \<Rightarrow> bool" where
  "binding_ok d \<longleftrightarrow>
     lower_hex (td_run_id d) 16
     \<and> list_all digest [td_claim_authority_digest d, td_artifact_digest d, td_helper_digest d]
     \<and> list_all text_ok [td_profile_version d, td_catalog_version d, td_helper_version d,
          td_endpoint_set_revision d]"

definition deadlines_ok :: "traversal_descriptor \<Rightarrow> bool" where
  "deadlines_ok d \<longleftrightarrow>
     td_expires_at_ms d \<le> SAFE_INTEGER
     \<and> td_issued_at_ms d < td_expires_at_ms d
     \<and> td_expires_at_ms d - td_issued_at_ms d \<le> TRAVERSAL_CAPABILITY_MAX_MS
     \<and> td_issued_at_ms d < td_deadline_ms d
     \<and> td_deadline_ms d \<le> td_expires_at_ms d"

definition consent_ok :: "traversal_descriptor \<Rightarrow> mapping_consent \<Rightarrow> bool" where
  "consent_ok d c \<longleftrightarrow>
     text_ok (mc_consent_reference c)
     \<and> digest (mc_processor_allowlist_digest c)
     \<and> digest (mc_exclusive_reservation_digest c)
     \<and> mc_prior_uncertainty_resolved c
     \<and> mc_finite_expiry_verified c
     \<and> td_expires_at_ms d \<le> mc_expires_at_ms c
     \<and> mc_expires_at_ms c \<le> SAFE_INTEGER
     \<and> mc_requested_lease_sec c = 60
     \<and> 60 \<le> mc_maximum_lease_sec c
     \<and> mc_maximum_lease_sec c \<le> 120
     \<and> mc_protocols c \<noteq> []
     \<and> length (mc_protocols c) \<le> 3
     \<and> ascending (mc_protocols c)
     \<and> tb_concurrent_mapping_leases (td_budgets d) \<noteq> 0"

definition consent_matches :: "traversal_descriptor \<Rightarrow> mapping_consent \<Rightarrow> bool" where
  "consent_matches d c \<longleftrightarrow>
     list_all (\<lambda>p. mutates p \<in> set (td_operations d)) (mc_protocols c)
     \<and> list_all (\<lambda>p. mutates p \<notin> set (td_operations d) \<or> p \<in> set (mc_protocols c))
          [RouterPcp, RouterNatPmp, RouterUpnpIgd]
     \<and> tb_concurrent_mapping_leases (td_budgets d) \<le> tb_cleanup_datagrams (td_budgets d)
     \<and> tb_concurrent_mapping_leases (td_budgets d) \<le> tb_cleanup_control_requests (td_budgets d)"

definition validate_mapping :: "traversal_descriptor \<Rightarrow> traversal_refusal + unit" where
  "validate_mapping d =
     (case (td_mode d, td_mapping d) of
        (ModeMapping, Some c) \<Rightarrow>
          guard (consent_ok d c) InvalidConsent (guard (consent_matches d c) InvalidConsent (Inr ()))
      | (ModeMapping, None) \<Rightarrow> Inl InvalidConsent
      | (_, Some _) \<Rightarrow> Inl InvalidScope
      | (_, None) \<Rightarrow>
          if tb_concurrent_mapping_leases (td_budgets d) \<noteq> 0
             \<or> tb_cleanup_datagrams (td_budgets d) \<noteq> 0
             \<or> tb_cleanup_control_requests (td_budgets d) \<noteq> 0
          then Inl InvalidScope else Inr ())"

definition participant_of :: "traversal_pair \<Rightarrow> participant_role \<Rightarrow> traversal_participant option" where
  "participant_of pair role = find (\<lambda>p. tp_role p = role) [pr_first pair, pr_second pair]"

definition participant_ok :: "traversal_participant \<Rightarrow> bool" where
  "participant_ok p \<longleftrightarrow>
     digest (tp_launch_instance_digest p) \<and> digest (tp_claim_authority_digest p)
     \<and> prefixed_hex (tp_runtime_signer p) 32"

definition pair_ok :: "traversal_descriptor \<Rightarrow> traversal_pair \<Rightarrow> participant_role \<Rightarrow> bool" where
  "pair_ok d pair role \<longleftrightarrow>
     lower_hex (pr_pair_id pair) 16
     \<and> pr_expires_at_ms pair = td_expires_at_ms d
     \<and> tp_role (pr_first pair) = RoleFirst
     \<and> tp_role (pr_second pair) = RoleSecond
     \<and> tp_launch_instance_digest (pr_first pair) \<noteq> tp_launch_instance_digest (pr_second pair)
     \<and> tp_claim_authority_digest (pr_first pair) \<noteq> tp_claim_authority_digest (pr_second pair)
     \<and> list_all participant_ok [pr_first pair, pr_second pair]
     \<and> (case participant_of pair role of
          None \<Rightarrow> False
        | Some p \<Rightarrow> tp_claim_authority_digest p = td_claim_authority_digest d)"

definition validate_pair :: "traversal_descriptor \<Rightarrow> traversal_refusal + unit" where
  "validate_pair d =
     (case (td_mode d, td_pair d, td_participant_role d) of
        (ModePair, Some pair, Some role) \<Rightarrow> guard (pair_ok d pair role) InvalidPair (Inr ())
      | (ModePair, _, _) \<Rightarrow> Inl InvalidPair
      | (_, None, None) \<Rightarrow> Inr ()
      | _ \<Rightarrow> Inl InvalidScope)"

definition descriptor_validate :: "crates \<Rightarrow> traversal_descriptor \<Rightarrow> traversal_refusal + unit" where
  "descriptor_validate cr d =
     guard (td_version d = 1) UnknownVersion
     (guard (binding_ok d) InvalidBinding
     (res_bind (budgets_validate (td_budgets d)) (\<lambda>_.
     guard (deadlines_ok d) InvalidDeadline
     (guard (td_operations d \<noteq> [] \<and> length (td_operations d) \<le> 11 \<and> ascending (td_operations d)) InvalidScope
     (guard (list_all (operation_allowed (td_mode d)) (td_operations d)) InvalidScope
     (res_bind (validate_mapping d) (\<lambda>_.
     res_bind (validate_pair d) (\<lambda>_.
     guard (td_mode d = ModePair \<or> tb_relay_bytes_per_direction (td_budgets d) = 0) InvalidScope
       (bounded cr (descriptor_json d) TRAVERSAL_BLOCK_MAX_BYTES)))))))))"

definition canonical_bytes :: "crates \<Rightarrow> traversal_descriptor \<Rightarrow> traversal_refusal + bytes" where
  "canonical_bytes cr d =
     res_bind (descriptor_validate cr d) (\<lambda>_. canonical cr (descriptor_json d))"

definition binding_digest :: "crates \<Rightarrow> traversal_descriptor \<Rightarrow> traversal_refusal + string" where
  "binding_digest cr d = res_bind (canonical_bytes cr d) (\<lambda>bs. Inr (sha256 cr bs))"

definition validate_at :: "crates \<Rightarrow> traversal_descriptor \<Rightarrow> nat \<Rightarrow> traversal_refusal + unit" where
  "validate_at cr d now_ms =
     res_bind (descriptor_validate cr d) (\<lambda>_.
       guard (td_issued_at_ms d \<le> now_ms) NotYetValid
         (guard (now_ms < td_expires_at_ms d) Expired (Inr ())))"

definition can_start :: "crates \<Rightarrow> traversal_descriptor \<Rightarrow> nat \<Rightarrow> nat \<Rightarrow> nat \<Rightarrow> traversal_refusal + unit" where
  "can_start cr d now_ms job_expires_at_ms delivery_reserve_ms =
     res_bind (validate_at cr d now_ms) (\<lambda>_.
     res_bind (ok_or (checked_add_u64 now_ms (tb_experiment_ms (td_budgets d))) InsufficientTime) (\<lambda>finish.
     res_bind (ok_or (checked_add_u64 finish delivery_reserve_ms) InsufficientTime) (\<lambda>delivered.
       guard (finish \<le> td_deadline_ms d \<and> delivered \<le> min (td_expires_at_ms d) job_expires_at_ms)
         InsufficientTime (Inr ()))))"

definition validate_traversal_pair ::
  "crates \<Rightarrow> traversal_descriptor \<Rightarrow> traversal_descriptor \<Rightarrow> traversal_refusal + unit" where
  "validate_traversal_pair cr first second =
     res_bind (descriptor_validate cr first) (\<lambda>_.
     res_bind (descriptor_validate cr second) (\<lambda>_.
     guard (td_mode first = ModePair \<and> td_participant_role first = Some RoleFirst
            \<and> td_participant_role second = Some RoleSecond) InvalidPair
       (guard (first\<lparr>td_participant_role := td_participant_role second,
                     td_claim_authority_digest := td_claim_authority_digest second\<rparr> = second)
          InvalidPair (Inr ()))))"

section \<open>Reservation\<close>

record traversal_capability =
  cap_domain :: string
  cap_descriptor :: traversal_descriptor
  cap_mac :: string

definition TRAVERSAL_CAPABILITY_DOMAIN :: string where
  "TRAVERSAL_CAPABILITY_DOMAIN = ''proof.liskov.network-traversal-capability.v1''"

definition EXISTING_DELIVERY_RESERVE_MS :: nat where "EXISTING_DELIVERY_RESERVE_MS = 40000"

record helper_identity =
  hi_version :: string
  hi_digest :: string

record reservation =
  rs_experiment_ms :: nat
  rs_cleanup_reserve_ms :: nat
  rs_delivery_reserve_ms :: nat
  rs_collector_end_ms :: nat
  rs_delivery_end_ms :: nat

datatype reserve_outcome = Absent | Refused traversal_refusal | Reserved reservation | ReserveSkippedBudget

definition grant_structure_ok :: "crates \<Rightarrow> traversal_capability \<Rightarrow> string \<Rightarrow> helper_identity \<Rightarrow> bool" where
  "grant_structure_ok cr c artifact_digest helper \<longleftrightarrow>
     cap_domain c = TRAVERSAL_CAPABILITY_DOMAIN
     \<and> lower_hex (cap_mac c) 32
     \<and> is_ok (descriptor_validate cr (cap_descriptor c))
     \<and> td_helper_version (cap_descriptor c) = hi_version helper
     \<and> td_helper_digest (cap_descriptor c) = hi_digest helper
     \<and> td_artifact_digest (cap_descriptor c) = artifact_digest"

text \<open>
  The injected effects are never called, apart from \<open>cancelled\<close>, whose answer is the argument
  \<open>cancelled\<close>.
\<close>

definition reserve_traversal ::
  "crates \<Rightarrow> traversal_capability option \<Rightarrow> nat \<Rightarrow> nat \<Rightarrow> string \<Rightarrow> helper_identity \<Rightarrow> bool \<Rightarrow> reserve_outcome" where
  "reserve_traversal cr grant now_ms job_expires_at_ms artifact_digest helper cancelled =
     (case grant of
        None \<Rightarrow> Absent
      | Some c \<Rightarrow>
     let d = cap_descriptor c in
     if cap_domain c \<noteq> TRAVERSAL_CAPABILITY_DOMAIN then Refused WrongDomain
     else if \<not> lower_hex (cap_mac c) 32 then Refused InvalidMac
     else (case descriptor_validate cr d of
        Inl r \<Rightarrow> Refused r
      | Inr _ \<Rightarrow>
     if td_helper_version d \<noteq> hi_version helper \<or> td_helper_digest d \<noteq> hi_digest helper
        \<or> td_artifact_digest d \<noteq> artifact_digest
     then Refused InvalidBinding
     else (case can_start cr d now_ms job_expires_at_ms EXISTING_DELIVERY_RESERVE_MS of
        Inr _ \<Rightarrow>
          if cancelled then ReserveSkippedBudget
          else let collector_end_ms = saturating_add_u64 now_ms (tb_experiment_ms (td_budgets d)) in
            Reserved \<lparr>rs_experiment_ms = tb_experiment_ms (td_budgets d),
              rs_cleanup_reserve_ms = tb_cleanup_reserve_ms (td_budgets d),
              rs_delivery_reserve_ms = EXISTING_DELIVERY_RESERVE_MS,
              rs_collector_end_ms = collector_end_ms,
              rs_delivery_end_ms = saturating_add_u64 collector_end_ms EXISTING_DELIVERY_RESERVE_MS\<rparr>
      | Inl InsufficientTime \<Rightarrow> ReserveSkippedBudget
      | Inl r \<Rightarrow> Refused r)))"

definition reservation_fits :: "traversal_descriptor \<Rightarrow> reservation \<Rightarrow> bool" where
  "reservation_fits d r \<longleftrightarrow>
     rs_collector_end_ms r \<le> td_deadline_ms d
     \<and> rs_delivery_end_ms r \<le> td_expires_at_ms d
     \<and> rs_cleanup_reserve_ms r \<le> rs_experiment_ms r
     \<and> rs_delivery_reserve_ms r = EXISTING_DELIVERY_RESERVE_MS"

section \<open>Lemmas\<close>

lemma ascending_sorted: "ascending xs \<longleftrightarrow> sorted_wrt (<) xs"
  by (induction xs rule: ascending.induct) (auto dest: less_trans)

lemma ascending_distinct: "ascending xs \<Longrightarrow> distinct xs"
  by (simp add: ascending_sorted strict_sorted_iff)

lemma budgets_validate_Inr:
  "budgets_validate b = Inr u \<longleftrightarrow>
     0 < tb_cleanup_reserve_ms b \<and> tb_cleanup_reserve_ms b < tb_experiment_ms b
     \<and> tb_experiment_ms b \<le> 30000 \<and> tb_cleanup_reserve_ms b \<le> 5000
     \<and> tb_outbound_datagrams b \<le> 64 \<and> tb_datagram_bytes b \<le> 512 \<and> tb_control_requests b \<le> 12
     \<and> tb_external_dialbacks b \<le> 4 \<and> tb_relay_bytes_per_direction b \<le> 65536
     \<and> tb_concurrent_mapping_leases b \<le> 2 \<and> tb_cleanup_datagrams b \<le> tb_outbound_datagrams b
     \<and> tb_cleanup_control_requests b \<le> tb_control_requests b
     \<and> (tb_outbound_datagrams b = 0 \<or> tb_datagram_bytes b \<noteq> 0)"
  by (auto simp: budgets_validate_def TRAVERSAL_EXPERIMENT_MAX_MS_def TRAVERSAL_CLEANUP_RESERVE_MS_def)

lemma descriptor_validate_Inr:
  "descriptor_validate cr d = Inr u \<longleftrightarrow>
     td_version d = 1 \<and> binding_ok d \<and> budgets_validate (td_budgets d) = Inr () \<and> deadlines_ok d
     \<and> td_operations d \<noteq> [] \<and> length (td_operations d) \<le> 11 \<and> ascending (td_operations d)
     \<and> list_all (operation_allowed (td_mode d)) (td_operations d)
     \<and> validate_mapping d = Inr () \<and> validate_pair d = Inr ()
     \<and> (td_mode d = ModePair \<or> tb_relay_bytes_per_direction (td_budgets d) = 0)
     \<and> bounded cr (descriptor_json d) TRAVERSAL_BLOCK_MAX_BYTES = Inr ()"
  by (auto simp: descriptor_validate_def res_simps)

lemma validate_mapping_Inr:
  "validate_mapping d = Inr u \<longleftrightarrow>
     (if td_mode d = ModeMapping
      then \<exists>c. td_mapping d = Some c \<and> consent_ok d c \<and> consent_matches d c
      else td_mapping d = None \<and> tb_concurrent_mapping_leases (td_budgets d) = 0
        \<and> tb_cleanup_datagrams (td_budgets d) = 0 \<and> tb_cleanup_control_requests (td_budgets d) = 0)"
  by (auto simp: validate_mapping_def res_simps split: traversal_mode.splits option.splits if_splits)

lemma validate_pair_Inr:
  "validate_pair d = Inr u \<longleftrightarrow>
     (if td_mode d = ModePair
      then \<exists>pair role. td_pair d = Some pair \<and> td_participant_role d = Some role \<and> pair_ok d pair role
      else td_pair d = None \<and> td_participant_role d = None)"
  by (auto simp: validate_pair_def res_simps split: traversal_mode.splits option.splits)

lemma mutates_mapping: "operation_allowed m (mutates p) \<Longrightarrow> m = ModeMapping"
  by (cases p) auto

lemma validate_at_Inr:
  "validate_at cr d now = Inr u \<longleftrightarrow>
     descriptor_validate cr d = Inr () \<and> td_issued_at_ms d \<le> now \<and> now < td_expires_at_ms d"
  by (auto simp: validate_at_def res_simps)

lemma can_start_Inr:
  "can_start cr d now job reserve = Inr u \<longleftrightarrow>
     validate_at cr d now = Inr ()
     \<and> now + tb_experiment_ms (td_budgets d) + reserve \<le> u64_max
     \<and> now + tb_experiment_ms (td_budgets d) \<le> td_deadline_ms d
     \<and> now + tb_experiment_ms (td_budgets d) + reserve \<le> min (td_expires_at_ms d) job"
  by (auto simp: can_start_def res_simps sat_simps)

lemma participant_of_role:
  assumes "pair_ok d pair role"
  shows "tp_claim_authority_digest (case role of RoleFirst \<Rightarrow> pr_first pair | RoleSecond \<Rightarrow> pr_second pair)
    = td_claim_authority_digest d"
  using assms by (cases role) (auto simp: pair_ok_def participant_of_def)

lemma validate_traversal_pair_sides:
  assumes "validate_traversal_pair cr first second = Inr ()"
  shows "td_run_id first = td_run_id second \<and> td_budgets first = td_budgets second
    \<and> td_operations first = td_operations second \<and> td_mode second = ModePair
    \<and> td_participant_role first = Some RoleFirst \<and> td_participant_role second = Some RoleSecond
    \<and> td_claim_authority_digest first \<noteq> td_claim_authority_digest second
    \<and> (\<exists>pair. td_pair first = Some pair \<and> td_pair second = Some pair
         \<and> tp_claim_authority_digest (pr_first pair) = td_claim_authority_digest first
         \<and> tp_claim_authority_digest (pr_second pair) = td_claim_authority_digest second)"
proof -
  have v: "descriptor_validate cr first = Inr ()" "descriptor_validate cr second = Inr ()"
    and m: "td_mode first = ModePair" "td_participant_role first = Some RoleFirst"
      "td_participant_role second = Some RoleSecond"
    and eq: "second = first\<lparr>td_participant_role := td_participant_role second,
                 td_claim_authority_digest := td_claim_authority_digest second\<rparr>"
    using assms by (auto simp: validate_traversal_pair_def res_simps)
  have fields: "td_run_id second = td_run_id first" "td_budgets second = td_budgets first"
      "td_operations second = td_operations first" "td_mode second = td_mode first"
      "td_pair second = td_pair first"
    by (subst eq, simp)+
  obtain pair where p: "td_pair first = Some pair" "pair_ok first pair RoleFirst"
    using v(1) m by (auto simp: descriptor_validate_Inr validate_pair_Inr)
  have q: "pair_ok second pair RoleSecond"
    using v(2) m fields p(1) by (auto simp: descriptor_validate_Inr validate_pair_Inr)
  show ?thesis
    using participant_of_role [OF p(2)] participant_of_role [OF q] p fields m
    by (auto simp: pair_ok_def)
qed

section \<open>Properties\<close>

text \<open>
  A validated descriptor stays inside the ceilings of the experiment: a lifetime of at most two
  minutes with the deadline inside it, at most 30 seconds of experiment that contain their cleanup
  reserve, at most 64 datagrams, 12 control requests and 2 leases, and a duplicate-free list of at most
  11 operations.
\<close>

theorem validated_descriptor_limits:
  assumes "descriptor_validate cr d = Inr ()"
  shows "td_expires_at_ms d \<le> td_issued_at_ms d + 120000
    \<and> td_issued_at_ms d < td_deadline_ms d \<and> td_deadline_ms d \<le> td_expires_at_ms d
    \<and> tb_experiment_ms (td_budgets d) \<le> 30000
    \<and> tb_cleanup_reserve_ms (td_budgets d) < tb_experiment_ms (td_budgets d)
    \<and> tb_outbound_datagrams (td_budgets d) \<le> 64 \<and> tb_control_requests (td_budgets d) \<le> 12
    \<and> tb_concurrent_mapping_leases (td_budgets d) \<le> 2
    \<and> distinct (td_operations d) \<and> length (td_operations d) \<le> 11"
  using assms
  by (auto simp: descriptor_validate_Inr deadlines_ok_def budgets_validate_Inr ascending_distinct
      TRAVERSAL_CAPABILITY_MAX_MS_def)

text \<open>
  C22. Changing a router needs consent: a validated descriptor contains the operation that maps with a
  router protocol exactly when it carries a mapping consent that names this protocol, and then every
  lease it allows can be deleted within the cleanup reserve and is finite.
\<close>

theorem mapping_operations_need_consent:
  assumes "descriptor_validate cr d = Inr ()"
  shows "(mutates p \<in> set (td_operations d)) = (\<exists>c. td_mapping d = Some c \<and> p \<in> set (mc_protocols c)
    \<and> mc_maximum_lease_sec c \<le> 120 \<and> mc_prior_uncertainty_resolved c
    \<and> td_expires_at_ms d \<le> mc_expires_at_ms c
    \<and> tb_concurrent_mapping_leases (td_budgets d) \<le> tb_cleanup_datagrams (td_budgets d)
    \<and> tb_concurrent_mapping_leases (td_budgets d) \<le> tb_cleanup_control_requests (td_budgets d))"
proof (cases "td_mode d = ModeMapping")
  case True
  then obtain c where c: "td_mapping d = Some c" "consent_ok d c" "consent_matches d c"
    using assms by (auto simp: descriptor_validate_Inr validate_mapping_Inr)
  have "mutates p \<in> set (td_operations d) \<longleftrightarrow> p \<in> set (mc_protocols c)"
    using c(3) by (cases p) (auto simp: consent_matches_def list_all_iff)
  then show ?thesis using c by (auto simp: consent_ok_def consent_matches_def)
next
  case False
  then have "mutates p \<notin> set (td_operations d)"
    using assms mutates_mapping by (auto simp: descriptor_validate_Inr list_all_iff)
  moreover have "td_mapping d = None"
    using False assms by (simp add: descriptor_validate_Inr validate_mapping_Inr)
  ultimately show ?thesis by simp
qed

text \<open>
  C23. The collector is reserved exactly when the grant is structurally sound for this helper, the
  experiment ends before its deadline and two deliveries still fit before both the grant and the job
  expire; the reserved instants are then exact, without saturation.
\<close>

theorem reserve_traversal_iff:
  "reserve_traversal cr grant now job artifact helper cancelled = Reserved r \<longleftrightarrow>
     \<not> cancelled \<and> (\<exists>c. grant = Some c \<and> grant_structure_ok cr c artifact helper
       \<and> td_issued_at_ms (cap_descriptor c) \<le> now \<and> now < td_expires_at_ms (cap_descriptor c)
       \<and> now + tb_experiment_ms (td_budgets (cap_descriptor c)) \<le> td_deadline_ms (cap_descriptor c)
       \<and> now + tb_experiment_ms (td_budgets (cap_descriptor c)) + 40000
            \<le> min (td_expires_at_ms (cap_descriptor c)) (min job u64_max)
       \<and> r = \<lparr>rs_experiment_ms = tb_experiment_ms (td_budgets (cap_descriptor c)),
              rs_cleanup_reserve_ms = tb_cleanup_reserve_ms (td_budgets (cap_descriptor c)),
              rs_delivery_reserve_ms = 40000,
              rs_collector_end_ms = now + tb_experiment_ms (td_budgets (cap_descriptor c)),
              rs_delivery_end_ms = now + tb_experiment_ms (td_budgets (cap_descriptor c)) + 40000\<rparr>)"
proof (cases grant)
  case None
  then show ?thesis by (simp add: reserve_traversal_def)
next
  case (Some c)
  have "reserve_traversal cr grant now job artifact helper cancelled = Reserved r \<longleftrightarrow>
      grant_structure_ok cr c artifact helper \<and> \<not> cancelled
      \<and> can_start cr (cap_descriptor c) now job EXISTING_DELIVERY_RESERVE_MS = Inr ()
      \<and> r = \<lparr>rs_experiment_ms = tb_experiment_ms (td_budgets (cap_descriptor c)),
              rs_cleanup_reserve_ms = tb_cleanup_reserve_ms (td_budgets (cap_descriptor c)),
              rs_delivery_reserve_ms = EXISTING_DELIVERY_RESERVE_MS,
              rs_collector_end_ms = saturating_add_u64 now (tb_experiment_ms (td_budgets (cap_descriptor c))),
              rs_delivery_end_ms = saturating_add_u64
                (saturating_add_u64 now (tb_experiment_ms (td_budgets (cap_descriptor c))))
                EXISTING_DELIVERY_RESERVE_MS\<rparr>"
    by (auto simp: Some reserve_traversal_def grant_structure_ok_def Let_def is_ok_iff
        split: sum.splits if_splits traversal_refusal.splits)
  then show ?thesis
    by (auto simp: Some can_start_Inr validate_at_Inr grant_structure_ok_def is_ok_iff
        EXISTING_DELIVERY_RESERVE_MS_def saturating_add_u64_exact)
qed

text \<open>
  Two pair halves are accepted only as the two sides of one experiment: same run, pair, budgets
  and operations, distinct claims, and each side's claim is the one its role has in the pair.
\<close>

theorem pair_halves_agree:
  assumes "validate_traversal_pair cr first second = Inr ()"
  shows "td_run_id first = td_run_id second \<and> td_budgets first = td_budgets second
    \<and> td_operations first = td_operations second \<and> td_mode second = ModePair
    \<and> td_claim_authority_digest first \<noteq> td_claim_authority_digest second
    \<and> (\<exists>pair. td_pair first = Some pair \<and> td_pair second = Some pair
         \<and> tp_claim_authority_digest (pr_first pair) = td_claim_authority_digest first
         \<and> tp_claim_authority_digest (pr_second pair) = td_claim_authority_digest second)"
  using validate_traversal_pair_sides [OF assms] by blast

section \<open>Witnesses\<close>

definition sample_digest_a :: string where "sample_digest_a = ''sha256:'' @ replicate 64 (CHR ''a'')"
definition sample_digest_b :: string where "sample_digest_b = ''sha256:'' @ replicate 64 (CHR ''b'')"

definition sample_mapping_descriptor :: traversal_descriptor where
  "sample_mapping_descriptor =
     \<lparr>td_version = 1, td_run_id = replicate 32 (CHR ''a''), td_mode = ModeMapping,
      td_claim_authority_digest = sample_digest_a, td_profile_version = ''p'', td_catalog_version = ''c'',
      td_artifact_digest = sample_digest_a, td_helper_version = ''1'', td_helper_digest = sample_digest_a,
      td_endpoint_set_revision = ''e'', td_issued_at_ms = 1000, td_expires_at_ms = 100000,
      td_deadline_ms = 50000, td_operations = [DiscoverGateway, MapPcp],
      td_budgets = \<lparr>tb_experiment_ms = 20000, tb_cleanup_reserve_ms = 5000, tb_outbound_datagrams = 8,
        tb_datagram_bytes = 256, tb_control_requests = 4, tb_external_dialbacks = 0,
        tb_relay_bytes_per_direction = 0, tb_concurrent_mapping_leases = 1, tb_cleanup_datagrams = 2,
        tb_cleanup_control_requests = 2\<rparr>,
      td_mapping = Some \<lparr>mc_consent_reference = ''r'', mc_processor_allowlist_digest = sample_digest_a,
        mc_exclusive_reservation_digest = sample_digest_b, mc_prior_uncertainty_resolved = True,
        mc_finite_expiry_verified = True, mc_expires_at_ms = 100000, mc_protocols = [RouterPcp],
        mc_requested_lease_sec = 60, mc_maximum_lease_sec = 120\<rparr>,
      td_pair = None, td_participant_role = None\<rparr>"

definition sample_pair :: traversal_pair where
  "sample_pair =
     \<lparr>pr_pair_id = replicate 32 (CHR ''a''), pr_expires_at_ms = 100000,
      pr_first = \<lparr>tp_role = RoleFirst, tp_launch_instance_digest = sample_digest_a,
        tp_claim_authority_digest = sample_digest_a, tp_runtime_signer = ''0x'' @ replicate 64 (CHR ''a'')\<rparr>,
      pr_second = \<lparr>tp_role = RoleSecond, tp_launch_instance_digest = sample_digest_b,
        tp_claim_authority_digest = sample_digest_b, tp_runtime_signer = ''0x'' @ replicate 64 (CHR ''b'')\<rparr>\<rparr>"

definition sample_first_half :: traversal_descriptor where
  "sample_first_half = sample_mapping_descriptor
     \<lparr>td_mode := ModePair, td_operations := [RegisterEndpoint, PairDirectUdp], td_mapping := None,
      td_budgets := (td_budgets sample_mapping_descriptor)
        \<lparr>tb_concurrent_mapping_leases := 0, tb_cleanup_datagrams := 0, tb_cleanup_control_requests := 0\<rparr>,
      td_pair := Some sample_pair, td_participant_role := Some RoleFirst\<rparr>"

definition sample_second_half :: traversal_descriptor where
  "sample_second_half = sample_first_half
     \<lparr>td_participant_role := Some RoleSecond, td_claim_authority_digest := sample_digest_b\<rparr>"

lemma sample_hex_text: "lower_hex (replicate (n * 2) (CHR ''a'')) n" "lower_hex (replicate (n * 2) (CHR ''b'')) n"
  by (simp_all add: lower_hex_def is_lower_hex_digit_def)

lemma sample_digests: "digest sample_digest_a" "digest sample_digest_b" "sample_digest_a \<noteq> sample_digest_b"
proof -
  show "digest sample_digest_a" "digest sample_digest_b"
    using sample_hex_text [of 32] by (simp_all add: digest_def sample_digest_a_def sample_digest_b_def)
  have "hd (replicate 64 (CHR ''a'')) \<noteq> hd (replicate 64 (CHR ''b''))" by simp
  then show "sample_digest_a \<noteq> sample_digest_b"
    unfolding sample_digest_a_def sample_digest_b_def by (metis same_append_eq)
qed

lemma sample_texts: "text_ok ''p''" "text_ok ''c''" "text_ok ''1''" "text_ok ''e''" "text_ok ''r''"
  by (simp_all add: text_ok_def is_ascii_graphic_def)

lemma sample_bounded: "bounded sample_crates v TRAVERSAL_BLOCK_MAX_BYTES = Inr ()"
  by (simp add: bounded_def sample_fields TRAVERSAL_BLOCK_MAX_BYTES_def)

lemma sample_mapping_valid: "descriptor_validate sample_crates sample_mapping_descriptor = Inr ()"
  using sample_hex_text(1) [of 16] sample_digests sample_texts
  by (simp add: descriptor_validate_Inr sample_bounded sample_mapping_descriptor_def binding_ok_def
      budgets_validate_Inr deadlines_ok_def SAFE_INTEGER_def TRAVERSAL_CAPABILITY_MAX_MS_def
      less_traversal_operation_def validate_mapping_Inr validate_pair_Inr consent_ok_def consent_matches_def)

lemma sample_half_valid:
  "descriptor_validate sample_crates sample_first_half = Inr ()"
  "descriptor_validate sample_crates sample_second_half = Inr ()"
  using sample_hex_text [of 16] sample_hex_text [of 32] sample_digests sample_texts
  by (simp_all add: descriptor_validate_Inr sample_bounded sample_second_half_def sample_first_half_def
      sample_mapping_descriptor_def binding_ok_def budgets_validate_Inr deadlines_ok_def SAFE_INTEGER_def
      TRAVERSAL_CAPABILITY_MAX_MS_def less_traversal_operation_def validate_mapping_Inr validate_pair_Inr
      pair_ok_def participant_ok_def participant_of_def prefixed_hex_def sample_pair_def)

theorem validated_descriptor_limits_witness:
  "descriptor_validate sample_crates sample_mapping_descriptor = Inr ()
   \<and> tb_experiment_ms (td_budgets sample_mapping_descriptor) \<le> 30000
   \<and> distinct (td_operations sample_mapping_descriptor)"
  using validated_descriptor_limits [OF sample_mapping_valid] sample_mapping_valid by blast

theorem mapping_operations_need_consent_witness:
  "descriptor_validate sample_crates sample_mapping_descriptor = Inr ()
   \<and> MapPcp \<in> set (td_operations sample_mapping_descriptor)
   \<and> (\<exists>c. td_mapping sample_mapping_descriptor = Some c \<and> RouterPcp \<in> set (mc_protocols c))"
proof -
  have "mutates RouterPcp \<in> set (td_operations sample_mapping_descriptor)"
    by (simp add: sample_mapping_descriptor_def)
  then show ?thesis
    using mapping_operations_need_consent [OF sample_mapping_valid, of RouterPcp] sample_mapping_valid by auto
qed

theorem pair_halves_agree_witness:
  "validate_traversal_pair sample_crates sample_first_half sample_second_half = Inr ()
   \<and> td_claim_authority_digest sample_first_half \<noteq> td_claim_authority_digest sample_second_half"
proof -
  have "validate_traversal_pair sample_crates sample_first_half sample_second_half = Inr ()"
    unfolding validate_traversal_pair_def sample_half_valid
    by (simp add: sample_second_half_def sample_first_half_def)
  then show ?thesis using pair_halves_agree by blast
qed

end
