(* ===== verification/Transcript.thy ===== *)
theory Transcript
  imports Descriptor
begin

text \<open>
  The signed transcripts of a traversal run and their domains (\<open>src/network_traversal/proof.rs\<close>): what
  a transcript may claim under which authority, how it is bound to its descriptor, and when two
  transcripts corroborate each other.
\<close>

section \<open>Vocabulary\<close>

datatype evidence_authority =
    ExternalPath
  | DeviceReportedRouter
  | HelperObservedPeer
  | ProberObservedRegistration
  | ProberObservedBehaviour

datatype traversal_stage =
    StageDiscovery
  | StageBaseline
  | StageMappingCreate
  | StageMappingVerify
  | StageMappingCleanup
  | StageEndpointRegistration
  | StageDirect
  | StageRelayControl
  | StageMappingBehaviour
  | StageFilteringBehaviour

datatype traversal_method =
    MethodUnassisted
  | MethodUdpMapping
  | MethodUdpFiltering
  | MethodPcp
  | MethodNatPmp
  | MethodUpnpIgd
  | MethodPair

datatype traversal_transport =
    TransportTcp
  | TransportUdp
  | TransportRouterControl
  | TransportRelayControl

datatype traversal_family =
    FamilyV4
  | FamilyV6

datatype traversal_outcome =
    OutcomeSucceeded
  | OutcomeFailed
  | OutcomeUnsupportedTopology
  | OutcomeUnsupportedRuntimeApi
  | OutcomeUnsupportedSafeOwnership
  | OutcomeUnsupportedFiniteLease
  | OutcomeUnverifiableEndpoint
  | OutcomeSkippedBudget
  | OutcomeNotStarted
  | OutcomeDirectNotEstablishedInTest
  | OutcomeOneWayPeer
  | OutcomePeerAbsent
  | OutcomeWrongPeer
  | OutcomeLateJoin
  | OutcomeCandidateRebinding
  | OutcomeBudgetExhausted
  | OutcomeProberNoEgress
  | OutcomeCreationOutcomeUnknown
  | OutcomeExpiryUnknown
  | OutcomeEndpointIndependent
  | OutcomeAddressDependent
  | OutcomeAddressAndPortDependent
  | OutcomeUnknown

datatype traversal_error_class =
    ErrorTimeout
  | ErrorConnectFailed
  | ErrorInvalidResponse
  | ErrorRateLimited
  | ErrorTokenRefused
  | ErrorBudgetExhausted
  | ErrorMappingConflict
  | ErrorLeaseRefused
  | ErrorCleanupFailed
  | ErrorProberUnavailable
  | ErrorPeerUnavailable

datatype traversal_cleanup =
    CleanupConfirmedDeleted
  | CleanupDeleteFailed
  | CleanupLeaseExpiryPending
  | CleanupNotCreated
  | CleanupCreationOutcomeUnknown
  | CleanupExpiryUnknown

fun authority_name :: "evidence_authority \<Rightarrow> string" where
  "authority_name ExternalPath = ''external_path''"
| "authority_name DeviceReportedRouter = ''device_reported_router''"
| "authority_name HelperObservedPeer = ''helper_observed_peer''"
| "authority_name ProberObservedRegistration = ''prober_observed_registration''"
| "authority_name ProberObservedBehaviour = ''prober_observed_behaviour''"

fun stage_name :: "traversal_stage \<Rightarrow> string" where
  "stage_name StageDiscovery = ''discovery''"
| "stage_name StageBaseline = ''baseline''"
| "stage_name StageMappingCreate = ''mapping_create''"
| "stage_name StageMappingVerify = ''mapping_verify''"
| "stage_name StageMappingCleanup = ''mapping_cleanup''"
| "stage_name StageEndpointRegistration = ''endpoint_registration''"
| "stage_name StageDirect = ''direct''"
| "stage_name StageRelayControl = ''relay_control''"
| "stage_name StageMappingBehaviour = ''mapping_behaviour''"
| "stage_name StageFilteringBehaviour = ''filtering_behaviour''"

fun method_name :: "traversal_method \<Rightarrow> string" where
  "method_name MethodUnassisted = ''unassisted''"
| "method_name MethodUdpMapping = ''udp_mapping''"
| "method_name MethodUdpFiltering = ''udp_filtering''"
| "method_name MethodPcp = ''pcp''"
| "method_name MethodNatPmp = ''nat_pmp''"
| "method_name MethodUpnpIgd = ''upnp_igd''"
| "method_name MethodPair = ''pair''"

fun transport_name :: "traversal_transport \<Rightarrow> string" where
  "transport_name TransportTcp = ''tcp''"
| "transport_name TransportUdp = ''udp''"
| "transport_name TransportRouterControl = ''router_control''"
| "transport_name TransportRelayControl = ''relay_control''"

fun family_name :: "traversal_family \<Rightarrow> string" where
  "family_name FamilyV4 = ''v4''"
| "family_name FamilyV6 = ''v6''"

fun outcome_name :: "traversal_outcome \<Rightarrow> string" where
  "outcome_name OutcomeSucceeded = ''succeeded''"
| "outcome_name OutcomeFailed = ''failed''"
| "outcome_name OutcomeUnsupportedTopology = ''unsupported_topology''"
| "outcome_name OutcomeUnsupportedRuntimeApi = ''unsupported_runtime_api''"
| "outcome_name OutcomeUnsupportedSafeOwnership = ''unsupported_safe_ownership''"
| "outcome_name OutcomeUnsupportedFiniteLease = ''unsupported_finite_lease''"
| "outcome_name OutcomeUnverifiableEndpoint = ''unverifiable_endpoint''"
| "outcome_name OutcomeSkippedBudget = ''skipped_budget''"
| "outcome_name OutcomeNotStarted = ''not_started''"
| "outcome_name OutcomeDirectNotEstablishedInTest = ''direct_not_established_in_test''"
| "outcome_name OutcomeOneWayPeer = ''one_way_peer''"
| "outcome_name OutcomePeerAbsent = ''peer_absent''"
| "outcome_name OutcomeWrongPeer = ''wrong_peer''"
| "outcome_name OutcomeLateJoin = ''late_join''"
| "outcome_name OutcomeCandidateRebinding = ''candidate_rebinding''"
| "outcome_name OutcomeBudgetExhausted = ''budget_exhausted''"
| "outcome_name OutcomeProberNoEgress = ''prober_no_egress''"
| "outcome_name OutcomeCreationOutcomeUnknown = ''creation_outcome_unknown''"
| "outcome_name OutcomeExpiryUnknown = ''expiry_unknown''"
| "outcome_name OutcomeEndpointIndependent = ''endpoint_independent''"
| "outcome_name OutcomeAddressDependent = ''address_dependent''"
| "outcome_name OutcomeAddressAndPortDependent = ''address_and_port_dependent''"
| "outcome_name OutcomeUnknown = ''unknown''"

fun error_class_name :: "traversal_error_class \<Rightarrow> string" where
  "error_class_name ErrorTimeout = ''timeout''"
| "error_class_name ErrorConnectFailed = ''connect_failed''"
| "error_class_name ErrorInvalidResponse = ''invalid_response''"
| "error_class_name ErrorRateLimited = ''rate_limited''"
| "error_class_name ErrorTokenRefused = ''token_refused''"
| "error_class_name ErrorBudgetExhausted = ''budget_exhausted''"
| "error_class_name ErrorMappingConflict = ''mapping_conflict''"
| "error_class_name ErrorLeaseRefused = ''lease_refused''"
| "error_class_name ErrorCleanupFailed = ''cleanup_failed''"
| "error_class_name ErrorProberUnavailable = ''prober_unavailable''"
| "error_class_name ErrorPeerUnavailable = ''peer_unavailable''"

fun cleanup_name :: "traversal_cleanup \<Rightarrow> string" where
  "cleanup_name CleanupConfirmedDeleted = ''confirmed_deleted''"
| "cleanup_name CleanupDeleteFailed = ''delete_failed''"
| "cleanup_name CleanupLeaseExpiryPending = ''lease_expiry_pending''"
| "cleanup_name CleanupNotCreated = ''not_created''"
| "cleanup_name CleanupCreationOutcomeUnknown = ''creation_outcome_unknown''"
| "cleanup_name CleanupExpiryUnknown = ''expiry_unknown''"

section \<open>Transcripts\<close>

record traversal_transcript =
  tt_version :: nat
  tt_domain :: string
  tt_descriptor_digest :: string
  tt_run_id :: string
  tt_pair_id :: "string option"
  tt_participant_role :: "participant_role option"
  tt_authority :: evidence_authority
  tt_stage :: traversal_stage
  tt_method :: traversal_method
  tt_transport :: traversal_transport
  tt_family :: traversal_family
  tt_challenge :: string
  tt_peer_challenge :: "string option"
  tt_expires_at_ms :: nat
  tt_outcome :: traversal_outcome
  tt_elapsed_ms :: nat
  tt_granted_lease_sec :: "nat option"
  tt_cleanup :: "traversal_cleanup option"
  tt_protocol_error :: "nat option"
  tt_error_class :: "traversal_error_class option"

definition transcript_json :: "traversal_transcript \<Rightarrow> json" where
  "transcript_json t = JObj
     [(''version'', json_u64 (tt_version t)), (''domain'', JStr (tt_domain t)),
      (''descriptorDigest'', JStr (tt_descriptor_digest t)), (''runId'', JStr (tt_run_id t)),
      (''pairId'', json_opt JStr (tt_pair_id t)),
      (''participantRole'', json_opt (\<lambda>r. JStr (role_name r)) (tt_participant_role t)),
      (''authority'', JStr (authority_name (tt_authority t))), (''stage'', JStr (stage_name (tt_stage t))),
      (''method'', JStr (method_name (tt_method t))),
      (''transport'', JStr (transport_name (tt_transport t))),
      (''family'', JStr (family_name (tt_family t))), (''challenge'', JStr (tt_challenge t)),
      (''peerChallenge'', json_opt JStr (tt_peer_challenge t)),
      (''expiresAtMs'', json_u64 (tt_expires_at_ms t)), (''outcome'', JStr (outcome_name (tt_outcome t))),
      (''elapsedMs'', json_u64 (tt_elapsed_ms t)),
      (''grantedLeaseSec'', json_opt json_u64 (tt_granted_lease_sec t)),
      (''cleanup'', json_opt (\<lambda>c. JStr (cleanup_name c)) (tt_cleanup t)),
      (''protocolError'', json_opt json_u64 (tt_protocol_error t)),
      (''errorClass'', json_opt (\<lambda>c. JStr (error_class_name c)) (tt_error_class t))]"

definition TRAVERSAL_EXTERNAL_PATH_DOMAIN :: string where
  "TRAVERSAL_EXTERNAL_PATH_DOMAIN = ''proof.liskov.network-traversal-external-path.v1''"
definition TRAVERSAL_ROUTER_RESPONSE_DOMAIN :: string where
  "TRAVERSAL_ROUTER_RESPONSE_DOMAIN = ''proof.liskov.network-traversal-device-router.v1''"
definition TRAVERSAL_DIRECT_PEER_DOMAIN :: string where
  "TRAVERSAL_DIRECT_PEER_DOMAIN = ''proof.liskov.network-traversal-helper-direct.v1''"
definition TRAVERSAL_RELAY_PEER_DOMAIN :: string where
  "TRAVERSAL_RELAY_PEER_DOMAIN = ''proof.liskov.network-traversal-helper-relay.v1''"
definition TRAVERSAL_BEHAVIOUR_DOMAIN :: string where
  "TRAVERSAL_BEHAVIOUR_DOMAIN = ''proof.liskov.network-traversal-observed-behaviour.v1''"
definition TRAVERSAL_REGISTRATION_DOMAIN :: string where
  "TRAVERSAL_REGISTRATION_DOMAIN = ''proof.liskov.network-traversal-endpoint-registration.v1''"

definition router_method :: "traversal_method \<Rightarrow> bool" where
  "router_method m \<longleftrightarrow> m \<in> {MethodPcp, MethodNatPmp, MethodUpnpIgd}"

fun proof_domain ::
  "evidence_authority \<Rightarrow> traversal_stage \<Rightarrow> traversal_method \<Rightarrow> traversal_transport \<Rightarrow> traversal_refusal + string"
where
  "proof_domain ExternalPath stage method transport =
     (if stage \<in> {StageBaseline, StageMappingVerify} \<and> transport \<in> {TransportTcp, TransportUdp}
         \<and> ((stage = StageBaseline \<and> method = MethodUnassisted)
            \<or> (stage = StageMappingVerify \<and> router_method method))
      then Inr TRAVERSAL_EXTERNAL_PATH_DOMAIN else Inl InvalidProof)"
| "proof_domain DeviceReportedRouter stage method transport =
     (if stage \<in> {StageDiscovery, StageMappingCreate, StageMappingCleanup}
         \<and> transport = TransportRouterControl \<and> router_method method
      then Inr TRAVERSAL_ROUTER_RESPONSE_DOMAIN else Inl InvalidProof)"
| "proof_domain HelperObservedPeer stage method transport =
     (if stage = StageDirect \<and> transport = TransportUdp \<and> method = MethodPair
      then Inr TRAVERSAL_DIRECT_PEER_DOMAIN
      else if stage = StageRelayControl \<and> transport = TransportRelayControl \<and> method = MethodPair
      then Inr TRAVERSAL_RELAY_PEER_DOMAIN else Inl InvalidProof)"
| "proof_domain ProberObservedRegistration stage method transport =
     (if stage = StageEndpointRegistration \<and> transport = TransportUdp \<and> method = MethodPair
      then Inr TRAVERSAL_REGISTRATION_DOMAIN else Inl InvalidProof)"
| "proof_domain ProberObservedBehaviour stage method transport =
     (if transport = TransportUdp
         \<and> ((stage = StageMappingBehaviour \<and> method = MethodUdpMapping)
            \<or> (stage = StageFilteringBehaviour \<and> method = MethodUdpFiltering))
      then Inr TRAVERSAL_BEHAVIOUR_DOMAIN else Inl InvalidProof)"

text \<open>The checks of \<open>TraversalTranscriptV1::validate\<close>, one per early return.\<close>

definition transcript_binding_ok :: "traversal_transcript \<Rightarrow> bool" where
  "transcript_binding_ok t \<longleftrightarrow>
     digest (tt_descriptor_digest t) \<and> lower_hex (tt_run_id t) 16 \<and> lower_hex (tt_challenge t) 32
     \<and> tt_expires_at_ms t \<le> SAFE_INTEGER \<and> tt_elapsed_ms t \<le> TRAVERSAL_EXPERIMENT_MAX_MS"

definition peer_stage :: "traversal_stage \<Rightarrow> bool" where
  "peer_stage s \<longleftrightarrow> s \<in> {StageDirect, StageRelayControl}"

definition behaviour_outcome_ok :: "traversal_transcript \<Rightarrow> bool" where
  "behaviour_outcome_ok t \<longleftrightarrow>
     \<not> (tt_outcome t \<in> {OutcomeEndpointIndependent, OutcomeAddressDependent, OutcomeAddressAndPortDependent}
        \<and> tt_stage t \<notin> {StageMappingBehaviour, StageFilteringBehaviour})"

definition outcome_stage_ok :: "traversal_transcript \<Rightarrow> bool" where
  "outcome_stage_ok t \<longleftrightarrow>
     \<not> (tt_outcome t = OutcomeCreationOutcomeUnknown
          \<and> tt_stage t \<notin> {StageMappingCreate, StageMappingCleanup}
        \<or> tt_outcome t = OutcomeExpiryUnknown \<and> tt_stage t \<noteq> StageMappingCleanup
        \<or> tt_outcome t \<in> {OutcomeDirectNotEstablishedInTest, OutcomeOneWayPeer, OutcomePeerAbsent,
             OutcomeWrongPeer, OutcomeLateJoin, OutcomeCandidateRebinding}
          \<and> \<not> peer_stage (tt_stage t))"

definition lease_stage_ok :: "traversal_transcript \<Rightarrow> bool" where
  "lease_stage_ok t \<longleftrightarrow>
     \<not> (tt_stage t = StageMappingCreate \<and> tt_outcome t = OutcomeSucceeded \<and> tt_granted_lease_sec t = None
        \<or> tt_stage t \<noteq> StageMappingCleanup \<and> tt_cleanup t \<noteq> None
        \<or> tt_stage t \<notin> {StageMappingCreate, StageMappingCleanup} \<and> tt_granted_lease_sec t \<noteq> None)"

definition pair_fields_ok :: "traversal_transcript \<Rightarrow> bool" where
  "pair_fields_ok t \<longleftrightarrow>
     (if tt_method t = MethodPair
      then (case tt_pair_id t of None \<Rightarrow> False | Some p \<Rightarrow> lower_hex p 16) \<and> tt_participant_role t \<noteq> None
      else tt_pair_id t = None \<and> tt_participant_role t = None)"

definition router_fields_ok :: "traversal_transcript \<Rightarrow> bool" where
  "router_fields_ok t \<longleftrightarrow>
     tt_authority t = DeviceReportedRouter
     \<or> (tt_granted_lease_sec t = None \<and> tt_cleanup t = None \<and> tt_protocol_error t = None)"

definition lease_value_ok :: "traversal_transcript \<Rightarrow> bool" where
  "lease_value_ok t \<longleftrightarrow>
     (case tt_granted_lease_sec t of None \<Rightarrow> True
      | Some s \<Rightarrow> \<not> (s = 0 \<or> s > 120) \<or> tt_outcome t = OutcomeUnsupportedFiniteLease)"

definition error_fields_ok :: "traversal_transcript \<Rightarrow> bool" where
  "error_fields_ok t \<longleftrightarrow>
     \<not> (tt_outcome t = OutcomeSucceeded \<and> tt_error_class t \<noteq> None
        \<or> tt_outcome t = OutcomeFailed \<and> tt_error_class t = None)"

definition peer_challenge_ok :: "traversal_transcript \<Rightarrow> bool" where
  "peer_challenge_ok t \<longleftrightarrow>
     \<not> ((case tt_peer_challenge t of None \<Rightarrow> False | Some c \<Rightarrow> \<not> lower_hex c 32)
        \<or> tt_peer_challenge t \<noteq> None \<and> \<not> peer_stage (tt_stage t)
        \<or> peer_stage (tt_stage t) \<and> tt_outcome t = OutcomeSucceeded \<and> tt_peer_challenge t = None)"

fun cleanup_outcome :: "traversal_cleanup \<Rightarrow> traversal_outcome" where
  "cleanup_outcome CleanupConfirmedDeleted = OutcomeSucceeded"
| "cleanup_outcome CleanupDeleteFailed = OutcomeFailed"
| "cleanup_outcome CleanupLeaseExpiryPending = OutcomeUnknown"
| "cleanup_outcome CleanupNotCreated = OutcomeNotStarted"
| "cleanup_outcome CleanupCreationOutcomeUnknown = OutcomeCreationOutcomeUnknown"
| "cleanup_outcome CleanupExpiryUnknown = OutcomeExpiryUnknown"

definition transcript_validate :: "crates \<Rightarrow> traversal_transcript \<Rightarrow> traversal_refusal + unit" where
  "transcript_validate cr t =
     guard (tt_version t = 1) UnknownVersion
     (guard (transcript_binding_ok t) InvalidBinding
     (res_bind (proof_domain (tt_authority t) (tt_stage t) (tt_method t) (tt_transport t)) (\<lambda>domain.
     guard (tt_domain t = domain) WrongDomain
     (guard (behaviour_outcome_ok t) InvalidProof
     (guard (outcome_stage_ok t) InvalidProof
     (guard (lease_stage_ok t) InvalidProof
     (guard (pair_fields_ok t) InvalidPair
     (guard (router_fields_ok t) InvalidProof
     (guard (lease_value_ok t) InvalidProof
     (guard (error_fields_ok t) InvalidProof
     (guard (\<not> (tt_stage t = StageMappingCreate \<and> tt_outcome t = OutcomeCreationOutcomeUnknown
               \<and> tt_granted_lease_sec t \<noteq> None)) InvalidProof
     (guard (peer_challenge_ok t) InvalidProof
     (guard (case tt_cleanup t of None \<Rightarrow> True | Some c \<Rightarrow> tt_outcome t = cleanup_outcome c) InvalidProof
     (guard (\<not> (tt_stage t = StageMappingCleanup \<and> tt_cleanup t = None)) InvalidProof
       (bounded cr (transcript_json t) TRAVERSAL_BLOCK_MAX_BYTES)))))))))))))))"

definition signing_message :: "crates \<Rightarrow> traversal_transcript \<Rightarrow> traversal_refusal + bytes" where
  "signing_message cr t = res_bind (transcript_validate cr t) (\<lambda>_. canonical cr (transcript_json t))"

fun phase_operation ::
  "traversal_stage \<Rightarrow> traversal_method \<Rightarrow> traversal_transport \<Rightarrow> traversal_refusal + traversal_operation" where
  "phase_operation StageMappingBehaviour _ _ = Inr ObserveMapping"
| "phase_operation StageFilteringBehaviour _ _ = Inr ObserveFiltering"
| "phase_operation StageDiscovery _ _ = Inr DiscoverGateway"
| "phase_operation StageBaseline _ TransportTcp = Inr BaselineTcp"
| "phase_operation StageBaseline _ TransportUdp = Inr BaselineUdp"
| "phase_operation StageEndpointRegistration _ _ = Inr RegisterEndpoint"
| "phase_operation StageDirect _ _ = Inr PairDirectUdp"
| "phase_operation StageRelayControl _ _ = Inr PairRelayControl"
| "phase_operation _ MethodPcp _ = Inr MapPcp"
| "phase_operation _ MethodNatPmp _ = Inr MapNatPmp"
| "phase_operation _ MethodUpnpIgd _ = Inr MapUpnp"
| "phase_operation _ _ _ = Inl InvalidProof"

definition transcript_validate_scope ::
  "crates \<Rightarrow> traversal_transcript \<Rightarrow> traversal_descriptor \<Rightarrow> nat \<Rightarrow> traversal_refusal + unit" where
  "transcript_validate_scope cr t d now_ms =
     res_bind (transcript_validate cr t) (\<lambda>_.
     res_bind (validate_at cr d now_ms) (\<lambda>_.
     res_bind (binding_digest cr d) (\<lambda>bd.
     guard (tt_descriptor_digest t = bd \<and> tt_run_id t = td_run_id d
            \<and> tt_expires_at_ms t = td_expires_at_ms d
            \<and> tt_participant_role t = td_participant_role d
            \<and> tt_pair_id t = map_option pr_pair_id (td_pair d)) InvalidBinding
     (res_bind (phase_operation (tt_stage t) (tt_method t) (tt_transport t)) (\<lambda>operation.
     guard (\<not> ((case tt_granted_lease_sec t of
                  None \<Rightarrow> False
                | Some lease \<Rightarrow> (case td_mapping d of None \<Rightarrow> False | Some c \<Rightarrow> lease > mc_maximum_lease_sec c))
               \<and> tt_outcome t \<noteq> OutcomeUnsupportedFiniteLease)) InvalidConsent
     (guard (operation \<in> set (td_operations d)
             \<and> tt_elapsed_ms t \<le> tb_experiment_ms (td_budgets d)) InvalidScope (Inr ())))))))"

definition validate_pair_transcripts ::
  "crates \<Rightarrow> traversal_descriptor \<Rightarrow> traversal_descriptor \<Rightarrow> traversal_transcript \<Rightarrow> traversal_transcript
     \<Rightarrow> nat \<Rightarrow> traversal_refusal + unit" where
  "validate_pair_transcripts cr first_descriptor second_descriptor first second now_ms =
     res_bind (validate_traversal_pair cr first_descriptor second_descriptor) (\<lambda>_.
     res_bind (transcript_validate_scope cr first first_descriptor now_ms) (\<lambda>_.
     res_bind (transcript_validate_scope cr second second_descriptor now_ms) (\<lambda>_.
     guard (tt_authority first = HelperObservedPeer
            \<and> tt_authority second = HelperObservedPeer
            \<and> tt_stage first = tt_stage second
            \<and> tt_transport first = tt_transport second
            \<and> tt_family first = tt_family second
            \<and> tt_outcome first = OutcomeSucceeded
            \<and> tt_outcome second = OutcomeSucceeded
            \<and> tt_peer_challenge first = Some (tt_challenge second)
            \<and> tt_peer_challenge second = Some (tt_challenge first)) InvalidProof (Inr ()))))"

section \<open>Lemmas\<close>

lemma proof_domain_facts:
  "proof_domain a s m t = Inr domain \<Longrightarrow>
     (m = MethodPair \<longleftrightarrow> s \<in> {StageDirect, StageRelayControl, StageEndpointRegistration})
     \<and> (s \<in> {StageMappingCreate, StageMappingCleanup} \<longrightarrow> a = DeviceReportedRouter)
     \<and> (peer_stage s \<longleftrightarrow> a = HelperObservedPeer)"
  by (cases a) (auto simp: router_method_def peer_stage_def split: if_splits)

lemma transcript_validate_Inr:
  "transcript_validate cr t = Inr u \<longleftrightarrow>
     tt_version t = 1 \<and> transcript_binding_ok t
     \<and> proof_domain (tt_authority t) (tt_stage t) (tt_method t) (tt_transport t) = Inr (tt_domain t)
     \<and> behaviour_outcome_ok t \<and> outcome_stage_ok t \<and> lease_stage_ok t \<and> pair_fields_ok t
     \<and> router_fields_ok t \<and> lease_value_ok t \<and> error_fields_ok t
     \<and> \<not> (tt_stage t = StageMappingCreate \<and> tt_outcome t = OutcomeCreationOutcomeUnknown
          \<and> tt_granted_lease_sec t \<noteq> None)
     \<and> peer_challenge_ok t
     \<and> (case tt_cleanup t of None \<Rightarrow> True | Some c \<Rightarrow> tt_outcome t = cleanup_outcome c)
     \<and> \<not> (tt_stage t = StageMappingCleanup \<and> tt_cleanup t = None)
     \<and> bounded cr (transcript_json t) TRAVERSAL_BLOCK_MAX_BYTES = Inr ()"
  unfolding transcript_validate_def guard_eq_Inr res_bind_eq_Inr by auto

lemma transcript_validate_scope_Inr:
  "transcript_validate_scope cr t d now = Inr u \<longleftrightarrow>
     transcript_validate cr t = Inr () \<and> validate_at cr d now = Inr ()
     \<and> binding_digest cr d = Inr (tt_descriptor_digest t)
     \<and> tt_run_id t = td_run_id d \<and> tt_expires_at_ms t = td_expires_at_ms d
     \<and> tt_participant_role t = td_participant_role d \<and> tt_pair_id t = map_option pr_pair_id (td_pair d)
     \<and> (\<exists>operation. phase_operation (tt_stage t) (tt_method t) (tt_transport t) = Inr operation
          \<and> operation \<in> set (td_operations d))
     \<and> \<not> ((case tt_granted_lease_sec t of
             None \<Rightarrow> False
           | Some lease \<Rightarrow> (case td_mapping d of None \<Rightarrow> False | Some c \<Rightarrow> lease > mc_maximum_lease_sec c))
          \<and> tt_outcome t \<noteq> OutcomeUnsupportedFiniteLease)
     \<and> tt_elapsed_ms t \<le> tb_experiment_ms (td_budgets d)"
  unfolding transcript_validate_scope_def guard_eq_Inr res_bind_eq_Inr by auto

lemma transcript_scope_facts:
  assumes "transcript_validate_scope cr t d now = Inr ()"
  shows "transcript_validate cr t = Inr ()" "tt_run_id t = td_run_id d"
    "tt_participant_role t = td_participant_role d" "tt_pair_id t = map_option pr_pair_id (td_pair d)"
  using assms by (simp_all only: transcript_validate_scope_Inr)

lemma validate_pair_transcripts_Inr:
  "validate_pair_transcripts cr da db a b now = Inr u \<longleftrightarrow>
     validate_traversal_pair cr da db = Inr () \<and> transcript_validate_scope cr a da now = Inr ()
     \<and> transcript_validate_scope cr b db now = Inr ()
     \<and> tt_authority a = HelperObservedPeer \<and> tt_authority b = HelperObservedPeer
     \<and> tt_stage a = tt_stage b \<and> tt_transport a = tt_transport b \<and> tt_family a = tt_family b
     \<and> tt_outcome a = OutcomeSucceeded \<and> tt_outcome b = OutcomeSucceeded
     \<and> tt_peer_challenge a = Some (tt_challenge b) \<and> tt_peer_challenge b = Some (tt_challenge a)"
  unfolding validate_pair_transcripts_def guard_eq_Inr res_bind_eq_Inr by simp

text \<open>The six domains are different texts.\<close>

lemmas domain_texts = TRAVERSAL_EXTERNAL_PATH_DOMAIN_def TRAVERSAL_ROUTER_RESPONSE_DOMAIN_def
  TRAVERSAL_DIRECT_PEER_DOMAIN_def TRAVERSAL_RELAY_PEER_DOMAIN_def TRAVERSAL_BEHAVIOUR_DOMAIN_def
  TRAVERSAL_REGISTRATION_DOMAIN_def

lemma proof_domain_cases:
  "proof_domain a s m t = Inr domain \<longleftrightarrow>
     (case a of
        ExternalPath \<Rightarrow> domain = TRAVERSAL_EXTERNAL_PATH_DOMAIN \<and> t \<in> {TransportTcp, TransportUdp}
          \<and> (s = StageBaseline \<and> m = MethodUnassisted \<or> s = StageMappingVerify \<and> router_method m)
      | DeviceReportedRouter \<Rightarrow> domain = TRAVERSAL_ROUTER_RESPONSE_DOMAIN \<and> t = TransportRouterControl
          \<and> s \<in> {StageDiscovery, StageMappingCreate, StageMappingCleanup} \<and> router_method m
      | HelperObservedPeer \<Rightarrow> m = MethodPair
          \<and> (domain = TRAVERSAL_DIRECT_PEER_DOMAIN \<and> s = StageDirect \<and> t = TransportUdp
             \<or> domain = TRAVERSAL_RELAY_PEER_DOMAIN \<and> s = StageRelayControl \<and> t = TransportRelayControl)
      | ProberObservedRegistration \<Rightarrow> domain = TRAVERSAL_REGISTRATION_DOMAIN \<and> s = StageEndpointRegistration
          \<and> t = TransportUdp \<and> m = MethodPair
      | ProberObservedBehaviour \<Rightarrow> domain = TRAVERSAL_BEHAVIOUR_DOMAIN \<and> t = TransportUdp
          \<and> (s = StageMappingBehaviour \<and> m = MethodUdpMapping
             \<or> s = StageFilteringBehaviour \<and> m = MethodUdpFiltering))"
  by (cases a) auto

section \<open>Properties\<close>

text \<open>
  Domain separation: the domain a signature covers fixes the authority that observed the evidence,
  and for peer evidence also whether the path was direct or relayed, so a relayed exchange can never be
  presented as a direct one.
\<close>

theorem transcript_domain_separation:
  assumes "transcript_validate cr t = Inr ()" and "transcript_validate cr t' = Inr ()"
    and "tt_domain t = tt_domain t'"
  shows "tt_authority t = tt_authority t'
    \<and> (tt_stage t = StageDirect) = (tt_stage t' = StageDirect)
    \<and> (tt_stage t = StageRelayControl) = (tt_stage t' = StageRelayControl)"
proof -
  have d: "proof_domain (tt_authority t) (tt_stage t) (tt_method t) (tt_transport t) = Inr (tt_domain t)"
    "proof_domain (tt_authority t') (tt_stage t') (tt_method t') (tt_transport t') = Inr (tt_domain t)"
    using assms by (simp_all add: transcript_validate_Inr)
  then show ?thesis
    unfolding proof_domain_cases
    by (cases "tt_authority t"; cases "tt_authority t'") (auto simp: domain_texts)
qed

text \<open>
  A lease is claimed only by the router's own answer and is finite: a validated transcript with a
  granted lease is device-reported, at a creation or clean-up stage, and lies between 1 and 120 seconds
  unless it reports the refusal of an unbounded lease; a successful creation always names its lease.
\<close>

theorem transcript_lease_finite:
  assumes "transcript_validate cr t = Inr ()"
  shows "(case tt_granted_lease_sec t of
      None \<Rightarrow> tt_stage t \<noteq> StageMappingCreate \<or> tt_outcome t \<noteq> OutcomeSucceeded
    | Some lease \<Rightarrow> tt_authority t = DeviceReportedRouter
        \<and> tt_stage t \<in> {StageMappingCreate, StageMappingCleanup}
        \<and> (1 \<le> lease \<and> lease \<le> 120 \<or> tt_outcome t = OutcomeUnsupportedFiniteLease))"
  using assms
  by (auto simp: transcript_validate_Inr lease_stage_ok_def router_fields_ok_def lease_value_ok_def
      Suc_le_eq split: option.splits)

text \<open>
  C24. Two accepted pair transcripts corroborate each other: each was observed by its own helper, one
  in either role of the same pair, on the same stage, and each carries the other's challenge.
\<close>

theorem pair_transcripts_corroborate:
  assumes "validate_pair_transcripts cr da db a b now = Inr ()"
  shows "tt_participant_role a = Some RoleFirst \<and> tt_participant_role b = Some RoleSecond
    \<and> tt_pair_id a = tt_pair_id b \<and> tt_pair_id a \<noteq> None \<and> tt_run_id a = tt_run_id b
    \<and> tt_domain a = tt_domain b \<and> peer_stage (tt_stage a)
    \<and> tt_peer_challenge a = Some (tt_challenge b) \<and> tt_peer_challenge b = Some (tt_challenge a)
    \<and> td_claim_authority_digest da \<noteq> td_claim_authority_digest db"
proof -
  have v: "validate_traversal_pair cr da db = Inr ()" "transcript_validate_scope cr a da now = Inr ()"
    "transcript_validate_scope cr b db now = Inr ()"
    and m: "tt_authority a = HelperObservedPeer" "tt_authority b = HelperObservedPeer"
      "tt_stage a = tt_stage b" "tt_peer_challenge a = Some (tt_challenge b)"
      "tt_peer_challenge b = Some (tt_challenge a)"
    using assms by (simp_all only: validate_pair_transcripts_Inr)
  note fa = transcript_scope_facts [OF v(2)] and fb = transcript_scope_facts [OF v(3)]
  have domains: "proof_domain HelperObservedPeer (tt_stage a) (tt_method a) (tt_transport a) = Inr (tt_domain a)"
    "proof_domain HelperObservedPeer (tt_stage a) (tt_method b) (tt_transport b) = Inr (tt_domain b)"
    and pf: "pair_fields_ok a"
    using fa(1) fb(1) m(1-3) by (simp_all only: transcript_validate_Inr)
  have dom: "tt_domain a = tt_domain b" "peer_stage (tt_stage a)" "tt_method a = MethodPair"
    using domains by (auto simp: peer_stage_def split: if_splits)
  have "tt_pair_id a \<noteq> None"
    using pf dom(3) by (auto simp: pair_fields_ok_def split: option.splits)
  then show ?thesis
    using validate_traversal_pair_sides [OF v(1)] fa(2-4) fb(2-4) dom m by auto
qed

section \<open>Witnesses\<close>

text \<open>
  A hexadecimal codec and fixed-size digests for the concrete runs below. The printer of JSON prints
  one byte, so that every value is within the size limits.
\<close>

definition hex_digit :: "nat \<Rightarrow> char" where
  "hex_digit n = (if n < 10 then char_of (48 + n) else char_of (87 + n))"

definition hex_text :: "bytes \<Rightarrow> string" where
  "hex_text bs = concat (map (\<lambda>b. [hex_digit (unat b div 16), hex_digit (unat b mod 16)]) bs)"

fun hex_bytes :: "string \<Rightarrow> bytes option" where
  "hex_bytes [] = Some []"
| "hex_bytes [c] = None"
| "hex_bytes (c # d # s) =
     (case (digit_value c, digit_value d, hex_bytes s) of
        (Some x, Some y, Some bs) \<Rightarrow> if x < 16 \<and> y < 16 then Some (of_nat (16 * x + y) # bs) else None
      | _ \<Rightarrow> None)"

definition evidence_crates :: crates where
  "evidence_crates = sample_crates\<lparr>hex_encode := hex_text, hex_decode := hex_bytes,
     sha256_digest := (\<lambda>b. replicate 32 0), hmac_sha256 := (\<lambda>k m. replicate 32 0)\<rparr>"

lemma hex_digit_facts:
  assumes "n < 16"
  shows "digit_value (hex_digit n) = Some n \<and> is_lower_hex_digit (hex_digit n)"
proof -
  have "list_all (\<lambda>n. digit_value (hex_digit n) = Some n \<and> is_lower_hex_digit (hex_digit n)) [0..<16]"
    by (simp add: upt_rec hex_digit_def digit_value_def is_lower_hex_digit_def is_ascii_digit_def
        is_ascii_lower_def)
  then show ?thesis using assms by (simp add: list_all_iff)
qed

lemma unat_byte_less: "unat (b :: byte) < 256"
  using unsigned_less [of b] by simp

lemma hex_bytes_hex_text: "hex_bytes (hex_text bs) = Some bs"
proof (induction bs)
  case (Cons b bs)
  have "unat b div 16 < 16" "unat b mod 16 < 16" using unat_byte_less [of b] by linarith+
  then show ?case
    using Cons by (simp add: hex_text_def hex_digit_facts flip: of_nat_mult of_nat_add)
qed (simp add: hex_text_def)

lemma hex_text_lower: "lower_hex (hex_text bs) (length bs)"
proof (induction bs)
  case (Cons b bs)
  have "unat b div 16 < 16" "unat b mod 16 < 16" using unat_byte_less [of b] by linarith+
  then show ?case
    using Cons by (simp add: hex_text_def lower_hex_def hex_digit_facts)
qed (simp add: hex_text_def lower_hex_def)

lemma evidence_crates_fields:
  "hex_encode evidence_crates = hex_text" "hex_decode evidence_crates = hex_bytes"
  "json_to_vec evidence_crates j = Some [7]" "sha256_digest evidence_crates b = replicate 32 0"
  "hmac_sha256 evidence_crates k m = replicate 32 0"
  by (simp_all add: evidence_crates_def sample_fields)

lemma evidence_bounded: "bounded evidence_crates v TRAVERSAL_BLOCK_MAX_BYTES = Inr ()"
  by (simp add: bounded_def evidence_crates_fields TRAVERSAL_BLOCK_MAX_BYTES_def)

lemma evidence_canonical: "canonical evidence_crates v = Inr [7]"
  by (simp add: canonical_def canonical_json_bytes_def evidence_crates_fields)

definition sample_evidence_digest :: string where
  "sample_evidence_digest = ''sha256:'' @ hex_text (replicate 32 0)"

lemma sample_evidence_digest: "digest sample_evidence_digest" "sha256 evidence_crates b = sample_evidence_digest"
  using hex_text_lower [of "replicate 32 0"]
  by (simp_all add: sample_evidence_digest_def digest_def sha256_def evidence_crates_fields)

definition sample_first_transcript :: traversal_transcript where
  "sample_first_transcript =
     \<lparr>tt_version = 1, tt_domain = TRAVERSAL_DIRECT_PEER_DOMAIN,
      tt_descriptor_digest = sample_evidence_digest, tt_run_id = replicate 32 (CHR ''a''),
      tt_pair_id = Some (replicate 32 (CHR ''a'')), tt_participant_role = Some RoleFirst,
      tt_authority = HelperObservedPeer, tt_stage = StageDirect, tt_method = MethodPair,
      tt_transport = TransportUdp, tt_family = FamilyV4, tt_challenge = replicate 64 (CHR ''a''),
      tt_peer_challenge = Some (replicate 64 (CHR ''b'')), tt_expires_at_ms = 100000,
      tt_outcome = OutcomeSucceeded, tt_elapsed_ms = 5, tt_granted_lease_sec = None, tt_cleanup = None,
      tt_protocol_error = None, tt_error_class = None\<rparr>"

definition sample_second_transcript :: traversal_transcript where
  "sample_second_transcript = sample_first_transcript
     \<lparr>tt_participant_role := Some RoleSecond, tt_challenge := replicate 64 (CHR ''b''),
      tt_peer_challenge := Some (replicate 64 (CHR ''a''))\<rparr>"

definition sample_router_transcript :: traversal_transcript where
  "sample_router_transcript = sample_first_transcript
     \<lparr>tt_domain := TRAVERSAL_ROUTER_RESPONSE_DOMAIN, tt_pair_id := None, tt_participant_role := None,
      tt_authority := DeviceReportedRouter, tt_stage := StageMappingCreate, tt_method := MethodPcp,
      tt_transport := TransportRouterControl, tt_peer_challenge := None, tt_granted_lease_sec := Some 60\<rparr>"

lemmas transcript_checks = transcript_binding_ok_def behaviour_outcome_ok_def outcome_stage_ok_def
  lease_stage_ok_def pair_fields_ok_def router_fields_ok_def lease_value_ok_def error_fields_ok_def
  peer_challenge_ok_def peer_stage_def router_method_def

lemma sample_transcripts_valid:
  "transcript_validate evidence_crates sample_first_transcript = Inr ()"
  "transcript_validate evidence_crates sample_second_transcript = Inr ()"
  "transcript_validate evidence_crates sample_router_transcript = Inr ()"
  using sample_hex_text [of 16] sample_hex_text [of 32] sample_evidence_digest(1)
  by (simp_all add: transcript_validate_Inr transcript_checks evidence_bounded sample_first_transcript_def
      sample_second_transcript_def sample_router_transcript_def SAFE_INTEGER_def
      TRAVERSAL_EXPERIMENT_MAX_MS_def)

lemma sample_half_evidence:
  "descriptor_validate evidence_crates sample_first_half = Inr ()"
  "descriptor_validate evidence_crates sample_second_half = Inr ()"
  "descriptor_validate evidence_crates sample_mapping_descriptor = Inr ()"
  using sample_half_valid sample_mapping_valid
  by (simp_all add: descriptor_validate_Inr evidence_bounded)

lemma sample_scopes:
  "transcript_validate_scope evidence_crates sample_first_transcript sample_first_half 2000 = Inr ()"
  "transcript_validate_scope evidence_crates sample_second_transcript sample_second_half 2000 = Inr ()"
  "transcript_validate_scope evidence_crates sample_router_transcript sample_mapping_descriptor 2000 = Inr ()"
proof -
  have digests: "binding_digest evidence_crates sample_first_half = Inr sample_evidence_digest"
    "binding_digest evidence_crates sample_second_half = Inr sample_evidence_digest"
    "binding_digest evidence_crates sample_mapping_descriptor = Inr sample_evidence_digest"
    by (simp_all add: binding_digest_def canonical_bytes_def sample_half_evidence evidence_canonical
        sample_evidence_digest(2))
  show "transcript_validate_scope evidence_crates sample_first_transcript sample_first_half 2000 = Inr ()"
    "transcript_validate_scope evidence_crates sample_second_transcript sample_second_half 2000 = Inr ()"
    "transcript_validate_scope evidence_crates sample_router_transcript sample_mapping_descriptor 2000 = Inr ()"
    unfolding transcript_validate_scope_Inr validate_at_Inr digests sample_half_evidence sample_transcripts_valid
    by (simp_all add: sample_first_transcript_def sample_second_transcript_def sample_router_transcript_def
        sample_first_half_def sample_second_half_def sample_mapping_descriptor_def sample_pair_def)
qed

theorem transcript_domain_separation_witness:
  "transcript_validate evidence_crates sample_first_transcript = Inr ()
   \<and> transcript_validate evidence_crates sample_second_transcript = Inr ()
   \<and> tt_domain sample_first_transcript = tt_domain sample_second_transcript
   \<and> tt_authority sample_first_transcript = tt_authority sample_second_transcript"
proof -
  have "tt_domain sample_first_transcript = tt_domain sample_second_transcript"
    by (simp add: sample_second_transcript_def)
  then show ?thesis
    using transcript_domain_separation [OF sample_transcripts_valid(1,2)] sample_transcripts_valid by blast
qed

theorem transcript_lease_finite_witness:
  "transcript_validate evidence_crates sample_router_transcript = Inr ()
   \<and> tt_granted_lease_sec sample_router_transcript = Some 60
   \<and> tt_authority sample_router_transcript = DeviceReportedRouter"
proof -
  have "tt_granted_lease_sec sample_router_transcript = Some 60"
    by (simp add: sample_router_transcript_def)
  then show ?thesis
    using transcript_lease_finite [OF sample_transcripts_valid(3)] sample_transcripts_valid(3) by simp
qed

theorem pair_transcripts_corroborate_witness:
  "validate_pair_transcripts evidence_crates sample_first_half sample_second_half
     sample_first_transcript sample_second_transcript 2000 = Inr ()
   \<and> tt_peer_challenge sample_first_transcript = Some (tt_challenge sample_second_transcript)"
proof -
  have pair: "validate_traversal_pair evidence_crates sample_first_half sample_second_half = Inr ()"
    unfolding validate_traversal_pair_def sample_half_evidence
    by (simp add: sample_second_half_def sample_first_half_def)
  have "validate_pair_transcripts evidence_crates sample_first_half sample_second_half
     sample_first_transcript sample_second_transcript 2000 = Inr ()"
    unfolding validate_pair_transcripts_Inr pair sample_scopes
    by (simp add: sample_first_transcript_def sample_second_transcript_def)
  then show ?thesis using pair_transcripts_corroborate by blast
qed

end
