(* ===== verification/Evidence.thy ===== *)
theory Evidence
  imports Transcript
begin

text \<open>
  Keyed codecs and results of a traversal run: capabilities and receipts authenticated with
  HMAC-SHA256 (\<open>src/network_traversal/auth.rs\<close>) and the result block that refers to its proofs by
  digest (\<open>result.rs\<close>). \<open>ring::hmac::verify\<close> is documented to compare the tag it computes with the one
  given, and is modelled so. The decoder that \<open>serde\<close> derives for a capability is an argument. The
  coverage envelope at the end of \<open>result.rs\<close> wraps a type of \<open>coverage.rs\<close> and is not modelled.
\<close>

section \<open>Message authentication\<close>

definition CAPABILITY_MAC_DOMAIN :: bytes where
  "CAPABILITY_MAC_DOMAIN = as_bytes ''proof.liskov.network-traversal-capability.v1'' @ [0]"
definition BEHAVIOUR_RECEIPT_MAC_DOMAIN :: bytes where
  "BEHAVIOUR_RECEIPT_MAC_DOMAIN = as_bytes ''proof.liskov.network-traversal-behaviour-receipt.v1'' @ [0]"
definition PATH_RECEIPT_MAC_DOMAIN :: bytes where
  "PATH_RECEIPT_MAC_DOMAIN = as_bytes ''proof.liskov.network-traversal-external-receipt.v1'' @ [0]"
definition REGISTRATION_RECEIPT_MAC_DOMAIN :: bytes where
  "REGISTRATION_RECEIPT_MAC_DOMAIN = as_bytes ''proof.liskov.network-traversal-registration-receipt.v1'' @ [0]"

definition mac_tag :: "crates \<Rightarrow> bytes \<Rightarrow> bytes \<Rightarrow> bytes \<Rightarrow> bytes" where
  "mac_tag cr key domain message = hmac_sha256 cr key (domain @ message)"

definition verify_mac :: "crates \<Rightarrow> bytes \<Rightarrow> bytes \<Rightarrow> bytes \<Rightarrow> string \<Rightarrow> traversal_refusal + unit" where
  "verify_mac cr key domain message signature =
     guard (lower_hex signature 32) InvalidMac
       (res_bind (ok_or (hex_decode cr signature) InvalidMac) (\<lambda>tag.
          guard (hmac_sha256 cr key (domain @ message) = tag) InvalidMac (Inr ())))"

definition capability_json :: "traversal_capability \<Rightarrow> json" where
  "capability_json c = JObj
     [(''domain'', JStr (cap_domain c)), (''descriptor'', descriptor_json (cap_descriptor c)),
      (''mac'', JStr (cap_mac c))]"

definition encode_traversal_capability ::
  "crates \<Rightarrow> bytes \<Rightarrow> traversal_descriptor \<Rightarrow> traversal_refusal + bytes" where
  "encode_traversal_capability cr key d =
     res_bind (canonical_bytes cr d) (\<lambda>bs.
       let c = \<lparr>cap_domain = TRAVERSAL_CAPABILITY_DOMAIN, cap_descriptor = d,
                cap_mac = hex_encode cr (mac_tag cr key CAPABILITY_MAC_DOMAIN bs)\<rparr>
       in res_bind (bounded cr (capability_json c) TRAVERSAL_BLOCK_MAX_BYTES) (\<lambda>_.
            canonical cr (capability_json c)))"

definition decode_traversal_capability ::
  "crates \<Rightarrow> (bytes \<Rightarrow> traversal_capability option) \<Rightarrow> bytes \<Rightarrow> bytes \<Rightarrow> nat
     \<Rightarrow> traversal_refusal + traversal_descriptor" where
  "decode_traversal_capability cr from_slice key bs now_ms =
     guard (length bs \<le> TRAVERSAL_BLOCK_MAX_BYTES) Oversize
       (res_bind (ok_or (from_slice bs) Malformed) (\<lambda>c.
          guard (cap_domain c = TRAVERSAL_CAPABILITY_DOMAIN) WrongDomain
            (res_bind (validate_at cr (cap_descriptor c) now_ms) (\<lambda>_.
             res_bind (canonical cr (capability_json c)) (\<lambda>again.
               guard (again = bs) NonCanonical
                 (res_bind (canonical_bytes cr (cap_descriptor c)) (\<lambda>message.
                  res_bind (verify_mac cr key CAPABILITY_MAC_DOMAIN message (cap_mac c)) (\<lambda>_.
                    Inr (cap_descriptor c)))))))))"

section \<open>Receipts\<close>

record traversal_receipt =
  tr_version :: nat
  tr_transcript :: traversal_transcript
  tr_device_signature :: string
  tr_mac :: string

definition receipt_json :: "traversal_receipt \<Rightarrow> json" where
  "receipt_json r = JObj
     [(''version'', json_u64 (tr_version r)), (''transcript'', transcript_json (tr_transcript r)),
      (''deviceSignature'', JStr (tr_device_signature r)), (''mac'', JStr (tr_mac r))]"

definition receipt_domain :: "crates \<Rightarrow> traversal_receipt \<Rightarrow> traversal_refusal + bytes" where
  "receipt_domain cr r =
     guard (tr_version r = 1) UnknownVersion
       (res_bind (transcript_validate cr (tr_transcript r)) (\<lambda>_.
          guard (prefixed_hex (tr_device_signature r) 64) InvalidProof
            (case tt_authority (tr_transcript r) of
               ExternalPath \<Rightarrow> Inr PATH_RECEIPT_MAC_DOMAIN
             | ProberObservedBehaviour \<Rightarrow> Inr BEHAVIOUR_RECEIPT_MAC_DOMAIN
             | ProberObservedRegistration \<Rightarrow> Inr REGISTRATION_RECEIPT_MAC_DOMAIN
             | _ \<Rightarrow> Inl InvalidProof)))"

definition traversal_receipt_message :: "crates \<Rightarrow> traversal_receipt \<Rightarrow> traversal_refusal + bytes" where
  "traversal_receipt_message cr r =
     res_bind (receipt_domain cr r) (\<lambda>_. canonical cr (receipt_json (r\<lparr>tr_mac := []\<rparr>)))"

text \<open>\<open>sign_traversal_receipt\<close> writes the MAC into its argument before it checks the size.\<close>

definition sign_traversal_receipt ::
  "crates \<Rightarrow> bytes \<Rightarrow> traversal_receipt \<Rightarrow> (traversal_refusal + unit) \<times> traversal_receipt" where
  "sign_traversal_receipt cr key r =
     (case res_bind (receipt_domain cr r) (\<lambda>domain.
             res_bind (traversal_receipt_message cr r) (\<lambda>message. Inr (mac_tag cr key domain message))) of
        Inl e \<Rightarrow> (Inl e, r)
      | Inr tag \<Rightarrow>
          let r' = r\<lparr>tr_mac := hex_encode cr tag\<rparr>
          in (bounded cr (receipt_json r') TRAVERSAL_BLOCK_MAX_BYTES, r'))"

definition verify_traversal_receipt ::
  "crates \<Rightarrow> bytes \<Rightarrow> traversal_receipt \<Rightarrow> traversal_descriptor \<Rightarrow> nat \<Rightarrow> traversal_refusal + unit" where
  "verify_traversal_receipt cr key r d now_ms =
     res_bind (bounded cr (receipt_json r) TRAVERSAL_BLOCK_MAX_BYTES) (\<lambda>_.
     res_bind (transcript_validate_scope cr (tr_transcript r) d now_ms) (\<lambda>_.
     res_bind (receipt_domain cr r) (\<lambda>domain.
     res_bind (traversal_receipt_message cr r) (\<lambda>message.
       verify_mac cr key domain message (tr_mac r)))))"

section \<open>The result block\<close>

record traversal_phase =
  tf_stage :: traversal_stage
  tf_method :: traversal_method
  tf_transport :: traversal_transport
  tf_family :: traversal_family
  tf_authority :: evidence_authority
  tf_outcome :: traversal_outcome
  tf_elapsed_ms :: nat
  tf_granted_lease_sec :: "nat option"
  tf_cleanup :: "traversal_cleanup option"
  tf_protocol_error :: "nat option"
  tf_error_class :: "traversal_error_class option"
  tf_proof_digest :: "string option"

datatype traversal_proof =
    ProberReceipt traversal_receipt
  | DeviceSignature traversal_transcript string

record network_traversal =
  nt_version :: nat
  nt_descriptor_digest :: string
  nt_run_id :: string
  nt_mode :: traversal_mode
  nt_started_at_ms :: nat
  nt_duration_ms :: nat
  nt_phases :: "traversal_phase list"
  nt_proofs :: "traversal_proof list"

definition phase_json :: "traversal_phase \<Rightarrow> json" where
  "phase_json p = JObj
     [(''stage'', JStr (stage_name (tf_stage p))), (''method'', JStr (method_name (tf_method p))),
      (''transport'', JStr (transport_name (tf_transport p))),
      (''family'', JStr (family_name (tf_family p))),
      (''authority'', JStr (authority_name (tf_authority p))),
      (''outcome'', JStr (outcome_name (tf_outcome p))), (''elapsedMs'', json_u64 (tf_elapsed_ms p)),
      (''grantedLeaseSec'', json_opt json_u64 (tf_granted_lease_sec p)),
      (''cleanup'', json_opt (\<lambda>c. JStr (cleanup_name c)) (tf_cleanup p)),
      (''protocolError'', json_opt json_u64 (tf_protocol_error p)),
      (''errorClass'', json_opt (\<lambda>c. JStr (error_class_name c)) (tf_error_class p)),
      (''proofDigest'', json_opt JStr (tf_proof_digest p))]"

fun proof_json :: "traversal_proof \<Rightarrow> json" where
  "proof_json (ProberReceipt r) = JObj [(''kind'', JStr ''prober_receipt''), (''receipt'', receipt_json r)]"
| "proof_json (DeviceSignature t s) =
     JObj [(''kind'', JStr ''device_signature''), (''transcript'', transcript_json t), (''signature'', JStr s)]"

definition network_traversal_json :: "network_traversal \<Rightarrow> json" where
  "network_traversal_json n = JObj
     [(''version'', json_u64 (nt_version n)), (''descriptorDigest'', JStr (nt_descriptor_digest n)),
      (''runId'', JStr (nt_run_id n)), (''mode'', JStr (mode_name (nt_mode n))),
      (''startedAtMs'', json_u64 (nt_started_at_ms n)), (''durationMs'', json_u64 (nt_duration_ms n)),
      (''phases'', JArr (map phase_json (nt_phases n))), (''proofs'', JArr (map proof_json (nt_proofs n)))]"

fun proof_transcript :: "traversal_proof \<Rightarrow> traversal_transcript" where
  "proof_transcript (ProberReceipt r) = tr_transcript r"
| "proof_transcript (DeviceSignature t s) = t"

definition proof_binding_digest :: "crates \<Rightarrow> traversal_proof \<Rightarrow> traversal_refusal + string" where
  "proof_binding_digest cr p = res_bind (canonical cr (proof_json p)) (\<lambda>bs. Inr (sha256 cr bs))"

definition proof_validate :: "crates \<Rightarrow> traversal_proof \<Rightarrow> traversal_refusal + unit" where
  "proof_validate cr p =
     res_bind (transcript_validate cr (proof_transcript p)) (\<lambda>_.
       (case p of
          ProberReceipt r \<Rightarrow>
            res_bind (traversal_receipt_message cr r) (\<lambda>_. guard (lower_hex (tr_mac r) 32) InvalidMac (Inr ()))
        | DeviceSignature t s \<Rightarrow>
            guard (tt_authority t \<in> {DeviceReportedRouter, HelperObservedPeer} \<and> prefixed_hex s 64)
              InvalidProof (Inr ())))"

definition phase_matches :: "traversal_phase \<Rightarrow> traversal_transcript \<Rightarrow> bool" where
  "phase_matches p t \<longleftrightarrow>
     tf_stage p = tt_stage t \<and> tf_method p = tt_method t \<and> tf_transport p = tt_transport t
     \<and> tf_family p = tt_family t \<and> tf_authority p = tt_authority t \<and> tf_outcome p = tt_outcome t
     \<and> tf_elapsed_ms p = tt_elapsed_ms t \<and> tf_granted_lease_sec p = tt_granted_lease_sec t
     \<and> tf_cleanup p = tt_cleanup t \<and> tf_protocol_error p = tt_protocol_error t
     \<and> tf_error_class p = tt_error_class t"

definition stage_refused :: "traversal_mode \<Rightarrow> traversal_stage \<Rightarrow> bool" where
  "stage_refused m s = (case m of
     ModeObserve \<Rightarrow> s \<in> {StageMappingCreate, StageMappingVerify, StageMappingCleanup, StageDirect,
       StageRelayControl, StageEndpointRegistration}
   | ModeMapping \<Rightarrow> s \<in> {StageDirect, StageRelayControl, StageEndpointRegistration}
   | ModePair \<Rightarrow> s \<notin> {StageEndpointRegistration, StageDirect, StageRelayControl})"

fun block_proofs_loop ::
  "crates \<Rightarrow> network_traversal \<Rightarrow> traversal_proof list \<Rightarrow> traversal_refusal + unit" where
  "block_proofs_loop cr n [] = Inr ()"
| "block_proofs_loop cr n (p # ps) =
     res_bind (proof_validate cr p) (\<lambda>_.
       guard (tt_descriptor_digest (proof_transcript p) = nt_descriptor_digest n
              \<and> tt_run_id (proof_transcript p) = nt_run_id n) InvalidBinding
         (block_proofs_loop cr n ps))"

text \<open>One phase against the digests \<open>used\<close> by the phases before it; the result is the new set.\<close>

definition block_phase_step ::
  "crates \<Rightarrow> network_traversal \<Rightarrow> string list \<Rightarrow> traversal_phase \<Rightarrow> traversal_refusal + string list" where
  "block_phase_step cr n used p =
     res_bind (proof_domain (tf_authority p) (tf_stage p) (tf_method p) (tf_transport p)) (\<lambda>_.
     guard (tf_elapsed_ms p \<le> nt_duration_ms n) InvalidDeadline
     (res_bind
       (case tf_proof_digest p of
          Some reference \<Rightarrow>
            guard (digest reference \<and> reference \<notin> set used) InvalidProof
              (res_bind (ok_or (find (\<lambda>q. proof_binding_digest cr q = Inr reference) (nt_proofs n)) InvalidProof)
                (\<lambda>q. guard (phase_matches p (proof_transcript q)) InvalidProof (Inr (reference # used))))
        | None \<Rightarrow>
            guard (tf_outcome p \<in> {OutcomeUnsupportedTopology, OutcomeUnsupportedRuntimeApi,
                     OutcomeUnsupportedSafeOwnership, OutcomeSkippedBudget, OutcomeNotStarted}
                   \<and> tf_granted_lease_sec p = None \<and> tf_cleanup p = None \<and> tf_protocol_error p = None)
              InvalidProof (Inr used))
       (\<lambda>used'. guard (\<not> stage_refused (nt_mode n) (tf_stage p)) InvalidScope (Inr used'))))"

fun block_phases_loop ::
  "crates \<Rightarrow> network_traversal \<Rightarrow> string list \<Rightarrow> traversal_phase list \<Rightarrow> traversal_refusal + string list" where
  "block_phases_loop cr n used [] = Inr used"
| "block_phases_loop cr n used (p # ps) =
     res_bind (block_phase_step cr n used p) (\<lambda>used'. block_phases_loop cr n used' ps)"

definition block_binding_ok :: "network_traversal \<Rightarrow> bool" where
  "block_binding_ok n \<longleftrightarrow>
     digest (nt_descriptor_digest n) \<and> lower_hex (nt_run_id n) 16
     \<and> nt_started_at_ms n \<le> SAFE_INTEGER \<and> nt_duration_ms n \<le> TRAVERSAL_EXPERIMENT_MAX_MS
     \<and> (case checked_add_u64 (nt_started_at_ms n) (nt_duration_ms n) of
          None \<Rightarrow> False | Some finish \<Rightarrow> finish \<le> SAFE_INTEGER)
     \<and> nt_phases n \<noteq> [] \<and> length (nt_phases n) \<le> 16 \<and> length (nt_proofs n) \<le> 8"

definition block_validate :: "crates \<Rightarrow> network_traversal \<Rightarrow> traversal_refusal + unit" where
  "block_validate cr n =
     guard (nt_version n = 1) UnknownVersion
       (res_bind (bounded cr (network_traversal_json n) TRAVERSAL_BLOCK_MAX_BYTES) (\<lambda>_.
          guard (block_binding_ok n) InvalidBinding
            (res_bind (block_proofs_loop cr n (nt_proofs n)) (\<lambda>_.
             res_bind (block_phases_loop cr n [] (nt_phases n)) (\<lambda>used.
               guard (length used = length (nt_proofs n)) InvalidProof (Inr ()))))))"

fun block_operations_loop :: "traversal_descriptor \<Rightarrow> traversal_phase list \<Rightarrow> traversal_refusal + unit" where
  "block_operations_loop d [] = Inr ()"
| "block_operations_loop d (p # ps) =
     res_bind (phase_operation (tf_stage p) (tf_method p) (tf_transport p)) (\<lambda>operation.
       guard (operation \<in> set (td_operations d)) InvalidScope (block_operations_loop d ps))"

fun block_scopes_loop ::
  "crates \<Rightarrow> traversal_descriptor \<Rightarrow> nat \<Rightarrow> traversal_proof list \<Rightarrow> traversal_refusal + unit" where
  "block_scopes_loop cr d now_ms [] = Inr ()"
| "block_scopes_loop cr d now_ms (p # ps) =
     res_bind (transcript_validate_scope cr (proof_transcript p) d now_ms) (\<lambda>_. block_scopes_loop cr d now_ms ps)"

definition block_validate_scope ::
  "crates \<Rightarrow> network_traversal \<Rightarrow> traversal_descriptor \<Rightarrow> nat \<Rightarrow> traversal_refusal + unit" where
  "block_validate_scope cr n d now_ms =
     res_bind (block_validate cr n) (\<lambda>_.
     res_bind (validate_at cr d now_ms) (\<lambda>_.
     res_bind (binding_digest cr d) (\<lambda>bd.
     guard (nt_descriptor_digest n = bd \<and> nt_run_id n = td_run_id d \<and> nt_mode n = td_mode d) InvalidBinding
     (guard (td_issued_at_ms d \<le> nt_started_at_ms n
             \<and> nt_started_at_ms n \<le> now_ms
             \<and> nt_started_at_ms n + nt_duration_ms n \<le> now_ms
             \<and> nt_started_at_ms n + nt_duration_ms n \<le> td_deadline_ms d
             \<and> nt_duration_ms n \<le> tb_experiment_ms (td_budgets d)) InvalidDeadline
     (res_bind (block_operations_loop d (nt_phases n)) (\<lambda>_.
        block_scopes_loop cr d now_ms (nt_proofs n)))))))"

section \<open>Lemmas\<close>

text \<open>What the codecs rely on: hexadecimal text is invertible and an HMAC-SHA256 tag has 32 bytes.\<close>

definition lawful_crates :: "crates \<Rightarrow> bool" where
  "lawful_crates cr \<longleftrightarrow>
     (\<forall>bs. hex_decode cr (hex_encode cr bs) = Some bs \<and> lower_hex (hex_encode cr bs) (length bs))
     \<and> (\<forall>key m. length (hmac_sha256 cr key m) = 32)"

lemma verify_mac_own_tag:
  "lawful_crates cr \<Longrightarrow> verify_mac cr key domain m (hex_encode cr (mac_tag cr key domain m)) = Inr ()"
  by (simp add: verify_mac_def mac_tag_def lawful_crates_def) (metis guard_simps(1))

lemma verify_mac_Inr:
  "verify_mac cr key domain m s = Inr u \<longleftrightarrow>
     lower_hex s 32 \<and> hex_decode cr s = Some (hmac_sha256 cr key (domain @ m))"
  by (auto simp: verify_mac_def res_simps)

lemma receipt_domain_Inr:
  "receipt_domain cr r = Inr domain \<longleftrightarrow>
     tr_version r = 1 \<and> transcript_validate cr (tr_transcript r) = Inr ()
     \<and> prefixed_hex (tr_device_signature r) 64
     \<and> (case tt_authority (tr_transcript r) of
          ExternalPath \<Rightarrow> domain = PATH_RECEIPT_MAC_DOMAIN
        | ProberObservedBehaviour \<Rightarrow> domain = BEHAVIOUR_RECEIPT_MAC_DOMAIN
        | ProberObservedRegistration \<Rightarrow> domain = REGISTRATION_RECEIPT_MAC_DOMAIN
        | _ \<Rightarrow> False)"
  unfolding receipt_domain_def guard_eq_Inr res_bind_eq_Inr by (auto split: evidence_authority.splits)

lemma receipt_unsigned:
  "receipt_domain cr (r\<lparr>tr_mac := m\<rparr>) = receipt_domain cr r"
  "traversal_receipt_message cr (r\<lparr>tr_mac := m\<rparr>) = traversal_receipt_message cr r"
  by (simp_all add: receipt_domain_def traversal_receipt_message_def)

lemma in_set_map_filter: "y \<in> set (List.map_filter f xs) \<longleftrightarrow> (\<exists>x \<in> set xs. f x = Some y)"
  by (induction xs) (auto simp: map_filter_simps split: option.splits)

lemma find_SomeD: "find P xs = Some x \<Longrightarrow> x \<in> set xs \<and> P x"
  by (induction xs) (auto split: if_splits)

lemma block_proofs_loop_Inr:
  "block_proofs_loop cr n ps = Inr u \<longleftrightarrow>
     (\<forall>p \<in> set ps. proof_validate cr p = Inr ()
        \<and> tt_descriptor_digest (proof_transcript p) = nt_descriptor_digest n
        \<and> tt_run_id (proof_transcript p) = nt_run_id n)"
  by (induction ps) (auto simp: res_simps)

text \<open>What one accepted phase says of its proof.\<close>

definition phase_proved :: "crates \<Rightarrow> network_traversal \<Rightarrow> traversal_phase \<Rightarrow> bool" where
  "phase_proved cr n p \<longleftrightarrow> (case tf_proof_digest p of
     Some reference \<Rightarrow> \<exists>q. find (\<lambda>q. proof_binding_digest cr q = Inr reference) (nt_proofs n) = Some q
        \<and> phase_matches p (proof_transcript q)
   | None \<Rightarrow> tf_outcome p \<in> {OutcomeUnsupportedTopology, OutcomeUnsupportedRuntimeApi,
        OutcomeUnsupportedSafeOwnership, OutcomeSkippedBudget, OutcomeNotStarted})"

lemma block_phase_step_Inr:
  assumes "block_phase_step cr n used p = Inr used'"
  shows "phase_proved cr n p \<and> \<not> stage_refused (nt_mode n) (tf_stage p)
    \<and> used' = (case tf_proof_digest p of None \<Rightarrow> used | Some r \<Rightarrow> r # used)
    \<and> (case tf_proof_digest p of None \<Rightarrow> True | Some r \<Rightarrow> r \<notin> set used)"
  using assms
  by (cases "tf_proof_digest p") (auto simp: block_phase_step_def phase_proved_def res_simps)

lemma block_phases_loop_Inr:
  assumes "block_phases_loop cr n used ps = Inr used'"
  shows "used' = rev (List.map_filter tf_proof_digest ps) @ used \<and> (distinct used \<longrightarrow> distinct used')
    \<and> (\<forall>p \<in> set ps. phase_proved cr n p \<and> \<not> stage_refused (nt_mode n) (tf_stage p))"
  using assms
proof (induction ps arbitrary: used)
  case Nil
  then show ?case by (simp add: map_filter_simps)
next
  case (Cons p ps)
  then obtain u where u: "block_phase_step cr n used p = Inr u" "block_phases_loop cr n u ps = Inr used'"
    by (auto simp: res_simps)
  show ?case
    using block_phase_step_Inr [OF u(1)] Cons.IH [OF u(2)]
    by (cases "tf_proof_digest p") (auto simp: map_filter_simps)
qed

lemma block_validate_Inr:
  "block_validate cr n = Inr u \<longleftrightarrow>
     nt_version n = 1 \<and> bounded cr (network_traversal_json n) TRAVERSAL_BLOCK_MAX_BYTES = Inr ()
     \<and> block_binding_ok n \<and> block_proofs_loop cr n (nt_proofs n) = Inr ()
     \<and> (\<exists>used. block_phases_loop cr n [] (nt_phases n) = Inr used \<and> length used = length (nt_proofs n))"
  unfolding block_validate_def guard_eq_Inr res_bind_eq_Inr by auto

lemma phase_proved_by:
  assumes "phase_proved cr n p" and "tf_proof_digest p = Some reference"
  obtains q where "q \<in> set (nt_proofs n)" "proof_binding_digest cr q = Inr reference"
    "phase_matches p (proof_transcript q)"
  using assms unfolding phase_proved_def by (auto dest: find_SomeD)

lemma block_phases_proved:
  "block_validate cr n = Inr () \<Longrightarrow> p \<in> set (nt_phases n) \<Longrightarrow> phase_proved cr n p"
  using block_phases_loop_Inr unfolding block_validate_Inr by blast

text \<open>As many different digests are referred to as there are proofs, so each proof has its own.\<close>

lemma block_digests:
  assumes "block_validate cr n = Inr ()"
  shows "distinct (List.map_filter tf_proof_digest (nt_phases n))
    \<and> distinct (map (proof_binding_digest cr) (nt_proofs n))
    \<and> proof_binding_digest cr ` set (nt_proofs n) = Inr ` set (List.map_filter tf_proof_digest (nt_phases n))"
proof -
  let ?refs = "List.map_filter tf_proof_digest (nt_phases n)"
  let ?ds = "map (proof_binding_digest cr) (nt_proofs n)"
  obtain used where loop: "block_phases_loop cr n [] (nt_phases n) = Inr used" "length used = length (nt_proofs n)"
    using assms by (auto simp: block_validate_Inr)
  note facts = block_phases_loop_Inr [OF loop(1)]
  have d: "distinct ?refs" and len: "length ?refs = length ?ds"
    using facts loop(2) by auto
  have sub: "Inr ` set ?refs \<subseteq> set ?ds"
  proof
    fix x :: "traversal_refusal + string"
    assume "x \<in> Inr ` set ?refs"
    then obtain p reference where p: "x = Inr reference" "p \<in> set (nt_phases n)" "tf_proof_digest p = Some reference"
      by (auto simp: in_set_map_filter)
    then show "x \<in> set ?ds"
      using phase_proved_by [OF block_phases_proved [OF assms p(2)] p(3)] by (metis image_eqI set_map)
  qed
  have card: "card (Inr ` set ?refs :: (traversal_refusal + string) set) = length ?ds"
    using d len by (simp add: card_image distinct_card)
  then have eq: "Inr ` set ?refs = set ?ds"
    using sub card_length [of ?ds] card_mono [OF finite_set sub] by (intro card_subset_eq) simp_all
  then have "distinct ?ds" using card card_distinct [of ?ds] by simp
  then show ?thesis using d eq by simp
qed

section \<open>Properties\<close>

text \<open>
  C25. A capability survives its codec: what \<open>encode_traversal_capability\<close> writes for a descriptor is
  decoded with the same key to that descriptor at every instant of its lifetime, provided the hexadecimal
  codec is invertible, tags have 32 bytes, the decoder \<open>serde\<close> derives reads back what was printed and the
  text is within the limit.
\<close>

theorem capability_roundtrip:
  assumes "lawful_crates cr" and "encode_traversal_capability cr key d = Inr bs"
    and "\<And>c. cap_domain c = TRAVERSAL_CAPABILITY_DOMAIN \<Longrightarrow> cap_descriptor c = d
           \<Longrightarrow> canonical cr (capability_json c) = Inr bs \<Longrightarrow> from_slice bs = Some c"
    and "length bs \<le> TRAVERSAL_BLOCK_MAX_BYTES"
    and "td_issued_at_ms d \<le> now" and "now < td_expires_at_ms d"
  shows "decode_traversal_capability cr from_slice key bs now = Inr d"
proof -
  obtain message where message: "canonical_bytes cr d = Inr message"
    using assms(2) unfolding encode_traversal_capability_def res_bind_eq_Inr by blast
  define c where "c = \<lparr>cap_domain = TRAVERSAL_CAPABILITY_DOMAIN, cap_descriptor = d,
    cap_mac = hex_encode cr (mac_tag cr key CAPABILITY_MAC_DOMAIN message)\<rparr>"
  have c: "cap_domain c = TRAVERSAL_CAPABILITY_DOMAIN" "cap_descriptor c = d"
      "cap_mac c = hex_encode cr (mac_tag cr key CAPABILITY_MAC_DOMAIN message)"
    by (simp_all add: c_def)
  have bs: "canonical cr (capability_json c) = Inr bs"
    using assms(2)
    unfolding encode_traversal_capability_def message res_bind_simps Let_def c_def [symmetric] res_bind_eq_Inr
    by blast
  have "validate_at cr d now = Inr ()"
    using message assms(5,6) by (auto simp: canonical_bytes_def validate_at_Inr res_simps)
  then show ?thesis
    using assms(3) [OF c(1,2) bs] assms(4) bs message verify_mac_own_tag [OF assms(1)]
    by (simp add: decode_traversal_capability_def c)
qed

text \<open>
  C26. Signing and verifying a receipt agree: a receipt that \<open>sign_traversal_receipt\<close> accepts is verified
  with the same key under every descriptor its transcript is in scope of, and signing changes nothing but
  the MAC.
\<close>

theorem receipt_sign_verify:
  assumes "lawful_crates cr" and "sign_traversal_receipt cr key r = (Inr (), r')"
    and "transcript_validate_scope cr (tr_transcript r) d now = Inr ()"
  shows "verify_traversal_receipt cr key r' d now = Inr () \<and> r'\<lparr>tr_mac := tr_mac r\<rparr> = r"
proof -
  obtain domain message where d: "receipt_domain cr r = Inr domain" "traversal_receipt_message cr r = Inr message"
  proof (cases "receipt_domain cr r")
    case (Inr domain)
    then show thesis
      using assms(2) that by (cases "traversal_receipt_message cr r") (auto simp: sign_traversal_receipt_def)
  qed (use assms(2) in \<open>simp add: sign_traversal_receipt_def\<close>)
  have sgn: "r' = r\<lparr>tr_mac := hex_encode cr (mac_tag cr key domain message)\<rparr>"
    and size: "bounded cr (receipt_json r') TRAVERSAL_BLOCK_MAX_BYTES = Inr ()"
    using assms(2) by (auto simp: sign_traversal_receipt_def d Let_def)
  have "receipt_domain cr r' = Inr domain" "traversal_receipt_message cr r' = Inr message"
    "tr_transcript r' = tr_transcript r" "tr_mac r' = hex_encode cr (mac_tag cr key domain message)"
    using d by (simp_all add: sgn receipt_unsigned)
  then show ?thesis
    using size assms(3) verify_mac_own_tag [OF assms(1)]
    by (simp add: verify_traversal_receipt_def) (simp add: sgn)
qed

text \<open>
  C27. Proofs and phases of an accepted result block match one to one: no two proofs share a digest, no
  two phases refer to the same proof, and every proof is the one of a phase that repeats the claims of its
  transcript.
\<close>

theorem block_proofs_all_used:
  assumes "block_validate cr n = Inr ()"
  shows "distinct (map (proof_binding_digest cr) (nt_proofs n))
    \<and> distinct (List.map_filter tf_proof_digest (nt_phases n))
    \<and> (\<forall>q \<in> set (nt_proofs n). \<exists>p \<in> set (nt_phases n). \<exists>reference. tf_proof_digest p = Some reference
         \<and> proof_binding_digest cr q = Inr reference \<and> phase_matches p (proof_transcript q))"
proof (intro conjI ballI)
  fix q
  assume q: "q \<in> set (nt_proofs n)"
  note digests = block_digests [OF assms]
  have "Inr ` set (List.map_filter tf_proof_digest (nt_phases n)) = proof_binding_digest cr ` set (nt_proofs n)"
    using digests by blast
  then have "proof_binding_digest cr q \<in> Inr ` set (List.map_filter tf_proof_digest (nt_phases n))"
    using q by blast
  then obtain p reference where p: "p \<in> set (nt_phases n)" "tf_proof_digest p = Some reference"
      "proof_binding_digest cr q = Inr reference"
    by (auto simp: in_set_map_filter)
  obtain q' where q': "q' \<in> set (nt_proofs n)" "proof_binding_digest cr q' = Inr reference"
      "phase_matches p (proof_transcript q')"
    using phase_proved_by [OF block_phases_proved [OF assms p(1)] p(2)] by blast
  then have "q' = q"
    using digests p(3) q by (auto simp: distinct_map inj_on_def)
  then show "\<exists>p \<in> set (nt_phases n). \<exists>reference. tf_proof_digest p = Some reference
         \<and> proof_binding_digest cr q = Inr reference \<and> phase_matches p (proof_transcript q)"
    using p q' by blast
qed (use block_digests [OF assms] in blast)+

section \<open>Witnesses\<close>

lemma evidence_lawful: "lawful_crates evidence_crates"
  by (simp add: lawful_crates_def evidence_crates_fields hex_bytes_hex_text hex_text_lower)

text \<open>A printer that writes the MAC of a capability, and the decoder that reads it back.\<close>

definition mac_printer :: "json \<Rightarrow> bytes option" where
  "mac_printer v = (case json_get v ''mac'' of Some (JStr m) \<Rightarrow> Some (as_bytes m) | _ \<Rightarrow> Some [7])"

definition printing_crates :: crates where
  "printing_crates = evidence_crates\<lparr>json_to_vec := mac_printer\<rparr>"

definition sample_from_slice :: "bytes \<Rightarrow> traversal_capability option" where
  "sample_from_slice bs = Some \<lparr>cap_domain = TRAVERSAL_CAPABILITY_DOMAIN,
     cap_descriptor = sample_mapping_descriptor, cap_mac = map (\<lambda>b. char_of (unat b)) bs\<rparr>"

lemma printing_facts:
  "lawful_crates printing_crates" "hex_encode printing_crates = hex_text"
  "json_to_vec printing_crates = mac_printer" "hmac_sha256 printing_crates k m = replicate 32 0"
  using evidence_lawful by (simp_all add: lawful_crates_def printing_crates_def evidence_crates_fields)

lemma printing_capability:
  "canonical printing_crates (capability_json c) = Inr (as_bytes (cap_mac c))"
  "json_to_vec printing_crates (capability_json c) = Some (as_bytes (cap_mac c))"
  "json_to_vec printing_crates (descriptor_json d) = Some [7]"
  by (simp_all add: canonical_def canonical_json_bytes_def printing_facts capability_json_def btree_collect_def
      mac_printer_def json_get_def descriptor_json_def)

definition sample_capability_bytes :: bytes where
  "sample_capability_bytes = as_bytes (hex_text (replicate 32 0))"

lemma length_sample_capability: "length sample_capability_bytes = 64"
  using hex_text_lower [of "replicate 32 0"]
  by (simp add: sample_capability_bytes_def as_bytes_def lower_hex_def)

lemma sample_encoded:
  "encode_traversal_capability printing_crates key sample_mapping_descriptor = Inr sample_capability_bytes"
proof -
  have "bounded printing_crates (descriptor_json sample_mapping_descriptor) TRAVERSAL_BLOCK_MAX_BYTES = Inr ()"
    by (simp add: bounded_def printing_capability TRAVERSAL_BLOCK_MAX_BYTES_def)
  then have "descriptor_validate printing_crates sample_mapping_descriptor = Inr ()"
    using sample_mapping_valid by (simp add: descriptor_validate_Inr)
  moreover have "\<exists>message. canonical printing_crates (descriptor_json sample_mapping_descriptor) = Inr message"
    by (auto simp: canonical_def canonical_json_bytes_def printing_facts mac_printer_def
        split: option.splits json.splits)
  ultimately obtain message where message: "canonical_bytes printing_crates sample_mapping_descriptor = Inr message"
    by (auto simp: canonical_bytes_def)
  have mac: "hex_encode printing_crates (mac_tag printing_crates key CAPABILITY_MAC_DOMAIN message)
      = hex_text (replicate 32 0)"
    by (simp add: mac_tag_def printing_facts(2,4))
  show ?thesis
    using length_sample_capability
    unfolding encode_traversal_capability_def message res_bind_simps Let_def mac bounded_def printing_capability
      sample_capability_bytes_def
    by (simp add: TRAVERSAL_BLOCK_MAX_BYTES_def)
qed

lemma sample_decoder:
  "cap_domain c = TRAVERSAL_CAPABILITY_DOMAIN \<Longrightarrow> cap_descriptor c = sample_mapping_descriptor
     \<Longrightarrow> sample_from_slice (as_bytes (cap_mac c)) = Some (c :: traversal_capability)"
  by (simp add: sample_from_slice_def as_bytes_inverse)

theorem capability_roundtrip_witness:
  "encode_traversal_capability printing_crates [1] sample_mapping_descriptor = Inr sample_capability_bytes
   \<and> decode_traversal_capability printing_crates sample_from_slice [1] sample_capability_bytes 2000
       = Inr sample_mapping_descriptor"
proof
  show "encode_traversal_capability printing_crates [1] sample_mapping_descriptor = Inr sample_capability_bytes"
    by (rule sample_encoded)
  show "decode_traversal_capability printing_crates sample_from_slice [1] sample_capability_bytes 2000
       = Inr sample_mapping_descriptor"
  proof (rule capability_roundtrip [OF printing_facts(1) sample_encoded])
    fix c :: traversal_capability
    assume "cap_domain c = TRAVERSAL_CAPABILITY_DOMAIN" "cap_descriptor c = sample_mapping_descriptor"
      "canonical printing_crates (capability_json c) = Inr sample_capability_bytes"
    then show "sample_from_slice sample_capability_bytes = Some c"
      using sample_decoder [of c] by (simp only: printing_capability sum.inject)
  qed (simp_all add: length_sample_capability TRAVERSAL_BLOCK_MAX_BYTES_def sample_mapping_descriptor_def)
qed

definition sample_path_transcript :: traversal_transcript where
  "sample_path_transcript = sample_router_transcript
     \<lparr>tt_domain := TRAVERSAL_EXTERNAL_PATH_DOMAIN, tt_authority := ExternalPath,
      tt_stage := StageMappingVerify, tt_transport := TransportUdp, tt_granted_lease_sec := None\<rparr>"

definition sample_signature :: string where "sample_signature = ''0x'' @ replicate 128 (CHR ''a'')"

definition sample_receipt :: traversal_receipt where
  "sample_receipt = \<lparr>tr_version = 1, tr_transcript = sample_path_transcript,
     tr_device_signature = sample_signature, tr_mac = []\<rparr>"

definition sample_block :: network_traversal where
  "sample_block = \<lparr>nt_version = 1, nt_descriptor_digest = sample_evidence_digest,
     nt_run_id = replicate 32 (CHR ''a''), nt_mode = ModeMapping, nt_started_at_ms = 1500, nt_duration_ms = 100,
     nt_phases = [\<lparr>tf_stage = StageMappingCreate, tf_method = MethodPcp, tf_transport = TransportRouterControl,
       tf_family = FamilyV4, tf_authority = DeviceReportedRouter, tf_outcome = OutcomeSucceeded,
       tf_elapsed_ms = 5, tf_granted_lease_sec = Some 60, tf_cleanup = None, tf_protocol_error = None,
       tf_error_class = None, tf_proof_digest = Some sample_evidence_digest\<rparr>],
     nt_proofs = [DeviceSignature sample_router_transcript sample_signature]\<rparr>"

lemma sample_signature_ok: "prefixed_hex sample_signature 64"
  using sample_hex_text(1) [of 64] by (simp add: sample_signature_def prefixed_hex_def)

lemma sample_path_valid: "transcript_validate evidence_crates sample_path_transcript = Inr ()"
  using sample_hex_text [of 16] sample_hex_text [of 32] sample_evidence_digest(1)
  by (simp add: transcript_validate_Inr transcript_checks evidence_bounded sample_first_transcript_def
      sample_path_transcript_def sample_router_transcript_def SAFE_INTEGER_def TRAVERSAL_EXPERIMENT_MAX_MS_def)

lemma sample_path_scope:
  "transcript_validate_scope evidence_crates sample_path_transcript sample_mapping_descriptor 2000 = Inr ()"
  using sample_scopes(3) sample_path_valid unfolding transcript_validate_scope_Inr
  by (simp add: sample_path_transcript_def sample_router_transcript_def)

lemma sample_signed:
  "sign_traversal_receipt evidence_crates [1] sample_receipt
     = (Inr (), sample_receipt\<lparr>tr_mac := hex_text (replicate 32 0)\<rparr>)"
proof -
  have domain: "receipt_domain evidence_crates sample_receipt = Inr PATH_RECEIPT_MAC_DOMAIN"
    using sample_path_valid sample_signature_ok
    by (simp add: receipt_domain_def sample_receipt_def) (simp add: sample_path_transcript_def)
  then show ?thesis
    by (simp add: sign_traversal_receipt_def traversal_receipt_message_def evidence_canonical evidence_bounded
        mac_tag_def evidence_crates_fields Let_def)
qed

theorem receipt_sign_verify_witness:
  "sign_traversal_receipt evidence_crates [1] sample_receipt
     = (Inr (), sample_receipt\<lparr>tr_mac := hex_text (replicate 32 0)\<rparr>)
   \<and> verify_traversal_receipt evidence_crates [1] (sample_receipt\<lparr>tr_mac := hex_text (replicate 32 0)\<rparr>)
       sample_mapping_descriptor 2000 = Inr ()"
proof -
  have "transcript_validate_scope evidence_crates (tr_transcript sample_receipt) sample_mapping_descriptor 2000 = Inr ()"
    using sample_path_scope by (simp add: sample_receipt_def)
  then show ?thesis
    using receipt_sign_verify [OF evidence_lawful sample_signed] sample_signed by blast
qed

lemma sample_block_valid: "block_validate evidence_crates sample_block = Inr ()"
proof -
  have digest: "proof_binding_digest evidence_crates q = Inr sample_evidence_digest" for q
    by (simp add: proof_binding_digest_def evidence_canonical sample_evidence_digest(2))
  have "block_proofs_loop evidence_crates sample_block (nt_proofs sample_block) = Inr ()"
    using sample_transcripts_valid(3) sample_signature_ok
    by (simp add: sample_block_def proof_validate_def) (simp add: sample_router_transcript_def sample_first_transcript_def)
  moreover have "block_phases_loop evidence_crates sample_block [] (nt_phases sample_block) = Inr [sample_evidence_digest]"
    using sample_evidence_digest(1)
    by (simp add: sample_block_def block_phase_step_def digest router_method_def stage_refused_def phase_matches_def
        sample_router_transcript_def sample_first_transcript_def)
  moreover have "block_binding_ok sample_block"
    using sample_evidence_digest(1) sample_hex_text(1) [of 16]
    by (simp add: block_binding_ok_def sample_block_def SAFE_INTEGER_def TRAVERSAL_EXPERIMENT_MAX_MS_def
        checked_add_u64_def u64_max_def)
  ultimately show ?thesis
    by (simp add: block_validate_def evidence_bounded) (simp add: sample_block_def)
qed

theorem block_proofs_all_used_witness:
  "block_validate evidence_crates sample_block = Inr ()
   \<and> DeviceSignature sample_router_transcript sample_signature \<in> set (nt_proofs sample_block)
   \<and> (\<exists>p \<in> set (nt_phases sample_block). phase_matches p sample_router_transcript)"
proof -
  have "DeviceSignature sample_router_transcript sample_signature \<in> set (nt_proofs sample_block)"
    by (simp add: sample_block_def)
  then show ?thesis
    using block_proofs_all_used [OF sample_block_valid] sample_block_valid by fastforce
qed

end
