(* ===== verification/Gateway.thy ===== *)
theory Gateway
  imports Descriptor
begin

text \<open>
  Discovery of the local gateway and bounded exchanges with it (\<open>src/network_traversal/gateway.rs\<close>):
  the two route sources with their parsers, the selection of one default gateway, and the two ways to
  hand a request to a router. File, netlink socket and cancellation are operations of the record
  \<open>route_sources\<close>; the router transport is a function argument on an arbitrary state. Numbers in
  netlink messages are in the byte order of the released targets, little endian.
\<close>

section \<open>Bytes and text of the standard library\<close>

definition le_nat :: "bytes \<Rightarrow> nat" where
  "le_nat bs = foldr (\<lambda>b acc. unat b + 256 * acc) bs 0"

fun le_bytes :: "nat \<Rightarrow> nat \<Rightarrow> bytes" where
  "le_bytes 0 v = []"
| "le_bytes (Suc n) v = of_nat (v mod 256) # le_bytes n (v div 256)"

text \<open>\<open>std::str::from_utf8\<close>, on the numeric values of the bytes.\<close>

definition cont :: "nat \<Rightarrow> bool" where "cont b \<longleftrightarrow> 128 \<le> b \<and> b \<le> 191"

fun utf8_valid :: "nat list \<Rightarrow> bool" where
  "utf8_valid [] = True"
| "utf8_valid (a # r) =
    (if a < 128 then utf8_valid r
     else if 194 \<le> a \<and> a \<le> 223 then (case r of b # q \<Rightarrow> cont b \<and> utf8_valid q | _ \<Rightarrow> False)
     else if 224 \<le> a \<and> a \<le> 239
     then (case r of b # c # q \<Rightarrow> cont b \<and> cont c \<and> (a = 224 \<longrightarrow> 160 \<le> b) \<and> (a = 237 \<longrightarrow> b \<le> 159) \<and> utf8_valid q
           | _ \<Rightarrow> False)
     else if 240 \<le> a \<and> a \<le> 244
     then (case r of b # c # d # q \<Rightarrow> cont b \<and> cont c \<and> cont d \<and> (a = 240 \<longrightarrow> 144 \<le> b) \<and> (a = 244 \<longrightarrow> b \<le> 143)
             \<and> utf8_valid q
           | _ \<Rightarrow> False)
     else False)"

definition from_utf8 :: "bytes \<Rightarrow> string option" where
  "from_utf8 bs = (if utf8_valid (map unat bs) then Some (map (\<lambda>b. char_of (unat b)) bs) else None)"

fun bytes_less :: "bytes \<Rightarrow> bytes \<Rightarrow> bool" where
  "bytes_less [] [] = False"
| "bytes_less [] (_ # _) = True"
| "bytes_less (_ # _) [] = False"
| "bytes_less (a # x) (b # y) = (a < b \<or> a = b \<and> bytes_less x y)"

definition leading_ones :: "u32 \<Rightarrow> nat" where
  "leading_ones w = length (takeWhile (bit w) (rev [0..<32]))"

section \<open>Routes\<close>

definition ROUTE_TABLE_MAX_BYTES :: nat where "ROUTE_TABLE_MAX_BYTES = 16 * 1024"
definition ROUTE_TABLE_MAX_RECORDS :: nat where "ROUTE_TABLE_MAX_RECORDS = 128"
definition CONTROL_MAX_BYTES :: nat where "CONTROL_MAX_BYTES = 1100"
definition CONTROL_LOCATION_MAX_BYTES :: nat where "CONTROL_LOCATION_MAX_BYTES = 512"
definition ROUTER_CONTROL_PORT :: nat where "ROUTER_CONTROL_PORT = 5351"
definition UPNP_SOAP_MAX_BYTES :: nat where "UPNP_SOAP_MAX_BYTES = 4096"
definition INTERFACE_NAME_MAX :: nat where "INTERFACE_NAME_MAX = 15"
definition RTF_GATEWAY :: u32 where "RTF_GATEWAY = 2"
definition NETLINK_RECV_BYTES :: nat where "NETLINK_RECV_BYTES = 8192"

record route_record =
  rr_destination :: ipv4
  rr_prefix_len :: nat
  rr_gateway :: ipv4
  rr_has_gateway :: bool
  rr_interface_index :: nat
  rr_interface_name :: bytes
  rr_interface_name_len :: nat
  rr_metric :: nat

definition route_new :: "ipv4 \<Rightarrow> nat \<Rightarrow> ipv4 \<Rightarrow> bool \<Rightarrow> nat \<Rightarrow> route_record" where
  "route_new destination prefix_len gateway has_gateway metric =
     \<lparr>rr_destination = destination, rr_prefix_len = prefix_len, rr_gateway = gateway,
      rr_has_gateway = has_gateway, rr_interface_index = 0,
      rr_interface_name = replicate INTERFACE_NAME_MAX 0, rr_interface_name_len = 0, rr_metric = metric\<rparr>"

definition route_interface_name :: "route_record \<Rightarrow> bytes" where
  "route_interface_name r = take (rr_interface_name_len r) (rr_interface_name r)"

record selected_gateway =
  sg_gateway :: ipv4
  sg_interface_index :: nat
  sg_interface_name :: bytes
  sg_interface_name_len :: nat

definition selected_interface_name :: "selected_gateway \<Rightarrow> string option" where
  "selected_interface_name g =
     (let name = take (sg_interface_name_len g) (sg_interface_name g)
      in if name = [] then None else from_utf8 name)"

definition from_record :: "route_record \<Rightarrow> selected_gateway" where
  "from_record r =
     \<lparr>sg_gateway = rr_gateway r, sg_interface_index = rr_interface_index r,
      sg_interface_name = rr_interface_name r, sg_interface_name_len = rr_interface_name_len r\<rparr>"

datatype route_read_error = RouteUnavailable | RouteBounded | RouteCancelled | RouteMalformed

datatype gateway_discovery =
    Selected selected_gateway
  | Unsupported
  | InvalidGateway
  | DiscoveryCancelled
  | DiscoveryBounded

datatype control_refusal =
    ControlUnsupported
  | ControlWrongTarget
  | ControlOversize
  | ControlCancelled
  | ControlBounded

section \<open>Selection\<close>

definition acceptable_gateway :: "ipv4 \<Rightarrow> bool" where
  "acceptable_gateway g \<longleftrightarrow>
     \<not> (is_unspecified g \<or> is_broadcast g \<or> is_multicast g \<or> is_loopback g) \<and> octet0 g < 240"

definition interface_before :: "route_record \<Rightarrow> route_record \<Rightarrow> bool" where
  "interface_before a b \<longleftrightarrow>
     rr_interface_index a < rr_interface_index b
     \<or> rr_interface_index a = rr_interface_index b
       \<and> bytes_less (route_interface_name a) (route_interface_name b)"

definition default_route :: "route_record \<Rightarrow> bool" where
  "default_route r \<longleftrightarrow> \<not> (rr_destination r \<noteq> ipv4_unspecified \<or> rr_prefix_len r \<noteq> 0 \<or> \<not> rr_has_gateway r)"

text \<open>The loop of \<open>select_gateway\<close>: the best route so far, an invalid one seen, a tie between gateways.\<close>

type_synonym selection = "route_record option \<times> bool \<times> bool"

definition select_step :: "route_record \<Rightarrow> selection \<Rightarrow> selection" where
  "select_step route = (\<lambda>(best, saw_invalid, ambiguous).
     if \<not> default_route route then (best, saw_invalid, ambiguous)
     else if \<not> acceptable_gateway (rr_gateway route) then (best, True, ambiguous)
     else (case best of
        None \<Rightarrow> (Some route, saw_invalid, ambiguous)
      | Some current \<Rightarrow>
          if rr_metric route < rr_metric current then (Some route, saw_invalid, False)
          else if rr_metric route = rr_metric current \<and> rr_gateway route \<noteq> rr_gateway current
          then (best, saw_invalid, True)
          else if rr_metric route = rr_metric current \<and> rr_gateway route = rr_gateway current
             \<and> interface_before route current
          then (Some route, saw_invalid, ambiguous)
          else (best, saw_invalid, ambiguous)))"

definition select_gateway :: "route_record list \<Rightarrow> gateway_discovery" where
  "select_gateway routes =
     (case fold select_step routes (None, False, False) of
        (best, saw_invalid, ambiguous) \<Rightarrow>
          if ambiguous then Unsupported
          else (case best of
             Some route \<Rightarrow> Selected (from_record route)
           | None \<Rightarrow> if saw_invalid then InvalidGateway else Unsupported))"

section \<open>The route file\<close>

definition parse_proc_hex :: "string \<Rightarrow> route_read_error + nat" where
  "parse_proc_hex t = ok_or (from_str_radix u32_max 16 t) RouteMalformed"

definition parse_proc_address :: "string \<Rightarrow> route_read_error + ipv4" where
  "parse_proc_address t =
     guard (length t = 8) RouteMalformed
       (res_bind (parse_proc_hex t) (\<lambda>word.
          let raw = be32 (of_nat word) in Inr (ipv4_new (raw ! 3) (raw ! 2) (raw ! 1) (raw ! 0))))"

definition prefix_len :: "ipv4 \<Rightarrow> nat option" where
  "prefix_len bits =
     (let ones = leading_ones bits;
          expected = (if ones = 0 then 0 else push_bit (32 - ones) (- 1))
      in if bits = expected then Some ones else None)"

definition interface_name_char :: "char \<Rightarrow> bool" where
  "interface_name_char c \<longleftrightarrow>
     is_ascii_alphanumeric c \<or> c = CHR ''.'' \<or> c = CHR ''_'' \<or> c = CHR ''-'' \<or> c = CHR '':''"

definition interface_name_bytes :: "string \<Rightarrow> route_read_error + nat" where
  "interface_name_bytes name =
     (if name = [] \<or> length name > INTERFACE_NAME_MAX \<or> \<not> list_all interface_name_char name
      then Inl RouteMalformed else Inr (length name))"

definition next_field :: "string list \<Rightarrow> route_read_error + (string \<times> string list)" where
  "next_field fs = (case fs of [] \<Rightarrow> Inl RouteMalformed | f # rest \<Rightarrow> Inr (f, rest))"

definition parse_proc_route_line :: "string \<Rightarrow> route_read_error + route_record" where
  "parse_proc_route_line line =
     res_bind (next_field (split_whitespace line)) (\<lambda>(interface, rest).
     res_bind (next_field rest) (\<lambda>(f, rest).
     res_bind (parse_proc_address f) (\<lambda>destination.
     res_bind (next_field rest) (\<lambda>(f, rest).
     res_bind (parse_proc_address f) (\<lambda>gateway.
     res_bind (next_field rest) (\<lambda>(f, rest).
     res_bind (parse_proc_hex f) (\<lambda>flags.
     res_bind (next_field rest) (\<lambda>(_, rest).
     res_bind (next_field rest) (\<lambda>(_, rest).
     res_bind (next_field rest) (\<lambda>(f, rest).
     res_bind (ok_or (from_str_radix u32_max 10 f) RouteMalformed) (\<lambda>metric.
     res_bind (next_field rest) (\<lambda>(f, rest).
     res_bind (parse_proc_address f) (\<lambda>mask.
     res_bind (ok_or (prefix_len mask) RouteMalformed) (\<lambda>prefix.
     res_bind (interface_name_bytes interface) (\<lambda>n.
       Inr ((route_new destination prefix gateway (of_nat flags AND RTF_GATEWAY \<noteq> 0) metric)
              \<lparr>rr_interface_name_len := n,
               rr_interface_name := as_bytes (take n interface)
                  @ drop n (replicate INTERFACE_NAME_MAX 0)\<rparr>))))))))))))))))"

fun parse_route_lines :: "nat \<Rightarrow> route_record list \<Rightarrow> string list \<Rightarrow> route_read_error + route_record list" where
  "parse_route_lines index routes [] = Inr routes"
| "parse_route_lines index routes (line # ls) =
     (if index = 0 \<and> strip_prefix ''Iface'' line \<noteq> None then parse_route_lines (Suc index) routes ls
      else if line = [] then parse_route_lines (Suc index) routes ls
      else if length routes = ROUTE_TABLE_MAX_RECORDS then Inl RouteBounded
      else res_bind (parse_proc_route_line line) (\<lambda>r. parse_route_lines (Suc index) (routes @ [r]) ls))"

definition parse_proc_net_route :: "string \<Rightarrow> route_read_error + route_record list" where
  "parse_proc_net_route t =
     guard (length t \<le> ROUTE_TABLE_MAX_BYTES) RouteBounded (parse_route_lines 0 [] (lines t))"

text \<open>
  The operating system as the module uses it: cancellation, the route file (opened, then read in
  chunks of at most 1024 bytes), and a netlink socket.
\<close>

record 'w route_sources =
  src_cancelled :: "'w \<Rightarrow> bool \<times> 'w"
  src_open :: "'w \<Rightarrow> bool \<times> 'w"
  src_read :: "'w \<Rightarrow> bytes option \<times> 'w"
  src_socket :: "'w \<Rightarrow> bool \<times> 'w"
  src_set_timeout :: "'w \<Rightarrow> bool \<times> 'w"
  src_bind :: "'w \<Rightarrow> bool \<times> 'w"
  src_send :: "'w \<Rightarrow> bytes \<Rightarrow> int \<times> 'w"
  src_recv :: "'w \<Rightarrow> nat \<Rightarrow> int \<times> bytes \<times> 'w"
  src_close :: "'w \<Rightarrow> 'w"

lemma chunk_progress: "c \<noteq> [] \<Longrightarrow> n + length c \<le> m \<Longrightarrow> m - (n + length c) < m - n"
  by (cases c) auto

function read_chunks :: "'w route_sources \<Rightarrow> bytes \<Rightarrow> 'w \<Rightarrow> (route_read_error + bytes) \<times> 'w" where
  "read_chunks src buffer w =
     (let (stop, w1) = src_cancelled src w
      in if stop then (Inl RouteCancelled, w1)
         else (case src_read src w1 of
             (None, w2) \<Rightarrow> (Inl RouteUnavailable, w2)
           | (Some bs, w2) \<Rightarrow>
               let chunk = take 1024 bs
               in if chunk = [] then (Inr buffer, w2)
                  else if length buffer + length chunk > ROUTE_TABLE_MAX_BYTES then (Inl RouteBounded, w2)
                  else read_chunks src (buffer @ chunk) w2))"
  by pat_completeness auto
termination
  by (relation "measure (\<lambda>(src, buffer, w). ROUTE_TABLE_MAX_BYTES - length buffer)")
    (auto simp: not_less intro: chunk_progress simp del: length_take)

definition read_proc_net_route :: "'w route_sources \<Rightarrow> 'w \<Rightarrow> (route_read_error + route_record list) \<times> 'w" where
  "read_proc_net_route src w =
     (let (stop, w1) = src_cancelled src w
      in if stop then (Inl RouteCancelled, w1)
         else let (opened, w2) = src_open src w1
      in if \<not> opened then (Inl RouteUnavailable, w2)
         else let (r, w3) = read_chunks src [] w2
      in (res_bind r (\<lambda>buffer. res_bind (ok_or (from_utf8 buffer) RouteMalformed) parse_proc_net_route), w3))"

section \<open>Netlink\<close>

text \<open>Constants of \<open>libc\<close>.\<close>

definition AF_INET :: byte where "AF_INET = 2"
definition RTM_NEWROUTE :: nat where "RTM_NEWROUTE = 24"
definition RTM_GETROUTE :: nat where "RTM_GETROUTE = 26"
definition NLMSG_ERROR :: nat where "NLMSG_ERROR = 2"
definition NLMSG_DONE :: nat where "NLMSG_DONE = 3"
definition NLM_F_REQUEST :: nat where "NLM_F_REQUEST = 1"
definition NLM_F_DUMP :: nat where "NLM_F_DUMP = 768"
definition RTN_UNICAST :: byte where "RTN_UNICAST = 1"
definition RTA_DST :: nat where "RTA_DST = 1"
definition RTA_OIF :: nat where "RTA_OIF = 4"
definition RTA_GATEWAY :: nat where "RTA_GATEWAY = 5"
definition RTA_PRIORITY :: nat where "RTA_PRIORITY = 6"
definition RTA_TABLE :: nat where "RTA_TABLE = 15"
definition RT_TABLE_COMPAT :: byte where "RT_TABLE_COMPAT = 252"
definition RT_TABLE_MAIN :: nat where "RT_TABLE_MAIN = 254"

text \<open>Lengths come from 16- and 32-bit fields, so the saturation of \<open>align4\<close> is never reached.\<close>

definition align4 :: "nat \<Rightarrow> nat" where
  "align4 v = (v + 3) div 4 * 4"

lemma align4_bounds: "v \<le> align4 v" "align4 v < v + 4" "align4 v mod 4 = 0"
  unfolding align4_def by presburger+

lemma align4_pos [simp]: "0 < v \<Longrightarrow> 0 < align4 v"
  using align4_bounds(1) [of v] by linarith

definition netlink_dump_request :: bytes where
  "netlink_dump_request =
     le_bytes 4 28 @ le_bytes 2 RTM_GETROUTE @ le_bytes 2 (NLM_F_REQUEST + NLM_F_DUMP) @ le_bytes 4 1
     @ replicate 4 0 @ [AF_INET] @ replicate 11 0"

definition message_length :: "bytes \<Rightarrow> nat \<Rightarrow> nat" where
  "message_length bs offset = le_nat (take 4 (drop offset bs))"

definition message_kind :: "bytes \<Rightarrow> nat \<Rightarrow> nat" where
  "message_kind bs offset = le_nat (take 2 (drop (offset + 4) bs))"

function dump_finished_from :: "bytes \<Rightarrow> nat \<Rightarrow> bool" where
  "dump_finished_from bs offset =
     (if offset + 16 \<le> length bs
      then (if message_length bs offset < 16 \<or> offset + message_length bs offset > length bs then False
            else if message_kind bs offset = NLMSG_DONE then True
            else dump_finished_from bs (offset + align4 (message_length bs offset)))
      else False)"
  by pat_completeness auto
termination
  by (relation "measure (\<lambda>(bs, offset). length bs - offset)") (auto intro!: diff_less_mono2 align4_pos)

declare dump_finished_from.simps [simp del]

definition netlink_dump_finished :: "bytes \<Rightarrow> bool" where
  "netlink_dump_finished bs = dump_finished_from bs 0"

text \<open>The variables of the attribute loop of \<open>parse_route_message\<close>.\<close>

record route_attributes =
  at_destination :: ipv4
  at_gateway :: ipv4
  at_has_gateway :: bool
  at_interface_index :: nat
  at_metric :: nat
  at_table :: "nat option"

definition apply_attribute :: "nat \<Rightarrow> bytes \<Rightarrow> route_attributes \<Rightarrow> route_attributes" where
  "apply_attribute attr_type data a =
     (if attr_type = RTA_DST \<and> length data = 4
      then a\<lparr>at_destination := ipv4_new (data ! 0) (data ! 1) (data ! 2) (data ! 3)\<rparr>
      else if attr_type = RTA_GATEWAY \<and> length data = 4
      then a\<lparr>at_gateway := ipv4_new (data ! 0) (data ! 1) (data ! 2) (data ! 3), at_has_gateway := True\<rparr>
      else if attr_type = RTA_OIF \<and> length data = 4 then a\<lparr>at_interface_index := le_nat data\<rparr>
      else if attr_type = RTA_PRIORITY \<and> length data = 4 then a\<lparr>at_metric := le_nat data\<rparr>
      else if attr_type = RTA_TABLE \<and> length data = 4 then a\<lparr>at_table := Some (le_nat data)\<rparr>
      else a)"

function parse_attributes :: "bytes \<Rightarrow> nat \<Rightarrow> route_attributes \<Rightarrow> route_attributes option" where
  "parse_attributes body cursor a =
     (if cursor + 4 \<le> length body
      then let attr_len = le_nat (take 2 (drop cursor body));
               attr_type = le_nat (take 2 (drop (cursor + 2) body))
           in if attr_len < 4 \<or> cursor + attr_len > length body then None
              else parse_attributes body (cursor + align4 attr_len)
                (apply_attribute attr_type (take (attr_len - 4) (drop (cursor + 4) body)) a)
      else Some a)"
  by pat_completeness auto
termination
  by (relation "measure (\<lambda>(body, cursor, a). length body - cursor)") (auto intro!: diff_less_mono2 align4_pos)

declare parse_attributes.simps [simp del]

definition parse_route_message :: "bytes \<Rightarrow> route_record option" where
  "parse_route_message body =
     (if length body < 12 \<or> body ! 0 \<noteq> AF_INET then None
      else let prefix = unat (body ! 1)
      in if prefix > 32 then None
      else if body ! 7 \<noteq> RTN_UNICAST then None
      else (case parse_attributes body (align4 12)
               \<lparr>at_destination = ipv4_unspecified, at_gateway = ipv4_unspecified, at_has_gateway = False,
                at_interface_index = 0, at_metric = 0, at_table = None\<rparr> of
          None \<Rightarrow> None
        | Some a \<Rightarrow>
            (case (if body ! 4 = RT_TABLE_COMPAT then at_table a else Some (unat (body ! 4))) of
               None \<Rightarrow> None
             | Some table \<Rightarrow>
                 if table \<noteq> RT_TABLE_MAIN then None
                 else Some \<lparr>rr_destination = (if prefix = 0 then ipv4_unspecified else at_destination a),
                        rr_prefix_len = prefix, rr_gateway = at_gateway a,
                        rr_has_gateway = at_has_gateway a, rr_interface_index = at_interface_index a,
                        rr_interface_name = replicate INTERFACE_NAME_MAX 0, rr_interface_name_len = 0,
                        rr_metric = at_metric a\<rparr>)))"

function parse_dump_from ::
  "bytes \<Rightarrow> nat \<Rightarrow> route_record list \<Rightarrow> route_read_error + route_record list" where
  "parse_dump_from bs offset routes =
     (if offset + 16 \<le> length bs
      then let length' = message_length bs offset; kind = message_kind bs offset
           in if length' < 16 \<or> offset + length' > length bs then Inl RouteMalformed
              else if kind = NLMSG_DONE then Inr routes
              else if kind = NLMSG_ERROR then Inl RouteUnavailable
              else if kind = RTM_NEWROUTE \<and> length routes = ROUTE_TABLE_MAX_RECORDS then Inl RouteBounded
              else parse_dump_from bs (offset + align4 length')
                (if kind = RTM_NEWROUTE
                 then (case parse_route_message (take (length' - 16) (drop (offset + 16) bs)) of
                         None \<Rightarrow> routes | Some r \<Rightarrow> routes @ [r])
                 else routes)
      else Inl RouteMalformed)"
  by pat_completeness auto
termination
  by (relation "measure (\<lambda>(bs, offset, routes). length bs - offset)") (auto intro!: diff_less_mono2 align4_pos)

declare parse_dump_from.simps [simp del]

definition parse_netlink_route_dump :: "bytes \<Rightarrow> route_read_error + route_record list" where
  "parse_netlink_route_dump bs =
     guard (length bs \<le> ROUTE_TABLE_MAX_BYTES) RouteBounded (parse_dump_from bs 0 [])"

text \<open>The eight receives of \<open>dump_netlink\<close> and the decision after the last one.\<close>

definition dump_end :: "bytes \<Rightarrow> route_read_error + bytes" where
  "dump_end accumulated =
     (if netlink_dump_finished accumulated then Inr accumulated
      else if accumulated = [] then Inl RouteUnavailable else Inl RouteBounded)"

fun dump_receive :: "'w route_sources \<Rightarrow> nat \<Rightarrow> bytes \<Rightarrow> 'w \<Rightarrow> (route_read_error + bytes) \<times> 'w" where
  "dump_receive src 0 accumulated w = (dump_end accumulated, w)"
| "dump_receive src (Suc n) accumulated w =
     (let (stop, w1) = src_cancelled src w
      in if stop then (Inl RouteCancelled, w1)
         else let (received, bs, w2) = src_recv src w1 NETLINK_RECV_BYTES;
                  buffer = fill_buffer NETLINK_RECV_BYTES bs
      in if received < 0 then (Inl RouteUnavailable, w2)
         else if received = 0 then (dump_end accumulated, w2)
         else if nat received > NETLINK_RECV_BYTES then (Inl RouteMalformed, w2)
         else if length accumulated + nat received > ROUTE_TABLE_MAX_BYTES then (Inl RouteBounded, w2)
         else let accumulated' = accumulated @ take (nat received) buffer
      in if netlink_dump_finished accumulated' then (Inr accumulated', w2)
         else dump_receive src n accumulated' w2)"

definition dump_netlink :: "'w route_sources \<Rightarrow> 'w \<Rightarrow> (route_read_error + bytes) \<times> 'w" where
  "dump_netlink src w =
     (let (stop, w) = src_cancelled src w
      in if stop then (Inl RouteCancelled, w)
         else let (opened, w) = src_socket src w
      in if \<not> opened then (Inl RouteUnavailable, w)
         else let (set_ok, w) = src_set_timeout src w
      in if \<not> set_ok then (Inl RouteUnavailable, src_close src w)
         else let (bound, w) = src_bind src w
      in if \<not> bound then (Inl RouteUnavailable, src_close src w)
         else let (sent, w) = src_send src w netlink_dump_request
      in if sent < 0 \<or> nat sent \<noteq> length netlink_dump_request then (Inl RouteUnavailable, src_close src w)
         else let (r, w) = dump_receive src 8 [] w in (r, src_close src w))"

definition read_netlink_routes :: "'w route_sources \<Rightarrow> 'w \<Rightarrow> (route_read_error + route_record list) \<times> 'w" where
  "read_netlink_routes src w =
     (let (stop, w1) = src_cancelled src w
      in if stop then (Inl RouteCancelled, w1)
         else let (r, w2) = dump_netlink src w1 in (res_bind r parse_netlink_route_dump, w2))"

section \<open>Discovery\<close>

definition discover_loaded :: "route_record list \<Rightarrow> ('w \<Rightarrow> bool \<times> 'w) \<Rightarrow> 'w \<Rightarrow> gateway_discovery \<times> 'w" where
  "discover_loaded routes cancelled w =
     (let (stop, w1) = cancelled w
      in if stop then (DiscoveryCancelled, w1)
         else if length routes > ROUTE_TABLE_MAX_RECORDS then (DiscoveryBounded, w1)
         else (select_gateway routes, w1))"

fun discover_outcome ::
  "route_read_error + route_record list \<Rightarrow> ('w \<Rightarrow> bool \<times> 'w) \<Rightarrow> 'w \<Rightarrow> gateway_discovery \<times> 'w" where
  "discover_outcome (Inr routes) cancelled w = discover_loaded routes cancelled w"
| "discover_outcome (Inl RouteUnavailable) cancelled w = (Unsupported, w)"
| "discover_outcome (Inl RouteMalformed) cancelled w = (Unsupported, w)"
| "discover_outcome (Inl RouteBounded) cancelled w = (DiscoveryBounded, w)"
| "discover_outcome (Inl RouteCancelled) cancelled w = (DiscoveryCancelled, w)"

definition discover_with_sources ::
  "route_read_error + route_record list \<Rightarrow> ('w \<Rightarrow> (route_read_error + route_record list) \<times> 'w)
     \<Rightarrow> ('w \<Rightarrow> bool \<times> 'w) \<Rightarrow> 'w \<Rightarrow> gateway_discovery \<times> 'w" where
  "discover_with_sources proc_routes netlink cancelled w =
     (let (stop, w1) = cancelled w
      in if stop then (DiscoveryCancelled, w1)
         else (case proc_routes of
            Inr routes \<Rightarrow> discover_outcome (Inr routes) cancelled w1
          | Inl RouteBounded \<Rightarrow> (DiscoveryBounded, w1)
          | Inl RouteCancelled \<Rightarrow> (DiscoveryCancelled, w1)
          | Inl _ \<Rightarrow>
              let (stop2, w2) = cancelled w1
              in if stop2 then (DiscoveryCancelled, w2)
                 else let (loaded, w3) = netlink w2 in discover_outcome loaded cancelled w3))"

definition discover_at_path :: "'w route_sources \<Rightarrow> 'w \<Rightarrow> gateway_discovery \<times> 'w" where
  "discover_at_path src w =
     (let (stop, w1) = src_cancelled src w
      in if stop then (DiscoveryCancelled, w1)
         else let (proc_routes, w2) = read_proc_net_route src w1
      in discover_with_sources proc_routes (read_netlink_routes src) (src_cancelled src) w2)"

section \<open>Exchanges with the router\<close>

type_synonym socket_addr = "ipv4 \<times> nat"

text \<open>
  A \<open>ControlTransport\<close> on a state \<open>'s\<close>: destination, request and the size of the response buffer to the
  number of bytes it reports and what it wrote into the buffer. \<open>cancelled\<close> is a closure that may answer
  differently each time.
\<close>

type_synonym 's transport = "'s \<Rightarrow> socket_addr \<Rightarrow> bytes \<Rightarrow> nat \<Rightarrow> (control_refusal + nat) \<times> bytes \<times> 's"
type_synonym 's canceller = "'s \<Rightarrow> bool \<times> 's"

definition upnp_location :: "crates \<Rightarrow> selected_gateway \<Rightarrow> string \<Rightarrow> control_refusal + socket_addr" where
  "upnp_location cr gateway location =
     guard (length location \<le> CONTROL_LOCATION_MAX_BYTES) ControlOversize
       (res_bind (ok_or (url_parse cr location) ControlWrongTarget) (\<lambda>u.
          guard (url_scheme u = ''http'' \<and> url_username u = [] \<and> url_password u = None) ControlWrongTarget
            (guard (url_host_ipv4 u = Some (sg_gateway gateway)) ControlWrongTarget
              (let port = (case url_port_or_default u of None \<Rightarrow> 0 | Some p \<Rightarrow> p)
               in guard (port \<noteq> 0) ControlWrongTarget (Inr (sg_gateway gateway, port))))))"

fun control_destination ::
  "crates \<Rightarrow> selected_gateway \<Rightarrow> router_protocol \<Rightarrow> string option \<Rightarrow> control_refusal + socket_addr" where
  "control_destination cr gateway RouterUpnpIgd location =
     res_bind (ok_or location ControlWrongTarget) (upnp_location cr gateway)"
| "control_destination cr gateway _ location =
     guard (location = None) ControlWrongTarget (Inr (sg_gateway gateway, ROUTER_CONTROL_PORT))"

definition exchange_with_gateway ::
  "crates \<Rightarrow> selected_gateway \<Rightarrow> router_protocol \<Rightarrow> string option \<Rightarrow> bytes \<Rightarrow> 's transport \<Rightarrow> 's canceller
     \<Rightarrow> 's \<Rightarrow> (control_refusal + bytes) \<times> 's" where
  "exchange_with_gateway cr gateway protocol location request transport cancelled s =
     (let (stop, s1) = cancelled s
      in if stop then (Inl ControlCancelled, s1)
         else if request = [] then (Inl ControlUnsupported, s1)
         else if length request > CONTROL_MAX_BYTES then (Inl ControlOversize, s1)
         else (case control_destination cr gateway protocol location of
            Inl e \<Rightarrow> (Inl e, s1)
          | Inr destination \<Rightarrow>
              (case transport s1 destination request CONTROL_MAX_BYTES of
                 (Inl e, _, s2) \<Rightarrow> (Inl e, s2)
               | (Inr received, written, s2) \<Rightarrow>
                   let (stop2, s3) = cancelled s2
                   in if stop2 then (Inl ControlCancelled, s3)
                      else if received > CONTROL_MAX_BYTES then (Inl ControlBounded, s3)
                      else (Inr (take received (fill_buffer CONTROL_MAX_BYTES written)), s3))))"

datatype upnp_soap_reply = SoapRefused control_refusal | SoapExchanged "control_refusal + bytes"

definition exchange_upnp_soap ::
  "crates \<Rightarrow> selected_gateway \<Rightarrow> string \<Rightarrow> bytes \<Rightarrow> 's transport \<Rightarrow> 's canceller \<Rightarrow> 's \<Rightarrow> upnp_soap_reply \<times> 's" where
  "exchange_upnp_soap cr gateway location request transport cancelled s =
     (if request = [] then (SoapRefused ControlUnsupported, s)
      else if length request > UPNP_SOAP_MAX_BYTES then (SoapRefused ControlOversize, s)
      else let (stop, s1) = cancelled s
      in if stop then (SoapRefused ControlCancelled, s1)
         else (case control_destination cr gateway RouterUpnpIgd (Some location) of
            Inl e \<Rightarrow> (SoapRefused e, s1)
          | Inr destination \<Rightarrow>
              (case transport s1 destination request UPNP_SOAP_MAX_BYTES of
                 (Inl e, _, s2) \<Rightarrow> (SoapExchanged (Inl e), s2)
               | (Inr received, written, s2) \<Rightarrow>
                   if received \<ge> UPNP_SOAP_MAX_BYTES then (SoapExchanged (Inl ControlBounded), s2)
                   else (SoapExchanged (Inr (take received (fill_buffer UPNP_SOAP_MAX_BYTES written))), s2))))"

section \<open>Lemmas\<close>

lemma bytes_less_trans: "bytes_less x y \<Longrightarrow> bytes_less y z \<Longrightarrow> bytes_less x z"
proof (induction x y arbitrary: z rule: bytes_less.induct)
  case (4 a x b y)
  then show ?case by (cases z) auto
next
  case (2 b y)
  then show ?case by (cases z) auto
qed auto

lemma bytes_less_irrefl [simp]: "\<not> bytes_less x x"
  by (induction x) auto

lemma interface_before_trans: "interface_before a b \<Longrightarrow> interface_before b c \<Longrightarrow> interface_before a c"
  by (auto simp: interface_before_def intro: bytes_less_trans)

lemma interface_before_irrefl [simp]: "\<not> interface_before a a"
  by (simp add: interface_before_def)

text \<open>The routes that can be selected, and what the loop of \<open>select_gateway\<close> knows about a prefix of them.\<close>

definition candidate :: "route_record \<Rightarrow> bool" where
  "candidate r \<longleftrightarrow> default_route r \<and> acceptable_gateway (rr_gateway r)"

definition best_of :: "route_record set \<Rightarrow> route_record \<Rightarrow> bool" where
  "best_of C r \<longleftrightarrow> r \<in> C \<and> (\<forall>c \<in> C. rr_metric r \<le> rr_metric c)
     \<and> (\<forall>c \<in> C. rr_metric c = rr_metric r \<and> rr_gateway c = rr_gateway r \<longrightarrow> \<not> interface_before c r)"

definition tied :: "route_record set \<Rightarrow> route_record \<Rightarrow> bool" where
  "tied C r \<longleftrightarrow> (\<exists>c \<in> C. rr_metric c = rr_metric r \<and> rr_gateway c \<noteq> rr_gateway r)"

definition selection_ok :: "route_record set \<Rightarrow> selection \<Rightarrow> bool" where
  "selection_ok R = (\<lambda>(best, saw_invalid, ambiguous).
     saw_invalid = (\<exists>r \<in> R. default_route r \<and> \<not> acceptable_gateway (rr_gateway r))
     \<and> (case best of
          None \<Rightarrow> {r \<in> R. candidate r} = {} \<and> \<not> ambiguous
        | Some b \<Rightarrow> best_of {r \<in> R. candidate r} b \<and> ambiguous = tied {r \<in> R. candidate r} b))"

lemma best_of_insert_lower:
  "best_of C b \<Longrightarrow> rr_metric r < rr_metric b \<Longrightarrow> best_of (insert r C) r \<and> \<not> tied (insert r C) r"
  by (fastforce simp: best_of_def tied_def)

lemma best_of_insert_before:
  assumes "best_of C b" "rr_metric r = rr_metric b" "rr_gateway r = rr_gateway b" "interface_before r b"
  shows "best_of (insert r C) r \<and> tied (insert r C) r = tied C b"
  using assms unfolding best_of_def tied_def
  by (auto dest: interface_before_trans)

lemma best_of_insert_other:
  assumes "best_of C b" "rr_metric b < rr_metric r \<or> rr_metric r = rr_metric b
    \<and> (rr_gateway r \<noteq> rr_gateway b \<or> \<not> interface_before r b)"
  shows "best_of (insert r C) b
    \<and> tied (insert r C) b = (tied C b \<or> rr_metric r = rr_metric b \<and> rr_gateway r \<noteq> rr_gateway b)"
  using assms unfolding best_of_def tied_def by auto

lemma select_step_ok:
  assumes "selection_ok R s"
  shows "selection_ok (insert r R) (select_step r s)"
proof (cases "candidate r")
  case False
  then have "{x \<in> insert r R. candidate x} = {x \<in> R. candidate x}" by auto
  then show ?thesis
    using assms False
    by (cases s) (auto simp: selection_ok_def select_step_def candidate_def split: option.splits)
next
  case True
  then have C: "{x \<in> insert r R. candidate x} = insert r {x \<in> R. candidate x}" by auto
  obtain best inv amb where s: "s = (best, inv, amb)" by (cases s)
  have inv: "inv = (\<exists>x \<in> insert r R. default_route x \<and> \<not> acceptable_gateway (rr_gateway x))"
    using assms True by (auto simp: s selection_ok_def candidate_def)
  show ?thesis
  proof (cases best)
    case None
    then have "{x \<in> R. candidate x} = {}" "\<not> amb" using assms by (auto simp: s selection_ok_def)
    then show ?thesis
      using True inv unfolding selection_ok_def s None C
      by (auto simp: select_step_def candidate_def best_of_def tied_def)
  next
    case (Some b)
    then have b: "best_of {x \<in> R. candidate x} b" "amb = tied {x \<in> R. candidate x} b"
      using assms by (auto simp: s selection_ok_def)
    consider "rr_metric r < rr_metric b"
      | "rr_metric r = rr_metric b" "rr_gateway r = rr_gateway b" "interface_before r b"
      | "rr_metric b < rr_metric r \<or> rr_metric r = rr_metric b
           \<and> (rr_gateway r \<noteq> rr_gateway b \<or> \<not> interface_before r b)"
      by linarith
    then show ?thesis
    proof cases
      case 1
      then show ?thesis
        using True inv best_of_insert_lower [OF b(1) 1] unfolding selection_ok_def s Some C
        by (auto simp: select_step_def candidate_def)
    next
      case 2
      then show ?thesis
        using True inv b(2) best_of_insert_before [OF b(1) 2] unfolding selection_ok_def s Some C
        by (auto simp: select_step_def candidate_def)
    next
      case 3
      then show ?thesis
        using True inv b(2) best_of_insert_other [OF b(1) 3] unfolding selection_ok_def s Some C
        by (auto simp: select_step_def candidate_def)
    qed
  qed
qed

lemma select_fold_ok:
  "selection_ok R s \<Longrightarrow> selection_ok (R \<union> set routes) (fold select_step routes s)"
proof (induction routes arbitrary: R s)
  case (Cons r routes)
  then show ?case using Cons.IH [OF select_step_ok [OF Cons.prems, of r]] by simp
qed simp

lemma select_loop_ok: "selection_ok (set routes) (fold select_step routes (None, False, False))"
  using select_fold_ok [of "{}" "(None, False, False)" routes] by (simp add: selection_ok_def)

lemma takeWhile_upper:
  "n \<le> N \<Longrightarrow> length (takeWhile (\<lambda>j. N - n \<le> j) (rev [0..<N])) = n"
proof -
  assume "n \<le> N"
  then have "[0..<N] = [0..<N - n] @ [N - n..<N]"
    by (metis diff_le_self le_add_diff_inverse2 upt_add_eq_append zero_le)
  moreover have "takeWhile (\<lambda>j. N - n \<le> j) (rev [0..<N - n]) = []"
    by (cases "N - n") auto
  ultimately show ?thesis
    using \<open>n \<le> N\<close> by (simp add: takeWhile_append)
qed

lemma bit_prefix_mask: "j < 32 \<Longrightarrow> bit (NOT (mask (32 - n)) :: u32) j = (32 - n \<le> j)"
  by (auto simp: bit_simps)

lemma leading_ones_mask: "n \<le> 32 \<Longrightarrow> leading_ones (NOT (mask (32 - n))) = n"
proof -
  assume "n \<le> 32"
  have "takeWhile (bit (NOT (mask (32 - n)) :: u32)) (rev [0..<32])
      = takeWhile (\<lambda>j. 32 - n \<le> j) (rev [0..<32])"
    by (rule takeWhile_cong) (auto simp: bit_prefix_mask)
  then show ?thesis
    using takeWhile_upper [OF \<open>n \<le> 32\<close>] by (simp add: leading_ones_def)
qed

lemma leading_ones_le: "leading_ones w \<le> 32"
  using length_takeWhile_le [of "bit w" "rev [0..<32]"] by (simp add: leading_ones_def)

lemma expected_mask:
  "n \<le> 32 \<Longrightarrow> (if n = 0 then 0 else push_bit (32 - n) (- 1)) = (NOT (mask (32 - n)) :: u32)"
  by (auto intro!: bit_word_eqI simp: bit_simps)

lemma prefix_len_iff: "prefix_len m = Some n \<longleftrightarrow> n \<le> 32 \<and> m = NOT (mask (32 - n))"
proof
  assume "prefix_len m = Some n"
  then have "n = leading_ones m" "m = (if n = 0 then 0 else push_bit (32 - n) (- 1))"
    by (auto simp: prefix_len_def Let_def split: if_splits)
  then show "n \<le> 32 \<and> m = NOT (mask (32 - n))"
    using leading_ones_le [of m] expected_mask by metis
next
  assume "n \<le> 32 \<and> m = NOT (mask (32 - n))"
  then show "prefix_len m = Some n"
    using leading_ones_mask [of n] expected_mask [of n] by (simp add: prefix_len_def Let_def)
qed

lemma le_nat_bound: "le_nat bs < 256 ^ length bs"
proof (induction bs)
  case (Cons b bs)
  have "unat b < 256" using unsigned_less [of b] by simp
  then show ?case using Cons by (simp add: le_nat_def)
qed (simp add: le_nat_def)

text \<open>What every parsed route satisfies, whatever the input.\<close>

definition route_wf :: "route_record \<Rightarrow> bool" where
  "route_wf r \<longleftrightarrow> rr_prefix_len r \<le> 32 \<and> rr_metric r \<le> u32_max \<and> rr_interface_index r \<le> u32_max
     \<and> length (rr_interface_name r) = INTERFACE_NAME_MAX \<and> rr_interface_name_len r \<le> INTERFACE_NAME_MAX"

definition table_wf :: "route_record list \<Rightarrow> bool" where
  "table_wf routes \<longleftrightarrow> length routes \<le> ROUTE_TABLE_MAX_RECORDS \<and> list_all route_wf routes"

lemma parse_proc_route_line_wf: "parse_proc_route_line line = Inr r \<Longrightarrow> route_wf r"
  by (auto simp: parse_proc_route_line_def res_simps route_wf_def route_new_def interface_name_bytes_def
      prefix_len_iff as_bytes_def dest: from_str_radix_bound split: if_splits)

lemma parse_route_lines_wf:
  "table_wf routes \<Longrightarrow> parse_route_lines i routes ls = Inr rs \<Longrightarrow> table_wf rs"
proof (induction i routes ls rule: parse_route_lines.induct)
  case (2 i routes line ls)
  show ?case
  proof (cases "(i = 0 \<and> strip_prefix ''Iface'' line \<noteq> None) \<or> line = []")
    case True
    then show ?thesis using 2 by (auto split: if_splits)
  next
    case False
    then obtain r where r: "parse_proc_route_line line = Inr r" "length routes \<noteq> ROUTE_TABLE_MAX_RECORDS"
        "parse_route_lines (Suc i) (routes @ [r]) ls = Inr rs"
      using "2.prems"(2) by (auto simp: res_simps split: if_splits)
    have "table_wf (routes @ [r])"
      using "2.prems"(1) r(2) parse_proc_route_line_wf [OF r(1)] by (auto simp: table_wf_def)
    then show ?thesis using "2.IH"(3) False r by auto
  qed
qed simp

lemma parse_proc_net_route_wf: "parse_proc_net_route t = Inr rs \<Longrightarrow> table_wf rs"
  using parse_route_lines_wf [of "[]"] by (auto simp: parse_proc_net_route_def res_simps table_wf_def)

definition attributes_wf :: "route_attributes \<Rightarrow> bool" where
  "attributes_wf a \<longleftrightarrow> at_metric a \<le> u32_max \<and> at_interface_index a \<le> u32_max"

lemma apply_attribute_wf: "attributes_wf a \<Longrightarrow> attributes_wf (apply_attribute ty data a)"
  using le_nat_bound [of data] by (auto simp: attributes_wf_def apply_attribute_def u32_max_def)

lemma parse_attributes_wf: "attributes_wf a \<Longrightarrow> parse_attributes body c a = Some a' \<Longrightarrow> attributes_wf a'"
proof (induction body c a rule: parse_attributes.induct)
  case (1 body c a)
  then show ?case
    by (subst (asm) (2) parse_attributes.simps) (auto simp: Let_def apply_attribute_wf split: if_splits)
qed

lemma parse_route_message_wf:
  assumes "parse_route_message body = Some r"
  shows "route_wf r"
proof -
  obtain a where a: "parse_attributes body (align4 12)
               \<lparr>at_destination = ipv4_unspecified, at_gateway = ipv4_unspecified, at_has_gateway = False,
                at_interface_index = 0, at_metric = 0, at_table = None\<rparr> = Some a"
    "rr_metric r = at_metric a" "rr_interface_index r = at_interface_index a" "rr_prefix_len r \<le> 32"
    "rr_interface_name r = replicate INTERFACE_NAME_MAX 0" "rr_interface_name_len r = 0"
    using assms by (auto simp: parse_route_message_def Let_def split: if_splits option.splits)
  have "attributes_wf a"
    using parse_attributes_wf [OF _ a(1)] by (simp add: attributes_wf_def)
  then show ?thesis using a by (simp add: route_wf_def attributes_wf_def)
qed

lemma parse_dump_from_wf: "table_wf routes \<Longrightarrow> parse_dump_from bs o' routes = Inr rs \<Longrightarrow> table_wf rs"
proof (induction bs o' routes rule: parse_dump_from.induct)
  case (1 bs o' routes)
  have step: "table_wf (case parse_route_message body of None \<Rightarrow> routes | Some r \<Rightarrow> routes @ [r])"
    if "length routes \<noteq> ROUTE_TABLE_MAX_RECORDS" for body
    using "1.prems"(1) that parse_route_message_wf [of body] by (auto simp: table_wf_def split: option.splits)
  show ?case
    using "1.prems" "1.IH" [OF _ refl refl] step
    by (auto simp: parse_dump_from.simps [of bs o' routes] Let_def split: if_splits)
qed

lemma parse_netlink_wf: "parse_netlink_route_dump bs = Inr rs \<Longrightarrow> table_wf rs"
  using parse_dump_from_wf [of "[]"] by (auto simp: parse_netlink_route_dump_def res_simps table_wf_def)

lemma read_proc_wf: "read_proc_net_route src w = (Inr rs, w') \<Longrightarrow> table_wf rs"
  by (auto simp: read_proc_net_route_def Let_def res_simps parse_proc_net_route_wf split: prod.splits if_splits)

lemma read_netlink_wf: "read_netlink_routes src w = (Inr rs, w') \<Longrightarrow> table_wf rs"
  by (auto simp: read_netlink_routes_def Let_def res_simps parse_netlink_wf split: prod.splits if_splits)

lemma discover_outcome_Selected:
  "discover_outcome r cancelled w = (Selected g, w') \<Longrightarrow> \<exists>rs. r = Inr rs \<and> select_gateway rs = Selected g"
  by (cases "(r, cancelled, w)" rule: discover_outcome.cases)
    (auto simp: discover_loaded_def Let_def split: prod.splits if_splits)

lemma discover_at_path_Selected:
  assumes "discover_at_path src w = (Selected g, w')"
  shows "\<exists>rs. table_wf rs \<and> select_gateway rs = Selected g"
proof -
  obtain r w2 where r: "read_proc_net_route src (snd (src_cancelled src w)) = (r, w2)"
    and d: "discover_with_sources r (read_netlink_routes src) (src_cancelled src) w2 = (Selected g, w')"
    using assms by (auto simp: discover_at_path_def Let_def split: prod.splits if_splits)
  show ?thesis
  proof (cases r)
    case (Inr rs)
    then show ?thesis
      using d r read_proc_wf discover_outcome_Selected [of "Inr rs"]
      by (fastforce simp: discover_with_sources_def Let_def split: prod.splits if_splits)
  next
    case (Inl e)
    then obtain l w3 w4 where l: "read_netlink_routes src w3 = (l, w4)"
      "discover_outcome l (src_cancelled src) w4 = (Selected g, w')"
      using d
      by (cases e) (auto simp: discover_with_sources_def Let_def split: prod.splits if_splits)
    then obtain rs where "l = Inr rs" "select_gateway rs = Selected g"
      using discover_outcome_Selected [OF l(2)] by blast
    then show ?thesis using read_netlink_wf [of src w3 rs w4] l(1) by blast
  qed
qed

lemma select_gateway_Selected:
  assumes "select_gateway routes = Selected g"
  shows "\<exists>r. best_of {r \<in> set routes. candidate r} r \<and> \<not> tied {r \<in> set routes. candidate r} r \<and> g = from_record r"
  using assms select_loop_ok [of routes]
  by (auto simp: select_gateway_def selection_ok_def split: prod.splits if_splits option.splits)

lemma control_destination_gateway:
  "control_destination cr g p location = Inr d \<Longrightarrow> fst d = sg_gateway g \<and> (p = RouterUpnpIgd \<or> snd d = 5351)"
  by (cases p) (auto simp: res_simps upnp_location_def Let_def ROUTER_CONTROL_PORT_def)

section \<open>The link to the router as an interface\<close>

text \<open>
  What the mapping adapters rely on: \<open>sent\<close> is what has been handed to the router. An exchange hands
  over its request at most once and to no other destination, an answered one did hand it over, and asking
  for cancellation sends nothing.
\<close>

locale router_link =
  fixes exchange :: "'s transport" and cancelled :: "'s canceller" and sent :: "'s \<Rightarrow> (socket_addr \<times> bytes) list"
  assumes exchange_sent: "exchange s d q n = (r, b, s') \<Longrightarrow> sent s' = sent s \<or> sent s' = sent s @ [(d, q)]"
    and exchange_answered: "exchange s d q n = (Inr k, b, s') \<Longrightarrow> sent s' = sent s @ [(d, q)]"
    and cancelled_sent: "cancelled s = (stop, s') \<Longrightarrow> sent s' = sent s"
begin

lemma exchange_with_gateway_sent:
  assumes "exchange_with_gateway cr g p location q exchange cancelled s = (r, s')"
  shows "sent s' = sent s
    \<or> (\<exists>d. control_destination cr g p location = Inr d \<and> length q \<le> CONTROL_MAX_BYTES \<and> sent s' = sent s @ [(d, q)])"
  using assms
  by (auto simp: exchange_with_gateway_def Let_def split: prod.splits if_splits sum.splits
      dest!: cancelled_sent exchange_answered dest: exchange_sent)

lemma exchange_with_gateway_answered:
  assumes "exchange_with_gateway cr g p location q exchange cancelled s = (Inr body, s')"
  shows "\<exists>d. control_destination cr g p location = Inr d \<and> sent s' = sent s @ [(d, q)] \<and> length body \<le> CONTROL_MAX_BYTES"
  using assms
  by (auto simp: exchange_with_gateway_def Let_def split: prod.splits if_splits sum.splits
      dest!: cancelled_sent exchange_answered)

lemma exchange_upnp_soap_sent:
  assumes "exchange_upnp_soap cr g location q exchange cancelled s = (r, s')"
  shows "(sent s' = sent s \<and> (\<forall>body. r \<noteq> SoapExchanged (Inr body)))
    \<or> (\<exists>d. control_destination cr g RouterUpnpIgd (Some location) = Inr d \<and> sent s' = sent s @ [(d, q)]
         \<and> (\<forall>e. r \<noteq> SoapRefused e))"
  using assms
  by (auto simp: exchange_upnp_soap_def Let_def split: prod.splits if_splits sum.splits
      dest!: cancelled_sent exchange_answered dest: exchange_sent)

end

text \<open>Any transport and any cancellation, observed: the log holds what was handed to the transport.\<close>

definition observed_exchange :: "'s transport \<Rightarrow> ('s \<times> (socket_addr \<times> bytes) list) transport" where
  "observed_exchange transport = (\<lambda>(s, log) d q n.
     let (r, b, s') = transport s d q n in (r, b, s', log @ [(d, q)]))"

definition observed_cancelled :: "'s canceller \<Rightarrow> ('s \<times> (socket_addr \<times> bytes) list) canceller" where
  "observed_cancelled cancelled = (\<lambda>(s, log). let (stop, s') = cancelled s in (stop, s', log))"

interpretation observed: router_link "observed_exchange transport" "observed_cancelled cancelled" snd
  for transport :: "'s transport" and cancelled :: "'s canceller"
  by unfold_locales (auto simp: observed_exchange_def observed_cancelled_def Let_def split: prod.splits)

lemma bex_ball_filter:
  "(\<exists>r \<in> {r \<in> A. p r}. \<forall>c \<in> {r \<in> A. p r}. P r c) \<longleftrightarrow> (\<exists>r \<in> A. p r \<and> (\<forall>c \<in> A. p c \<longrightarrow> P r c))"
  by auto

lemma untied_iff:
  assumes b: "best_of C b"
  shows "\<not> tied C b \<longleftrightarrow> (\<exists>r \<in> C. \<forall>c \<in> C.
     rr_metric r < rr_metric c \<or> rr_metric r = rr_metric c \<and> rr_gateway c = rr_gateway r)"
proof
  assume u: "\<not> tied C b"
  have "rr_metric b < rr_metric c \<or> rr_metric b = rr_metric c \<and> rr_gateway c = rr_gateway b" if "c \<in> C" for c
  proof (cases "rr_metric c = rr_metric b")
    case True
    then show ?thesis using u that unfolding tied_def by simp
  next
    case False
    then show ?thesis using b that unfolding best_of_def by fastforce
  qed
  moreover have "b \<in> C" using b by (simp add: best_of_def)
  ultimately show "\<exists>r \<in> C. \<forall>c \<in> C. rr_metric r < rr_metric c \<or> rr_metric r = rr_metric c \<and> rr_gateway c = rr_gateway r"
    by blast
next
  assume "\<exists>r \<in> C. \<forall>c \<in> C. rr_metric r < rr_metric c \<or> rr_metric r = rr_metric c \<and> rr_gateway c = rr_gateway r"
  then obtain r where r: "r \<in> C"
    "\<And>c. c \<in> C \<Longrightarrow> rr_metric r < rr_metric c \<or> rr_metric r = rr_metric c \<and> rr_gateway c = rr_gateway r" by blast
  have "b \<in> C" "rr_metric b \<le> rr_metric r" using b r(1) by (simp_all add: best_of_def)
  then have eq: "rr_metric r = rr_metric b" "rr_gateway b = rr_gateway r" using r(2) [of b] by auto
  have "rr_gateway c = rr_gateway b" if "c \<in> C" "rr_metric c = rr_metric b" for c
    using r(2) [OF that(1)] that(2) eq by simp
  then show "\<not> tied C b" unfolding tied_def by blast
qed

section \<open>Properties\<close>

text \<open>
  C28. The selected gateway is the right one: it belongs to a usable default route of least metric, no
  other default route of that metric names another gateway, and among the routes to it the one with the
  first interface is taken. A gateway is selected whenever the usable default routes of least metric
  agree on one.
\<close>

theorem select_gateway_spec:
  "(\<forall>g. select_gateway routes = Selected g \<longrightarrow>
      (\<exists>r \<in> set routes. g = from_record r \<and> candidate r
         \<and> (\<forall>c \<in> set routes. candidate c \<longrightarrow> rr_metric r \<le> rr_metric c)
         \<and> (\<forall>c \<in> set routes. candidate c \<and> rr_metric c = rr_metric r
              \<longrightarrow> rr_gateway c = rr_gateway r \<and> \<not> interface_before c r)))
   \<and> ((\<exists>g. select_gateway routes = Selected g) \<longleftrightarrow>
      (\<exists>r \<in> set routes. candidate r
         \<and> (\<forall>c \<in> set routes. candidate c \<longrightarrow>
              rr_metric r < rr_metric c \<or> rr_metric r = rr_metric c \<and> rr_gateway c = rr_gateway r)))"
proof (intro conjI allI impI)
  fix g
  assume "select_gateway routes = Selected g"
  from select_gateway_Selected [OF this] obtain r where
    r: "best_of {r \<in> set routes. candidate r} r" "\<not> tied {r \<in> set routes. candidate r} r" "g = from_record r"
    by blast
  show "\<exists>r \<in> set routes. g = from_record r \<and> candidate r
         \<and> (\<forall>c \<in> set routes. candidate c \<longrightarrow> rr_metric r \<le> rr_metric c)
         \<and> (\<forall>c \<in> set routes. candidate c \<and> rr_metric c = rr_metric r
              \<longrightarrow> rr_gateway c = rr_gateway r \<and> \<not> interface_before c r)"
    using r unfolding best_of_def tied_def by blast
next
  let ?C = "{r \<in> set routes. candidate r}"
  obtain best inv amb where loop: "fold select_step routes (None, False, False) = (best, inv, amb)"
    by (rule prod_cases3)
  have ok: "case best of None \<Rightarrow> ?C = {} \<and> \<not> amb | Some b \<Rightarrow> best_of ?C b \<and> amb = tied ?C b"
    using select_loop_ok [of routes] by (simp add: loop selection_ok_def)
  have sel: "(\<exists>g. select_gateway routes = Selected g) \<longleftrightarrow> \<not> amb \<and> best \<noteq> None"
    by (auto simp: select_gateway_def loop split: option.splits)
  have "(\<exists>g. select_gateway routes = Selected g) \<longleftrightarrow>
      (\<exists>r \<in> ?C. \<forall>c \<in> ?C. rr_metric r < rr_metric c \<or> rr_metric r = rr_metric c \<and> rr_gateway c = rr_gateway r)"
  proof (cases best)
    case None
    then have "?C = {}" using ok by simp
    then show ?thesis unfolding sel None by blast
  next
    case (Some b)
    then have "best_of ?C b" "amb = tied ?C b" using ok by simp_all
    then show ?thesis unfolding sel Some using untied_iff [of ?C b] by blast
  qed
  then show "(\<exists>g. select_gateway routes = Selected g) \<longleftrightarrow>
      (\<exists>r \<in> set routes. candidate r
         \<and> (\<forall>c \<in> set routes. candidate c \<longrightarrow>
              rr_metric r < rr_metric c \<or> rr_metric r = rr_metric c \<and> rr_gateway c = rr_gateway r))"
    by (simp only: bex_ball_filter)
qed

text \<open>
  Whatever the route file and the netlink socket deliver, a discovered gateway is a usable unicast
  address below 240.0.0.0 that is no loopback, multicast or broadcast address, and its interface name is
  at most 15 bytes of a 15-byte field, with an index of 32 bits.
\<close>

theorem discovered_gateway_wf:
  assumes "discover_at_path src w = (Selected g, w')"
  shows "acceptable_gateway (sg_gateway g) \<and> length (sg_interface_name g) = 15
    \<and> sg_interface_name_len g \<le> 15 \<and> sg_interface_index g \<le> u32_max"
proof -
  obtain rs where rs: "table_wf rs" "select_gateway rs = Selected g"
    using discover_at_path_Selected [OF assms] by blast
  obtain r where "r \<in> set rs" "candidate r" "g = from_record r"
    using select_gateway_Selected [OF rs(2)] by (auto simp: best_of_def)
  then show ?thesis
    using rs(1) by (auto simp: table_wf_def list_all_iff route_wf_def from_record_def candidate_def
        INTERFACE_NAME_MAX_def)
qed

text \<open>
  A network mask is accepted with a prefix length exactly when it is that many ones followed by zeros.
\<close>

theorem prefix_len_is_mask: "prefix_len m = Some n \<longleftrightarrow> n \<le> 32 \<and> m = NOT (mask (32 - n))"
  by (rule prefix_len_iff)

text \<open>
  Router control stays with the selected gateway: whatever the transport does, one exchange hands it
  at most one request, unchanged, and only at the gateway's own address, on port 5351 unless the request
  is a SOAP one.
\<close>

theorem exchange_stays_with_gateway:
  "snd (snd (exchange_with_gateway cr g p location q (observed_exchange t) (observed_cancelled c) (s, [])))
     \<in> {[]} \<union> {[((sg_gateway g, port), q)] |port. p = RouterUpnpIgd \<or> port = 5351}
   \<and> snd (snd (exchange_upnp_soap cr g url q (observed_exchange t) (observed_cancelled c) (s, [])))
     \<in> {[]} \<union> {[((sg_gateway g, port), q)] |port. True}"
proof
  obtain r s' where e: "exchange_with_gateway cr g p location q (observed_exchange t) (observed_cancelled c) (s, [])
      = (r, s')" by (metis surj_pair)
  from observed.exchange_with_gateway_sent [OF e]
  show "snd (snd (exchange_with_gateway cr g p location q (observed_exchange t) (observed_cancelled c) (s, [])))
     \<in> {[]} \<union> {[((sg_gateway g, port), q)] |port. p = RouterUpnpIgd \<or> port = 5351}"
    by (auto simp: e dest: control_destination_gateway)
  obtain r s' where e: "exchange_upnp_soap cr g url q (observed_exchange t) (observed_cancelled c) (s, [])
      = (r, s')" by (metis surj_pair)
  from observed.exchange_upnp_soap_sent [OF e] control_destination_gateway [of cr g RouterUpnpIgd "Some url"]
  show "snd (snd (exchange_upnp_soap cr g url q (observed_exchange t) (observed_cancelled c) (s, [])))
     \<in> {[]} \<union> {[((sg_gateway g, port), q)] |port. True}"
    by (auto simp: e simp del: control_destination.simps)
qed

section \<open>Witnesses\<close>

definition sample_routes :: "route_record list" where
  "sample_routes = [route_new 0 0 (ipv4_new 10 0 0 1) True 7, route_new 0 0 (ipv4_new 10 0 0 2) True 9]"

lemma sample_gateways: "acceptable_gateway (ipv4_new 10 0 0 1)" "acceptable_gateway (ipv4_new 10 0 0 2)"
  by (simp_all add: acceptable_gateway_def ipv4_new_def of_be32_def is_unspecified_def is_broadcast_def
      is_multicast_def is_loopback_def octet0_def)

lemma sample_select:
  "select_gateway sample_routes = Selected (from_record (route_new 0 0 (ipv4_new 10 0 0 1) True 7))"
  using sample_gateways
  by (simp add: select_gateway_def sample_routes_def select_step_def default_route_def route_new_def
      ipv4_unspecified_def)

theorem select_gateway_spec_witness:
  "select_gateway sample_routes = Selected (from_record (route_new 0 0 (ipv4_new 10 0 0 1) True 7))
   \<and> (\<exists>r \<in> set sample_routes. from_record (route_new 0 0 (ipv4_new 10 0 0 1) True 7) = from_record r \<and> candidate r)"
  using select_gateway_spec [of sample_routes] sample_select by blast

text \<open>A host without a route file whose netlink dump holds the default route by 10.0.0.1.\<close>

definition sample_dump :: bytes where
  "sample_dump =
     [36, 0, 0, 0, 24, 0, 0, 0, 0, 0, 0, 0, 0, 0, 0, 0,
      2, 0, 0, 0, 254, 0, 0, 1, 0, 0, 0, 0, 8, 0, 5, 0, 10, 0, 0, 1,
      16, 0, 0, 0, 3, 0, 0, 0, 0, 0, 0, 0, 0, 0, 0, 0]"

definition sample_sources :: "unit route_sources" where
  "sample_sources =
     \<lparr>src_cancelled = (\<lambda>w. (False, w)), src_open = (\<lambda>w. (False, w)), src_read = (\<lambda>w. (None, w)),
      src_socket = (\<lambda>w. (True, w)), src_set_timeout = (\<lambda>w. (True, w)), src_bind = (\<lambda>w. (True, w)),
      src_send = (\<lambda>w q. (int (length q), w)), src_recv = (\<lambda>w n. (52, sample_dump, w)), src_close = (\<lambda>w. w)\<rparr>"

lemma sample_received: "take 52 (fill_buffer NETLINK_RECV_BYTES sample_dump) = sample_dump"
  by (simp add: fill_buffer_def sample_dump_def NETLINK_RECV_BYTES_def)

lemma sample_finished: "netlink_dump_finished sample_dump"
  by (simp add: netlink_dump_finished_def dump_finished_from.simps message_length_def message_kind_def
      le_nat_def sample_dump_def align4_def NLMSG_DONE_def)

lemma sample_parsed:
  "parse_netlink_route_dump sample_dump = Inr [route_new 0 0 (ipv4_new 10 0 0 1) True 0]"
  by (simp add: parse_netlink_route_dump_def parse_dump_from.simps parse_attributes.simps message_length_def
      message_kind_def le_nat_def sample_dump_def align4_def parse_route_message_def apply_attribute_def
      NLMSG_DONE_def NLMSG_ERROR_def RTM_NEWROUTE_def ROUTE_TABLE_MAX_RECORDS_def ROUTE_TABLE_MAX_BYTES_def
      AF_INET_def RTN_UNICAST_def RTA_DST_def RTA_GATEWAY_def RT_TABLE_COMPAT_def RT_TABLE_MAIN_def
      ipv4_unspecified_def route_new_def)

lemma sample_source_fields:
  "src_cancelled sample_sources w = (False, w)" "src_open sample_sources w = (False, w)"
  "src_socket sample_sources w = (True, w)" "src_set_timeout sample_sources w = (True, w)"
  "src_bind sample_sources w = (True, w)" "src_send sample_sources w q = (int (length q), w)"
  "src_recv sample_sources w n = (52, sample_dump, w)" "src_close sample_sources w = w"
  by (simp_all add: sample_sources_def)

lemma sample_read: "read_netlink_routes sample_sources () = (Inr [route_new 0 0 (ipv4_new 10 0 0 1) True 0], ())"
proof -
  have "dump_receive sample_sources (Suc n) [] () = (Inr sample_dump, ())" for n
    using sample_received sample_finished
    by (simp add: sample_source_fields) (simp add: NETLINK_RECV_BYTES_def ROUTE_TABLE_MAX_BYTES_def)
  from this [of 7] have "dump_netlink sample_sources () = (Inr sample_dump, ())"
    by (simp add: dump_netlink_def sample_source_fields)
  then show ?thesis
    by (simp add: read_netlink_routes_def sample_parsed sample_source_fields)
qed

theorem discovered_gateway_wf_witness:
  "\<exists>g. discover_at_path sample_sources () = (Selected g, ()) \<and> acceptable_gateway (sg_gateway g)"
proof -
  have "select_gateway [route_new 0 0 (ipv4_new 10 0 0 1) True 0]
      = Selected (from_record (route_new 0 0 (ipv4_new 10 0 0 1) True 0))"
    using sample_gateways
    by (simp add: select_gateway_def select_step_def default_route_def route_new_def ipv4_unspecified_def)
  then have "discover_at_path sample_sources () =
      (Selected (from_record (route_new 0 0 (ipv4_new 10 0 0 1) True 0)), ())"
    by (simp add: discover_at_path_def read_proc_net_route_def discover_with_sources_def sample_source_fields sample_read
        discover_loaded_def ROUTE_TABLE_MAX_RECORDS_def)
  then show ?thesis using discovered_gateway_wf [of sample_sources "()"] by blast
qed

end
