(* ===== verification/PortMapping.thy ===== *)
theory PortMapping
  imports Gateway Transcript
begin

text \<open>
  Port mappings with PCP and NAT-PMP (\<open>src/network_traversal/mapping.rs\<close>): the packet codecs, the
  creation of a mapping with its adoption or refusal, and the deletion of an owned one. Ports, lifetimes
  and epochs are words of their width. The router transport and the cancellation closure are those of
  \<open>Gateway\<close>; the module's own enum \<open>RouterProtocol\<close> has the constructors of \<open>router_protocol\<close>. The
  dispatch to UPnP is in \<open>Upnp\<close>.
\<close>

section \<open>Vocabulary\<close>

definition MAPPING_REQUESTED_LEASE_SEC :: u32 where "MAPPING_REQUESTED_LEASE_SEC = 60"
definition MAPPING_MAXIMUM_LEASE_SEC :: u32 where "MAPPING_MAXIMUM_LEASE_SEC = 120"
definition MAPPING_HIGH_PORT_MIN :: u16 where "MAPPING_HIGH_PORT_MIN = 1024"
definition PCP_MAP_PACKET_BYTES :: nat where "PCP_MAP_PACKET_BYTES = 60"
definition NATPMP_MAP_REQUEST_BYTES :: nat where "NATPMP_MAP_REQUEST_BYTES = 12"
definition NATPMP_MAP_RESPONSE_BYTES :: nat where "NATPMP_MAP_RESPONSE_BYTES = 16"
definition PCP_VERSION :: byte where "PCP_VERSION = 2"
definition PCP_MAP_OPCODE :: byte where "PCP_MAP_OPCODE = 1"
definition PCP_RESPONSE_BIT :: byte where "PCP_RESPONSE_BIT = 0x80"
definition NATPMP_VERSION :: byte where "NATPMP_VERSION = 0"
definition NATPMP_UDP :: byte where "NATPMP_UDP = 1"
definition NATPMP_TCP :: byte where "NATPMP_TCP = 2"
definition NATPMP_RESPONSE_BIT :: byte where "NATPMP_RESPONSE_BIT = 0x80"

datatype port_protocol = PortTcp | PortUdp

fun pcp_number :: "port_protocol \<Rightarrow> byte" where
  "pcp_number PortTcp = 6"
| "pcp_number PortUdp = 17"

fun natpmp_number :: "port_protocol \<Rightarrow> byte" where
  "natpmp_number PortTcp = NATPMP_TCP"
| "natpmp_number PortUdp = NATPMP_UDP"

definition from_natpmp :: "byte \<Rightarrow> port_protocol option" where
  "from_natpmp v = (if v = NATPMP_TCP then Some PortTcp else if v = NATPMP_UDP then Some PortUdp else None)"

datatype mapping_refusal =
    LowPort
  | BadClientAddress
  | BadLifetimeCeiling
  | TrivialNonce
  | MissingReservation
  | ReservationGatewayMismatch
  | AmbiguousOwnership
  | Denied
  | ProtocolUnsupported
  | Conflict
  | Rebooted
  | Truncated
  | ReplayOrMismatch
  | OverlongOrZeroGrant
  | LostResponse
  | MappingCancelled
  | MappingMalformed

record owned_handle =
  oh_protocol :: router_protocol
  oh_port_protocol :: port_protocol
  oh_internal_port :: u16
  oh_external_port :: u16
  oh_client :: ipv4
  oh_granted_lifetime_sec :: u32
  oh_epoch :: u32
  oh_nonce :: "bytes option"
  oh_reservation_digest :: "bytes option"
  oh_cleanup_authorized :: bool
  oh_external_address :: "ipv4 option"

definition usable_ipv4 :: "ipv4 \<Rightarrow> bool" where
  "usable_ipv4 a \<longleftrightarrow> \<not> is_unspecified a \<and> \<not> is_broadcast a \<and> \<not> is_multicast a \<and> octet0 a < 240"

record exclusive_reservation =
  er_gateway :: ipv4
  er_digest :: bytes

definition reservation_new :: "ipv4 \<Rightarrow> bytes \<Rightarrow> exclusive_reservation option" where
  "reservation_new gateway dg =
     (if \<not> usable_ipv4 gateway \<or> dg = replicate 32 0 then None else Some \<lparr>er_gateway = gateway, er_digest = dg\<rparr>)"

definition authorizes :: "exclusive_reservation \<Rightarrow> selected_gateway \<Rightarrow> bool" where
  "authorizes r g \<longleftrightarrow> er_gateway r = sg_gateway g"

definition matches_binding :: "crates \<Rightarrow> exclusive_reservation \<Rightarrow> selected_gateway \<Rightarrow> string \<Rightarrow> bool" where
  "matches_binding cr r g dg \<longleftrightarrow> authorizes r g \<and> dg = ''sha256:'' @ hex_encode cr (er_digest r)"

record mapping_effect =
  me_protocol :: router_protocol
  me_outcome :: traversal_outcome
  me_cleanup :: traversal_cleanup
  me_error :: "traversal_error_class option"
  me_refusal :: "mapping_refusal option"
  me_handle :: "owned_handle option"
  me_granted_lifetime_sec :: "u32 option"
  me_epoch :: "u32 option"
  me_assigned_port :: "u16 option"
  me_port_changed :: bool
  me_lease_clamped :: bool
  me_gateway_rebooted :: bool
  me_requests_sent :: nat

record pcp_map =
  pm_local_address :: ipv4
  pm_internal_port :: u16
  pm_protocol :: port_protocol
  pm_nonce :: bytes
  pm_maximum_lease_sec :: u16
  pm_previous_epoch :: "u32 option"
  pm_reservation :: "exclusive_reservation option"

record nat_pmp_map =
  nm_internal_port :: u16
  nm_protocol :: port_protocol
  nm_maximum_lease_sec :: u16
  nm_previous_epoch :: "u32 option"
  nm_reservation :: "exclusive_reservation option"

datatype decode_fault = FaultTruncated | FaultOversize | FaultMalformed

datatype server_class = ClassSuccess | ClassDenied | ClassUnsupported | ClassConflict | ClassFailed

record parsed_reply =
  pp_version_ok :: bool
  pp_opcode_ok :: bool
  pp_result :: u16
  pp_lifetime :: u32
  pp_epoch :: u32
  pp_protocol :: byte
  pp_internal_port :: u16
  pp_assigned_port :: u16
  pp_nonce :: "bytes option"
  pp_assigned_ip :: "ipv4 option"

section \<open>Codecs\<close>

definition u16_at :: "bytes \<Rightarrow> nat \<Rightarrow> u16" where
  "u16_at bs i = of_be16 (bs ! i) (bs ! (i + 1))"

definition u32_at :: "bytes \<Rightarrow> nat \<Rightarrow> u32" where
  "u32_at bs i = of_be32 (bs ! i) (bs ! (i + 1)) (bs ! (i + 2)) (bs ! (i + 3))"

definition ipv4_mapped :: "ipv4 \<Rightarrow> bytes" where
  "ipv4_mapped a = replicate 10 0 @ [0xff, 0xff] @ octets a"

definition mapped_ipv4 :: "bytes \<Rightarrow> ipv4 option" where
  "mapped_ipv4 bs =
     (if length bs \<noteq> 16 \<or> take 10 bs \<noteq> replicate 10 0 \<or> take 2 (drop 10 bs) \<noteq> [0xff, 0xff] then None
      else let a = ipv4_new (bs ! 12) (bs ! 13) (bs ! 14) (bs ! 15)
           in if usable_ipv4 a then Some a else None)"

text \<open>The 60 bytes of a PCP MAP request; the fields not written are zero.\<close>

definition encode_pcp :: "ipv4 \<Rightarrow> byte \<Rightarrow> u16 \<Rightarrow> u16 \<Rightarrow> bytes \<Rightarrow> u32 \<Rightarrow> bytes" where
  "encode_pcp local protocol internal_port external_port nonce lifetime =
     [PCP_VERSION, PCP_MAP_OPCODE, 0, 0] @ be32 lifetime @ ipv4_mapped local @ nonce @ [protocol, 0, 0, 0]
     @ be16 internal_port @ be16 external_port @ replicate 16 0"

definition encode_natpmp :: "byte \<Rightarrow> u16 \<Rightarrow> u16 \<Rightarrow> u32 \<Rightarrow> bytes" where
  "encode_natpmp opcode internal_port external_port lifetime =
     [NATPMP_VERSION, opcode, 0, 0] @ be16 internal_port @ be16 external_port @ be32 lifetime"

definition decode_pcp :: "bytes \<Rightarrow> decode_fault + parsed_reply" where
  "decode_pcp bs =
     (if length bs < PCP_MAP_PACKET_BYTES then Inl FaultTruncated
      else if length bs > PCP_MAP_PACKET_BYTES then Inl FaultOversize
      else Inr \<lparr>pp_version_ok = (bs ! 0 = PCP_VERSION),
                pp_opcode_ok = (bs ! 1 = PCP_MAP_OPCODE OR PCP_RESPONSE_BIT),
                pp_result = ucast (bs ! 3), pp_lifetime = u32_at bs 4, pp_epoch = u32_at bs 8,
                pp_protocol = bs ! 36, pp_internal_port = u16_at bs 40, pp_assigned_port = u16_at bs 42,
                pp_nonce = Some (take 12 (drop 24 bs)), pp_assigned_ip = mapped_ipv4 (take 16 (drop 44 bs))\<rparr>)"

definition decode_natpmp :: "bytes \<Rightarrow> decode_fault + parsed_reply" where
  "decode_natpmp bs =
     (if length bs < NATPMP_MAP_RESPONSE_BYTES then Inl FaultTruncated
      else if length bs > NATPMP_MAP_RESPONSE_BYTES then Inl FaultOversize
      else let opcode = bs ! 1
      in Inr \<lparr>pp_version_ok = (bs ! 0 = NATPMP_VERSION),
              pp_opcode_ok = (opcode AND NATPMP_RESPONSE_BIT = NATPMP_RESPONSE_BIT
                \<and> from_natpmp (opcode AND NOT NATPMP_RESPONSE_BIT) \<noteq> None),
              pp_result = u16_at bs 2, pp_lifetime = u32_at bs 12, pp_epoch = u32_at bs 4,
              pp_protocol = opcode AND NOT NATPMP_RESPONSE_BIT, pp_internal_port = u16_at bs 8,
              pp_assigned_port = u16_at bs 10, pp_nonce = None, pp_assigned_ip = None\<rparr>)"

definition pcp_class :: "u16 \<Rightarrow> server_class" where
  "pcp_class c =
     (if c = 0 then ClassSuccess else if c = 2 then ClassDenied
      else if c = 1 \<or> c = 4 \<or> c = 5 \<or> c = 9 then ClassUnsupported
      else if c = 11 then ClassConflict else ClassFailed)"

definition natpmp_class :: "u16 \<Rightarrow> server_class" where
  "natpmp_class c =
     (if c = 0 then ClassSuccess else if c = 2 then ClassDenied
      else if c = 1 \<or> c = 5 then ClassUnsupported
      else if c = 4 then ClassConflict else ClassFailed)"

section \<open>Effects\<close>

definition blank :: "router_protocol \<Rightarrow> mapping_effect" where
  "blank p =
     \<lparr>me_protocol = p, me_outcome = OutcomeFailed, me_cleanup = CleanupNotCreated, me_error = None,
      me_refusal = None, me_handle = None, me_granted_lifetime_sec = None, me_epoch = None,
      me_assigned_port = None, me_port_changed = False, me_lease_clamped = False,
      me_gateway_rebooted = False, me_requests_sent = 0\<rparr>"

definition explicit_refusal :: "mapping_effect \<Rightarrow> mapping_refusal \<Rightarrow> traversal_error_class \<Rightarrow> mapping_effect" where
  "explicit_refusal e refusal err = e\<lparr>me_outcome := OutcomeFailed, me_cleanup := CleanupNotCreated,
     me_refusal := Some refusal, me_error := Some err, me_handle := None\<rparr>"

definition lost :: "router_protocol \<Rightarrow> nat \<Rightarrow> mapping_refusal \<Rightarrow> traversal_error_class \<Rightarrow> mapping_effect" where
  "lost p n refusal err = (blank p)\<lparr>me_outcome := OutcomeCreationOutcomeUnknown,
     me_cleanup := CleanupExpiryUnknown, me_refusal := Some refusal, me_error := Some err,
     me_requests_sent := n\<rparr>"

definition local_refusal :: "router_protocol \<Rightarrow> mapping_refusal \<Rightarrow> mapping_effect" where
  "local_refusal p refusal = (blank p)\<lparr>me_refusal := Some refusal,
     me_outcome := (if refusal \<in> {MissingReservation, ReservationGatewayMismatch, AmbiguousOwnership, LowPort}
                    then OutcomeUnsupportedSafeOwnership
                    else if refusal = BadLifetimeCeiling then OutcomeUnsupportedFiniteLease
                    else OutcomeFailed),
     me_cleanup := CleanupNotCreated\<rparr>"

definition lease_ceiling :: "u16 \<Rightarrow> u32 option" where
  "lease_ceiling maximum_lease_sec =
     (let maximum = ucast maximum_lease_sec
      in if MAPPING_REQUESTED_LEASE_SEC \<le> maximum \<and> maximum \<le> MAPPING_MAXIMUM_LEASE_SEC
         then Some maximum else None)"

definition rebooted :: "u32 option \<Rightarrow> u32 \<Rightarrow> bool" where
  "rebooted previous epoch = (case previous of None \<Rightarrow> False | Some p \<Rightarrow> epoch < p)"

fun transport_refusal :: "control_refusal \<Rightarrow> mapping_refusal" where
  "transport_refusal ControlCancelled = MappingCancelled"
| "transport_refusal ControlOversize = MappingMalformed"
| "transport_refusal ControlBounded = MappingMalformed"
| "transport_refusal ControlUnsupported = LostResponse"
| "transport_refusal ControlWrongTarget = LostResponse"

definition transport_error :: "control_refusal \<Rightarrow> traversal_error_class" where
  "transport_error e = (if e = ControlCancelled \<or> e = ControlBounded then ErrorTimeout else ErrorInvalidResponse)"

record map_parts =
  mp_protocol :: router_protocol
  mp_port_protocol :: port_protocol
  mp_internal_port :: u16
  mp_client :: ipv4
  mp_previous_epoch :: "u32 option"
  mp_ceiling :: u32
  mp_reservation_authorizes_delete :: bool
  mp_nonce :: "bytes option"
  mp_digest :: "bytes option"

definition correlated_handle :: "map_parts \<Rightarrow> u16 \<Rightarrow> u32 \<Rightarrow> u32 \<Rightarrow> bool \<Rightarrow> owned_handle" where
  "correlated_handle parts external_port lifetime epoch cleanup_authorized =
     \<lparr>oh_protocol = mp_protocol parts, oh_port_protocol = mp_port_protocol parts,
      oh_internal_port = mp_internal_port parts, oh_external_port = external_port,
      oh_client = mp_client parts, oh_granted_lifetime_sec = lifetime, oh_epoch = epoch,
      oh_nonce = mp_nonce parts, oh_reservation_digest = mp_digest parts,
      oh_cleanup_authorized = cleanup_authorized, oh_external_address = None\<rparr>"

fun delete_packet_for :: "router_protocol \<Rightarrow> owned_handle \<Rightarrow> bytes" where
  "delete_packet_for RouterPcp h =
     encode_pcp (oh_client h) (pcp_number (oh_port_protocol h)) (oh_internal_port h) (oh_external_port h)
       (case oh_nonce h of None \<Rightarrow> replicate 12 0 | Some n \<Rightarrow> n) 0"
| "delete_packet_for RouterNatPmp h = encode_natpmp (natpmp_number (oh_port_protocol h)) (oh_internal_port h) 0 0"
| "delete_packet_for RouterUpnpIgd h = []"

definition delete_packet :: "owned_handle \<Rightarrow> bytes" where
  "delete_packet h = delete_packet_for (oh_protocol h) h"

definition finite_lease :: "u32 \<Rightarrow> u32 \<Rightarrow> bool" where
  "finite_lease ceiling lifetime \<longleftrightarrow> 1 \<le> lifetime \<and> lifetime \<le> ceiling"

section \<open>Deletion\<close>

fun decode_reply :: "router_protocol \<Rightarrow> bytes \<Rightarrow> decode_fault + parsed_reply" where
  "decode_reply RouterPcp bs = decode_pcp bs"
| "decode_reply RouterNatPmp bs = decode_natpmp bs"
| "decode_reply RouterUpnpIgd bs = Inl FaultMalformed"

fun reply_class :: "router_protocol \<Rightarrow> u16 \<Rightarrow> server_class" where
  "reply_class RouterPcp c = pcp_class c"
| "reply_class RouterNatPmp c = natpmp_class c"
| "reply_class RouterUpnpIgd c = ClassFailed"

definition delete_matches :: "owned_handle \<Rightarrow> parsed_reply \<Rightarrow> bool" where
  "delete_matches h p = (case oh_protocol h of
     RouterPcp \<Rightarrow> pp_version_ok p \<and> pp_opcode_ok p \<and> pp_nonce p = oh_nonce h
       \<and> pp_internal_port p = oh_internal_port h \<and> pp_protocol p = pcp_number (oh_port_protocol h)
   | RouterNatPmp \<Rightarrow> pp_version_ok p \<and> pp_opcode_ok p \<and> pp_internal_port p = oh_internal_port h
       \<and> from_natpmp (pp_protocol p) = Some (oh_port_protocol h)
   | RouterUpnpIgd \<Rightarrow> False)"

definition delete_start :: "owned_handle \<Rightarrow> nat \<Rightarrow> mapping_effect" where
  "delete_start h already_sent =
     (let e = (blank (oh_protocol h))\<lparr>me_handle := Some h, me_requests_sent := already_sent,
            me_granted_lifetime_sec := Some (oh_granted_lifetime_sec h),
            me_assigned_port := Some (oh_external_port h), me_epoch := Some (oh_epoch h)\<rparr>
      in if oh_granted_lifetime_sec h = 0 \<or> oh_granted_lifetime_sec h > MAPPING_MAXIMUM_LEASE_SEC
         then e\<lparr>me_outcome := OutcomeUnsupportedFiniteLease, me_refusal := Some OverlongOrZeroGrant,
                me_error := Some ErrorLeaseRefused\<rparr>
         else e)"

definition delete_answered :: "owned_handle \<Rightarrow> u32 option \<Rightarrow> bytes \<Rightarrow> mapping_effect \<Rightarrow> mapping_effect" where
  "delete_answered h previous_epoch body e =
     (case decode_reply (oh_protocol h) body of
        Inl _ \<Rightarrow> e\<lparr>me_outcome := OutcomeExpiryUnknown, me_cleanup := CleanupExpiryUnknown,
                  me_refusal := Some Truncated, me_error := Some ErrorCleanupFailed\<rparr>
      | Inr p \<Rightarrow>
          if \<not> delete_matches h p \<or> rebooted previous_epoch (pp_epoch p)
          then e\<lparr>me_gateway_rebooted := rebooted previous_epoch (pp_epoch p),
                 me_outcome := OutcomeExpiryUnknown, me_cleanup := CleanupExpiryUnknown,
                 me_refusal := Some (if rebooted previous_epoch (pp_epoch p) then Rebooted else AmbiguousOwnership),
                 me_error := Some ErrorCleanupFailed, me_epoch := Some (pp_epoch p)\<rparr>
          else let e = e\<lparr>me_epoch := Some (pp_epoch p)\<rparr>
          in if reply_class (oh_protocol h) (pp_result p) = ClassSuccess \<and> pp_lifetime p = 0
             then (if me_refusal e = None then e\<lparr>me_outcome := OutcomeSucceeded\<rparr> else e)
                    \<lparr>me_cleanup := CleanupConfirmedDeleted, me_error := None\<rparr>
             else e\<lparr>me_cleanup := CleanupDeleteFailed, me_refusal := Some Denied,
                    me_error := Some ErrorCleanupFailed\<rparr>)"

definition send_delete ::
  "crates \<Rightarrow> owned_handle \<Rightarrow> selected_gateway \<Rightarrow> bytes \<Rightarrow> u32 option \<Rightarrow> 's transport \<Rightarrow> 's canceller \<Rightarrow> nat
     \<Rightarrow> 's \<Rightarrow> mapping_effect \<times> 's" where
  "send_delete cr h gateway request previous_epoch transport cancelled already_sent s =
     (let e = delete_start h already_sent; (stop, s1) = cancelled s
      in if stop
         then ((if already_sent = 0 \<and> finite_lease MAPPING_MAXIMUM_LEASE_SEC (oh_granted_lifetime_sec h)
                then e\<lparr>me_outcome := OutcomeFailed, me_cleanup := CleanupLeaseExpiryPending\<rparr>
                else e\<lparr>me_outcome := OutcomeExpiryUnknown, me_cleanup := CleanupExpiryUnknown\<rparr>)
               \<lparr>me_refusal := Some MappingCancelled\<rparr>, s1)
         else (case exchange_with_gateway cr gateway (oh_protocol h) None request transport cancelled s1 of
             (Inl err, s2) \<Rightarrow>
               (e\<lparr>me_outcome := OutcomeExpiryUnknown, me_cleanup := CleanupExpiryUnknown,
                  me_refusal := Some (transport_refusal err), me_error := Some ErrorCleanupFailed,
                  me_requests_sent := min (already_sent + 1) 255\<rparr>, s2)
           | (Inr body, s2) \<Rightarrow>
               (delete_answered h previous_epoch body (e\<lparr>me_requests_sent := min (already_sent + 1) 255\<rparr>), s2)))"

definition delete_allowed :: "owned_handle \<Rightarrow> selected_gateway \<Rightarrow> exclusive_reservation option \<Rightarrow> bool" where
  "delete_allowed h gateway reservation \<longleftrightarrow>
     oh_cleanup_authorized h
     \<and> (case oh_reservation_digest h of
          Some dg \<Rightarrow> (case reservation of None \<Rightarrow> False | Some r \<Rightarrow> authorizes r gateway \<and> er_digest r = dg)
        | None \<Rightarrow> oh_protocol h = RouterPcp)"

section \<open>Creation\<close>

definition adopt_or_refuse ::
  "crates \<Rightarrow> mapping_effect \<Rightarrow> map_parts \<Rightarrow> parsed_reply \<Rightarrow> selected_gateway \<Rightarrow> 's transport \<Rightarrow> 's canceller \<Rightarrow> 's
     \<Rightarrow> mapping_effect \<times> 's" where
  "adopt_or_refuse cr e parts p gateway transport cancelled s =
     (let finite = finite_lease (mp_ceiling parts) (pp_lifetime p)
      in if pp_assigned_ip p = None \<and> mp_protocol parts = RouterPcp
         then (e\<lparr>me_outcome := OutcomeCreationOutcomeUnknown, me_cleanup := CleanupExpiryUnknown,
                 me_refusal := Some MappingMalformed, me_error := Some ErrorInvalidResponse\<rparr>, s)
         else if pp_assigned_port p = 0 \<and> finite
         then (e\<lparr>me_outcome := OutcomeCreationOutcomeUnknown, me_cleanup := CleanupExpiryUnknown,
                 me_refusal := Some MappingMalformed, me_error := Some ErrorInvalidResponse,
                 me_handle := None\<rparr>, s)
         else if \<not> finite
         then (let authorized = mp_reservation_authorizes_delete parts;
                   h = correlated_handle parts (pp_assigned_port p) (pp_lifetime p) (pp_epoch p) authorized
               in if \<not> authorized
                  then (e\<lparr>me_handle := Some h, me_outcome := OutcomeUnsupportedSafeOwnership,
                          me_cleanup := CleanupExpiryUnknown, me_refusal := Some AmbiguousOwnership,
                          me_error := Some ErrorLeaseRefused\<rparr>, s)
                  else send_delete cr h gateway (delete_packet h) (Some (pp_epoch p)) transport cancelled
                         (me_requests_sent e) s)
         else let h = (correlated_handle parts (pp_assigned_port p) (pp_lifetime p) (pp_epoch p) True)
                        \<lparr>oh_external_address := pp_assigned_ip p\<rparr>
         in (e\<lparr>me_outcome := OutcomeSucceeded, me_cleanup := CleanupLeaseExpiryPending, me_refusal := None,
               me_error := None, me_handle := Some h,
               me_port_changed := (pp_assigned_port p \<noteq> mp_internal_port parts),
               me_lease_clamped := (pp_lifetime p < MAPPING_REQUESTED_LEASE_SEC)\<rparr>, s))"

definition create_answered ::
  "crates \<Rightarrow> map_parts \<Rightarrow> selected_gateway \<Rightarrow> 's transport \<Rightarrow> 's canceller \<Rightarrow> (parsed_reply \<Rightarrow> server_class)
     \<Rightarrow> parsed_reply \<Rightarrow> 's \<Rightarrow> mapping_effect \<times> 's" where
  "create_answered cr parts gateway transport cancelled class_of p s =
     (let e = (blank (mp_protocol parts))\<lparr>me_requests_sent := 1, me_epoch := Some (pp_epoch p),
            me_granted_lifetime_sec := Some (pp_lifetime p), me_assigned_port := Some (pp_assigned_port p)\<rparr>;
          reboot = rebooted (mp_previous_epoch parts) (pp_epoch p)
      in if \<not> pp_version_ok p \<or> \<not> pp_opcode_ok p
         then ((if pp_result p = 0
                then e\<lparr>me_outcome := OutcomeCreationOutcomeUnknown, me_cleanup := CleanupExpiryUnknown\<rparr>
                else e\<lparr>me_outcome := OutcomeFailed, me_cleanup := CleanupNotCreated\<rparr>)
               \<lparr>me_refusal := Some ProtocolUnsupported, me_error := Some ErrorInvalidResponse,
                me_gateway_rebooted := reboot\<rparr>, s)
         else (case class_of p of
             ClassDenied \<Rightarrow> ((explicit_refusal e Denied ErrorTokenRefused)\<lparr>me_gateway_rebooted := reboot\<rparr>, s)
           | ClassUnsupported \<Rightarrow>
               ((explicit_refusal e ProtocolUnsupported ErrorInvalidResponse)\<lparr>me_gateway_rebooted := reboot\<rparr>, s)
           | ClassConflict \<Rightarrow> ((explicit_refusal e Conflict ErrorMappingConflict)\<lparr>me_gateway_rebooted := reboot\<rparr>, s)
           | ClassFailed \<Rightarrow> ((explicit_refusal e Denied ErrorInvalidResponse)\<lparr>me_gateway_rebooted := reboot\<rparr>, s)
           | ClassSuccess \<Rightarrow>
               if reboot \<and> finite_lease (mp_ceiling parts) (pp_lifetime p) \<and> pp_assigned_port p \<noteq> 0
               then (e\<lparr>me_gateway_rebooted := True, me_outcome := OutcomeExpiryUnknown,
                       me_cleanup := CleanupExpiryUnknown, me_refusal := Some Rebooted,
                       me_handle := Some (correlated_handle parts (pp_assigned_port p) (pp_lifetime p)
                         (pp_epoch p) False)\<rparr>, s)
               else let (e', s') = adopt_or_refuse cr e parts p gateway transport cancelled s
               in (e'\<lparr>me_gateway_rebooted := me_gateway_rebooted e' \<or> reboot\<rparr>, s')))"

definition exchange_create ::
  "crates \<Rightarrow> map_parts \<Rightarrow> selected_gateway \<Rightarrow> bytes \<Rightarrow> 's transport \<Rightarrow> 's canceller
     \<Rightarrow> (bytes \<Rightarrow> decode_fault + (parsed_reply \<times> bool)) \<Rightarrow> (parsed_reply \<Rightarrow> server_class) \<Rightarrow> 's
     \<Rightarrow> mapping_effect \<times> 's" where
  "exchange_create cr parts gateway request transport cancelled decode class_of s =
     (let (stop, s1) = cancelled s
      in if stop then (local_refusal (mp_protocol parts) MappingCancelled, s1)
         else (case exchange_with_gateway cr gateway (mp_protocol parts) None request transport cancelled s1 of
             (Inl err, s2) \<Rightarrow> (lost (mp_protocol parts) 1 (transport_refusal err) (transport_error err), s2)
           | (Inr body, s2) \<Rightarrow>
               (case decode body of
                  Inl FaultTruncated \<Rightarrow> (lost (mp_protocol parts) 1 Truncated ErrorInvalidResponse, s2)
                | Inl _ \<Rightarrow> (lost (mp_protocol parts) 1 MappingMalformed ErrorInvalidResponse, s2)
                | Inr (p, matches) \<Rightarrow>
                    if \<not> matches then (lost (mp_protocol parts) 1 ReplayOrMismatch ErrorInvalidResponse, s2)
                    else create_answered cr parts gateway transport cancelled class_of p s2)))"

definition pcp_request :: "pcp_map \<Rightarrow> bytes" where
  "pcp_request input = encode_pcp (pm_local_address input) (pcp_number (pm_protocol input))
     (pm_internal_port input) (pm_internal_port input) (pm_nonce input) MAPPING_REQUESTED_LEASE_SEC"

definition map_pcp ::
  "crates \<Rightarrow> selected_gateway \<Rightarrow> pcp_map \<Rightarrow> 's transport \<Rightarrow> 's canceller \<Rightarrow> 's \<Rightarrow> mapping_effect \<times> 's" where
  "map_pcp cr gateway input transport cancelled s =
     (case lease_ceiling (pm_maximum_lease_sec input) of
        None \<Rightarrow> (local_refusal RouterPcp BadLifetimeCeiling, s)
      | Some ceiling \<Rightarrow>
     if pm_internal_port input < MAPPING_HIGH_PORT_MIN then (local_refusal RouterPcp LowPort, s)
     else if \<not> usable_ipv4 (pm_local_address input) then (local_refusal RouterPcp BadClientAddress, s)
     else if pm_nonce input = replicate 12 0 then (local_refusal RouterPcp TrivialNonce, s)
     else exchange_create cr
       \<lparr>mp_protocol = RouterPcp, mp_port_protocol = pm_protocol input,
        mp_internal_port = pm_internal_port input, mp_client = pm_local_address input,
        mp_previous_epoch = pm_previous_epoch input, mp_ceiling = ceiling,
        mp_reservation_authorizes_delete =
          (case pm_reservation input of None \<Rightarrow> False | Some r \<Rightarrow> authorizes r gateway),
        mp_nonce = Some (pm_nonce input),
        mp_digest = (case pm_reservation input of
            None \<Rightarrow> None | Some r \<Rightarrow> if authorizes r gateway then Some (er_digest r) else None)\<rparr>
       gateway (pcp_request input) transport cancelled
       (\<lambda>body. res_bind (decode_pcp body) (\<lambda>p. Inr (p, pp_nonce p = Some (pm_nonce input)
          \<and> pp_protocol p = pcp_number (pm_protocol input) \<and> pp_internal_port p = pm_internal_port input)))
       (\<lambda>p. pcp_class (pp_result p)) s)"

definition natpmp_request :: "nat_pmp_map \<Rightarrow> bytes" where
  "natpmp_request input = encode_natpmp (natpmp_number (nm_protocol input)) (nm_internal_port input)
     (nm_internal_port input) MAPPING_REQUESTED_LEASE_SEC"

definition map_nat_pmp ::
  "crates \<Rightarrow> selected_gateway \<Rightarrow> nat_pmp_map \<Rightarrow> 's transport \<Rightarrow> 's canceller \<Rightarrow> 's \<Rightarrow> mapping_effect \<times> 's" where
  "map_nat_pmp cr gateway input transport cancelled s =
     (case lease_ceiling (nm_maximum_lease_sec input) of
        None \<Rightarrow> (local_refusal RouterNatPmp BadLifetimeCeiling, s)
      | Some ceiling \<Rightarrow>
     if nm_internal_port input < MAPPING_HIGH_PORT_MIN then (local_refusal RouterNatPmp LowPort, s)
     else (case nm_reservation input of
        None \<Rightarrow> (local_refusal RouterNatPmp MissingReservation, s)
      | Some reservation \<Rightarrow>
     if \<not> authorizes reservation gateway then (local_refusal RouterNatPmp ReservationGatewayMismatch, s)
     else exchange_create cr
       \<lparr>mp_protocol = RouterNatPmp, mp_port_protocol = nm_protocol input,
        mp_internal_port = nm_internal_port input, mp_client = ipv4_unspecified,
        mp_previous_epoch = nm_previous_epoch input, mp_ceiling = ceiling,
        mp_reservation_authorizes_delete = True, mp_nonce = None,
        mp_digest = Some (er_digest reservation)\<rparr>
       gateway (natpmp_request input) transport cancelled
       (\<lambda>body. res_bind (decode_natpmp body) (\<lambda>p. Inr (p, pp_protocol p = natpmp_number (nm_protocol input)
          \<and> pp_internal_port p = nm_internal_port input)))
       (\<lambda>p. natpmp_class (pp_result p)) s))"

section \<open>Lemmas on the codecs\<close>

lemma length_encode_pcp: "length nonce = 12 \<Longrightarrow> length (encode_pcp a p i e nonce l) = 60"
  by (simp add: encode_pcp_def ipv4_mapped_def octets_def)

lemma length_encode_natpmp [simp]: "length (encode_natpmp opcode i e l) = 12"
  by (simp add: encode_natpmp_def)

lemma zeros:
  "replicate 10 (0 :: byte) = [0, 0, 0, 0, 0, 0, 0, 0, 0, 0]"
  "replicate 12 (0 :: byte) = [0, 0, 0, 0, 0, 0, 0, 0, 0, 0, 0, 0]"
  "replicate 16 (0 :: byte) = [0, 0, 0, 0, 0, 0, 0, 0, 0, 0, 0, 0, 0, 0, 0, 0]"
  by (simp_all add: eval_nat_numeral)

lemma mapped_ipv4_mapped: "mapped_ipv4 (ipv4_mapped a) = (if usable_ipv4 a then Some a else None)"
  by (simp add: mapped_ipv4_def ipv4_mapped_def octets_def be32_def ipv4_new_def zeros Let_def)

lemma length_12E:
  assumes "length xs = 12"
  obtains a b c d e f g h i j k l where "xs = [a, b, c, d, e, f, g, h, i, j, k, l]"
  using assms by (auto simp: length_Suc_conv eval_nat_numeral)

text \<open>What a router answers to a MAP request \<open>q\<close>, by RFC 6887 and RFC 6886.\<close>

definition pcp_reply :: "bytes \<Rightarrow> byte \<Rightarrow> u32 \<Rightarrow> u32 \<Rightarrow> u16 \<Rightarrow> ipv4 \<Rightarrow> bytes" where
  "pcp_reply q result lifetime epoch port a =
     [q ! 0, q ! 1 OR 0x80, 0, result] @ be32 lifetime @ be32 epoch @ replicate 12 0
     @ take 16 (drop 24 q) @ take 2 (drop 40 q) @ be16 port @ ipv4_mapped a"

definition natpmp_reply :: "bytes \<Rightarrow> u16 \<Rightarrow> u32 \<Rightarrow> u32 \<Rightarrow> u16 \<Rightarrow> bytes" where
  "natpmp_reply q result epoch lifetime port =
     [q ! 0, q ! 1 OR 0x80] @ be16 result @ be32 epoch @ take 2 (drop 4 q) @ be16 port @ be32 lifetime"

lemma decode_pcp_reply:
  assumes "length nonce = 12"
  shows "decode_pcp (pcp_reply (encode_pcp client protocol i x nonce asked) result lifetime epoch port a)
    = Inr \<lparr>pp_version_ok = True, pp_opcode_ok = True, pp_result = ucast result, pp_lifetime = lifetime,
        pp_epoch = epoch, pp_protocol = protocol, pp_internal_port = i, pp_assigned_port = port,
        pp_nonce = Some nonce, pp_assigned_ip = (if usable_ipv4 a then Some a else None)\<rparr>"
proof -
  obtain n0 n1 n2 n3 n4 n5 n6 n7 n8 n9 n10 n11 where
    nonce: "nonce = [n0, n1, n2, n3, n4, n5, n6, n7, n8, n9, n10, n11]"
    using assms by (rule length_12E)
  note tail = mapped_ipv4_mapped [of a, unfolded ipv4_mapped_def octets_def be32_def zeros, simplified]
  show ?thesis
    using tail
    by (simp add: nonce decode_pcp_def pcp_reply_def encode_pcp_def ipv4_mapped_def octets_def be32_def be16_def
        u32_at_def u16_at_def PCP_MAP_PACKET_BYTES_def PCP_VERSION_def PCP_MAP_OPCODE_def PCP_RESPONSE_BIT_def
        zeros)
qed

lemma decode_natpmp_reply:
  "decode_natpmp (natpmp_reply (encode_natpmp (natpmp_number pr) i x asked) result epoch lifetime port)
    = Inr \<lparr>pp_version_ok = True, pp_opcode_ok = True, pp_result = result, pp_lifetime = lifetime,
        pp_epoch = epoch, pp_protocol = natpmp_number pr, pp_internal_port = i, pp_assigned_port = port,
        pp_nonce = None, pp_assigned_ip = None\<rparr>"
  by (cases pr)
    (simp_all add: decode_natpmp_def natpmp_reply_def encode_natpmp_def be32_def be16_def u32_at_def u16_at_def
      NATPMP_MAP_RESPONSE_BYTES_def NATPMP_VERSION_def NATPMP_TCP_def NATPMP_UDP_def NATPMP_RESPONSE_BIT_def
      from_natpmp_def)

section \<open>Lemmas on the effects\<close>

lemma lease_ceiling_Some: "lease_ceiling m = Some c \<longleftrightarrow> c = ucast m \<and> 60 \<le> c \<and> c \<le> 120"
  by (auto simp: lease_ceiling_def Let_def MAPPING_REQUESTED_LEASE_SEC_def MAPPING_MAXIMUM_LEASE_SEC_def)

lemma blank_fields [simp]:
  "me_outcome (blank p) = OutcomeFailed" "me_cleanup (blank p) = CleanupNotCreated"
  "me_handle (blank p) = None" "me_requests_sent (blank p) = 0" "me_refusal (blank p) = None"
  by (simp_all add: blank_def)

lemma local_refusal_fields [simp]:
  "me_cleanup (local_refusal p r) = CleanupNotCreated" "me_handle (local_refusal p r) = None"
  "me_requests_sent (local_refusal p r) = 0" "me_outcome (local_refusal p r) \<noteq> OutcomeSucceeded"
  by (simp_all add: local_refusal_def)

lemma lost_fields [simp]:
  "me_cleanup (lost p n r e) = CleanupExpiryUnknown" "me_handle (lost p n r e) = None"
  "me_requests_sent (lost p n r e) = n" "me_outcome (lost p n r e) = OutcomeCreationOutcomeUnknown"
  by (simp_all add: lost_def)

lemma explicit_fields [simp]:
  "me_cleanup (explicit_refusal e r x) = CleanupNotCreated" "me_handle (explicit_refusal e r x) = None"
  "me_requests_sent (explicit_refusal e r x) = me_requests_sent e"
  "me_outcome (explicit_refusal e r x) = OutcomeFailed"
  by (simp_all add: explicit_refusal_def)

lemma delete_start_fields [simp]:
  "me_handle (delete_start h n) = Some h" "me_requests_sent (delete_start h n) = n"
  "me_outcome (delete_start h n) \<noteq> OutcomeSucceeded" "me_cleanup (delete_start h n) = CleanupNotCreated"
  by (simp_all add: delete_start_def Let_def)

lemma delete_answered_fields:
  "me_handle (delete_answered h ep body e) = me_handle e"
  "me_requests_sent (delete_answered h ep body e) = me_requests_sent e"
  "me_cleanup (delete_answered h ep body e) \<in> {CleanupExpiryUnknown, CleanupConfirmedDeleted, CleanupDeleteFailed}"
  "me_outcome e \<noteq> OutcomeSucceeded \<Longrightarrow> me_outcome (delete_answered h ep body e) = OutcomeSucceeded
     \<Longrightarrow> me_cleanup (delete_answered h ep body e) = CleanupConfirmedDeleted"
  by (auto simp: delete_answered_def Let_def split: sum.splits if_splits)

lemma delete_answered_not_pending [simp]:
  "me_cleanup (delete_answered h ep body e) \<noteq> CleanupLeaseExpiryPending"
  using delete_answered_fields(3) [of h ep body e] by auto

lemma delete_confirmed:
  assumes "me_cleanup (delete_answered h ep body e) = CleanupConfirmedDeleted"
  shows "\<exists>p. decode_reply (oh_protocol h) body = Inr p \<and> delete_matches h p \<and> \<not> rebooted ep (pp_epoch p)
    \<and> reply_class (oh_protocol h) (pp_result p) = ClassSuccess \<and> pp_lifetime p = 0"
  using assms by (auto simp: delete_answered_def Let_def split: sum.splits if_splits)

lemma send_delete_fields:
  assumes "send_delete cr h g q ep t c n s = (e, s')"
  shows "me_handle e = Some h \<and> n \<le> me_requests_sent e \<and> me_requests_sent e \<le> n + 1
    \<or> n > 255"
    and "me_cleanup e = CleanupLeaseExpiryPending \<Longrightarrow> n = 0"
    and "me_outcome e = OutcomeSucceeded \<Longrightarrow> me_cleanup e = CleanupConfirmedDeleted"
  using assms delete_answered_fields
  by (auto simp: send_delete_def Let_def split: prod.splits sum.splits if_splits)

text \<open>
  What an attempt to create a mapping may have handed to the router: nothing, the request, or the
  request and the deletion of a grant that the reservation authorises to delete. Only a finite lease the
  caller may delete is left pending.
\<close>

definition create_ok :: "map_parts \<Rightarrow> socket_addr \<Rightarrow> bytes \<Rightarrow> mapping_effect \<Rightarrow> (socket_addr \<times> bytes) list \<Rightarrow> bool" where
  "create_ok parts dest request e log \<longleftrightarrow>
     length log \<le> me_requests_sent e \<and> me_requests_sent e \<le> 2
     \<and> (log = [] \<or> log = [(dest, request)]
        \<or> (\<exists>h. me_handle e = Some h \<and> mp_reservation_authorizes_delete parts
             \<and> \<not> finite_lease (mp_ceiling parts) (oh_granted_lifetime_sec h)
             \<and> log = [(dest, request), (dest, delete_packet h)]))
     \<and> (me_cleanup e = CleanupLeaseExpiryPending \<longrightarrow>
          me_outcome e = OutcomeSucceeded \<and> log = [(dest, request)]
          \<and> (\<exists>h. me_handle e = Some h \<and> oh_cleanup_authorized h \<and> oh_protocol h = mp_protocol parts
               \<and> oh_internal_port h = mp_internal_port parts
               \<and> finite_lease (mp_ceiling parts) (oh_granted_lifetime_sec h)))
     \<and> (me_outcome e = OutcomeSucceeded \<longrightarrow>
          me_cleanup e = CleanupLeaseExpiryPending \<or> me_cleanup e = CleanupConfirmedDeleted)"

lemma create_ok_reboot [simp]: "create_ok parts d q (e\<lparr>me_gateway_rebooted := b\<rparr>) log = create_ok parts d q e log"
  by (simp add: create_ok_def)

lemma create_ok_quiet:
  "me_cleanup e \<in> {CleanupNotCreated, CleanupExpiryUnknown} \<Longrightarrow> me_outcome e \<noteq> OutcomeSucceeded
     \<Longrightarrow> length log \<le> me_requests_sent e \<Longrightarrow> me_requests_sent e \<le> 2 \<Longrightarrow> log = [] \<or> log = [(d, q)]
     \<Longrightarrow> create_ok parts d q e log"
  by (auto simp: create_ok_def)

lemma correlated_handle_fields [simp]:
  "oh_protocol (correlated_handle parts x l ep b) = mp_protocol parts"
  "oh_granted_lifetime_sec (correlated_handle parts x l ep b) = l"
  "oh_cleanup_authorized (correlated_handle parts x l ep b) = b"
  "oh_internal_port (correlated_handle parts x l ep b) = mp_internal_port parts"
  by (simp_all add: correlated_handle_def)

context router_link
begin

lemma send_delete_sent:
  assumes "send_delete cr h g q ep exchange cancelled n s = (e, s')" and "n \<le> 1"
    and "control_destination cr g (oh_protocol h) None = Inr d"
  shows "(sent s' = sent s \<and> me_cleanup e \<noteq> CleanupConfirmedDeleted)
    \<or> (sent s' = sent s @ [(d, q)] \<and> me_requests_sent e = n + 1)"
proof -
  obtain stop s1 where c: "cancelled s = (stop, s1)" by (cases "cancelled s")
  obtain r s2 where x: "exchange_with_gateway cr g (oh_protocol h) None q exchange cancelled s1 = (r, s2)"
    by (metis surj_pair)
  note s1 = cancelled_sent [OF c]
  show ?thesis
  proof (cases "stop")
    case True
    then show ?thesis using assms(1) s1 by (auto simp: send_delete_def Let_def c split: if_splits)
  next
    case go: False
    show ?thesis
    proof (cases r)
      case (Inl err)
      then show ?thesis
        using assms go s1 exchange_with_gateway_sent [OF x]
        by (auto simp: send_delete_def Let_def c x)
    next
      case (Inr body)
      have "sent s2 = sent s @ [(d, q)]"
        using exchange_with_gateway_answered [OF x [unfolded Inr]] s1 assms(3) by auto
      then show ?thesis
        using assms(1,2) go delete_answered_fields(2) by (auto simp: send_delete_def Let_def c x Inr)
    qed
  qed
qed

lemma adopt_or_refuse_ok:
  assumes "adopt_or_refuse cr e0 parts p g exchange cancelled s = (e, s')"
    and "me_requests_sent e0 = 1" "me_outcome e0 \<noteq> OutcomeSucceeded"
    and "control_destination cr g (mp_protocol parts) None = Inr d" and "sent s = base @ [(d, q)]"
  shows "\<exists>log. sent s' = base @ log \<and> create_ok parts d q e log"
proof -
  let ?h = "correlated_handle parts (pp_assigned_port p) (pp_lifetime p) (pp_epoch p) True"
  consider (ip) "pp_assigned_ip p = None" "mp_protocol parts = RouterPcp"
    | (port) "\<not> (pp_assigned_ip p = None \<and> mp_protocol parts = RouterPcp)" "pp_assigned_port p = 0"
        "finite_lease (mp_ceiling parts) (pp_lifetime p)"
    | (ambiguous) "\<not> (pp_assigned_ip p = None \<and> mp_protocol parts = RouterPcp)"
        "\<not> finite_lease (mp_ceiling parts) (pp_lifetime p)" "\<not> mp_reservation_authorizes_delete parts"
    | (refused) "\<not> (pp_assigned_ip p = None \<and> mp_protocol parts = RouterPcp)"
        "\<not> finite_lease (mp_ceiling parts) (pp_lifetime p)" "mp_reservation_authorizes_delete parts"
    | (adopted) "\<not> (pp_assigned_ip p = None \<and> mp_protocol parts = RouterPcp)" "pp_assigned_port p \<noteq> 0"
        "finite_lease (mp_ceiling parts) (pp_lifetime p)"
    by metis
  then show ?thesis
  proof cases
    case refused
    then have del: "send_delete cr ?h g (delete_packet ?h) (Some (pp_epoch p)) exchange cancelled 1 s = (e, s')"
      using assms(1,2) by (auto simp: adopt_or_refuse_def Let_def)
    have "control_destination cr g (oh_protocol ?h) None = Inr d" using assms(4) by simp
    from send_delete_sent [OF del _ this] send_delete_fields [OF del]
    consider "sent s' = base @ [(d, q)]" | "sent s' = base @ [(d, q), (d, delete_packet ?h)]" "me_requests_sent e = 2"
      using assms(5) by fastforce
    then show ?thesis
      using send_delete_fields [OF del] refused by cases (auto simp: create_ok_def)
  qed (use assms in \<open>auto simp: adopt_or_refuse_def create_ok_def Let_def\<close>)
qed

lemma create_answered_ok:
  assumes "create_answered cr parts g exchange cancelled class_of p s = (e, s')"
    and "control_destination cr g (mp_protocol parts) None = Inr d" and "sent s = base @ [(d, q)]"
  shows "\<exists>log. sent s' = base @ log \<and> create_ok parts d q e log"
proof (cases "pp_version_ok p \<and> pp_opcode_ok p \<and> class_of p = ClassSuccess
    \<and> \<not> (rebooted (mp_previous_epoch parts) (pp_epoch p) \<and> finite_lease (mp_ceiling parts) (pp_lifetime p)
         \<and> pp_assigned_port p \<noteq> 0)")
  case True
  then obtain e0 e1 where "adopt_or_refuse cr e0 parts p g exchange cancelled s = (e1, s')"
    "me_requests_sent e0 = 1" "me_outcome e0 \<noteq> OutcomeSucceeded"
    "e = e1\<lparr>me_gateway_rebooted := me_gateway_rebooted e1 \<or> rebooted (mp_previous_epoch parts) (pp_epoch p)\<rparr>"
    using assms(1) by (auto simp: create_answered_def Let_def split: prod.splits)
  then show ?thesis using adopt_or_refuse_ok [OF _ _ _ assms(2,3)] by fastforce
next
  case False
  then have "s' = s" "me_cleanup e \<in> {CleanupNotCreated, CleanupExpiryUnknown}" "me_outcome e \<noteq> OutcomeSucceeded"
    "me_requests_sent e = 1"
    using assms(1) by (auto simp: create_answered_def Let_def split: if_splits server_class.splits)
  then show ?thesis
    using assms(3) by (intro exI [of _ "[(d, q)]"]) (auto intro!: create_ok_quiet)
qed

lemma exchange_create_ok:
  assumes "exchange_create cr parts g q exchange cancelled decode class_of s = (e, s')"
    and "control_destination cr g (mp_protocol parts) None = Inr d"
  shows "\<exists>log. sent s' = sent s @ log \<and> create_ok parts d q e log"
proof -
  obtain stop s1 where c: "cancelled s = (stop, s1)" by (cases "cancelled s")
  obtain r s2 where x: "exchange_with_gateway cr g (mp_protocol parts) None q exchange cancelled s1 = (r, s2)"
    by (metis surj_pair)
  have s1: "sent s1 = sent s" by (rule cancelled_sent [OF c])
  have s2: "sent s2 = sent s \<or> sent s2 = sent s @ [(d, q)]"
    using exchange_with_gateway_sent [OF x] assms(2) s1 by auto
  show ?thesis
  proof (cases "\<not> stop \<and> (\<exists>body p. r = Inr body \<and> decode body = Inr (p, True))")
    case True
    then obtain body p where b: "\<not> stop" "r = Inr body" "decode body = Inr (p, True)" by blast
    then have "create_answered cr parts g exchange cancelled class_of p s2 = (e, s')"
      using assms(1) by (simp add: exchange_create_def c x)
    moreover have "sent s2 = sent s @ [(d, q)]"
      using exchange_with_gateway_answered [OF x [unfolded b(2)]] assms(2) s1 by simp
    ultimately show ?thesis using create_answered_ok assms(2) by blast
  next
    case False
    then have "(s' = s1 \<and> me_requests_sent e = 0) \<or> (s' = s2 \<and> me_requests_sent e = 1)"
      "me_cleanup e \<in> {CleanupNotCreated, CleanupExpiryUnknown}" "me_outcome e \<noteq> OutcomeSucceeded"
      using assms(1)
      by (auto simp: exchange_create_def c x split: if_splits sum.splits decode_fault.splits prod.splits bool.splits)
    then show ?thesis
      using s1 s2 by (elim disjE) (auto intro!: create_ok_quiet exI [of _ "[]"] exI [of _ "[(d, q)]"])
  qed
qed

end

lemma length_pcp_reply: "length q = 60 \<Longrightarrow> length (pcp_reply q r l ep port a) = 60"
  by (simp add: pcp_reply_def ipv4_mapped_def octets_def)

lemma exchange_answered_by:
  assumes "\<And>s. c s = (False, s)" and "length q = 60"
    and "t s (sg_gateway g, 5351) q 1100 = (Inr 60, pcp_reply q r lifetime epoch port a, s')"
  shows "exchange_with_gateway cr g RouterPcp None q t c s = (Inr (pcp_reply q r lifetime epoch port a), s')"
proof -
  have "take 60 (fill_buffer 1100 (pcp_reply q r lifetime epoch port a)) = pcp_reply q r lifetime epoch port a"
    using length_pcp_reply [OF assms(2)] by (simp add: fill_buffer_def)
  then show ?thesis
    using assms by (auto simp: exchange_with_gateway_def ROUTER_CONTROL_PORT_def CONTROL_MAX_BYTES_def)
qed

section \<open>Properties\<close>

text \<open>
  C29. Requests and replies agree on their layout: the reply a router builds for an encoded MAP request is
  decoded to the request's protocol, port and nonce together with the granted lifetime, epoch, port and
  address, for PCP and for NAT-PMP.
\<close>

theorem mapping_reply_roundtrip:
  assumes "length nonce = 12"
  shows "decode_pcp (pcp_reply (encode_pcp client protocol i x nonce asked) result lifetime epoch port a)
      = Inr \<lparr>pp_version_ok = True, pp_opcode_ok = True, pp_result = ucast result, pp_lifetime = lifetime,
          pp_epoch = epoch, pp_protocol = protocol, pp_internal_port = i, pp_assigned_port = port,
          pp_nonce = Some nonce, pp_assigned_ip = (if usable_ipv4 a then Some a else None)\<rparr>
    \<and> decode_natpmp (natpmp_reply (encode_natpmp (natpmp_number pr) i x asked) status epoch lifetime port)
      = Inr \<lparr>pp_version_ok = True, pp_opcode_ok = True, pp_result = status, pp_lifetime = lifetime,
          pp_epoch = epoch, pp_protocol = natpmp_number pr, pp_internal_port = i, pp_assigned_port = port,
          pp_nonce = None, pp_assigned_ip = None\<rparr>"
  using decode_pcp_reply [OF assms] decode_natpmp_reply by blast

text \<open>
  C30. A PCP attempt is bounded whatever the router and the cancellation do: it hands over at most the
  60-second request and one deletion, the latter only under a reservation for this gateway, both at port
  5351 of the gateway; a mapping left to expire is owned, deletable and its lease lies between 1 and the
  caller's ceiling, at most 120 seconds.
\<close>

theorem pcp_attempt_bounded:
  assumes "map_pcp cr g input (observed_exchange t) (observed_cancelled c) (s, []) = (e, s', log)"
  shows "length log \<le> me_requests_sent e \<and> me_requests_sent e \<le> 2
    \<and> (log = [] \<or> log = [((sg_gateway g, 5351), pcp_request input)]
       \<or> (\<exists>h r. me_handle e = Some h \<and> pm_reservation input = Some r \<and> authorizes r g
            \<and> log = [((sg_gateway g, 5351), pcp_request input), ((sg_gateway g, 5351), delete_packet h)]))
    \<and> (me_cleanup e = CleanupLeaseExpiryPending \<longrightarrow> me_outcome e = OutcomeSucceeded
       \<and> (\<exists>h. me_handle e = Some h \<and> oh_cleanup_authorized h \<and> oh_internal_port h = pm_internal_port input
            \<and> 1 \<le> oh_granted_lifetime_sec h \<and> oh_granted_lifetime_sec h \<le> ucast (pm_maximum_lease_sec input)
            \<and> oh_granted_lifetime_sec h \<le> 120))"
proof -
  have dest: "control_destination cr g RouterPcp None = Inr (sg_gateway g, 5351)"
    by (simp add: ROUTER_CONTROL_PORT_def)
  show ?thesis
  proof (cases "\<exists>ceiling. lease_ceiling (pm_maximum_lease_sec input) = Some ceiling
      \<and> \<not> pm_internal_port input < MAPPING_HIGH_PORT_MIN \<and> usable_ipv4 (pm_local_address input)
      \<and> pm_nonce input \<noteq> replicate 12 0")
    case False
    then have "log = []" "me_requests_sent e = 0" "me_cleanup e = CleanupNotCreated"
      using assms by (auto simp: map_pcp_def split: option.splits if_splits)
    then show ?thesis by simp
  next
    case True
    then obtain ceiling parts decode class_of where ceiling: "lease_ceiling (pm_maximum_lease_sec input) = Some ceiling"
      and x: "exchange_create cr parts g (pcp_request input) (observed_exchange t) (observed_cancelled c) decode class_of
          (s, []) = (e, s', log)"
      and parts: "mp_protocol parts = RouterPcp" "mp_ceiling parts = ceiling"
        "mp_internal_port parts = pm_internal_port input"
        "mp_reservation_authorizes_delete parts \<longleftrightarrow> (\<exists>r. pm_reservation input = Some r \<and> authorizes r g)"
      using assms by (auto simp: map_pcp_def split: option.splits)
    have "create_ok parts (sg_gateway g, 5351) (pcp_request input) e log"
      using observed.exchange_create_ok [OF x] dest parts(1) by auto
    then show ?thesis
      using ceiling parts unfolding create_ok_def lease_ceiling_Some finite_lease_def by auto
  qed
qed

text \<open>
  C31. NAT-PMP refreshes mappings it did not create, so no packet is sent without a reservation for this
  gateway and a high port, and at most two are sent with one.
\<close>

theorem natpmp_needs_reservation:
  assumes "map_nat_pmp cr g input (observed_exchange t) (observed_cancelled c) (s, []) = (e, s', log)"
  shows "(log \<noteq> [] \<longrightarrow> 1024 \<le> nm_internal_port input
       \<and> (\<exists>r. nm_reservation input = Some r \<and> authorizes r g))
    \<and> (log = [] \<or> log = [((sg_gateway g, 5351), natpmp_request input)]
       \<or> (\<exists>h. me_handle e = Some h
            \<and> log = [((sg_gateway g, 5351), natpmp_request input), ((sg_gateway g, 5351), delete_packet h)]))
    \<and> (me_cleanup e = CleanupLeaseExpiryPending \<longrightarrow> me_outcome e = OutcomeSucceeded
       \<and> (\<exists>h. me_handle e = Some h \<and> oh_cleanup_authorized h \<and> 1 \<le> oh_granted_lifetime_sec h
            \<and> oh_granted_lifetime_sec h \<le> 120))"
proof -
  have dest: "control_destination cr g RouterNatPmp None = Inr (sg_gateway g, 5351)"
    by (simp add: ROUTER_CONTROL_PORT_def)
  show ?thesis
  proof (cases "\<exists>ceiling r. lease_ceiling (nm_maximum_lease_sec input) = Some ceiling
      \<and> \<not> nm_internal_port input < MAPPING_HIGH_PORT_MIN \<and> nm_reservation input = Some r \<and> authorizes r g")
    case False
    then have "log = []" "me_cleanup e = CleanupNotCreated"
      using assms by (auto simp: map_nat_pmp_def split: option.splits if_splits)
    then show ?thesis by simp
  next
    case True
    then obtain ceiling r parts decode class_of where ceiling: "lease_ceiling (nm_maximum_lease_sec input) = Some ceiling"
      and ok: "\<not> nm_internal_port input < MAPPING_HIGH_PORT_MIN" "nm_reservation input = Some r" "authorizes r g"
      and x: "exchange_create cr parts g (natpmp_request input) (observed_exchange t) (observed_cancelled c) decode class_of
          (s, []) = (e, s', log)"
      and parts: "mp_protocol parts = RouterNatPmp" "mp_ceiling parts = ceiling"
      using assms by (auto simp: map_nat_pmp_def)
    have "create_ok parts (sg_gateway g, 5351) (natpmp_request input) e log"
      using observed.exchange_create_ok [OF x] dest parts(1) by auto
    then show ?thesis
      using ceiling parts ok unfolding create_ok_def lease_ceiling_Some finite_lease_def MAPPING_HIGH_PORT_MIN_def
      by auto
  qed
qed

text \<open>
  C32. With a router that answers the request by the RFC and grants a finite lease, and no cancellation, a
  PCP attempt succeeds: one request, and the handle carries the granted port, lifetime, address and nonce.
\<close>

theorem honest_pcp_router_succeeds:
  assumes "lease_ceiling (pm_maximum_lease_sec input) = Some ceiling"
    and "1024 \<le> pm_internal_port input" and "usable_ipv4 (pm_local_address input)"
    and "length (pm_nonce input) = 12" and "pm_nonce input \<noteq> replicate 12 0"
    and "\<And>s. c s = (False, s)"
    and "t s (sg_gateway g, 5351) (pcp_request input) 1100
         = (Inr 60, pcp_reply (pcp_request input) 0 lifetime epoch port a, s')"
    and "1 \<le> lifetime" and "lifetime \<le> ceiling" and "port \<noteq> 0" and "usable_ipv4 a"
    and "case pm_previous_epoch input of None \<Rightarrow> True | Some previous \<Rightarrow> previous \<le> epoch"
  shows "\<exists>e h. map_pcp cr g input t c s = (e, s') \<and> me_outcome e = OutcomeSucceeded
    \<and> me_cleanup e = CleanupLeaseExpiryPending \<and> me_requests_sent e = 1 \<and> me_handle e = Some h
    \<and> oh_external_port h = port \<and> oh_granted_lifetime_sec h = lifetime \<and> oh_external_address h = Some a
    \<and> oh_nonce h = Some (pm_nonce input) \<and> oh_client h = pm_local_address input"
proof -
  let ?reply = "pcp_reply (pcp_request input) 0 lifetime epoch port a"
  have x: "exchange_with_gateway cr g RouterPcp None (pcp_request input) t c s = (Inr ?reply, s')"
    using assms(4,7) by (intro exchange_answered_by [OF assms(6)]) (simp_all add: pcp_request_def length_encode_pcp)
  have decoded: "decode_pcp ?reply = Inr \<lparr>pp_version_ok = True, pp_opcode_ok = True, pp_result = 0,
      pp_lifetime = lifetime, pp_epoch = epoch, pp_protocol = pcp_number (pm_protocol input),
      pp_internal_port = pm_internal_port input, pp_assigned_port = port, pp_nonce = Some (pm_nonce input),
      pp_assigned_ip = Some a\<rparr>"
    using decode_pcp_reply [OF assms(4)] assms(11) by (simp add: pcp_request_def)
  have "\<not> rebooted (pm_previous_epoch input) epoch" "\<not> pm_internal_port input < 1024"
    using assms(2,12) by (auto simp: rebooted_def not_less split: option.splits)
  then show ?thesis
    using assms x decoded
    by (simp add: map_pcp_def MAPPING_HIGH_PORT_MIN_def exchange_create_def create_answered_def pcp_class_def
        adopt_or_refuse_def finite_lease_def correlated_handle_def Let_def)
qed

text \<open>
  C33. A grant above the caller's ceiling but within 120 seconds is deleted at once, yet the attempt is
  reported as a success without a refusal, while the module's description says that a lifetime past the
  caller's ceiling is refused: the effect of the deletion replaces the refusal that was recorded before.
\<close>

theorem over_ceiling_grant_reported_succeeded:
  assumes "lease_ceiling (pm_maximum_lease_sec input) = Some ceiling" and "ceiling < lifetime" and "lifetime \<le> 120"
    and "1024 \<le> pm_internal_port input" and "usable_ipv4 (pm_local_address input)"
    and "length (pm_nonce input) = 12" and "pm_nonce input \<noteq> replicate 12 0"
    and "pm_reservation input = Some r" and "authorizes r g" and "\<And>s. c s = (False, s)"
    and "t s (sg_gateway g, 5351) (pcp_request input) 1100
         = (Inr 60, pcp_reply (pcp_request input) 0 lifetime epoch port a, s1)"
    and "t s1 (sg_gateway g, 5351) (encode_pcp (pm_local_address input) (pcp_number (pm_protocol input))
           (pm_internal_port input) port (pm_nonce input) 0) 1100
         = (Inr 60, pcp_reply (encode_pcp (pm_local_address input) (pcp_number (pm_protocol input))
           (pm_internal_port input) port (pm_nonce input) 0) 0 0 epoch port a, s2)"
    and "usable_ipv4 a" and "pm_previous_epoch input = None"
  shows "\<exists>e. map_pcp cr g input t c s = (e, s2) \<and> me_outcome e = OutcomeSucceeded \<and> me_refusal e = None
    \<and> me_cleanup e = CleanupConfirmedDeleted \<and> me_granted_lifetime_sec e = Some lifetime"
proof -
  let ?delete = "encode_pcp (pm_local_address input) (pcp_number (pm_protocol input))
    (pm_internal_port input) port (pm_nonce input) 0"
  have x: "exchange_with_gateway cr g RouterPcp None (pcp_request input) t c s
      = (Inr (pcp_reply (pcp_request input) 0 lifetime epoch port a), s1)"
    using assms(6,11) by (intro exchange_answered_by [OF assms(10)]) (simp_all add: pcp_request_def length_encode_pcp)
  have y: "exchange_with_gateway cr g RouterPcp None ?delete t c s1 = (Inr (pcp_reply ?delete 0 0 epoch port a), s2)"
    using assms(6,12) by (intro exchange_answered_by [OF assms(10)]) (simp_all add: length_encode_pcp)
  have decoded: "decode_pcp (pcp_reply (pcp_request input) 0 lifetime epoch port a)
      = Inr \<lparr>pp_version_ok = True, pp_opcode_ok = True, pp_result = 0,
      pp_lifetime = lifetime, pp_epoch = epoch, pp_protocol = pcp_number (pm_protocol input),
      pp_internal_port = pm_internal_port input, pp_assigned_port = port, pp_nonce = Some (pm_nonce input),
      pp_assigned_ip = Some a\<rparr>"
    "decode_pcp (pcp_reply ?delete 0 0 epoch port a) = Inr \<lparr>pp_version_ok = True, pp_opcode_ok = True, pp_result = 0,
      pp_lifetime = 0, pp_epoch = epoch, pp_protocol = pcp_number (pm_protocol input),
      pp_internal_port = pm_internal_port input, pp_assigned_port = port, pp_nonce = Some (pm_nonce input),
      pp_assigned_ip = Some a\<rparr>"
    using decode_pcp_reply [OF assms(6)] assms(13) by (simp_all add: pcp_request_def)
  have "60 \<le> ceiling" using assms(1) lease_ceiling_Some by blast
  then have lease: "lifetime \<noteq> 0" "\<not> 120 < lifetime" "\<not> lifetime \<le> ceiling" "\<not> pm_internal_port input < 1024"
    using assms(2-4) by (auto simp: not_less not_le)
  then show ?thesis
    using assms(1,5-10,14) x y decoded
    by (simp add: map_pcp_def MAPPING_HIGH_PORT_MIN_def exchange_create_def create_answered_def pcp_class_def
        adopt_or_refuse_def finite_lease_def Let_def send_delete_def delete_packet_def correlated_handle_def
        delete_answered_def delete_matches_def rebooted_def delete_start_def MAPPING_MAXIMUM_LEASE_SEC_def)
qed

section \<open>Witnesses\<close>

definition sample_gateway :: selected_gateway where
  "sample_gateway = from_record (route_new 0 0 (ipv4_new 10 0 0 1) True 7)"

definition sample_nonce :: bytes where "sample_nonce = [1, 0, 0, 0, 0, 0, 0, 0, 0, 0, 0, 2]"

definition sample_address :: ipv4 where "sample_address = ipv4_new 10 0 0 2"

definition sample_pcp_map :: pcp_map where
  "sample_pcp_map = \<lparr>pm_local_address = sample_address, pm_internal_port = 40000, pm_protocol = PortUdp,
     pm_nonce = sample_nonce, pm_maximum_lease_sec = 60, pm_previous_epoch = None,
     pm_reservation = Some \<lparr>er_gateway = sg_gateway sample_gateway, er_digest = replicate 32 1\<rparr>\<rparr>"

definition sample_natpmp_map :: nat_pmp_map where
  "sample_natpmp_map = \<lparr>nm_internal_port = 40000, nm_protocol = PortUdp, nm_maximum_lease_sec = 60,
     nm_previous_epoch = None,
     nm_reservation = Some \<lparr>er_gateway = sg_gateway sample_gateway, er_digest = replicate 32 1\<rparr>\<rparr>"

text \<open>A router that grants \<open>lifetime\<close> to every request for a lease and confirms every deletion.\<close>

definition sample_router :: "u32 \<Rightarrow> unit transport" where
  "sample_router lifetime s d q n =
     (Inr 60, pcp_reply q 0 (if take 4 (drop 4 q) = [0, 0, 0, 0] then 0 else lifetime) 9 40001 sample_address, s)"

lemma sample_usable: "usable_ipv4 sample_address"
  by (simp add: sample_address_def usable_ipv4_def ipv4_new_def of_be32_def is_unspecified_def is_broadcast_def
      is_multicast_def octet0_def)

lemma sample_nonce_facts: "length sample_nonce = 12" "sample_nonce \<noteq> replicate 12 0"
  by (simp_all add: sample_nonce_def zeros)

lemma sample_map_facts:
  "lease_ceiling (pm_maximum_lease_sec sample_pcp_map) = Some 60"
  "1024 \<le> pm_internal_port sample_pcp_map" "usable_ipv4 (pm_local_address sample_pcp_map)"
  "length (pm_nonce sample_pcp_map) = 12" "pm_nonce sample_pcp_map \<noteq> replicate 12 0"
  "pm_previous_epoch sample_pcp_map = None"
  using sample_usable sample_nonce_facts
  by (simp_all add: sample_pcp_map_def lease_ceiling_def MAPPING_REQUESTED_LEASE_SEC_def MAPPING_MAXIMUM_LEASE_SEC_def)

lemma sample_router_answers:
  "sample_router l s (sg_gateway sample_gateway, 5351) (pcp_request sample_pcp_map) 1100
     = (Inr 60, pcp_reply (pcp_request sample_pcp_map) 0 l 9 40001 sample_address, s)"
  "sample_router l s (sg_gateway sample_gateway, 5351) (encode_pcp client pr i x nonce 0) 1100
     = (Inr 60, pcp_reply (encode_pcp client pr i x nonce 0) 0 0 9 40001 sample_address, s)"
  by (simp_all add: sample_router_def pcp_request_def encode_pcp_def be32_def MAPPING_REQUESTED_LEASE_SEC_def)

theorem mapping_reply_roundtrip_witness:
  "length sample_nonce = 12
   \<and> decode_pcp (pcp_reply (encode_pcp 1 6 40000 40000 sample_nonce 60) 0 60 9 40001 sample_address)
      = Inr \<lparr>pp_version_ok = True, pp_opcode_ok = True, pp_result = ucast (0 :: byte), pp_lifetime = 60,
          pp_epoch = 9, pp_protocol = 6, pp_internal_port = 40000, pp_assigned_port = 40001,
          pp_nonce = Some sample_nonce,
          pp_assigned_ip = (if usable_ipv4 sample_address then Some sample_address else None)\<rparr>"
  using mapping_reply_roundtrip [OF sample_nonce_facts(1)] sample_nonce_facts(1) by blast

theorem pcp_attempt_bounded_witness:
  "\<exists>e s' log. map_pcp sample_crates sample_gateway sample_pcp_map (observed_exchange (sample_router 60))
       (observed_cancelled (\<lambda>s. (False, s))) ((), []) = (e, s', log)
     \<and> length log \<le> me_requests_sent e \<and> me_requests_sent e \<le> 2"
proof -
  obtain e s' log where run: "map_pcp sample_crates sample_gateway sample_pcp_map (observed_exchange (sample_router 60))
       (observed_cancelled (\<lambda>s. (False, s))) ((), []) = (e, s', log)"
    by (metis surj_pair)
  show ?thesis using pcp_attempt_bounded [OF run] run by auto
qed

theorem natpmp_needs_reservation_witness:
  "\<exists>e s' log. map_nat_pmp sample_crates sample_gateway sample_natpmp_map (observed_exchange (sample_router 60))
       (observed_cancelled (\<lambda>s. (False, s))) ((), []) = (e, s', log)
     \<and> (log \<noteq> [] \<longrightarrow> 1024 \<le> nm_internal_port sample_natpmp_map)"
proof -
  obtain e s' log where run: "map_nat_pmp sample_crates sample_gateway sample_natpmp_map (observed_exchange (sample_router 60))
       (observed_cancelled (\<lambda>s. (False, s))) ((), []) = (e, s', log)"
    by (metis surj_pair)
  show ?thesis using natpmp_needs_reservation [OF run] run by auto
qed

theorem honest_pcp_router_succeeds_witness:
  "\<exists>e h. map_pcp sample_crates sample_gateway sample_pcp_map (sample_router 60) (\<lambda>s. (False, s)) () = (e, ())
     \<and> me_outcome e = OutcomeSucceeded
     \<and> me_cleanup e = CleanupLeaseExpiryPending \<and> me_requests_sent e = 1 \<and> me_handle e = Some h
     \<and> oh_external_port h = 40001 \<and> oh_granted_lifetime_sec h = 60 \<and> oh_external_address h = Some sample_address
     \<and> oh_nonce h = Some (pm_nonce sample_pcp_map) \<and> oh_client h = pm_local_address sample_pcp_map"
  by (rule honest_pcp_router_succeeds [where ceiling = 60 and epoch = 9])
    (simp_all add: sample_map_facts sample_router_answers sample_usable)

theorem over_ceiling_grant_reported_succeeded_witness:
  "\<exists>e. map_pcp sample_crates sample_gateway sample_pcp_map (sample_router 90) (\<lambda>s. (False, s)) () = (e, ())
     \<and> me_outcome e = OutcomeSucceeded \<and> me_refusal e = None \<and> me_cleanup e = CleanupConfirmedDeleted
     \<and> me_granted_lifetime_sec e = Some 90"
proof -
  have "pm_reservation sample_pcp_map = Some \<lparr>er_gateway = sg_gateway sample_gateway, er_digest = replicate 32 1\<rparr>"
    "authorizes \<lparr>er_gateway = sg_gateway sample_gateway, er_digest = replicate 32 1\<rparr> sample_gateway"
    by (simp_all add: sample_pcp_map_def authorizes_def)
  then show ?thesis
    using sample_usable
    by (intro over_ceiling_grant_reported_succeeded [where ceiling = 60 and epoch = 9 and port = 40001
          and ?s1.0 = "()" and a = sample_address
          and r = "\<lparr>er_gateway = sg_gateway sample_gateway, er_digest = replicate 32 1\<rparr>"])
      (simp_all add: sample_map_facts sample_router_answers)
qed

end
