(* ===== verification/Soap.thy ===== *)
theory Soap
  imports PortMapping
begin

text \<open>
  The SOAP dialogue of UPnP port mapping (second half of \<open>src/network_traversal/mapping/upnp.rs\<close>): the
  requests, the HTTP and XML readers of the replies and their classification, with the control
  descriptor of \<open>src/network_traversal/igd.rs\<close>. The readers walk UTF-8 text whose delimiters are all
  ASCII, so they are modelled on its bytes; the parser's index is the remaining text.
\<close>

section \<open>Text\<close>

function show_nat :: "nat \<Rightarrow> string" where
  "show_nat n = (if n < 10 then [char_of (48 + n)] else show_nat (n div 10) @ [char_of (48 + n mod 10)])"
  by pat_completeness auto
termination
  by (relation "measure id") auto

declare show_nat.simps [simp del]

definition show_ipv4 :: "ipv4 \<Rightarrow> string" where
  "show_ipv4 a = (case map (\<lambda>b. show_nat (unat b)) (octets a) of
      [p, q, r, s] \<Rightarrow> p @ ''.'' @ q @ ''.'' @ r @ ''.'' @ s | _ \<Rightarrow> [])"

text \<open>\<open>Ipv4Addr::from_str\<close>: four decimal octets of at most three digits without leading zeros.\<close>

fun split_char :: "char \<Rightarrow> string \<Rightarrow> string list" where
  "split_char d [] = [[]]"
| "split_char d (c # s) =
     (if c = d then [] # split_char d s
      else (case split_char d s of [] \<Rightarrow> [[c]] | p # ps \<Rightarrow> (c # p) # ps))"

definition parse_octet :: "string \<Rightarrow> byte option" where
  "parse_octet s =
     (if s = [] \<or> length s > 3 \<or> \<not> list_all is_ascii_digit s \<or> (length s > 1 \<and> hd s = CHR ''0'') then None
      else (case digits_value 10 0 s of
          None \<Rightarrow> None | Some n \<Rightarrow> if n \<le> 255 then Some (of_nat n) else None))"

definition parse_ipv4 :: "string \<Rightarrow> ipv4 option" where
  "parse_ipv4 s = (case map parse_octet (split_char (CHR ''.'') s) of
     [Some a, Some b, Some c, Some d] \<Rightarrow> Some (ipv4_new a b c d) | _ \<Rightarrow> None)"

fun find_sub :: "string \<Rightarrow> string \<Rightarrow> nat option" where
  "find_sub pat [] = (if pat = [] then Some 0 else None)"
| "find_sub pat (c # s) =
     (if strip_prefix pat (c # s) \<noteq> None then Some 0 else map_option Suc (find_sub pat s))"

definition split_once :: "string \<Rightarrow> string \<Rightarrow> (string \<times> string) option" where
  "split_once pat s = map_option (\<lambda>i. (take i s, drop (i + length pat) s)) (find_sub pat s)"

lemma find_sub_bound: "find_sub pat s = Some i \<Longrightarrow> i + length pat \<le> length s"
proof (induction s arbitrary: i)
  case (Cons c s)
  show ?case
  proof (cases "strip_prefix pat (c # s)")
    case None
    then obtain j where "find_sub pat s = Some j" "i = Suc j" using Cons.prems by auto
    then show ?thesis using Cons.IH [of j] by simp
  next
    case (Some r)
    then have "i = 0" using Cons.prems by simp
    moreover have "length (c # s) = length pat + length r"
      using Some by (metis strip_prefix_Some length_append)
    ultimately show ?thesis by simp
  qed
qed (simp split: if_splits)

function split_str :: "string \<Rightarrow> string \<Rightarrow> string list" where
  "split_str pat s =
     (case find_sub pat s of
        None \<Rightarrow> [s]
      | Some i \<Rightarrow> if pat = [] then [s] else take i s # split_str pat (drop (i + length pat) s))"
  by pat_completeness auto
termination
proof (relation "measure (\<lambda>(pat, s). length s)", goal_cases)
  case (2 pat s i)
  then show ?case using find_sub_bound [of pat s i] by (cases pat) auto
qed simp

declare split_str.simps [simp del]

definition CRLF :: string where "CRLF = [CHR 0x0D, CHR 0x0A]"

definition is_ascii_whitespace :: "char \<Rightarrow> bool" where
  "is_ascii_whitespace c \<longleftrightarrow> code c \<in> {9, 10, 12, 13, 32}"

definition is_ascii_alphabetic :: "char \<Rightarrow> bool" where
  "is_ascii_alphabetic c \<longleftrightarrow> is_ascii_upper c \<or> is_ascii_lower c"

section \<open>The control descriptor\<close>

datatype igd_service_kind = WanIpConnection | WanPppConnection

record igd_control_descriptor =
  igd_service :: igd_service_kind
  igd_gateway :: ipv4
  igd_port :: u16
  igd_path_and_query :: string

definition igd_socket :: "igd_control_descriptor \<Rightarrow> socket_addr" where
  "igd_socket d = (igd_gateway d, unat (igd_port d))"

definition control_target :: "igd_control_descriptor \<Rightarrow> string" where
  "control_target d = ''http://'' @ show_ipv4 (igd_gateway d) @ '':'' @ show_nat (unat (igd_port d))
     @ igd_path_and_query d"

fun service_urn :: "igd_service_kind \<Rightarrow> string" where
  "service_urn WanIpConnection = ''urn:schemas-upnp-org:service:WANIPConnection:1''"
| "service_urn WanPppConnection = ''urn:schemas-upnp-org:service:WANPPPConnection:1''"

definition control_fingerprint :: "crates \<Rightarrow> igd_control_descriptor \<Rightarrow> bytes" where
  "control_fingerprint cr d =
     take 12 (sha256_digest cr (as_bytes
       (service_urn (igd_service d) @ ''|'' @ show_nat (unat (igd_port d)) @ ''|'' @ igd_path_and_query d)))"

section \<open>Requests\<close>

fun port_protocol_name :: "port_protocol \<Rightarrow> string" where
  "port_protocol_name PortTcp = ''TCP''"
| "port_protocol_name PortUdp = ''UDP''"

definition tuple_fields :: "u16 \<Rightarrow> port_protocol \<Rightarrow> string" where
  "tuple_fields port protocol =
     ''<NewRemoteHost></NewRemoteHost><NewExternalPort>'' @ show_nat (unat port)
     @ ''</NewExternalPort><NewProtocol>'' @ port_protocol_name protocol @ ''</NewProtocol>''"

definition add_fields :: "ipv4 \<Rightarrow> u16 \<Rightarrow> port_protocol \<Rightarrow> string" where
  "add_fields local port protocol =
     tuple_fields port protocol
     @ ''<NewInternalPort>'' @ show_nat (unat port) @ ''</NewInternalPort><NewInternalClient>'' @ show_ipv4 local
     @ ''</NewInternalClient><NewEnabled>1</NewEnabled><NewPortMappingDescription>liskov</NewPortMappingDescription><NewLeaseDuration>''
     @ show_nat (unat MAPPING_REQUESTED_LEASE_SEC) @ ''</NewLeaseDuration>''"

definition quote :: string where "quote = [CHR 0x22]"

definition envelope :: "string \<Rightarrow> string \<Rightarrow> string \<Rightarrow> string" where
  "envelope urn action inner =
     ''<?xml version='' @ quote @ ''1.0'' @ quote @ ''?><s:Envelope xmlns:s='' @ quote
     @ ''http://schemas.xmlsoap.org/soap/envelope/'' @ quote @ '' s:encodingStyle='' @ quote
     @ ''http://schemas.xmlsoap.org/soap/encoding/'' @ quote @ ''><s:Body><u:'' @ action @ '' xmlns:u='' @ quote
     @ urn @ quote @ ''>'' @ inner @ ''</u:'' @ action @ ''></s:Body></s:Envelope>''"

definition plain_text :: "string \<Rightarrow> bool" where
  "plain_text s \<longleftrightarrow> list_all (\<lambda>c. \<not> is_ascii_control c \<and> c \<noteq> CHR 0x20) s"

definition soap_request :: "igd_control_descriptor \<Rightarrow> string \<Rightarrow> string \<Rightarrow> mapping_refusal + bytes" where
  "soap_request d action inner =
     (let path = igd_path_and_query d; urn = service_urn (igd_service d);
          body = envelope urn action inner;
          host = show_ipv4 (igd_gateway d) @ '':'' @ show_nat (unat (igd_port d));
          request = ''POST '' @ path @ '' HTTP/1.1'' @ CRLF @ ''Host: '' @ host @ CRLF
            @ ''Content-Type: text/xml; charset='' @ quote @ ''utf-8'' @ quote @ CRLF
            @ ''SOAPAction: '' @ quote @ urn @ ''#'' @ action @ quote @ CRLF
            @ ''Content-Length: '' @ show_nat (length body) @ CRLF @ ''Connection: close'' @ CRLF @ CRLF @ body
      in guard (starts_with path ''/'' \<and> plain_text path) MappingMalformed
           (guard (plain_text host) MappingMalformed
             (guard (length request \<le> UPNP_SOAP_MAX_BYTES) MappingMalformed (Inr (as_bytes request)))))"

section \<open>Replies: HTTP\<close>

datatype read_fault = ReadRedirect | ReadMalformed | ReadBounded

definition eq_ignore_ascii_case :: "string \<Rightarrow> string \<Rightarrow> bool" where
  "eq_ignore_ascii_case a b \<longleftrightarrow> to_ascii_lowercase a = to_ascii_lowercase b"

fun http_headers :: "nat \<Rightarrow> nat option \<Rightarrow> string list \<Rightarrow> read_fault + nat option" where
  "http_headers headers content_length [] = Inr content_length"
| "http_headers headers content_length (line # ls) =
     (let headers = headers + 1
      in if headers > 32 \<or> starts_with line '' '' \<or> starts_with line [CHR 0x09] \<or> line = []
         then Inl ReadMalformed
         else (case split_once '':'' line of
             None \<Rightarrow> Inl ReadMalformed
           | Some (name, v) \<Rightarrow>
               if eq_ignore_ascii_case name ''Transfer-Encoding'' \<and> \<not> eq_ignore_ascii_case (trim v) ''identity''
               then Inl ReadMalformed
               else if eq_ignore_ascii_case name ''Content-Length''
               then (if content_length \<noteq> None then Inl ReadMalformed
                     else (case from_str_radix u64_max 10 (trim v) of
                         None \<Rightarrow> Inl ReadMalformed
                       | Some n \<Rightarrow> http_headers headers (Some n) ls))
               else http_headers headers content_length ls))"

definition parse_http :: "bytes \<Rightarrow> read_fault + string" where
  "parse_http bs =
     guard (0 \<notin> set bs) ReadMalformed
       (res_bind (ok_or (from_utf8 bs) ReadMalformed) (\<lambda>txt.
        res_bind (ok_or (split_once (CRLF @ CRLF) txt) ReadMalformed) (\<lambda>(head, body).
        (case split_str CRLF head of
           [] \<Rightarrow> Inl ReadMalformed
         | status # headers \<Rightarrow>
             (case split_whitespace status of
                version # number # _ \<Rightarrow>
                  guard (starts_with version ''HTTP/1.'') ReadMalformed
                    (res_bind (ok_or (from_str_radix u16_max 10 number) ReadMalformed) (\<lambda>n.
                       guard (n \<notin> {301, 302, 303, 307, 308}) ReadRedirect
                         (guard (n = 200 \<or> n = 500) ReadMalformed
                           (res_bind (http_headers 0 None headers) (\<lambda>content_length.
                              guard (\<not> ((case content_length of None \<Rightarrow> False | Some l \<Rightarrow> l > UPNP_SOAP_MAX_BYTES)
                                       \<or> length body > UPNP_SOAP_MAX_BYTES)) ReadBounded
                                (guard (case content_length of None \<Rightarrow> True | Some l \<Rightarrow> length body = l)
                                   ReadMalformed (Inr body)))))))
              | _ \<Rightarrow> Inl ReadMalformed)))))"

section \<open>Replies: XML\<close>

datatype response_kind = ResponseGet | ResponseAdd | ResponseDelete | ResponseFault

record soap_view =
  sv_response :: "response_kind option"
  sv_error_code :: "nat option"
  sv_internal_client :: "ipv4 option"
  sv_internal_port :: "u16 option"
  sv_lease_sec :: "u32 option"
  sv_enabled :: "bool option"
  sv_protocol :: "port_protocol option"

definition view_empty :: soap_view where
  "view_empty = \<lparr>sv_response = None, sv_error_code = None, sv_internal_client = None, sv_internal_port = None,
     sv_lease_sec = None, sv_enabled = None, sv_protocol = None\<rparr>"

datatype parse_fault = ParseMalformed | ParseEntity | ParseBounded

record xml_parser =
  xp_rest :: string
  xp_depth :: nat
  xp_stack :: "string list"
  xp_buffer :: string
  xp_capturing :: "string option"
  xp_view :: soap_view

definition SOAP_FIELD_MAX :: nat where "SOAP_FIELD_MAX = 64"
definition SOAP_ATTRIBUTE_MAX :: nat where "SOAP_ATTRIBUTE_MAX = 512"
definition IGD_XML_MAX_DEPTH :: nat where "IGD_XML_MAX_DEPTH = 16"

definition skip_whitespace :: "string \<Rightarrow> string" where
  "skip_whitespace s = dropWhile is_ascii_whitespace s"

definition is_name_char :: "char \<Rightarrow> bool" where
  "is_name_char c \<longleftrightarrow> is_ascii_alphanumeric c \<or> c = CHR ''_'' \<or> c = CHR ''-'' \<or> c = CHR ''.'' \<or> c = CHR '':''"

definition read_name :: "string \<Rightarrow> parse_fault + (string \<times> string)" where
  "read_name s =
     (case s of
        [] \<Rightarrow> Inl ParseMalformed
      | c # r \<Rightarrow>
          if \<not> is_ascii_alphabetic c \<and> c \<noteq> CHR ''_'' then Inl ParseMalformed
          else let name = c # takeWhile is_name_char r
          in if length name > SOAP_FIELD_MAX then Inl ParseMalformed
             else Inr (name, dropWhile is_name_char r))"

definition local_name :: "string \<Rightarrow> string" where
  "local_name name = last (split_char (CHR '':'') name)"

function decode_text :: "string \<Rightarrow> parse_fault + string" where
  "decode_text [] = Inr []"
| "decode_text (c # s) =
     (if c \<noteq> CHR ''&'' then res_bind (decode_text s) (\<lambda>r. Inr (c # r))
      else (case find_sub '';'' (c # s) of
          None \<Rightarrow> Inl ParseEntity
        | Some finish \<Rightarrow>
            if finish > 8 then Inl ParseEntity
            else let token = take (finish + 1) (c # s)
            in res_bind (if token = ''&amp;'' then Inr (CHR ''&'') else if token = ''&lt;'' then Inr (CHR ''<'')
                 else if token = ''&gt;'' then Inr (CHR ''>'') else if token = ''&quot;'' then Inr (CHR 0x22)
                 else if token = ''&apos;'' then Inr (CHR 0x27) else Inl ParseEntity)
                 (\<lambda>x. res_bind (decode_text (drop finish s)) (\<lambda>r. Inr (x # r)))))"
  by pat_completeness auto
termination
  by (relation "measure length") auto

declare decode_text.simps [simp del]

definition read_attribute_value :: "string \<Rightarrow> parse_fault + string" where
  "read_attribute_value s =
     (case s of
        [] \<Rightarrow> Inl ParseMalformed
      | q # r \<Rightarrow>
          if q \<noteq> CHR 0x22 \<and> q \<noteq> CHR 0x27 then Inl ParseMalformed
          else let raw = takeWhile (\<lambda>c. c \<noteq> q \<and> c \<noteq> CHR ''<'') r
          in (case drop (length raw) r of
                [] \<Rightarrow> Inl ParseMalformed
              | e # r' \<Rightarrow>
                  if e \<noteq> q then Inl ParseMalformed
                  else guard (length raw \<le> SOAP_ATTRIBUTE_MAX) ParseBounded
                         (res_bind (decode_text raw) (\<lambda>_. Inr r'))))"

text \<open>The first argument is the number of attributes that may still follow.\<close>

fun read_attributes :: "nat \<Rightarrow> string \<Rightarrow> parse_fault + (bool \<times> string)" where
  "read_attributes k s =
     (let s = skip_whitespace s
      in if starts_with s ''/>'' then Inr (True, drop 2 s)
         else if starts_with s ''>'' then Inr (False, drop 1 s)
         else if s = [] then Inl ParseMalformed
         else (case k of
             0 \<Rightarrow> Inl ParseBounded
           | Suc k' \<Rightarrow>
               res_bind (read_name s) (\<lambda>(_, s).
                 let s = skip_whitespace s
                 in guard (starts_with s ''='') ParseMalformed
                      (res_bind (read_attribute_value (skip_whitespace (drop 1 s))) (read_attributes k')))))"

declare read_attributes.simps [simp del]

fun response_kind_of :: "string \<Rightarrow> response_kind option" where
  "response_kind_of l =
     (if l = ''GetSpecificPortMappingEntryResponse'' then Some ResponseGet
      else if l = ''AddPortMappingResponse'' then Some ResponseAdd
      else if l = ''DeletePortMappingResponse'' then Some ResponseDelete
      else if l = ''Fault'' then Some ResponseFault else None)"

definition captured_field :: "string \<Rightarrow> bool" where
  "captured_field l \<longleftrightarrow> l \<in> {''errorCode'', ''NewInternalClient'', ''NewInternalPort'', ''NewLeaseDuration'',
     ''NewEnabled'', ''NewProtocol''}"

definition note_element :: "string \<Rightarrow> xml_parser \<Rightarrow> parse_fault + xml_parser" where
  "note_element l x =
     res_bind
       (case response_kind_of l of
          None \<Rightarrow> Inr x
        | Some kind \<Rightarrow>
            guard (sv_response (xp_view x) = None) ParseMalformed
              (Inr (x\<lparr>xp_view := (xp_view x)\<lparr>sv_response := Some kind\<rparr>\<rparr>)))
       (\<lambda>x. if captured_field l
            then guard (xp_capturing x = None) ParseMalformed (Inr (x\<lparr>xp_buffer := [], xp_capturing := Some l\<rparr>))
            else Inr x)"

definition commit_view :: "string \<Rightarrow> string \<Rightarrow> soap_view \<Rightarrow> parse_fault + soap_view" where
  "commit_view l t v =
     (if l = ''errorCode''
      then guard (sv_error_code v = None \<and> t \<noteq> [] \<and> length t \<le> 5 \<and> list_all is_ascii_digit t) ParseMalformed
             (res_bind (ok_or (from_str_radix u16_max 10 t) ParseMalformed) (\<lambda>n. Inr (v\<lparr>sv_error_code := Some n\<rparr>)))
      else if l = ''NewInternalClient''
      then guard (sv_internal_client v = None) ParseMalformed
             (res_bind (ok_or (parse_ipv4 t) ParseMalformed) (\<lambda>a. Inr (v\<lparr>sv_internal_client := Some a\<rparr>)))
      else if l = ''NewInternalPort''
      then guard (sv_internal_port v = None) ParseMalformed
             (res_bind (ok_or (from_str_radix u16_max 10 t) ParseMalformed)
               (\<lambda>n. Inr (v\<lparr>sv_internal_port := Some (of_nat n)\<rparr>)))
      else if l = ''NewLeaseDuration''
      then guard (sv_lease_sec v = None) ParseMalformed
             (res_bind (ok_or (from_str_radix u32_max 10 t) ParseMalformed)
               (\<lambda>n. Inr (v\<lparr>sv_lease_sec := Some (of_nat n)\<rparr>)))
      else if l = ''NewEnabled''
      then guard (sv_enabled v = None) ParseMalformed
             (if t = ''1'' then Inr (v\<lparr>sv_enabled := Some True\<rparr>)
              else if t = ''0'' then Inr (v\<lparr>sv_enabled := Some False\<rparr>) else Inl ParseMalformed)
      else if l = ''NewProtocol''
      then guard (sv_protocol v = None) ParseMalformed
             (if t = ''TCP'' then Inr (v\<lparr>sv_protocol := Some PortTcp\<rparr>)
              else if t = ''UDP'' then Inr (v\<lparr>sv_protocol := Some PortUdp\<rparr>) else Inl ParseMalformed)
      else Inr v)"

definition xml_commit :: "string \<Rightarrow> xml_parser \<Rightarrow> parse_fault + xml_parser" where
  "xml_commit l x =
     (let t = trim (xp_buffer x); x = x\<lparr>xp_buffer := [], xp_capturing := None\<rparr>
      in guard (length t \<le> SOAP_FIELD_MAX) ParseBounded
           (res_bind (commit_view l t (xp_view x)) (\<lambda>v. Inr (x\<lparr>xp_view := v\<rparr>))))"

definition start_tag :: "xml_parser \<Rightarrow> parse_fault + xml_parser" where
  "start_tag x =
     res_bind (read_name (drop 1 (xp_rest x))) (\<lambda>(name, s).
     res_bind (read_attributes 16 s) (\<lambda>(self_closing, s).
     res_bind (note_element (local_name name) (x\<lparr>xp_rest := s\<rparr>)) (\<lambda>x.
       if self_closing
       then (if xp_capturing x = Some (local_name name) then xml_commit (local_name name) x else Inr x)
       else guard (xp_depth x + 1 \<le> IGD_XML_MAX_DEPTH) ParseBounded
              (Inr (x\<lparr>xp_depth := xp_depth x + 1, xp_stack := local_name name # xp_stack x\<rparr>)))))"

definition end_tag :: "xml_parser \<Rightarrow> parse_fault + xml_parser" where
  "end_tag x =
     res_bind (read_name (drop 2 (xp_rest x))) (\<lambda>(name, s).
       let s = skip_whitespace s
       in guard (starts_with s ''>'') ParseMalformed
            (case xp_stack x of
               [] \<Rightarrow> Inl ParseMalformed
             | frame # stack \<Rightarrow>
                 guard (\<not> (frame \<noteq> name \<and> frame \<noteq> local_name name \<and> local_name frame \<noteq> local_name name))
                   ParseMalformed
                   (let x = x\<lparr>xp_rest := drop 1 s, xp_stack := stack, xp_depth := saturating_sub (xp_depth x) 1\<rparr>
                    in if xp_capturing x = Some (local_name name) then xml_commit (local_name name) x else Inr x)))"

definition skip_comment :: "xml_parser \<Rightarrow> parse_fault + xml_parser" where
  "skip_comment x =
     (case find_sub ''-->'' (xp_rest x) of
        None \<Rightarrow> Inl ParseMalformed
      | Some finish \<Rightarrow>
          guard (\<not> (finish < 4 \<or> find_sub ''--'' (take (finish - 4) (drop 4 (xp_rest x))) \<noteq> None)) ParseMalformed
            (Inr (x\<lparr>xp_rest := drop (finish + 3) (xp_rest x)\<rparr>)))"

definition skip_declaration :: "string \<Rightarrow> parse_fault + string" where
  "skip_declaration s =
     guard (starts_with s ''<?xml'') ParseMalformed
       (case find_sub ''?>'' s of
          None \<Rightarrow> Inl ParseMalformed
        | Some finish \<Rightarrow>
            guard (CHR ''<'' \<notin> set (take (finish - 2) (drop 2 s))) ParseMalformed (Inr (drop (finish + 2) s)))"

definition xml_text :: "xml_parser \<Rightarrow> parse_fault + xml_parser" where
  "xml_text x =
     (let raw = takeWhile (\<lambda>c. c \<noteq> CHR ''<'') (xp_rest x);
          x = x\<lparr>xp_rest := dropWhile (\<lambda>c. c \<noteq> CHR ''<'') (xp_rest x)\<rparr>
      in res_bind (decode_text raw) (\<lambda>t.
           if xp_capturing x \<noteq> None
           then guard (length (xp_buffer x @ t) \<le> SOAP_FIELD_MAX) ParseBounded
                  (Inr (x\<lparr>xp_buffer := xp_buffer x @ t\<rparr>))
           else Inr x))"

definition xml_markup :: "xml_parser \<Rightarrow> parse_fault + xml_parser" where
  "xml_markup x =
     (if starts_with (xp_rest x) ''<!--'' then skip_comment x
      else if starts_with (xp_rest x) ''<!['' then Inl ParseMalformed
      else if starts_with (xp_rest x) ''<!'' then Inl ParseEntity
      else if starts_with (xp_rest x) ''<?'' then Inl ParseMalformed
      else if starts_with (xp_rest x) ''</'' then end_tag x
      else start_tag x)"

definition xml_step :: "xml_parser \<Rightarrow> parse_fault + xml_parser" where
  "xml_step x = (if starts_with (xp_rest x) ''<'' then xml_markup x else xml_text x)"

lemma skip_whitespace_length: "length (skip_whitespace s) \<le> length s"
  by (simp add: skip_whitespace_def length_dropWhile_le)

lemma read_name_shorter: "read_name s = Inr (name, r) \<Longrightarrow> length r < length s"
  by (auto simp: read_name_def Let_def length_dropWhile_le le_imp_less_Suc split: list.splits if_splits)

lemma read_attribute_value_shorter:
  assumes "read_attribute_value s = Inr r"
  shows "length r < length s"
proof -
  obtain q t where s: "s = q # t" using assms by (cases s) (auto simp: read_attribute_value_def)
  let ?raw = "takeWhile (\<lambda>c. c \<noteq> q \<and> c \<noteq> CHR ''<'') t"
  obtain e r' where d: "drop (length ?raw) t = e # r'"
    using assms by (cases "drop (length ?raw) t") (auto simp: s read_attribute_value_def Let_def split: if_splits)
  have "r = r'" using assms
    by (auto simp: s d read_attribute_value_def Let_def guard_eq_Inr res_bind_eq_Inr split: if_splits)
  moreover have "length (drop (length ?raw) t) \<le> length t" by simp
  ultimately show ?thesis using s d by simp
qed

lemma read_attributes_shorter: "read_attributes k s = Inr (b, r) \<Longrightarrow> length r \<le> length s"
proof (induction k arbitrary: s)
  case 0
  then show ?case using skip_whitespace_length [of s]
    by (subst (asm) read_attributes.simps) (auto simp: Let_def split: if_splits)
next
  case (Suc k)
  let ?t = "skip_whitespace s"
  show ?case
  proof (cases "starts_with ?t ''/>'' \<or> starts_with ?t ''>'' \<or> ?t = []")
    case True
    then show ?thesis using Suc.prems skip_whitespace_length [of s]
      by (subst (asm) read_attributes.simps) (auto simp: Let_def split: if_splits)
  next
    case False
    then obtain name t u where "read_name ?t = Inr (name, t)"
      and u: "read_attribute_value (skip_whitespace (drop 1 (skip_whitespace t))) = Inr u"
      and "read_attributes k u = Inr (b, r)"
      using Suc.prems by (subst (asm) read_attributes.simps) (auto simp: Let_def guard_eq_Inr res_bind_eq_Inr)
    then have "length r \<le> length u" "length t < length ?t" using Suc.IH read_name_shorter by blast+
    moreover note read_attribute_value_shorter [OF u] skip_whitespace_length [of s] skip_whitespace_length [of t]
      skip_whitespace_length [of "drop 1 (skip_whitespace t)"]
    ultimately show ?thesis by simp
  qed
qed

lemma note_element_rest: "note_element l x = Inr y \<Longrightarrow> xp_rest y = xp_rest x"
  by (auto simp: note_element_def guard_eq_Inr res_bind_eq_Inr split: option.splits if_splits)

lemma xml_commit_rest: "xml_commit l x = Inr y \<Longrightarrow> xp_rest y = xp_rest x"
  by (auto simp: xml_commit_def Let_def guard_eq_Inr res_bind_eq_Inr)

lemma start_tag_shorter:
  assumes "start_tag x = Inr y" "xp_rest x \<noteq> []"
  shows "length (xp_rest y) < length (xp_rest x)"
proof -
  obtain name s b t z where n: "read_name (drop 1 (xp_rest x)) = Inr (name, s)"
    and a: "read_attributes 16 s = Inr (b, t)"
    and z: "note_element (local_name name) (x\<lparr>xp_rest := t\<rparr>) = Inr z" and y: "xp_rest y = xp_rest z"
    using assms(1) by (auto simp: start_tag_def guard_eq_Inr res_bind_eq_Inr dest: xml_commit_rest split: if_splits)
  then show ?thesis
    using read_name_shorter [OF n] read_attributes_shorter [OF a] note_element_rest [OF z] by simp
qed

lemma end_tag_shorter:
  assumes "end_tag x = Inr y"
  shows "length (xp_rest y) < length (xp_rest x)"
proof -
  obtain name s where n: "read_name (drop 2 (xp_rest x)) = Inr (name, s)"
    and y: "xp_rest y = drop 1 (skip_whitespace s)"
    using assms
    by (cases "xp_stack x") (auto simp: end_tag_def Let_def guard_eq_Inr res_bind_eq_Inr
        dest: xml_commit_rest split: if_splits)
  then show ?thesis using read_name_shorter [OF n] skip_whitespace_length [of s] by simp
qed

lemma skip_comment_shorter: "skip_comment x = Inr y \<Longrightarrow> xp_rest x \<noteq> [] \<Longrightarrow> length (xp_rest y) < length (xp_rest x)"
  by (auto simp: skip_comment_def guard_eq_Inr split: option.splits)

lemma xml_text_shorter:
  assumes "xml_text x = Inr y" "\<not> starts_with (xp_rest x) ''<''" "xp_rest x \<noteq> []"
  shows "length (xp_rest y) < length (xp_rest x)"
proof -
  obtain c r where x: "xp_rest x = c # r" "c \<noteq> CHR ''<''"
    using assms(2,3) by (cases "xp_rest x") (auto simp: starts_with_def split: if_splits)
  have "xp_rest y = dropWhile (\<lambda>c. c \<noteq> CHR ''<'') r"
    using assms(1) x by (auto simp: xml_text_def Let_def guard_eq_Inr res_bind_eq_Inr split: if_splits)
  then show ?thesis using x length_dropWhile_le [of "\<lambda>c. c \<noteq> CHR ''<''" r] by simp
qed

lemma xml_step_shorter:
  "xml_step x = Inr y \<Longrightarrow> xp_rest x \<noteq> [] \<Longrightarrow> length (xp_rest y) < length (xp_rest x)"
  by (auto simp: xml_step_def xml_markup_def split: if_splits
      dest: start_tag_shorter end_tag_shorter skip_comment_shorter xml_text_shorter)

text \<open>The loop of \<open>parse\<close>: every step consumes input, so it ends.\<close>

function xml_loop :: "xml_parser \<Rightarrow> parse_fault + xml_parser" where
  "xml_loop x = (if xp_rest x = [] then Inr x else (case xml_step x of Inl e \<Rightarrow> Inl e | Inr y \<Rightarrow> xml_loop y))"
  by pat_completeness auto
termination
  by (relation "measure (\<lambda>x. length (xp_rest x))") (auto dest: xml_step_shorter)

declare xml_loop.simps [simp del]

definition BOM :: string where "BOM = [CHR 0xEF, CHR 0xBB, CHR 0xBF]"

definition parser_new :: "string \<Rightarrow> xml_parser" where
  "parser_new s = \<lparr>xp_rest = s, xp_depth = 0, xp_stack = [], xp_buffer = [], xp_capturing = None,
     xp_view = view_empty\<rparr>"

definition xml_parse :: "string \<Rightarrow> parse_fault + xml_parser" where
  "xml_parse input =
     (let s = skip_whitespace (case strip_prefix BOM input of None \<Rightarrow> input | Some r \<Rightarrow> r)
      in res_bind (if starts_with s ''<?'' then res_bind (skip_declaration s) (\<lambda>r. Inr (skip_whitespace r)) else Inr s)
           (\<lambda>s. res_bind (xml_loop (parser_new s)) (\<lambda>x.
              guard (xp_stack x = [] \<and> xp_capturing x = None) ParseMalformed (Inr x))))"

definition parse_xml :: "string \<Rightarrow> read_fault + soap_view" where
  "parse_xml input = (case xml_parse input of
     Inl ParseBounded \<Rightarrow> Inl ReadBounded | Inl _ \<Rightarrow> Inl ReadMalformed | Inr x \<Rightarrow> Inr (xp_view x))"

definition read_soap :: "bytes \<Rightarrow> read_fault + soap_view" where
  "read_soap bs = res_bind (parse_http bs) parse_xml"

section \<open>Replies: classification\<close>

definition UPNP_ABSENT :: nat where "UPNP_ABSENT = 714"
definition UPNP_CONFLICT :: nat where "UPNP_CONFLICT = 718"
definition UPNP_PERMANENT_ONLY :: nat where "UPNP_PERMANENT_ONLY = 725"

datatype upnp_probe = ProbeAbsent | ProbePresent | ProbeUnreadable mapping_refusal

definition classify_probe :: "bytes \<Rightarrow> upnp_probe" where
  "classify_probe bs =
     (case read_soap bs of
        Inl _ \<Rightarrow> ProbeUnreadable MappingMalformed
      | Inr v \<Rightarrow>
          (case (sv_response v, sv_error_code v) of
             (Some ResponseFault, Some n) \<Rightarrow>
               if n = UPNP_ABSENT then ProbeAbsent else ProbeUnreadable AmbiguousOwnership
           | (Some ResponseGet, None) \<Rightarrow> ProbePresent
           | _ \<Rightarrow> ProbeUnreadable MappingMalformed))"

datatype add_reply = AddAccepted | AddPermanentOnly | AddConflict | AddRejected | AddUnreadable mapping_refusal

definition classify_add :: "bytes \<Rightarrow> add_reply" where
  "classify_add bs =
     (case read_soap bs of
        Inl _ \<Rightarrow> AddUnreadable MappingMalformed
      | Inr v \<Rightarrow>
          if sv_response v \<noteq> None \<and> sv_error_code v \<noteq> None \<and> sv_response v \<noteq> Some ResponseFault
          then AddUnreadable MappingMalformed
          else (case sv_error_code v of
              Some n \<Rightarrow>
                if n = UPNP_PERMANENT_ONLY then AddPermanentOnly
                else if n = UPNP_CONFLICT then AddConflict else AddRejected
            | None \<Rightarrow>
                if sv_response v = Some ResponseAdd then AddAccepted else AddUnreadable MappingMalformed))"

datatype upnp_confirm = ConfirmUsable u32 | OursButUnusable u32 | NotOurs | ConfirmAbsent | ConfirmUnreadable

definition classify_confirm :: "bytes \<Rightarrow> ipv4 \<Rightarrow> u16 \<Rightarrow> port_protocol \<Rightarrow> u32 \<Rightarrow> upnp_confirm" where
  "classify_confirm bs local port protocol ceiling =
     (case read_soap bs of
        Inl _ \<Rightarrow> ConfirmUnreadable
      | Inr v \<Rightarrow>
          if sv_response v = Some ResponseFault \<and> sv_error_code v = Some UPNP_ABSENT then ConfirmAbsent
          else if sv_response v \<noteq> Some ResponseGet \<or> sv_error_code v \<noteq> None then ConfirmUnreadable
          else (case (sv_internal_client v, sv_internal_port v, sv_lease_sec v, sv_enabled v) of
              (Some client, Some seen_port, Some lease, Some enabled) \<Rightarrow>
                if (case sv_protocol v of None \<Rightarrow> False | Some seen \<Rightarrow> seen \<noteq> protocol)
                   \<or> client \<noteq> local \<or> seen_port \<noteq> port
                then NotOurs
                else if enabled \<and> finite_lease ceiling lease then ConfirmUsable lease
                else OursButUnusable lease
            | _ \<Rightarrow> ConfirmUnreadable))"

datatype delete_attempt =
    DeleteNotSent mapping_refusal
  | DeleteConfirmed
  | DeleteRejected
  | DeleteUnknown mapping_refusal traversal_error_class

definition interpret_delete :: "bytes \<Rightarrow> delete_attempt" where
  "interpret_delete bs =
     (case read_soap bs of
        Inl _ \<Rightarrow> DeleteUnknown MappingMalformed ErrorCleanupFailed
      | Inr v \<Rightarrow>
          if sv_response v = Some ResponseDelete \<and> sv_error_code v = None then DeleteConfirmed
          else if sv_response v = Some ResponseFault \<and> sv_error_code v = Some UPNP_ABSENT then DeleteConfirmed
          else if sv_error_code v \<noteq> None then DeleteRejected
          else DeleteUnknown AmbiguousOwnership ErrorCleanupFailed)"

section \<open>Decimal text\<close>

lemma is_ascii_digit_char_of: "d < 10 \<Longrightarrow> is_ascii_digit (char_of (48 + d :: nat))"
  by (simp add: is_ascii_digit_def)

lemma digit_value_char_of: "d < 10 \<Longrightarrow> digit_value (char_of (48 + d)) = Some d"
  by (simp add: digit_value_def is_ascii_digit_char_of)

lemma show_nat_digits: "list_all is_ascii_digit (show_nat n)"
proof (induction n rule: show_nat.induct)
  case (1 n)
  then show ?case by (subst show_nat.simps) (simp add: is_ascii_digit_char_of)
qed

lemma show_nat_not_Nil [simp]: "show_nat n \<noteq> []"
  by (subst show_nat.simps) simp

lemma digits_value_append:
  "digits_value radix acc (s @ t)
     = (case digits_value radix acc s of None \<Rightarrow> None | Some v \<Rightarrow> digits_value radix v t)"
  by (induction radix acc s rule: digits_value.induct) (auto split: option.splits)

lemma digits_value_show_nat [simp]: "digits_value 10 0 (show_nat n) = Some n"
proof (induction n rule: show_nat.induct)
  case (1 n)
  then show ?case
    by (subst show_nat.simps) (simp add: digits_value_append digit_value_char_of)
qed

lemma length_show_nat: "0 < k \<Longrightarrow> n < 10 ^ k \<Longrightarrow> length (show_nat n) \<le> k"
proof (induction n arbitrary: k rule: show_nat.induct)
  case (1 n)
  show ?case
  proof (cases "n < 10")
    case True
    then show ?thesis using 1(2) by (subst show_nat.simps) simp
  next
    case False
    obtain j where "k = Suc j" using 1(2) by (cases k) auto
    with False 1(3) have k: "k = Suc j" "0 < j" by (cases j; simp)+
    have "n div 10 < 10 ^ j" using 1(3) k by (simp add: div_less_iff_less_mult)
    then show ?thesis using 1(1) [OF False k(2)] k False by (subst show_nat.simps) simp
  qed
qed

lemma show_nat_hd: "0 < n \<Longrightarrow> hd (show_nat n) \<noteq> CHR ''0''"
proof (induction n rule: show_nat.induct)
  case (1 n)
  show ?case
  proof (cases "n < 10")
    case True
    have "of_char (char_of (48 + n) :: char) \<noteq> (of_char (CHR ''0'') :: nat)" using True 1(2) by simp
    then show ?thesis using True by (subst show_nat.simps) (metis list.sel(1))
  next
    case False
    then show ?thesis using 1(1) by (subst show_nat.simps) (simp add: div_greater_zero_iff)
  qed
qed

lemma digit_not: "is_ascii_digit c \<Longrightarrow> c \<notin> {CHR ''+'', CHR ''.'', CHR ''<'', CHR ''&''}"
  by (auto simp: is_ascii_digit_def)

lemma show_nat_chars: "c \<in> set (show_nat n) \<Longrightarrow> is_ascii_digit c"
  using show_nat_digits by (auto simp: list_all_iff)

lemma from_str_radix_show_nat [simp]: "n \<le> bound \<Longrightarrow> from_str_radix bound 10 (show_nat n) = Some n"
proof -
  assume n: "n \<le> bound"
  obtain c r where s: "show_nat n = c # r" by (cases "show_nat n") auto
  then have "c \<noteq> CHR ''+''" using show_nat_chars [of c n] digit_not by auto
  then show ?thesis using n s digits_value_show_nat [of n]
    by (simp add: from_str_radix_def Let_def del: digits_value_show_nat digits_value.simps)
qed

lemma parse_octet_show_nat: "n \<le> 255 \<Longrightarrow> parse_octet (show_nat n) = Some (of_nat n)"
proof -
  assume n: "n \<le> 255"
  have "length (show_nat n) \<le> 3" using n by (intro length_show_nat) simp_all
  moreover have "\<not> (1 < length (show_nat n) \<and> hd (show_nat n) = CHR ''0'')"
    using show_nat_hd [of n] by (cases "n = 0") (auto simp: show_nat.simps [of 0])
  ultimately show ?thesis using n by (simp add: parse_octet_def show_nat_digits)
qed

lemma split_char_single: "d \<notin> set p \<Longrightarrow> split_char d p = [p]"
  by (induction p) auto

lemma split_char_append: "d \<notin> set p \<Longrightarrow> split_char d (p @ d # s) = p # split_char d s"
  by (induction p) auto

lemma dot_not_in_show_nat: "CHR ''.'' \<notin> set (show_nat n)"
  using show_nat_chars digit_not by blast

lemma unat_byte_le: "unat (b :: byte) \<le> 255"
  using unsigned_less [where ?'a = nat, of b] by simp

lemma parse_show_ipv4 [simp]: "parse_ipv4 (show_ipv4 a) = Some a"
proof -
  obtain p q r s where o: "octets a = [p, q, r, s]" by (simp add: octets_def be32_def)
  have "ipv4_new p q r s = a" using o by (auto simp: octets_def ipv4_new_def be32_def)
  then show ?thesis
    by (simp add: show_ipv4_def o parse_ipv4_def split_char_append split_char_single dot_not_in_show_nat
        parse_octet_show_nat unat_byte_le)
qed

section \<open>Reading markup\<close>

definition tag_ok :: "string \<Rightarrow> bool" where
  "tag_ok n \<longleftrightarrow> n \<noteq> [] \<and> length n \<le> SOAP_FIELD_MAX \<and> is_ascii_alphabetic (hd n) \<and> list_all is_name_char n"

definition plain_field :: "string \<Rightarrow> bool" where
  "plain_field t \<longleftrightarrow> t \<noteq> [] \<and> length t \<le> SOAP_FIELD_MAX \<and> list_all (\<lambda>c. is_ascii_alphanumeric c \<or> c = CHR ''.'') t"

lemma alphanumeric_or_dot:
  assumes "is_ascii_alphanumeric c \<or> c = CHR ''.''"
  shows "c \<noteq> CHR ''<''" "c \<noteq> CHR ''&''" "ws_width (c # s) = 0"
proof -
  have "code c \<ge> 46" "code c < 128" "code c \<noteq> 60" "code c \<noteq> 38"
    using assms by (auto simp: is_ascii_alphanumeric_def is_ascii_digit_def is_ascii_upper_def is_ascii_lower_def)
  then show "c \<noteq> CHR ''<''" "c \<noteq> CHR ''&''" "ws_width (c # s) = 0"
    by (auto simp: ws_width_def split: list.splits)
qed

lemma trim_plain: "plain_field t \<Longrightarrow> trim t = t"
proof -
  assume p: "plain_field t"
  have ws: "ws_width (c # s) = 0" if "c \<in> set t" for c s
    using p that alphanumeric_or_dot(3) by (auto simp: plain_field_def list_all_iff)
  have start: "trim_start (c # s) = c # s" if "c \<in> set t" for c s
    using ws [OF that] by (subst trim_start.simps) simp
  have "trim_end u = u" if "set u \<subseteq> set t" for u using that by (induction u) (simp_all add: start)
  moreover have "trim_start t = t" using p start by (cases t) (auto simp: plain_field_def)
  ultimately show ?thesis by (simp add: trim_def)
qed

lemma decode_plain: "list_all (\<lambda>c. c \<noteq> CHR ''&'') t \<Longrightarrow> decode_text t = Inr t"
  by (induction t) (simp_all add: decode_text.simps)

lemma is_name_char_gt [simp]: "\<not> is_name_char (CHR ''>'')"
  by (simp add: is_name_char_def is_ascii_alphanumeric_def is_ascii_digit_def is_ascii_upper_def is_ascii_lower_def)

lemma read_name_tag: "tag_ok n \<Longrightarrow> read_name (n @ CHR ''>'' # r) = Inr (n, CHR ''>'' # r)"
proof -
  assume n: "tag_ok n"
  then obtain c m where "n = c # m" by (cases n) (auto simp: tag_ok_def)
  moreover from this n have "takeWhile is_name_char (m @ CHR ''>'' # r) = m" "dropWhile is_name_char (m @ CHR ''>'' # r) = CHR ''>'' # r"
    by (simp_all add: tag_ok_def list_all_iff takeWhile_append dropWhile_append)
  ultimately show ?thesis using n by (simp add: read_name_def tag_ok_def Let_def)
qed

lemma skip_whitespace_gt [simp]: "skip_whitespace (CHR ''>'' # r) = CHR ''>'' # r"
  by (simp add: skip_whitespace_def is_ascii_whitespace_def)

lemma starts_with_gt: "starts_with (CHR ''>'' # r) ''>''" "\<not> starts_with (CHR ''>'' # r) ''/>''"
  by (simp_all add: starts_with_def)

lemma read_attributes_gt: "read_attributes k (CHR ''>'' # r) = Inr (False, r)"
  by (subst read_attributes.simps) (simp add: starts_with_gt)

lemma alphabetic_markup:
  "is_ascii_alphabetic c \<Longrightarrow> c \<noteq> CHR ''!'' \<and> c \<noteq> CHR ''?'' \<and> c \<noteq> CHR ''/''"
  by (auto simp: is_ascii_alphabetic_def is_ascii_upper_def is_ascii_lower_def)

lemma xml_step_open:
  assumes "tag_ok n" "xp_rest x = CHR ''<'' # n @ CHR ''>'' # r"
  shows "xml_step x = start_tag x"
proof -
  obtain c m where n: "n = c # m" using assms(1) by (cases n) (auto simp: tag_ok_def)
  then have "c \<noteq> CHR ''!'' \<and> c \<noteq> CHR ''?'' \<and> c \<noteq> CHR ''/''" using assms(1) alphabetic_markup by (simp add: tag_ok_def)
  then show ?thesis using assms(2) n by (auto simp: xml_step_def xml_markup_def starts_with_def)
qed

lemma loop_open:
  assumes "tag_ok n" "xp_rest x = CHR ''<'' # n @ CHR ''>'' # r" "xp_depth y < 16"
    "note_element (local_name n) (x\<lparr>xp_rest := r\<rparr>) = Inr y"
  shows "xml_loop x = xml_loop (y\<lparr>xp_depth := xp_depth y + 1, xp_stack := local_name n # xp_stack y\<rparr>)"
proof -
  have "xml_step x = Inr (y\<lparr>xp_depth := xp_depth y + 1, xp_stack := local_name n # xp_stack y\<rparr>)"
    using assms by (simp add: xml_step_open start_tag_def read_name_tag read_attributes_gt IGD_XML_MAX_DEPTH_def guard_def)
  then show ?thesis using assms(2) by (subst xml_loop.simps) simp
qed

lemma xml_step_close:
  assumes "tag_ok n" "xp_rest x = CHR ''<'' # CHR ''/'' # n @ CHR ''>'' # r" "xp_stack x = local_name n # st"
  shows "xml_step x =
    (let y = x\<lparr>xp_rest := r, xp_stack := st, xp_depth := saturating_sub (xp_depth x) 1\<rparr>
     in if xp_capturing x = Some (local_name n) then xml_commit (local_name n) y else Inr y)"
  using assms by (simp add: xml_step_def xml_markup_def starts_with_def end_tag_def read_name_tag guard_def)

lemma loop_close:
  assumes "tag_ok n" "xp_rest x = CHR ''<'' # CHR ''/'' # n @ CHR ''>'' # r" "xp_stack x = local_name n # st"
    "xp_capturing x = None"
  shows "xml_loop x = xml_loop (x\<lparr>xp_rest := r, xp_stack := st, xp_depth := saturating_sub (xp_depth x) 1\<rparr>)"
  using xml_step_close [OF assms(1-3)] assms(2,4) by (subst xml_loop.simps) simp

text \<open>A captured field, from its opening tag to its closing tag.\<close>

lemma loop_field:
  assumes f: "tag_ok f" "captured_field f" "response_kind_of f = None" "local_name f = f"
    and t: "plain_field t"
    and x: "xp_rest x = CHR ''<'' # f @ CHR ''>'' # t @ CHR ''<'' # CHR ''/'' # f @ CHR ''>'' # r"
      "xp_capturing x = None" "xp_depth x < 16"
    and v: "commit_view f t (xp_view x) = Inr v"
  shows "xml_loop x = xml_loop (x\<lparr>xp_rest := r, xp_buffer := [], xp_view := v\<rparr>)"
proof -
  let ?r = "t @ CHR ''<'' # CHR ''/'' # f @ CHR ''>'' # r"
  define y where "y = x\<lparr>xp_rest := ?r, xp_buffer := [], xp_capturing := Some f, xp_depth := xp_depth x + 1,
    xp_stack := f # xp_stack x\<rparr>"
  have "xml_loop x = xml_loop y"
    using loop_open [OF f(1) x(1), of "x\<lparr>xp_rest := ?r, xp_buffer := [], xp_capturing := Some f\<rparr>"] f x(2,3)
    by (simp add: note_element_def guard_def y_def)
  also have "xml_loop y = xml_loop (y\<lparr>xp_rest := CHR ''<'' # CHR ''/'' # f @ CHR ''>'' # r, xp_buffer := t\<rparr>)"
  proof -
    obtain c u where c: "t = c # u" using t by (cases t) (auto simp: plain_field_def)
    have all: "\<forall>a \<in> set t. a \<noteq> CHR ''<''" "list_all (\<lambda>a. a \<noteq> CHR ''&'') t"
      using t alphanumeric_or_dot(1,2) by (auto simp: plain_field_def list_all_iff)
    have "takeWhile (\<lambda>a. a \<noteq> CHR ''<'') ?r = t" "dropWhile (\<lambda>a. a \<noteq> CHR ''<'') ?r = CHR ''<'' # CHR ''/'' # f @ CHR ''>'' # r"
      using all(1) by (simp_all add: takeWhile_append dropWhile_append)
    moreover have "\<not> starts_with ?r ''<''" using all(1) c by (auto simp: starts_with_def)
    ultimately have "xml_step y = Inr (y\<lparr>xp_rest := CHR ''<'' # CHR ''/'' # f @ CHR ''>'' # r, xp_buffer := t\<rparr>)"
      using t decode_plain [OF all(2)] by (simp add: xml_step_def xml_text_def Let_def y_def guard_def plain_field_def)
    then show ?thesis by (subst xml_loop.simps) (simp add: y_def c)
  qed
  also have "\<dots> = xml_loop (x\<lparr>xp_rest := r, xp_buffer := [], xp_view := v\<rparr>)"
  proof -
    have "xml_step (y\<lparr>xp_rest := CHR ''<'' # CHR ''/'' # f @ CHR ''>'' # r, xp_buffer := t\<rparr>)
        = Inr (x\<lparr>xp_rest := r, xp_buffer := [], xp_view := v\<rparr>)"
      using t v f x(2)
      by (subst xml_step_close [OF f(1), where r = r and st = "xp_stack x"])
        (simp_all add: y_def xml_commit_def trim_plain guard_def plain_field_def saturating_sub_def)
    then show ?thesis by (subst xml_loop.simps) (simp add: y_def)
  qed
  finally show ?thesis .
qed

section \<open>Reading replies\<close>

lemma utf8_ascii: "list_all (\<lambda>a. a < 128) l \<Longrightarrow> utf8_valid l"
  by (induction l) simp_all

text \<open>Printable ASCII text.\<close>

definition ascii_text :: "string \<Rightarrow> bool" where
  "ascii_text s \<longleftrightarrow> list_all (\<lambda>c. 32 \<le> code c \<and> code c < 128) s"

lemma ascii_text_append [simp]: "ascii_text (s @ t) \<longleftrightarrow> ascii_text s \<and> ascii_text t"
  by (simp add: ascii_text_def)

lemma ascii_text_CR: "ascii_text s \<Longrightarrow> CHR 0x0D \<notin> set s"
  by (auto simp: ascii_text_def list_all_iff)

lemma ascii_text_show_nat [simp]: "ascii_text (show_nat n)"
  by (auto simp: ascii_text_def list_all_iff is_ascii_digit_def dest!: show_nat_chars)

lemma from_utf8_as_bytes:
  assumes "list_all (\<lambda>c. 0 < code c \<and> code c < 128) s"
  shows "from_utf8 (as_bytes s) = Some s" "0 \<notin> set (as_bytes s)"
proof -
  have "utf8_valid (map code s)" using assms by (intro utf8_ascii) (auto simp: list_all_iff)
  then show "from_utf8 (as_bytes s) = Some s" by (simp add: from_utf8_def unat_as_bytes as_bytes_inverse)
  have "0 \<notin> set (map unat (as_bytes s))" unfolding unat_as_bytes using assms by (auto simp: list_all_iff)
  then show "0 \<notin> set (as_bytes s)" by force
qed

lemma find_sub_skip:
  "c \<notin> set a \<Longrightarrow> find_sub (c # p) (a @ s) = map_option (\<lambda>i. length a + i) (find_sub (c # p) s)"
proof (induction a)
  case Nil
  then show ?case by (cases "find_sub (c # p) s") simp_all
next
  case (Cons d a)
  then show ?case by (cases "find_sub (c # p) s") auto
qed

lemma find_sub_here: "find_sub (c # p) ((c # p) @ s) = Some 0"
  by (simp add: strip_prefix_Some)

lemma find_blank_line:
  assumes "CHR 0x0D \<notin> set v" "CHR 0x0D \<notin> set h" "h \<noteq> []"
  shows "find_sub (CRLF @ CRLF) (v @ CRLF @ h @ CRLF @ CRLF @ b) = Some (length v + 2 + length h)"
proof -
  have crlf: "CRLF @ CRLF = CHR 0x0D # [CHR 0x0A, CHR 0x0D, CHR 0x0A]" by (simp add: CRLF_def)
  obtain c r where h: "h = c # r" "c \<noteq> CHR 0x0D" using assms(2,3) by (cases h) auto
  have "find_sub (CRLF @ CRLF) (h @ CRLF @ CRLF @ b) = Some (length h)"
    using find_sub_skip [OF assms(2), of "[CHR 0x0A, CHR 0x0D, CHR 0x0A]" "CRLF @ CRLF @ b"]
    by (simp add: CRLF_def)
  then have "find_sub (CRLF @ CRLF) (CRLF @ h @ CRLF @ CRLF @ b) = Some (2 + length h)"
    using h by (simp add: CRLF_def)
  then show ?thesis
    using find_sub_skip [OF assms(1), of "[CHR 0x0A, CHR 0x0D, CHR 0x0A]" "CRLF @ h @ CRLF @ CRLF @ b"]
    unfolding crlf by simp
qed

lemma split_two_lines:
  assumes "CHR 0x0D \<notin> set v" "CHR 0x0D \<notin> set h"
  shows "split_str CRLF (v @ CRLF @ h) = [v, h]"
proof -
  have "find_sub CRLF h = None" "find_sub CRLF (v @ CRLF @ h) = Some (length v)"
    using find_sub_skip [OF assms(2), of "[CHR 0x0A]" "[]"] find_sub_skip [OF assms(1), of "[CHR 0x0A]" "CRLF @ h"]
    by (simp_all add: CRLF_def)
  moreover from this(1) have "split_str CRLF h = [h]" by (subst split_str.simps) simp
  ultimately show ?thesis by (subst split_str.simps) (simp add: CRLF_def)
qed

definition http_reply :: "string \<Rightarrow> string \<Rightarrow> bytes" where
  "http_reply status body =
     as_bytes (''HTTP/1.1 '' @ status @ CRLF @ ''Content-Length: '' @ show_nat (length body) @ CRLF @ CRLF @ body)"

lemma header_value: "trim ('' '' @ show_nat n) = show_nat n"
proof -
  have d: "ws_width (c # s) = 0" if "c \<in> set (show_nat n)" for c s
    using alphanumeric_or_dot(3) [of c s] show_nat_chars [OF that] by (simp add: is_ascii_alphanumeric_def)
  obtain c r where s: "show_nat n = c # r" by (cases "show_nat n") auto
  have start: "trim_start (c # s) = c # s" if "c \<in> set (show_nat n)" for c s
    using d [OF that] by (subst trim_start.simps) simp
  have "trim_start ('' '' @ show_nat n) = show_nat n"
    using start [of c r] s by (subst trim_start.simps) (simp add: ws_width_def split: list.splits)
  moreover have "trim_end u = u" if "set u \<subseteq> set (show_nat n)" for u using that by (induction u) (simp_all add: start)
  ultimately show ?thesis by (simp add: trim_def)
qed

lemma parse_http_lines:
  assumes "ascii_text v" "ascii_text h" "h \<noteq> []" "ascii_text body" "length body \<le> 4096"
    and "split_whitespace v = version # number # reason" "starts_with version ''HTTP/1.''"
    and "from_str_radix u16_max 10 number = Some n" "n = 200 \<or> n = 500"
    and "http_headers 0 None [h] = Inr (Some (length body))"
  shows "parse_http (as_bytes (v @ CRLF @ h @ CRLF @ CRLF @ body)) = Inr body"
proof -
  note cr = ascii_text_CR [OF assms(1)] ascii_text_CR [OF assms(2)]
  have ok: "list_all (\<lambda>c. 0 < code c \<and> code c < 128) (v @ CRLF @ h @ CRLF @ CRLF @ body)"
    using assms(1,2,4) unfolding ascii_text_def by (auto simp: list_all_iff CRLF_def)
  have "split_once (CRLF @ CRLF) (v @ CRLF @ h @ CRLF @ CRLF @ body) = Some (v @ CRLF @ h, body)"
    unfolding split_once_def find_blank_line [OF cr assms(3)] by (simp add: CRLF_def eval_nat_numeral)
  then show ?thesis
    using from_utf8_as_bytes [OF ok] split_two_lines [OF cr] assms(5-10)
    by (auto simp: parse_http_def guard_def UPNP_SOAP_MAX_BYTES_def)
qed

lemma content_length_header: "length body \<le> 4096 \<Longrightarrow>
    http_headers 0 None [''Content-Length: '' @ show_nat (length body)] = Inr (Some (length body))"
  using header_value [of "length body"]
  by (simp add: split_once_def starts_with_def eq_ignore_ascii_case_def to_ascii_lowercase_def to_ascii_lower_def
      is_ascii_upper_def u64_max_def)

lemma parse_http_reply:
  assumes "status = ''200 OK'' \<or> status = ''500 Error''" "ascii_text body" "length body \<le> 4096"
  shows "parse_http (http_reply status body) = Inr body"
proof -
  have "split_whitespace (''HTTP/1.1 '' @ status) = [''HTTP/1.1'', take 3 status, drop 4 status]"
    using assms(1) by (auto simp: split_whitespace_def ws_width_def)
  moreover have "from_str_radix u16_max 10 (take 3 status) = Some (if status = ''200 OK'' then 200 else 500)"
    using assms(1) by (auto simp: from_str_radix_def digit_value_def is_ascii_digit_def u16_max_def)
  moreover have "ascii_text (''HTTP/1.1 '' @ status)" using assms(1) by (auto simp: ascii_text_def)
  moreover have "ascii_text (''Content-Length: '' @ show_nat (length body))"
    using ascii_text_show_nat unfolding ascii_text_append by (simp add: ascii_text_def)
  ultimately show ?thesis
    using parse_http_lines [where v = "''HTTP/1.1 '' @ status" and h = "''Content-Length: '' @ show_nat (length body)"
        and body = body and version = "''HTTP/1.1''" and number = "take 3 status" and reason = "[drop 4 status]"
        and n = "if status = ''200 OK'' then 200 else 500"] assms(2,3) content_length_header [OF assms(3)]
    by (simp add: http_reply_def starts_with_def)
qed

text \<open>Elements as a router prints them, and a parser between two elements.\<close>

definition element :: "string \<Rightarrow> string \<Rightarrow> string" where
  "element n inner = ''<'' @ n @ ''>'' @ inner @ ''</'' @ n @ ''>''"

definition parser_in :: "string list \<Rightarrow> soap_view \<Rightarrow> string \<Rightarrow> xml_parser" where
  "parser_in st v r = \<lparr>xp_rest = r, xp_depth = length st, xp_stack = st, xp_buffer = [], xp_capturing = None,
     xp_view = v\<rparr>"

definition reads :: "string list \<Rightarrow> string \<Rightarrow> soap_view \<Rightarrow> soap_view \<Rightarrow> bool" where
  "reads st s v v' \<longleftrightarrow> (\<forall>tail. xml_loop (parser_in st v (s @ tail)) = xml_loop (parser_in st v' tail))"

lemma reads_Nil: "reads st [] v v"
  by (simp add: reads_def)

lemma reads_append: "reads st s v v' \<Longrightarrow> reads st t v' v'' \<Longrightarrow> reads st (s @ t) v v''"
  by (simp add: reads_def)

lemma reads_field:
  assumes "tag_ok f" "captured_field f" "response_kind_of f = None" "local_name f = f" "plain_field t"
    "length st < 16" "commit_view f t v = Inr v'"
  shows "reads st (element f t) v v'"
  unfolding reads_def
  using loop_field [OF assms(1-5), of "parser_in st v (element f t @ tail)" tail v' for tail] assms(6,7)
  by (simp add: parser_in_def element_def)

lemma reads_element:
  assumes n: "tag_ok n" "\<not> captured_field (local_name n)" "length st < 16"
    and v: "case response_kind_of (local_name n) of None \<Rightarrow> v0 = v
      | Some k \<Rightarrow> sv_response v = None \<and> v0 = v\<lparr>sv_response := Some k\<rparr>"
    and inner: "reads (local_name n # st) inner v0 v'"
  shows "reads st (element n inner) v v'"
  unfolding reads_def
proof
  fix tail
  let ?r = "inner @ CHR ''<'' # CHR ''/'' # n @ CHR ''>'' # tail"
  have "note_element (local_name n) ((parser_in st v (element n inner @ tail))\<lparr>xp_rest := ?r\<rparr>)
      = Inr (parser_in st v0 ?r)"
    using v n(2) by (auto simp: note_element_def parser_in_def guard_def split: option.splits)
  then have "xml_loop (parser_in st v (element n inner @ tail)) = xml_loop (parser_in (local_name n # st) v0 ?r)"
    using loop_open [OF n(1), of "parser_in st v (element n inner @ tail)" ?r "parser_in st v0 ?r"] n(3)
    by (simp add: parser_in_def element_def)
  also have "\<dots> = xml_loop (parser_in (local_name n # st) v' (CHR ''<'' # CHR ''/'' # n @ CHR ''>'' # tail))"
    using inner by (simp add: reads_def)
  also have "\<dots> = xml_loop (parser_in st v' tail)"
    using loop_close [OF n(1), of "parser_in (local_name n # st) v' (CHR ''<'' # CHR ''/'' # n @ CHR ''>'' # tail)" tail st]
    by (simp add: parser_in_def saturating_sub_def)
  finally show "xml_loop (parser_in st v (element n inner @ tail)) = xml_loop (parser_in st v' tail)" .
qed

definition soap_body :: "string \<Rightarrow> string" where
  "soap_body inner = element ''s:Envelope'' (element ''s:Body'' inner)"

lemmas tag_simps = tag_ok_def SOAP_FIELD_MAX_def is_ascii_alphabetic_def is_name_char_def is_ascii_alphanumeric_def
  is_ascii_digit_def is_ascii_upper_def is_ascii_lower_def local_name_def captured_field_def

lemma parse_soap_body:
  assumes "reads [''Body'', ''Envelope''] inner view_empty v"
  shows "parse_xml (soap_body inner) = Inr v"
proof -
  have "reads [] (soap_body inner) view_empty v"
    unfolding soap_body_def
    by (intro reads_element [where ?v0.0 = view_empty]) (simp_all add: tag_simps assms)
  then have "xml_loop (parser_new (soap_body inner)) = xml_loop (parser_in [] v [])"
    unfolding reads_def by (metis append_Nil2 parser_in_def parser_new_def list.size(3))
  moreover have "xml_loop (parser_in [] v []) = Inr (parser_in [] v [])"
    by (subst xml_loop.simps) (simp add: parser_in_def)
  moreover have "strip_prefix BOM (soap_body inner) = None" "\<not> starts_with (soap_body inner) ''<?''"
      "skip_whitespace (soap_body inner) = soap_body inner"
    by (simp_all add: soap_body_def element_def BOM_def starts_with_def skip_whitespace_def is_ascii_whitespace_def)
  ultimately show ?thesis
    by (simp add: parse_xml_def xml_parse_def guard_def parser_in_def)
qed

definition fault_reply :: "nat \<Rightarrow> bytes" where
  "fault_reply n = http_reply ''500 Error'' (soap_body (element ''s:Fault'' (element ''errorCode'' (show_nat n))))"

definition done_reply :: "string \<Rightarrow> bytes" where
  "done_reply action = http_reply ''200 OK'' (soap_body (element (''u:'' @ action @ ''Response'') []))"

definition entry_reply :: "ipv4 \<Rightarrow> u16 \<Rightarrow> u32 \<Rightarrow> bool \<Rightarrow> port_protocol \<Rightarrow> bytes" where
  "entry_reply client port lease enabled protocol =
     http_reply ''200 OK'' (soap_body (element ''u:GetSpecificPortMappingEntryResponse''
       (element ''NewInternalPort'' (show_nat (unat port)) @ element ''NewInternalClient'' (show_ipv4 client)
        @ element ''NewEnabled'' (if enabled then ''1'' else ''0'') @ element ''NewProtocol'' (port_protocol_name protocol)
        @ element ''NewLeaseDuration'' (show_nat (unat lease)))))"

lemma read_soap_reply:
  assumes "status = ''200 OK'' \<or> status = ''500 Error''" "ascii_text inner" "length inner \<le> 4000"
    "reads [''Body'', ''Envelope''] inner view_empty v"
  shows "read_soap (http_reply status (soap_body inner)) = Inr v"
proof -
  have "ascii_text (soap_body inner)" "length (soap_body inner) \<le> 4096"
    using assms(2,3) by (simp_all add: soap_body_def element_def ascii_text_def)
  then show ?thesis
    using parse_http_reply [OF assms(1)] parse_soap_body [OF assms(4)] by (simp add: read_soap_def)
qed

lemma plain_show_nat: "n < 10 ^ 60 \<Longrightarrow> plain_field (show_nat n)"
  using length_show_nat [of 60 n] show_nat_digits [of n]
  by (auto simp: plain_field_def SOAP_FIELD_MAX_def is_ascii_alphanumeric_def list_all_iff)

lemma length_show_ipv4: "length (show_ipv4 a) \<le> 15"
proof -
  have b: "length (show_nat (unat b)) \<le> 3" for b :: byte
    using unat_byte_le [of b] by (intro length_show_nat) simp_all
  obtain p q r s where "octets a = [p, q, r, s]" by (simp add: octets_def be32_def)
  then show ?thesis using b [of p] b [of q] b [of r] b [of s] by (simp add: show_ipv4_def)
qed

lemma show_ipv4_chars: "c \<in> set (show_ipv4 a) \<Longrightarrow> is_ascii_digit c \<or> c = CHR ''.''"
  by (auto simp: show_ipv4_def octets_def be32_def dest: show_nat_chars)

lemma plain_show_ipv4: "plain_field (show_ipv4 a)"
  using length_show_ipv4 [of a] show_ipv4_chars [of _ a]
  by (auto simp: plain_field_def SOAP_FIELD_MAX_def is_ascii_alphanumeric_def list_all_iff)
    (simp add: show_ipv4_def octets_def be32_def)

lemma ascii_plain: "plain_field t \<Longrightarrow> ascii_text t"
  by (auto simp: plain_field_def ascii_text_def list_all_iff is_ascii_alphanumeric_def is_ascii_digit_def
      is_ascii_upper_def is_ascii_lower_def)

lemma length_plain: "plain_field t \<Longrightarrow> length t \<le> 64"
  by (simp add: plain_field_def SOAP_FIELD_MAX_def)

lemma unat_bounds: "unat (p :: u16) \<le> 65535" "unat (l :: u32) \<le> 4294967295"
  using unsigned_less [where ?'a = nat, of p] unsigned_less [where ?'a = nat, of l] by simp_all

lemma plain_protocol: "plain_field (port_protocol_name p)"
  by (cases p) (simp_all add: plain_field_def SOAP_FIELD_MAX_def is_ascii_alphanumeric_def is_ascii_upper_def)

lemma plain_enabled: "plain_field (if b then ''1'' else ''0'')"
  by (simp add: plain_field_def SOAP_FIELD_MAX_def is_ascii_alphanumeric_def is_ascii_digit_def)

lemmas plain_values = plain_show_ipv4 plain_protocol plain_enabled

lemma read_fault_reply:
  assumes "n \<le> 65535"
  shows "read_soap (fault_reply n) = Inr (view_empty\<lparr>sv_response := Some ResponseFault, sv_error_code := Some n\<rparr>)"
proof -
  have p: "plain_field (show_nat n)" using assms by (intro plain_show_nat) simp
  have n: "length (show_nat n) \<le> 5" using assms by (intro length_show_nat) simp_all
  have "commit_view ''errorCode'' (show_nat n) (view_empty\<lparr>sv_response := Some ResponseFault\<rparr>)
      = Inr (view_empty\<lparr>sv_response := Some ResponseFault, sv_error_code := Some n\<rparr>)"
    using assms n by (simp add: commit_view_def view_empty_def guard_def show_nat_digits u16_max_def)
  then have "reads [''Body'', ''Envelope''] (element ''s:Fault'' (element ''errorCode'' (show_nat n))) view_empty
      (view_empty\<lparr>sv_response := Some ResponseFault, sv_error_code := Some n\<rparr>)"
    using p
    by (intro reads_element [where ?v0.0 = "view_empty\<lparr>sv_response := Some ResponseFault\<rparr>"] reads_field)
      (simp_all add: tag_simps, simp add: view_empty_def)
  moreover have "ascii_text (element ''s:Fault'' (element ''errorCode'' (show_nat n)))"
    using ascii_plain [OF p] by (simp add: element_def ascii_text_def)
  ultimately show ?thesis
    unfolding fault_reply_def using n by (intro read_soap_reply) (simp_all add: element_def)
qed

lemma read_done_reply:
  assumes "action = ''AddPortMapping'' \<and> k = ResponseAdd \<or> action = ''DeletePortMapping'' \<and> k = ResponseDelete"
  shows "read_soap (done_reply action) = Inr (view_empty\<lparr>sv_response := Some k\<rparr>)"
proof -
  have "reads [''Body'', ''Envelope''] (element (''u:'' @ action @ ''Response'') []) view_empty
      (view_empty\<lparr>sv_response := Some k\<rparr>)"
    using assms
    by (intro reads_element [where ?v0.0 = "view_empty\<lparr>sv_response := Some k\<rparr>"] reads_Nil)
      (auto simp: tag_simps view_empty_def)
  then show ?thesis
    unfolding done_reply_def using assms by (intro read_soap_reply) (auto simp: element_def ascii_text_def)
qed

lemma read_entry_reply:
  "read_soap (entry_reply client port lease enabled protocol)
     = Inr \<lparr>sv_response = Some ResponseGet, sv_error_code = None, sv_internal_client = Some client,
         sv_internal_port = Some port, sv_lease_sec = Some lease, sv_enabled = Some enabled, sv_protocol = Some protocol\<rparr>"
proof -
  let ?start = "view_empty\<lparr>sv_response := Some ResponseGet\<rparr>"
  have p: "plain_field (show_nat (unat port))" "plain_field (show_nat (unat lease))"
    using unat_bounds(1) [of port] unat_bounds(2) [of lease] by (intro plain_show_nat; simp)+
  let ?inner = "element ''NewInternalPort'' (show_nat (unat port)) @ element ''NewInternalClient'' (show_ipv4 client)
        @ element ''NewEnabled'' (if enabled then ''1'' else ''0'') @ element ''NewProtocol'' (port_protocol_name protocol)
        @ element ''NewLeaseDuration'' (show_nat (unat lease))"
  let ?st = "[''GetSpecificPortMappingEntryResponse'', ''Body'', ''Envelope'']"
  let ?v = "?start\<lparr>sv_internal_port := Some port\<rparr>"
  have 1: "reads ?st (element ''NewInternalPort'' (show_nat (unat port))) ?start ?v"
    by (intro reads_field p) (simp_all add: tag_simps commit_view_def view_empty_def guard_def u16_max_def unat_bounds)
  let ?w = "?v\<lparr>sv_internal_client := Some client\<rparr>"
  have 2: "reads ?st (element ''NewInternalClient'' (show_ipv4 client)) ?v ?w"
    by (intro reads_field plain_values) (simp_all add: tag_simps commit_view_def view_empty_def guard_def)
  let ?x = "?w\<lparr>sv_enabled := Some enabled\<rparr>"
  have 3: "reads ?st (element ''NewEnabled'' (if enabled then ''1'' else ''0'')) ?w ?x"
    by (intro reads_field plain_values) (simp_all add: tag_simps commit_view_def view_empty_def guard_def)
  let ?y = "?x\<lparr>sv_protocol := Some protocol\<rparr>"
  have 4: "reads ?st (element ''NewProtocol'' (port_protocol_name protocol)) ?x ?y"
    by (intro reads_field plain_values; cases protocol) (simp_all add: tag_simps commit_view_def view_empty_def guard_def)
  have 5: "reads ?st (element ''NewLeaseDuration'' (show_nat (unat lease))) ?y (?y\<lparr>sv_lease_sec := Some lease\<rparr>)"
    by (intro reads_field p) (simp_all add: tag_simps commit_view_def view_empty_def guard_def u32_max_def unat_bounds)
  have "reads [''Body'', ''Envelope''] (element ''u:GetSpecificPortMappingEntryResponse'' ?inner) view_empty
      (?y\<lparr>sv_lease_sec := Some lease\<rparr>)"
    using reads_append [OF 1 reads_append [OF 2 reads_append [OF 3 reads_append [OF 4 5]]]]
    by (intro reads_element [where ?v0.0 = ?start]) (simp_all add: tag_simps, simp add: view_empty_def)
  moreover have "ascii_text (element ''u:GetSpecificPortMappingEntryResponse'' ?inner)"
    using plain_values [THEN ascii_plain] by (simp add: element_def)
      (simp add: ascii_text_def ascii_text_show_nat [unfolded ascii_text_def])
  moreover have "length (element ''u:GetSpecificPortMappingEntryResponse'' ?inner) \<le> 4000"
    using p [THEN length_plain] length_plain [OF plain_show_ipv4 [of client]] length_plain [OF plain_protocol [of protocol]]
    by (simp add: element_def)
  ultimately have "read_soap (entry_reply client port lease enabled protocol) = Inr (?y\<lparr>sv_lease_sec := Some lease\<rparr>)"
    unfolding entry_reply_def by (intro read_soap_reply) simp_all
  then show ?thesis by (simp add: view_empty_def)
qed

section \<open>Requests are sendable\<close>

lemma plain_text_append [simp]: "plain_text (s @ t) \<longleftrightarrow> plain_text s \<and> plain_text t"
  by (simp add: plain_text_def)

lemma plain_text_Cons: "plain_text (c # s) \<longleftrightarrow> \<not> is_ascii_control c \<and> c \<noteq> CHR 0x20 \<and> plain_text s"
  by (simp add: plain_text_def)

lemma plain_text_show_nat [simp]: "plain_text (show_nat n)"
  by (auto simp: plain_text_def list_all_iff is_ascii_control_def is_ascii_digit_def dest!: show_nat_chars)

lemma plain_text_show_ipv4 [simp]: "plain_text (show_ipv4 a)"
  by (auto simp: plain_text_def list_all_iff is_ascii_control_def is_ascii_digit_def dest!: show_ipv4_chars)

lemma length_decimals:
  "length (show_nat (unat (p :: u16))) \<le> 5" "length (show_nat (unat (l :: u32))) \<le> 10"
  using unat_bounds(1) [of p] unat_bounds(2) [of l] by (intro length_show_nat; simp)+

lemma length_service_urn: "length (service_urn k) \<le> 47"
  by (cases k) simp_all

lemma length_protocol_name: "length (port_protocol_name p) = 3"
  by (cases p) simp_all

lemma length_tuple_fields: "length (tuple_fields port protocol) \<le> 200"
  using length_decimals(1) [of port] by (simp add: tuple_fields_def length_protocol_name)

lemma length_add_fields: "length (add_fields local port protocol) \<le> 600"
  using length_tuple_fields [of port protocol] length_decimals(1) [of port] length_show_ipv4 [of local]
    length_decimals(2) [of MAPPING_REQUESTED_LEASE_SEC] by (simp add: add_fields_def)

lemma soap_request_sendable:
  assumes "starts_with (igd_path_and_query d) ''/''" "plain_text (igd_path_and_query d)"
    "length (igd_path_and_query d) \<le> 512" "length action \<le> 32" "length inner \<le> 600"
  shows "\<exists>q. soap_request d action inner = Inr q \<and> q \<noteq> [] \<and> length q \<le> UPNP_SOAP_MAX_BYTES"
proof -
  have body: "length (envelope (service_urn (igd_service d)) action inner) \<le> 1000"
    using assms(4,5) length_service_urn [of "igd_service d"] by (simp add: envelope_def quote_def)
  then have "length (show_nat (length (envelope (service_urn (igd_service d)) action inner))) \<le> 4"
    by (intro length_show_nat) simp_all
  moreover have "plain_text (show_ipv4 (igd_gateway d) @ '':'' @ show_nat (unat (igd_port d)))"
    by (simp add: plain_text_Cons is_ascii_control_def)
  ultimately show ?thesis
    using assms body length_service_urn [of "igd_service d"] length_show_ipv4 [of "igd_gateway d"]
      length_decimals(1) [of "igd_port d"]
    by (simp add: soap_request_def Let_def guard_def UPNP_SOAP_MAX_BYTES_def as_bytes_def CRLF_def quote_def)
qed

section \<open>Properties\<close>

text \<open>
  C34. The SOAP reader inverts what a router prints. An error reply reads as exactly its error number, an
  acknowledgement as exactly its action, and a mapping entry as exactly its client, port, lease, flag and
  protocol, for every 16-bit error and port, every 32-bit lease and every IPv4 address.
\<close>

theorem soap_reply_roundtrip:
  assumes "n \<le> 65535"
  shows "read_soap (fault_reply n) = Inr (view_empty\<lparr>sv_response := Some ResponseFault, sv_error_code := Some n\<rparr>)
    \<and> read_soap (done_reply ''AddPortMapping'') = Inr (view_empty\<lparr>sv_response := Some ResponseAdd\<rparr>)
    \<and> read_soap (done_reply ''DeletePortMapping'') = Inr (view_empty\<lparr>sv_response := Some ResponseDelete\<rparr>)
    \<and> read_soap (entry_reply client port lease enabled protocol)
       = Inr \<lparr>sv_response = Some ResponseGet, sv_error_code = None, sv_internal_client = Some client,
           sv_internal_port = Some port, sv_lease_sec = Some lease, sv_enabled = Some enabled,
           sv_protocol = Some protocol\<rparr>"
  using read_fault_reply [OF assms] read_done_reply read_entry_reply by simp

theorem soap_reply_roundtrip_witness:
  "read_soap (fault_reply 714) = Inr (view_empty\<lparr>sv_response := Some ResponseFault, sv_error_code := Some 714\<rparr>)"
  using soap_reply_roundtrip [of 714] by simp

end
