(* ===== verification/Upnp.thy ===== *)
theory Upnp
  imports Soap
begin

text \<open>
  UPnP port mappings (first half of \<open>src/network_traversal/mapping/upnp.rs\<close>): one request over the
  gateway's SOAP exchange, the creation of a mapping (probe, create, confirm, and the deletion of an
  unusable grant), the deletion of an owned mapping, and the dispatch \<open>delete_owned_mapping\<close> of
  \<open>src/network_traversal/mapping.rs\<close>.
\<close>

section \<open>One request\<close>

record upnp_map =
  um_descriptor :: igd_control_descriptor
  um_local_address :: ipv4
  um_internal_port :: u16
  um_protocol :: port_protocol
  um_maximum_lease_sec :: u16
  um_reservation :: "exclusive_reservation option"

datatype upnp_attempt =
    AttemptNotSent mapping_refusal
  | AttemptSent mapping_refusal traversal_error_class
  | AttemptBody bytes

definition attempt ::
  "crates \<Rightarrow> selected_gateway \<Rightarrow> igd_control_descriptor \<Rightarrow> string \<Rightarrow> string \<Rightarrow> 's transport \<Rightarrow> 's canceller
     \<Rightarrow> 's \<Rightarrow> upnp_attempt \<times> 's" where
  "attempt cr gateway d action inner transport cancelled s =
     (let (stop, s1) = cancelled s
      in if stop then (AttemptNotSent MappingCancelled, s1)
         else (case soap_request d action inner of
             Inl refusal \<Rightarrow> (AttemptNotSent refusal, s1)
           | Inr request \<Rightarrow>
               (case exchange_upnp_soap cr gateway (control_target d) request transport cancelled s1 of
                  (SoapExchanged (Inr body), s2) \<Rightarrow> (AttemptBody body, s2)
                | (SoapRefused e, s2) \<Rightarrow>
                    (AttemptNotSent
                       (if e = ControlWrongTarget then ReservationGatewayMismatch
                        else if e = ControlOversize \<or> e = ControlUnsupported then MappingMalformed
                        else transport_refusal e), s2)
                | (SoapExchanged (Inl e), s2) \<Rightarrow> (AttemptSent (transport_refusal e) (transport_error e), s2))))"

section \<open>Deletion\<close>

definition control_matches ::
  "crates \<Rightarrow> selected_gateway \<Rightarrow> owned_handle \<Rightarrow> igd_control_descriptor \<Rightarrow> bool" where
  "control_matches cr gateway h control \<longleftrightarrow>
     igd_gateway control = sg_gateway gateway \<and> oh_nonce h = Some (control_fingerprint cr control)"

definition transmit_delete ::
  "crates \<Rightarrow> selected_gateway \<Rightarrow> igd_control_descriptor \<Rightarrow> owned_handle \<Rightarrow> 's transport \<Rightarrow> 's canceller
     \<Rightarrow> 's \<Rightarrow> delete_attempt \<times> 's" where
  "transmit_delete cr gateway d h transport cancelled s =
     (case attempt cr gateway d ''DeletePortMapping'' (tuple_fields (oh_external_port h) (oh_port_protocol h))
             transport cancelled s of
        (AttemptNotSent refusal, s1) \<Rightarrow> (DeleteNotSent refusal, s1)
      | (AttemptSent refusal err, s1) \<Rightarrow> (DeleteUnknown refusal err, s1)
      | (AttemptBody body, s1) \<Rightarrow> (interpret_delete body, s1))"

definition keep_ambiguous :: "mapping_effect \<Rightarrow> mapping_effect" where
  "keep_ambiguous e = e\<lparr>me_outcome := OutcomeUnsupportedSafeOwnership, me_cleanup := CleanupExpiryUnknown,
     me_refusal := Some AmbiguousOwnership, me_requests_sent := 0\<rparr>"

fun delete_outcome :: "bool \<Rightarrow> delete_attempt \<Rightarrow> mapping_effect \<Rightarrow> mapping_effect" where
  "delete_outcome finite_grant (DeleteNotSent refusal) e =
     e\<lparr>me_outcome := OutcomeExpiryUnknown, me_cleanup := CleanupExpiryUnknown, me_refusal := Some refusal,
       me_error := Some ErrorCleanupFailed, me_requests_sent := 0\<rparr>"
| "delete_outcome finite_grant DeleteConfirmed e =
     (let e = e\<lparr>me_cleanup := CleanupConfirmedDeleted, me_requests_sent := 1, me_error := None\<rparr>
      in if me_refusal e = None then e\<lparr>me_outcome := OutcomeSucceeded\<rparr> else e)"
| "delete_outcome finite_grant DeleteRejected e =
     (let e = e\<lparr>me_cleanup := CleanupDeleteFailed, me_refusal := Some Denied,
            me_error := Some ErrorCleanupFailed, me_requests_sent := 1\<rparr>
      in if finite_grant then e\<lparr>me_outcome := OutcomeFailed\<rparr> else e)"
| "delete_outcome finite_grant (DeleteUnknown refusal err) e =
     e\<lparr>me_outcome := OutcomeExpiryUnknown, me_cleanup := CleanupExpiryUnknown, me_refusal := Some refusal,
       me_error := Some err, me_requests_sent := 1\<rparr>"

definition delete_owned ::
  "crates \<Rightarrow> selected_gateway \<Rightarrow> owned_handle \<Rightarrow> igd_control_descriptor option \<Rightarrow> 's transport \<Rightarrow> 's canceller
     \<Rightarrow> 's \<Rightarrow> mapping_effect \<times> 's" where
  "delete_owned cr gateway h control transport cancelled s =
     (let e = (blank (oh_protocol h))\<lparr>me_handle := Some h,
            me_granted_lifetime_sec := Some (oh_granted_lifetime_sec h),
            me_assigned_port := Some (oh_external_port h)\<rparr>
      in case control of
           None \<Rightarrow> (keep_ambiguous e, s)
         | Some d \<Rightarrow>
             if oh_protocol h \<noteq> RouterUpnpIgd \<or> \<not> control_matches cr gateway h d then (keep_ambiguous e, s)
             else let finite_grant = finite_lease MAPPING_MAXIMUM_LEASE_SEC (oh_granted_lifetime_sec h);
                 e = (if finite_grant then e
                      else e\<lparr>me_outcome := OutcomeUnsupportedFiniteLease, me_refusal := Some OverlongOrZeroGrant,
                             me_error := Some ErrorLeaseRefused\<rparr>);
                 (stop, s1) = cancelled s
             in if stop
                then (e\<lparr>me_refusal := Some MappingCancelled, me_requests_sent := 0,
                        me_outcome := (if finite_grant then OutcomeFailed else OutcomeExpiryUnknown),
                        me_cleanup := (if finite_grant then CleanupLeaseExpiryPending else CleanupExpiryUnknown)\<rparr>, s1)
                else let (a, s2) = transmit_delete cr gateway d h transport cancelled s1
                in (delete_outcome finite_grant a e, s2))"

definition delete_owned_mapping ::
  "crates \<Rightarrow> selected_gateway \<Rightarrow> owned_handle \<Rightarrow> exclusive_reservation option \<Rightarrow> u32 option \<Rightarrow> 's transport
     \<Rightarrow> 's canceller \<Rightarrow> igd_control_descriptor option \<Rightarrow> 's \<Rightarrow> mapping_effect \<times> 's" where
  "delete_owned_mapping cr gateway h reservation previous_epoch transport cancelled control s =
     (if \<not> delete_allowed h gateway reservation
      then ((blank (oh_protocol h))\<lparr>me_outcome := OutcomeUnsupportedSafeOwnership,
              me_cleanup := CleanupExpiryUnknown, me_refusal := Some AmbiguousOwnership, me_handle := Some h\<rparr>, s)
      else if oh_protocol h = RouterUpnpIgd then delete_owned cr gateway h control transport cancelled s
      else send_delete cr h gateway (delete_packet h) previous_epoch transport cancelled 0 s)"

section \<open>Creation\<close>

definition upnp_handle :: "crates \<Rightarrow> upnp_map \<Rightarrow> exclusive_reservation \<Rightarrow> u32 \<Rightarrow> bool \<Rightarrow> owned_handle" where
  "upnp_handle cr input r lease cleanup_authorized =
     \<lparr>oh_protocol = RouterUpnpIgd, oh_port_protocol = um_protocol input, oh_internal_port = um_internal_port input,
      oh_external_port = um_internal_port input, oh_client = um_local_address input,
      oh_granted_lifetime_sec = lease, oh_epoch = 0, oh_nonce = Some (control_fingerprint cr (um_descriptor input)),
      oh_reservation_digest = Some (er_digest r), oh_cleanup_authorized = cleanup_authorized,
      oh_external_address = None\<rparr>"

definition adopt :: "crates \<Rightarrow> upnp_map \<Rightarrow> exclusive_reservation \<Rightarrow> u32 \<Rightarrow> mapping_effect" where
  "adopt cr input r lease = (blank RouterUpnpIgd)\<lparr>me_outcome := OutcomeSucceeded,
     me_cleanup := CleanupLeaseExpiryPending, me_requests_sent := 3, me_granted_lifetime_sec := Some lease,
     me_assigned_port := Some (um_internal_port input), me_lease_clamped := (lease < MAPPING_REQUESTED_LEASE_SEC),
     me_handle := Some (upnp_handle cr input r lease True)\<rparr>"

definition existing_entry :: mapping_effect where
  "existing_entry = (blank RouterUpnpIgd)\<lparr>me_outcome := OutcomeFailed, me_cleanup := CleanupNotCreated,
     me_refusal := Some Conflict, me_error := Some ErrorMappingConflict, me_requests_sent := 1\<rparr>"

definition unread_probe :: "mapping_refusal \<Rightarrow> traversal_error_class \<Rightarrow> mapping_effect" where
  "unread_probe refusal err = (blank RouterUpnpIgd)\<lparr>me_outcome := OutcomeUnsupportedSafeOwnership,
     me_cleanup := CleanupNotCreated, me_refusal := Some refusal, me_error := Some err, me_requests_sent := 1\<rparr>"

definition stopped_before_create_with :: "mapping_refusal \<Rightarrow> mapping_effect" where
  "stopped_before_create_with refusal = (blank RouterUpnpIgd)\<lparr>me_outcome := OutcomeFailed,
     me_cleanup := CleanupNotCreated, me_refusal := Some refusal, me_requests_sent := 1\<rparr>"

definition stopped_before_create :: mapping_effect where
  "stopped_before_create = stopped_before_create_with MappingCancelled"

definition permanent_only :: mapping_effect where
  "permanent_only = (blank RouterUpnpIgd)\<lparr>me_outcome := OutcomeUnsupportedFiniteLease,
     me_cleanup := CleanupNotCreated, me_refusal := Some OverlongOrZeroGrant,
     me_error := Some ErrorLeaseRefused, me_requests_sent := 2\<rparr>"

definition add_conflict :: mapping_effect where
  "add_conflict = (blank RouterUpnpIgd)\<lparr>me_outcome := OutcomeFailed, me_cleanup := CleanupNotCreated,
     me_refusal := Some Conflict, me_error := Some ErrorMappingConflict, me_requests_sent := 2\<rparr>"

definition add_rejected :: mapping_effect where
  "add_rejected = (blank RouterUpnpIgd)\<lparr>me_outcome := OutcomeFailed, me_cleanup := CleanupNotCreated,
     me_refusal := Some Denied, me_error := Some ErrorInvalidResponse, me_requests_sent := 2\<rparr>"

definition lost_create :: "nat \<Rightarrow> mapping_refusal \<Rightarrow> traversal_error_class \<Rightarrow> mapping_effect" where
  "lost_create n refusal err = (blank RouterUpnpIgd)\<lparr>me_outcome := OutcomeCreationOutcomeUnknown,
     me_cleanup := CleanupCreationOutcomeUnknown, me_refusal := Some refusal, me_error := Some err,
     me_requests_sent := n\<rparr>"

definition cleanup_effect :: "upnp_map \<Rightarrow> u32 \<Rightarrow> mapping_effect \<Rightarrow> mapping_effect" where
  "cleanup_effect input lease e =
     (let e = e\<lparr>me_requests_sent := min (me_requests_sent e + 3) 255\<rparr>;
          finite_grant = (finite_lease (ucast (um_maximum_lease_sec input)) lease \<and> lease \<le> MAPPING_MAXIMUM_LEASE_SEC);
          refusal = (if finite_grant then Denied else OverlongOrZeroGrant);
          e = e\<lparr>me_outcome := (if finite_grant then OutcomeFailed else OutcomeUnsupportedFiniteLease)\<rparr>
      in if me_cleanup e = CleanupConfirmedDeleted then e\<lparr>me_refusal := Some refusal, me_error := None\<rparr>
         else if me_refusal e \<noteq> Some MappingCancelled
         then e\<lparr>me_refusal := Some refusal, me_error := Some ErrorCleanupFailed\<rparr>
         else e)"

definition cleanup_unusable ::
  "crates \<Rightarrow> selected_gateway \<Rightarrow> upnp_map \<Rightarrow> exclusive_reservation \<Rightarrow> u32 \<Rightarrow> 's transport \<Rightarrow> 's canceller
     \<Rightarrow> 's \<Rightarrow> mapping_effect \<times> 's" where
  "cleanup_unusable cr gateway input r lease transport cancelled s =
     (let (e, s1) = delete_owned_mapping cr gateway (upnp_handle cr input r lease True) (Some r) None
            transport cancelled (Some (um_descriptor input)) s
      in (cleanup_effect input lease e, s1))"

text \<open>The three stages of \<open>map_upnp\<close>, last first.\<close>

definition upnp_confirm_stage ::
  "crates \<Rightarrow> selected_gateway \<Rightarrow> upnp_map \<Rightarrow> exclusive_reservation \<Rightarrow> u32 \<Rightarrow> 's transport \<Rightarrow> 's canceller
     \<Rightarrow> 's \<Rightarrow> mapping_effect \<times> 's" where
  "upnp_confirm_stage cr gateway input r ceiling transport cancelled s =
     (let (stop, s1) = cancelled s
      in if stop then (lost_create 2 MappingCancelled ErrorTimeout, s1)
         else (case attempt cr gateway (um_descriptor input) ''GetSpecificPortMappingEntry''
                 (tuple_fields (um_internal_port input) (um_protocol input)) transport cancelled s1 of
             (AttemptNotSent refusal, s2) \<Rightarrow> (lost_create 3 refusal ErrorInvalidResponse, s2)
           | (AttemptSent refusal _, s2) \<Rightarrow> (lost_create 3 refusal ErrorInvalidResponse, s2)
           | (AttemptBody body, s2) \<Rightarrow>
               (case classify_confirm body (um_local_address input) (um_internal_port input)
                       (um_protocol input) ceiling of
                  ConfirmUsable lease \<Rightarrow> (adopt cr input r lease, s2)
                | OursButUnusable lease \<Rightarrow> cleanup_unusable cr gateway input r lease transport cancelled s2
                | _ \<Rightarrow> (lost_create 3 AmbiguousOwnership ErrorInvalidResponse, s2))))"

definition upnp_add_stage ::
  "crates \<Rightarrow> selected_gateway \<Rightarrow> upnp_map \<Rightarrow> exclusive_reservation \<Rightarrow> u32 \<Rightarrow> 's transport \<Rightarrow> 's canceller
     \<Rightarrow> 's \<Rightarrow> mapping_effect \<times> 's" where
  "upnp_add_stage cr gateway input r ceiling transport cancelled s =
     (let (stop, s1) = cancelled s
      in if stop then (stopped_before_create, s1)
         else (case attempt cr gateway (um_descriptor input) ''AddPortMapping''
                 (add_fields (um_local_address input) (um_internal_port input) (um_protocol input))
                 transport cancelled s1 of
             (AttemptNotSent refusal, s2) \<Rightarrow> (stopped_before_create_with refusal, s2)
           | (AttemptSent refusal err, s2) \<Rightarrow> (lost_create 2 refusal err, s2)
           | (AttemptBody body, s2) \<Rightarrow>
               (case classify_add body of
                  AddAccepted \<Rightarrow> upnp_confirm_stage cr gateway input r ceiling transport cancelled s2
                | AddPermanentOnly \<Rightarrow> (permanent_only, s2)
                | AddConflict \<Rightarrow> (add_conflict, s2)
                | AddRejected \<Rightarrow> (add_rejected, s2)
                | AddUnreadable refusal \<Rightarrow> (lost_create 2 refusal ErrorInvalidResponse, s2))))"

definition map_upnp ::
  "crates \<Rightarrow> selected_gateway \<Rightarrow> upnp_map \<Rightarrow> 's transport \<Rightarrow> 's canceller \<Rightarrow> 's \<Rightarrow> mapping_effect \<times> 's" where
  "map_upnp cr gateway input transport cancelled s =
     (case lease_ceiling (um_maximum_lease_sec input) of
        None \<Rightarrow> (local_refusal RouterUpnpIgd BadLifetimeCeiling, s)
      | Some ceiling \<Rightarrow>
          if um_internal_port input < MAPPING_HIGH_PORT_MIN then (local_refusal RouterUpnpIgd LowPort, s)
          else if \<not> usable_ipv4 (um_local_address input) then (local_refusal RouterUpnpIgd BadClientAddress, s)
          else (case um_reservation input of
              None \<Rightarrow> (local_refusal RouterUpnpIgd MissingReservation, s)
            | Some r \<Rightarrow>
                if \<not> authorizes r gateway \<or> igd_gateway (um_descriptor input) \<noteq> sg_gateway gateway
                then (local_refusal RouterUpnpIgd ReservationGatewayMismatch, s)
                else (case attempt cr gateway (um_descriptor input) ''GetSpecificPortMappingEntry''
                        (tuple_fields (um_internal_port input) (um_protocol input)) transport cancelled s of
                    (AttemptNotSent refusal, s1) \<Rightarrow> (local_refusal RouterUpnpIgd refusal, s1)
                  | (AttemptSent refusal err, s1) \<Rightarrow> (unread_probe refusal err, s1)
                  | (AttemptBody body, s1) \<Rightarrow>
                      (case classify_probe body of
                         ProbeAbsent \<Rightarrow> upnp_add_stage cr gateway input r ceiling transport cancelled s1
                       | ProbePresent \<Rightarrow> (existing_entry, s1)
                       | ProbeUnreadable refusal \<Rightarrow> (unread_probe refusal ErrorInvalidResponse, s1)))))"

section \<open>What is said to the router\<close>

text \<open>The log of a dialogue: each operation's SOAP request, at an address of the gateway.\<close>

type_synonym soap_op = "string \<times> string"

definition soap_log ::
  "selected_gateway \<Rightarrow> igd_control_descriptor \<Rightarrow> soap_op list \<Rightarrow> (socket_addr \<times> bytes) list \<Rightarrow> bool" where
  "soap_log g d ops log \<longleftrightarrow>
     list_all2 (\<lambda>(action, inner) (dest, q). fst dest = sg_gateway g \<and> soap_request d action inner = Inr q) ops log"

definition probe_op :: "upnp_map \<Rightarrow> soap_op" where
  "probe_op input = (''GetSpecificPortMappingEntry'', tuple_fields (um_internal_port input) (um_protocol input))"

definition add_op :: "upnp_map \<Rightarrow> soap_op" where
  "add_op input =
     (''AddPortMapping'', add_fields (um_local_address input) (um_internal_port input) (um_protocol input))"

definition delete_op :: "owned_handle \<Rightarrow> soap_op" where
  "delete_op h = (''DeletePortMapping'', tuple_fields (oh_external_port h) (oh_port_protocol h))"

lemma soap_log_Nil [simp]: "soap_log g d [] log \<longleftrightarrow> log = []"
  by (simp add: soap_log_def)

lemma soap_log_append: "soap_log g d xs as \<Longrightarrow> soap_log g d ys bs \<Longrightarrow> soap_log g d (xs @ ys) (as @ bs)"
  by (simp add: soap_log_def list_all2_appendI)

lemma soap_log_Cons: "soap_log g d [x] as \<Longrightarrow> soap_log g d ys bs \<Longrightarrow> soap_log g d (x # ys) (as @ bs)"
  using soap_log_append [of g d "[x]" as ys bs] by simp

lemma soap_log_length: "soap_log g d ops log \<Longrightarrow> length log = length ops"
  by (simp add: soap_log_def list_all2_lengthD)

lemmas effect_defs = existing_entry_def unread_probe_def stopped_before_create_def stopped_before_create_with_def
  permanent_only_def add_conflict_def add_rejected_def lost_create_def

lemma cleanup_effect_fields:
  "me_cleanup (cleanup_effect input lease e) = me_cleanup e"
  "me_handle (cleanup_effect input lease e) = me_handle e"
  "me_requests_sent (cleanup_effect input lease e) = min (me_requests_sent e + 3) 255"
  "me_outcome (cleanup_effect input lease e) \<in> {OutcomeFailed, OutcomeUnsupportedFiniteLease}"
  by (simp_all add: cleanup_effect_def Let_def)

lemma upnp_handle_fields [simp]:
  "oh_protocol (upnp_handle cr input r lease b) = RouterUpnpIgd"
  "oh_external_port (upnp_handle cr input r lease b) = um_internal_port input"
  "oh_port_protocol (upnp_handle cr input r lease b) = um_protocol input"
  "oh_granted_lifetime_sec (upnp_handle cr input r lease b) = lease"
  "oh_cleanup_authorized (upnp_handle cr input r lease b) = b"
  by (simp_all add: upnp_handle_def)

context router_link
begin

lemma attempt_said:
  assumes "attempt cr g d action inner exchange cancelled s = (r, s')"
  shows "\<exists>ops log. sent s' = sent s @ log \<and> soap_log g d ops log \<and> (ops = [] \<or> ops = [(action, inner)])
    \<and> (\<forall>body. r = AttemptBody body \<longrightarrow> ops = [(action, inner)]) \<and> (\<forall>x. r = AttemptNotSent x \<longrightarrow> ops = [])"
proof -
  obtain stop s1 where c: "cancelled s = (stop, s1)" by (cases "cancelled s")
  note s1 = cancelled_sent [OF c]
  show ?thesis
  proof (cases "stop \<or> (\<exists>e. soap_request d action inner = Inl e)")
    case True
    then show ?thesis using assms s1 by (intro exI [of _ "[]"]) (auto simp: attempt_def c split: if_splits)
  next
    case False
    then obtain q where q: "\<not> stop" "soap_request d action inner = Inr q"
      by (cases "soap_request d action inner") auto
    obtain x s2 where x: "exchange_upnp_soap cr g (control_target d) q exchange cancelled s1 = (x, s2)"
      by (metis surj_pair)
    have s2: "s' = s2" and r: "(\<forall>body. r = AttemptBody body \<longrightarrow> x = SoapExchanged (Inr body))"
      "(\<forall>y. r = AttemptNotSent y \<longrightarrow> (\<exists>e. x = SoapRefused e))"
      using assms q by (auto simp: attempt_def c x split: upnp_soap_reply.splits sum.splits)
    from exchange_upnp_soap_sent [OF x] show ?thesis
    proof (elim disjE exE conjE)
      assume "sent s2 = sent s1" "\<forall>body. x \<noteq> SoapExchanged (Inr body)"
      then show ?thesis using s1 s2 r by (intro exI [of _ "[]"]) auto
    next
      fix dest
      assume d: "control_destination cr g RouterUpnpIgd (Some (control_target d)) = Inr dest"
        "sent s2 = sent s1 @ [(dest, q)]" "\<forall>e. x \<noteq> SoapRefused e"
      then have "fst dest = sg_gateway g" using control_destination_gateway by fastforce
      then have "soap_log g d [(action, inner)] [(dest, q)]" by (simp add: soap_log_def q)
      then show ?thesis using d s1 s2 r by (intro exI [of _ "[(action, inner)]"] exI [of _ "[(dest, q)]"]) auto
    qed
  qed
qed

lemma delete_owned_said:
  assumes "delete_owned cr g h (Some d) exchange cancelled s = (e, s')"
  shows "\<exists>ops log. sent s' = sent s @ log \<and> soap_log g d ops log \<and> (ops = [] \<or> ops = [delete_op h])
    \<and> length ops \<le> me_requests_sent e \<and> me_requests_sent e \<le> 1 \<and> me_handle e = Some h
    \<and> (me_cleanup e = CleanupConfirmedDeleted \<longrightarrow> ops = [delete_op h]) \<and> me_cleanup e \<noteq> CleanupNotCreated
    \<and> (ops \<noteq> [] \<longrightarrow> oh_protocol h = RouterUpnpIgd \<and> control_matches cr g h d)"
proof (cases "oh_protocol h \<noteq> RouterUpnpIgd \<or> \<not> control_matches cr g h d")
  case True
  then have "e = keep_ambiguous ((blank (oh_protocol h))\<lparr>me_handle := Some h,
      me_granted_lifetime_sec := Some (oh_granted_lifetime_sec h), me_assigned_port := Some (oh_external_port h)\<rparr>)"
    "s' = s" using assms by (auto simp: delete_owned_def Let_def)
  then show ?thesis by (intro exI [of _ "[]"]) (simp add: keep_ambiguous_def)
next
  case ours: False
  obtain stop s1 where c: "cancelled s = (stop, s1)" by (cases "cancelled s")
  note s1 = cancelled_sent [OF c]
  show ?thesis
  proof (cases stop)
    case True
    then show ?thesis using assms ours s1
      by (intro exI [of _ "[]"]) (auto simp: delete_owned_def Let_def c split: if_splits)
  next
    case False
    obtain r s2 where r: "attempt cr g d ''DeletePortMapping'' (tuple_fields (oh_external_port h) (oh_port_protocol h))
        exchange cancelled s1 = (r, s2)" by (metis surj_pair)
    obtain a where a: "transmit_delete cr g d h exchange cancelled s1 = (a, s2)"
      and ra: "a = DeleteConfirmed \<longrightarrow> (\<exists>body. r = AttemptBody body)"
        "\<forall>x. a = DeleteNotSent x \<longrightarrow> r = AttemptNotSent x \<or> (\<exists>body. r = AttemptBody body)"
        "(\<exists>x. r = AttemptNotSent x) \<longrightarrow> (\<exists>x. a = DeleteNotSent x)"
        "\<forall>body. r = AttemptBody body \<longrightarrow> a = interpret_delete body"
      by (cases r) (auto simp: transmit_delete_def r)
    have nn: "interpret_delete body \<noteq> DeleteNotSent x" for body x
      by (simp add: interpret_delete_def split: sum.splits)
    obtain e0 fin where e: "e = delete_outcome fin a e0" "me_handle e0 = Some h" "s' = s2"
      "me_cleanup e0 = CleanupNotCreated"
      using assms ours False by (auto simp: delete_owned_def Let_def c a)
    have f: "me_handle e = Some h" "me_requests_sent e \<le> 1" "(\<forall>x. a \<noteq> DeleteNotSent x) \<longrightarrow> me_requests_sent e = 1"
      "me_cleanup e = CleanupConfirmedDeleted \<longrightarrow> a = DeleteConfirmed" "me_cleanup e \<noteq> CleanupNotCreated"
      using e by (cases a; simp add: Let_def)+
    from attempt_said [OF r] obtain ops log where o: "sent s2 = sent s1 @ log" "soap_log g d ops log"
      "ops = [] \<or> ops = [delete_op h]" "\<forall>body. r = AttemptBody body \<longrightarrow> ops = [delete_op h]"
      "\<forall>x. r = AttemptNotSent x \<longrightarrow> ops = []" unfolding delete_op_def by blast
    have "length ops \<le> me_requests_sent e"
      using o(3,5) f(3) ra(2,4) nn by (metis One_nat_def le0 length_Cons list.size(3) order_refl)
    moreover have "me_cleanup e = CleanupConfirmedDeleted \<longrightarrow> ops = [delete_op h]" using f(4) ra(1) o(4) by blast
    ultimately show ?thesis using o(1-3) s1 e(3) f(1,2,5) ours by (intro exI [of _ ops] exI [of _ log]) auto
  qed
qed

lemma cleanup_unusable_said:
  assumes "cleanup_unusable cr g input r lease exchange cancelled s = (e, s')"
  shows "\<exists>ops log. sent s' = sent s @ log \<and> soap_log g (um_descriptor input) ops log
    \<and> (ops = [] \<or> ops = [delete_op (upnp_handle cr input r lease True)])
    \<and> length ops + 3 \<le> me_requests_sent e \<and> me_requests_sent e \<le> 4 \<and> me_outcome e \<noteq> OutcomeSucceeded
    \<and> me_cleanup e \<noteq> CleanupNotCreated"
proof -
  let ?h = "upnp_handle cr input r lease True"
  obtain e0 where d: "delete_owned_mapping cr g ?h (Some r) None exchange cancelled (Some (um_descriptor input)) s
      = (e0, s')" and e: "e = cleanup_effect input lease e0"
    using assms by (auto simp: cleanup_unusable_def split: prod.splits)
  note fields = cleanup_effect_fields [of input lease e0, folded e]
  show ?thesis
  proof (cases "delete_allowed ?h g (Some r)")
    case True
    then have "delete_owned cr g ?h (Some (um_descriptor input)) exchange cancelled s = (e0, s')"
      using d by (simp add: delete_owned_mapping_def)
    from delete_owned_said [OF this] obtain ops log where "sent s' = sent s @ log"
      "soap_log g (um_descriptor input) ops log" "ops = [] \<or> ops = [delete_op ?h]"
      "length ops \<le> me_requests_sent e0" "me_requests_sent e0 \<le> 1" "me_cleanup e0 \<noteq> CleanupNotCreated" by blast
    then show ?thesis using fields(1,3,4) by (intro exI [of _ ops] exI [of _ log]) auto
  next
    case False
    then have "s' = s" "me_requests_sent e0 = 0" "me_cleanup e0 = CleanupExpiryUnknown"
      using d by (auto simp: delete_owned_mapping_def)
    then show ?thesis using fields(1,3,4) by (intro exI [of _ "[]"]) auto
  qed
qed

lemma confirm_stage_said:
  assumes "upnp_confirm_stage cr g input r ceiling exchange cancelled s = (e, s')"
  shows "\<exists>ops log. sent s' = sent s @ log \<and> soap_log g (um_descriptor input) ops log
    \<and> (ops = [] \<or> ops = [probe_op input] \<or> (\<exists>lease. ops = [probe_op input, delete_op (upnp_handle cr input r lease True)]))
    \<and> length ops + 2 \<le> me_requests_sent e \<and> me_requests_sent e \<le> 4 \<and> me_cleanup e \<noteq> CleanupNotCreated
    \<and> (me_outcome e = OutcomeSucceeded \<longrightarrow> ops = [probe_op input]
         \<and> (\<exists>lease. e = adopt cr input r lease \<and> finite_lease ceiling lease))"
proof -
  let ?d = "um_descriptor input"
  obtain stop s1 where c: "cancelled s = (stop, s1)" by (cases "cancelled s")
  note s1 = cancelled_sent [OF c]
  show ?thesis
  proof (cases stop)
    case True
    then show ?thesis using assms s1
      by (intro exI [of _ "[]"]) (auto simp: upnp_confirm_stage_def c effect_defs)
  next
    case False
    obtain x s2 where x: "attempt cr g ?d ''GetSpecificPortMappingEntry''
        (tuple_fields (um_internal_port input) (um_protocol input)) exchange cancelled s1 = (x, s2)" by (metis surj_pair)
    from attempt_said [OF x, folded probe_op_def] obtain ops log where o: "sent s2 = sent s1 @ log"
      "soap_log g ?d ops log" "ops = [] \<or> ops = [probe_op input]" "\<forall>body. x = AttemptBody body \<longrightarrow> ops = [probe_op input]"
      by blast
    show ?thesis
    proof (cases "\<exists>body lease. x = AttemptBody body \<and> classify_confirm body (um_local_address input)
        (um_internal_port input) (um_protocol input) ceiling = OursButUnusable lease")
      case True
      then obtain lease where "cleanup_unusable cr g input r lease exchange cancelled s2 = (e, s')"
        using assms False by (auto simp: upnp_confirm_stage_def c x)
      from cleanup_unusable_said [OF this] obtain ops' log' where "sent s' = sent s2 @ log'"
        "soap_log g ?d ops' log'" "ops' = [] \<or> ops' = [delete_op (upnp_handle cr input r lease True)]"
        "length ops' + 3 \<le> me_requests_sent e" "me_requests_sent e \<le> 4" "me_outcome e \<noteq> OutcomeSucceeded"
        "me_cleanup e \<noteq> CleanupNotCreated" by blast
      moreover have "ops = [probe_op input]" using True o(4) by blast
      ultimately show ?thesis using o(1,2) s1 soap_log_append [OF o(2), of ops' log']
        by (intro exI [of _ "ops @ ops'"] exI [of _ "log @ log'"]) auto
    next
      case quiet: False
      have "s' = s2 \<and> me_requests_sent e = 3 \<and> me_cleanup e \<noteq> CleanupNotCreated
        \<and> (me_outcome e = OutcomeSucceeded \<longrightarrow> (\<exists>body. x = AttemptBody body)
            \<and> (\<exists>lease. e = adopt cr input r lease \<and> finite_lease ceiling lease))"
        using assms False quiet
        by (cases x) (auto simp: upnp_confirm_stage_def c x effect_defs adopt_def classify_confirm_def
            split: upnp_confirm.splits if_splits sum.splits option.splits)
      then show ?thesis using o s1 by (intro exI [of _ ops] exI [of _ log]) auto
    qed
  qed
qed

lemma add_stage_said:
  assumes "upnp_add_stage cr g input r ceiling exchange cancelled s = (e, s')"
  shows "\<exists>ops log. sent s' = sent s @ log \<and> soap_log g (um_descriptor input) ops log
    \<and> (ops = [] \<or> ops = [add_op input] \<or> ops = [add_op input, probe_op input]
       \<or> (\<exists>lease. ops = [add_op input, probe_op input, delete_op (upnp_handle cr input r lease True)]))
    \<and> length ops + 1 \<le> me_requests_sent e \<and> me_requests_sent e \<le> 4
    \<and> (me_cleanup e = CleanupNotCreated \<longrightarrow> ops = [] \<or> e \<in> {permanent_only, add_conflict, add_rejected})
    \<and> (me_outcome e = OutcomeSucceeded \<longrightarrow> ops = [add_op input, probe_op input]
         \<and> (\<exists>lease. e = adopt cr input r lease \<and> finite_lease ceiling lease))"
proof -
  let ?d = "um_descriptor input"
  obtain stop s1 where c: "cancelled s = (stop, s1)" by (cases "cancelled s")
  note s1 = cancelled_sent [OF c]
  show ?thesis
  proof (cases stop)
    case True
    then show ?thesis using assms s1 by (intro exI [of _ "[]"]) (auto simp: upnp_add_stage_def c effect_defs)
  next
    case False
    obtain x s2 where x: "attempt cr g ?d ''AddPortMapping''
        (add_fields (um_local_address input) (um_internal_port input) (um_protocol input)) exchange cancelled s1
        = (x, s2)" by (metis surj_pair)
    from attempt_said [OF x, folded add_op_def] obtain ops log where o: "sent s2 = sent s1 @ log"
      "soap_log g ?d ops log" "ops = [] \<or> ops = [add_op input]" "\<forall>body. x = AttemptBody body \<longrightarrow> ops = [add_op input]"
      "\<forall>y. x = AttemptNotSent y \<longrightarrow> ops = []" by blast
    show ?thesis
    proof (cases "\<exists>body. x = AttemptBody body \<and> classify_add body = AddAccepted")
      case True
      then have "upnp_confirm_stage cr g input r ceiling exchange cancelled s2 = (e, s')"
        using assms False by (auto simp: upnp_add_stage_def c x)
      from confirm_stage_said [OF this] obtain ops' log' where "sent s' = sent s2 @ log'"
        "soap_log g ?d ops' log'"
        "ops' = [] \<or> ops' = [probe_op input] \<or> (\<exists>lease. ops' = [probe_op input, delete_op (upnp_handle cr input r lease True)])"
        "length ops' + 2 \<le> me_requests_sent e" "me_requests_sent e \<le> 4" "me_cleanup e \<noteq> CleanupNotCreated"
        "me_outcome e = OutcomeSucceeded \<longrightarrow> ops' = [probe_op input]
          \<and> (\<exists>lease. e = adopt cr input r lease \<and> finite_lease ceiling lease)" by blast
      moreover have "ops = [add_op input]" using True o(4) by blast
      ultimately show ?thesis using o(1,2) s1 soap_log_append [OF o(2), of ops' log']
        by (intro exI [of _ "ops @ ops'"] exI [of _ "log @ log'"]) auto
    next
      case quiet: False
      have "s' = s2 \<and> length ops + 1 \<le> me_requests_sent e \<and> me_requests_sent e \<le> 2 \<and> me_outcome e \<noteq> OutcomeSucceeded
        \<and> (me_cleanup e = CleanupNotCreated \<longrightarrow> ops = [] \<or> e \<in> {permanent_only, add_conflict, add_rejected})"
        using assms False quiet o(3,5)
        by (cases x) (auto simp: upnp_add_stage_def c x effect_defs split: add_reply.splits)
      then show ?thesis using o s1 by (intro exI [of _ ops] exI [of _ log]) auto
    qed
  qed
qed

end

definition upnp_checked :: "selected_gateway \<Rightarrow> upnp_map \<Rightarrow> u32 \<Rightarrow> exclusive_reservation \<Rightarrow> bool" where
  "upnp_checked g input ceiling r \<longleftrightarrow> lease_ceiling (um_maximum_lease_sec input) = Some ceiling
     \<and> \<not> um_internal_port input < MAPPING_HIGH_PORT_MIN \<and> usable_ipv4 (um_local_address input)
     \<and> um_reservation input = Some r \<and> authorizes r g \<and> igd_gateway (um_descriptor input) = sg_gateway g"

lemma map_upnp_checks:
  "(\<exists>ceiling r. upnp_checked g input ceiling r)
   \<or> (\<exists>refusal. map_upnp cr g input t c s = (local_refusal RouterUpnpIgd refusal, s))"
  by (cases "lease_ceiling (um_maximum_lease_sec input)"; cases "um_reservation input")
    (simp_all add: upnp_checked_def map_upnp_def, blast+)

lemma map_upnp_checked:
  assumes "upnp_checked g input ceiling r"
  shows "map_upnp cr g input t c s =
    (case attempt cr g (um_descriptor input) (fst (probe_op input)) (snd (probe_op input)) t c s of
       (AttemptNotSent refusal, s1) \<Rightarrow> (local_refusal RouterUpnpIgd refusal, s1)
     | (AttemptSent refusal err, s1) \<Rightarrow> (unread_probe refusal err, s1)
     | (AttemptBody body, s1) \<Rightarrow>
         (case classify_probe body of
            ProbeAbsent \<Rightarrow> upnp_add_stage cr g input r ceiling t c s1
          | ProbePresent \<Rightarrow> (existing_entry, s1)
          | ProbeUnreadable refusal \<Rightarrow> (unread_probe refusal ErrorInvalidResponse, s1)))"
  using assms by (simp add: upnp_checked_def map_upnp_def probe_op_def)

section \<open>Properties\<close>

text \<open>
  C35. A UPnP creation is disciplined whatever the router and the cancellation do. Nothing is sent without a
  reservation for this gateway, a descriptor on it and a high port. The requests are a beginning of: probe,
  create, confirm, delete, all at the gateway, and no more than the effect reports. The create follows only
  a probe whose reply says the entry is absent. Success means exactly probe, create and confirm, and an
  owned mapping with a lease from 1 to the ceiling. An effect that says nothing was created means the
  create was not sent, or the router refused it in its reply.
\<close>

theorem upnp_create_disciplined:
  assumes "map_upnp cr g input (observed_exchange t) (observed_cancelled c) (s, []) = (e, s', log)"
  shows "(log \<noteq> [] \<longrightarrow> (\<exists>r. um_reservation input = Some r \<and> authorizes r g)
        \<and> igd_gateway (um_descriptor input) = sg_gateway g \<and> 1024 \<le> um_internal_port input)
    \<and> (\<exists>h. soap_log g (um_descriptor input)
          (take (length log) [probe_op input, add_op input, probe_op input, delete_op h]) log
          \<and> oh_external_port h = um_internal_port input \<and> oh_port_protocol h = um_protocol input)
    \<and> length log \<le> me_requests_sent e \<and> me_requests_sent e \<le> 4
    \<and> (2 \<le> length log \<longrightarrow> (\<exists>body s1. attempt cr g (um_descriptor input) (fst (probe_op input)) (snd (probe_op input))
          (observed_exchange t) (observed_cancelled c) (s, []) = (AttemptBody body, s1)
          \<and> classify_probe body = ProbeAbsent))
    \<and> (me_outcome e = OutcomeSucceeded \<longrightarrow> length log = 3 \<and> (\<exists>h. me_handle e = Some h \<and> oh_cleanup_authorized h
          \<and> 1 \<le> oh_granted_lifetime_sec h \<and> oh_granted_lifetime_sec h \<le> ucast (um_maximum_lease_sec input)
          \<and> oh_granted_lifetime_sec h \<le> 120))
    \<and> (me_cleanup e = CleanupNotCreated \<longrightarrow> length log \<le> 1 \<or> e \<in> {permanent_only, add_conflict, add_rejected})"
  (is "?sending \<and> (\<exists>h. ?said h) \<and> ?counted \<and> ?four \<and> ?probed \<and> ?success \<and> ?nothing")
proof (cases "\<exists>ceiling r. upnp_checked g input ceiling r")
  case False
  then obtain refusal where "e = local_refusal RouterUpnpIgd refusal" "log = []"
    using assms map_upnp_checks [of g input cr "observed_exchange t" "observed_cancelled c" "(s, [])"] by auto
  then show ?thesis
    by (auto simp: local_refusal_def intro!: exI [of _ "upnp_handle cr input undefined 0 True"])
next
  case True
  then obtain ceiling r where ok: "upnp_checked g input ceiling r" by blast
  then have send: ?sending unfolding upnp_checked_def MAPPING_HIGH_PORT_MIN_def by auto
  obtain x s1 l1 where x: "attempt cr g (um_descriptor input) (fst (probe_op input)) (snd (probe_op input))
      (observed_exchange t) (observed_cancelled c) (s, []) = (x, s1, l1)" by (metis surj_pair)
  note run = assms [unfolded map_upnp_checked [OF ok] x prod.case]
  from observed.attempt_said [OF x] obtain ops where o: "soap_log g (um_descriptor input) ops l1"
    "ops = [] \<or> ops = [probe_op input]" "\<forall>body. x = AttemptBody body \<longrightarrow> ops = [probe_op input]"
    "\<forall>y. x = AttemptNotSent y \<longrightarrow> ops = []" by auto
  show ?thesis
  proof (cases "\<exists>body. x = AttemptBody body \<and> classify_probe body = ProbeAbsent")
    case True
    then have "upnp_add_stage cr g input r ceiling (observed_exchange t) (observed_cancelled c) (s1, l1) = (e, s', log)"
      using run by auto
    from observed.add_stage_said [OF this] obtain ops' log' where a: "log = l1 @ log'"
      "soap_log g (um_descriptor input) ops' log'"
      "ops' = [] \<or> ops' = [add_op input] \<or> ops' = [add_op input, probe_op input]
       \<or> (\<exists>lease. ops' = [add_op input, probe_op input, delete_op (upnp_handle cr input r lease True)])"
      "length ops' + 1 \<le> me_requests_sent e" "me_requests_sent e \<le> 4"
      "me_cleanup e = CleanupNotCreated \<longrightarrow> ops' = [] \<or> e \<in> {permanent_only, add_conflict, add_rejected}"
      "me_outcome e = OutcomeSucceeded \<longrightarrow> ops' = [add_op input, probe_op input]
         \<and> (\<exists>lease. e = adopt cr input r lease \<and> finite_lease ceiling lease)" unfolding snd_conv by blast
    have p: "ops = [probe_op input]" using True o(3) by blast
    have l: "soap_log g (um_descriptor input) (probe_op input # ops') log"
      using soap_log_append [OF o(1) a(2)] a(1) p by simp
    have n: "length log = Suc (length ops')" using soap_log_length [OF l] by simp
    obtain lease where "probe_op input # ops' = take (length log)
        [probe_op input, add_op input, probe_op input, delete_op (upnp_handle cr input r lease True)]"
      using a(3) n by auto
    then have "?said (upnp_handle cr input r lease True)" using l by simp
    moreover have ?counted ?four using a(4,5) n by simp_all
    moreover have ?probed using True x by auto
    moreover have ?success
      using a(7) n ok unfolding upnp_checked_def lease_ceiling_Some finite_lease_def by (auto simp: adopt_def)
    moreover have ?nothing using a(6) n by auto
    ultimately show ?thesis using send by blast
  next
    case False
    have e: "log = l1 \<and> me_outcome e \<noteq> OutcomeSucceeded \<and> me_requests_sent e \<le> 1 \<and> length ops \<le> me_requests_sent e"
      using run False o(2,4) by (cases x) (auto simp: effect_defs local_refusal_def split: upnp_probe.splits if_splits)
    have n: "length l1 = length ops" using soap_log_length [OF o(1)] .
    have "take (length l1) [probe_op input, add_op input, probe_op input, delete_op (upnp_handle cr input r 0 True)] = ops"
      using o(2) n by auto
    then have "?said (upnp_handle cr input r 0 True)" using o(1) e by simp
    moreover have ?counted ?four ?probed ?success ?nothing using e n o(2) by auto
    ultimately show ?thesis using send by blast
  qed
qed

text \<open>
  A deletion speaks to the router only about a mapping the caller may delete: at most one request, none
  unless \<open>delete_allowed\<close> holds, for UPnP none unless the control descriptor is the one the mapping was made
  through, and the mapping is reported deleted only after that one request.
\<close>

theorem delete_only_owned:
  assumes "delete_owned_mapping cr g h reservation ep (observed_exchange t) (observed_cancelled c) control (s, [])
    = (e, s', log)"
  shows "length log \<le> 1 \<and> (log \<noteq> [] \<longrightarrow> delete_allowed h g reservation)
    \<and> (log \<noteq> [] \<and> oh_protocol h = RouterUpnpIgd \<longrightarrow>
         (\<exists>d. control = Some d \<and> control_matches cr g h d \<and> soap_log g d [delete_op h] log))
    \<and> (log \<noteq> [] \<and> oh_protocol h \<noteq> RouterUpnpIgd \<longrightarrow> log = [((sg_gateway g, 5351), delete_packet h)])
    \<and> (me_cleanup e = CleanupConfirmedDeleted \<longrightarrow> log \<noteq> [])"
proof (cases "delete_allowed h g reservation")
  case False
  then show ?thesis using assms by (auto simp: delete_owned_mapping_def)
next
  case allowed: True
  show ?thesis
  proof (cases "oh_protocol h = RouterUpnpIgd")
    case True
    then have d: "delete_owned cr g h control (observed_exchange t) (observed_cancelled c) (s, []) = (e, s', log)"
      using assms allowed by (simp add: delete_owned_mapping_def)
    show ?thesis
    proof (cases control)
      case None
      then show ?thesis using d by (auto simp: delete_owned_def Let_def keep_ambiguous_def)
    next
      case (Some dd)
      from observed.delete_owned_said [OF d [unfolded Some]] obtain ops where "soap_log g dd ops log"
        "ops = [] \<or> ops = [delete_op h]" "me_cleanup e = CleanupConfirmedDeleted \<longrightarrow> ops = [delete_op h]"
        "ops \<noteq> [] \<longrightarrow> control_matches cr g h dd" by auto
      then show ?thesis using True Some allowed soap_log_length [of g dd ops log] by auto
    qed
  next
    case False
    then have d: "send_delete cr h g (delete_packet h) ep (observed_exchange t) (observed_cancelled c) 0 (s, [])
        = (e, s', log)" using assms allowed by (simp add: delete_owned_mapping_def)
    have "control_destination cr g (oh_protocol h) None = Inr (sg_gateway g, 5351)"
      using False by (cases "oh_protocol h") (simp_all add: ROUTER_CONTROL_PORT_def)
    from observed.send_delete_sent [OF d _ this] show ?thesis using False allowed by auto
  qed
qed

section \<open>An honest router\<close>

lemma attempt_answered:
  assumes "\<And>s. c s = (False, s)" "length body < 4096"
    and "soap_request d action inner = Inr q" "q \<noteq> []" "length q \<le> UPNP_SOAP_MAX_BYTES"
    and "control_destination cr g RouterUpnpIgd (Some (control_target d)) = Inr dest"
    and "t s dest q UPNP_SOAP_MAX_BYTES = (Inr (length body), body, s')"
  shows "attempt cr g d action inner t c s = (AttemptBody body, s')"
  using assms
  by (simp add: attempt_def exchange_upnp_soap_def Let_def fill_buffer_def UPNP_SOAP_MAX_BYTES_def
      del: control_destination.simps)

lemma length_http_reply: "length body \<le> 3000 \<Longrightarrow> length status \<le> 20 \<Longrightarrow> length (http_reply status body) < 4096"
  using length_show_nat [of 4 "length body"] by (simp add: http_reply_def as_bytes_def CRLF_def)

lemma short_replies:
  "n \<le> 65535 \<Longrightarrow> length (fault_reply n) < 4096"
  "length (done_reply ''AddPortMapping'') < 4096" "length (done_reply ''DeletePortMapping'') < 4096"
  "length (entry_reply client port lease enabled protocol) < 4096"
  unfolding fault_reply_def done_reply_def entry_reply_def
  using length_show_nat [of 5 n] length_decimals(1) [of port] length_decimals(2) [of lease] length_show_ipv4 [of client]
  by (intro length_http_reply; simp add: soap_body_def element_def length_protocol_name)+

lemma classify_replies:
  "classify_probe (fault_reply 714) = ProbeAbsent"
  "classify_add (done_reply ''AddPortMapping'') = AddAccepted"
  "classify_confirm (entry_reply client port lease enabled protocol) client port protocol ceiling
     = (if enabled \<and> finite_lease ceiling lease then ConfirmUsable lease else OursButUnusable lease)"
  "interpret_delete (done_reply ''DeletePortMapping'') = DeleteConfirmed"
  by (simp_all add: classify_probe_def classify_add_def classify_confirm_def interpret_delete_def read_fault_reply
      read_done_reply read_entry_reply UPNP_ABSENT_def view_empty_def)

text \<open>
  C36. With a router that answers the probe by error 714, acknowledges the creation and confirms this
  client's entry with a finite lease, and no cancellation, the UPnP attempt succeeds after three requests
  and returns the handle of that lease.
\<close>

theorem honest_upnp_router_succeeds:
  assumes "upnp_checked g input ceiling r" "finite_lease ceiling lease" "\<And>s. c s = (False, s)"
    and "starts_with (igd_path_and_query (um_descriptor input)) ''/''"
      "plain_text (igd_path_and_query (um_descriptor input))" "length (igd_path_and_query (um_descriptor input)) \<le> 512"
    and "control_destination cr g RouterUpnpIgd (Some (control_target (um_descriptor input))) = Inr dest"
    and "\<And>q. soap_request (um_descriptor input) (fst (probe_op input)) (snd (probe_op input)) = Inr q
      \<Longrightarrow> t s dest q UPNP_SOAP_MAX_BYTES = (Inr (length (fault_reply 714)), fault_reply 714, s1)"
    and "\<And>q. soap_request (um_descriptor input) (fst (add_op input)) (snd (add_op input)) = Inr q
      \<Longrightarrow> t s1 dest q UPNP_SOAP_MAX_BYTES
        = (Inr (length (done_reply ''AddPortMapping'')), done_reply ''AddPortMapping'', s2)"
    and "\<And>q. soap_request (um_descriptor input) (fst (probe_op input)) (snd (probe_op input)) = Inr q
      \<Longrightarrow> t s2 dest q UPNP_SOAP_MAX_BYTES
        = (Inr (length (entry_reply (um_local_address input) (um_internal_port input) lease True (um_protocol input))),
           entry_reply (um_local_address input) (um_internal_port input) lease True (um_protocol input), s3)"
  shows "\<exists>e h. map_upnp cr g input t c s = (e, s3) \<and> me_outcome e = OutcomeSucceeded
    \<and> me_cleanup e = CleanupLeaseExpiryPending \<and> me_requests_sent e = 3 \<and> me_handle e = Some h
    \<and> oh_granted_lifetime_sec h = lease \<and> oh_external_port h = um_internal_port input
    \<and> oh_reservation_digest h = Some (er_digest r) \<and> oh_nonce h = Some (control_fingerprint cr (um_descriptor input))"
proof -
  let ?d = "um_descriptor input"
  obtain p where p: "soap_request ?d (fst (probe_op input)) (snd (probe_op input)) = Inr p" "p \<noteq> []"
      "length p \<le> UPNP_SOAP_MAX_BYTES"
    using soap_request_sendable [OF assms(4-6), of "fst (probe_op input)" "snd (probe_op input)"]
      length_tuple_fields [of "um_internal_port input" "um_protocol input"] by (auto simp: probe_op_def)
  obtain a where a: "soap_request ?d (fst (add_op input)) (snd (add_op input)) = Inr a" "a \<noteq> []"
      "length a \<le> UPNP_SOAP_MAX_BYTES"
    using soap_request_sendable [OF assms(4-6), of "fst (add_op input)" "snd (add_op input)"]
      length_add_fields [of "um_local_address input" "um_internal_port input" "um_protocol input"]
    by (auto simp: add_op_def)
  note step = attempt_answered [where c = c and cr = cr and g = g and dest = dest and t = t, OF assms(3)]
  have 1: "attempt cr g ?d (fst (probe_op input)) (snd (probe_op input)) t c s = (AttemptBody (fault_reply 714), s1)"
    by (rule step [OF _ p assms(7), of "fault_reply 714"]) (simp_all add: short_replies assms(8) [OF p(1)])
  have 2: "attempt cr g ?d (fst (add_op input)) (snd (add_op input)) t c s1
      = (AttemptBody (done_reply ''AddPortMapping''), s2)"
    by (rule step [OF _ a assms(7), of "done_reply ''AddPortMapping''"]) (simp_all only: short_replies assms(9) [OF a(1)])
  have 3: "attempt cr g ?d (fst (probe_op input)) (snd (probe_op input)) t c s2
      = (AttemptBody (entry_reply (um_local_address input) (um_internal_port input) lease True (um_protocol input)), s3)"
    by (rule step [OF _ p assms(7)]) (simp_all only: short_replies assms(10) [OF p(1)])
  have "upnp_confirm_stage cr g input r ceiling t c s2 = (adopt cr input r lease, s3)"
    using 3 assms(2,3) by (simp add: upnp_confirm_stage_def probe_op_def classify_replies)
  then have "upnp_add_stage cr g input r ceiling t c s1 = (adopt cr input r lease, s3)"
    using 2 assms(3) by (simp add: upnp_add_stage_def add_op_def classify_replies)
  then have "map_upnp cr g input t c s = (adopt cr input r lease, s3)"
    by (simp add: map_upnp_checked [OF assms(1)] 1 classify_replies)
  then show ?thesis by (simp add: adopt_def upnp_handle_def)
qed

section \<open>Witnesses\<close>

definition sample_descriptor :: igd_control_descriptor where
  "sample_descriptor = \<lparr>igd_service = WanIpConnection, igd_gateway = sg_gateway sample_gateway, igd_port = 5000,
     igd_path_and_query = ''/ctl''\<rparr>"

definition sample_reservation :: exclusive_reservation where
  "sample_reservation = \<lparr>er_gateway = sg_gateway sample_gateway, er_digest = replicate 32 1\<rparr>"

definition sample_upnp_map :: upnp_map where
  "sample_upnp_map = \<lparr>um_descriptor = sample_descriptor, um_local_address = sample_address,
     um_internal_port = 40000, um_protocol = PortUdp, um_maximum_lease_sec = 60,
     um_reservation = Some sample_reservation\<rparr>"

definition upnp_crates :: crates where
  "upnp_crates = sample_crates\<lparr>url_parse := (\<lambda>t. Some \<lparr>url_text = t, url_scheme = ''http'', url_host_str = None,
        url_host_ipv4 = Some (sg_gateway sample_gateway), url_username = [], url_password = None, url_query = None,
        url_fragment = None, url_path = ''/ctl'', url_port_or_default = Some 5000\<rparr>)\<rparr>"

text \<open>A router that answers its first three requests as an honest one does; its state counts them.\<close>

definition sample_upnp_router :: "nat transport" where
  "sample_upnp_router k dest q n =
     (let reply = (if k = 0 then fault_reply 714 else if k = 1 then done_reply ''AddPortMapping''
                   else entry_reply sample_address 40000 30 True PortUdp)
      in (Inr (length reply), reply, k + 1))"

lemma sample_upnp_checked: "upnp_checked sample_gateway sample_upnp_map 60 sample_reservation"
  using sample_usable
  by (simp add: upnp_checked_def sample_upnp_map_def sample_reservation_def sample_descriptor_def authorizes_def
      lease_ceiling_def MAPPING_REQUESTED_LEASE_SEC_def MAPPING_MAXIMUM_LEASE_SEC_def MAPPING_HIGH_PORT_MIN_def)

lemma length_sample_target: "length (control_target sample_descriptor) \<le> CONTROL_LOCATION_MAX_BYTES"
  using length_show_ipv4 [of "sg_gateway sample_gateway"] length_decimals(1) [of 5000]
  by (simp add: control_target_def sample_descriptor_def CONTROL_LOCATION_MAX_BYTES_def)

lemma sample_destination:
  "control_destination upnp_crates sample_gateway RouterUpnpIgd (Some (control_target sample_descriptor))
     = Inr (sg_gateway sample_gateway, 5000)"
  using length_sample_target by (simp add: upnp_location_def upnp_crates_def guard_def)

theorem honest_upnp_router_succeeds_witness:
  "\<exists>e h. map_upnp upnp_crates sample_gateway sample_upnp_map sample_upnp_router (\<lambda>s. (False, s)) 0 = (e, 3)
    \<and> me_outcome e = OutcomeSucceeded \<and> me_handle e = Some h \<and> oh_granted_lifetime_sec h = 30"
proof -
  have "\<exists>e h. map_upnp upnp_crates sample_gateway sample_upnp_map sample_upnp_router (\<lambda>s. (False, s)) 0 = (e, 3)
    \<and> me_outcome e = OutcomeSucceeded
    \<and> me_cleanup e = CleanupLeaseExpiryPending \<and> me_requests_sent e = 3 \<and> me_handle e = Some h
    \<and> oh_granted_lifetime_sec h = 30 \<and> oh_external_port h = um_internal_port sample_upnp_map
    \<and> oh_reservation_digest h = Some (er_digest sample_reservation)
    \<and> oh_nonce h = Some (control_fingerprint upnp_crates (um_descriptor sample_upnp_map))"
    by (rule honest_upnp_router_succeeds [OF sample_upnp_checked, where ?s1.0 = 1 and ?s2.0 = 2
          and dest = "(sg_gateway sample_gateway, 5000)"])
      (simp_all add: sample_upnp_map_def sample_destination sample_upnp_router_def finite_lease_def Let_def del: control_destination.simps,
       simp_all add: sample_descriptor_def starts_with_def plain_text_def is_ascii_control_def)
  then show ?thesis by blast
qed

theorem upnp_create_disciplined_witness:
  "\<exists>e s' log. map_upnp upnp_crates sample_gateway sample_upnp_map (observed_exchange sample_upnp_router)
       (observed_cancelled (\<lambda>s. (False, s))) (0, []) = (e, s', log)
     \<and> length log \<le> me_requests_sent e \<and> me_requests_sent e \<le> 4"
proof -
  obtain e s' log where run: "map_upnp upnp_crates sample_gateway sample_upnp_map (observed_exchange sample_upnp_router)
       (observed_cancelled (\<lambda>s. (False, s))) (0, []) = (e, s', log)" by (metis surj_pair)
  show ?thesis using upnp_create_disciplined [OF run] run by auto
qed

theorem delete_only_owned_witness:
  "\<exists>e s' log. delete_owned_mapping upnp_crates sample_gateway (upnp_handle upnp_crates sample_upnp_map sample_reservation 30 True)
       (Some sample_reservation) None (observed_exchange sample_upnp_router) (observed_cancelled (\<lambda>s. (False, s)))
       (Some sample_descriptor) (0, []) = (e, s', log) \<and> length log \<le> 1"
proof -
  obtain e s' log where run: "delete_owned_mapping upnp_crates sample_gateway
       (upnp_handle upnp_crates sample_upnp_map sample_reservation 30 True)
       (Some sample_reservation) None (observed_exchange sample_upnp_router) (observed_cancelled (\<lambda>s. (False, s)))
       (Some sample_descriptor) (0, []) = (e, s', log)" by (metis surj_pair)
  show ?thesis using delete_only_owned [OF run] run by auto
qed

end
