(* ===== verification/Lifecycle.thy ===== *)
theory Lifecycle
  imports Upnp
begin

text \<open>
  The one-shot mapping run (\<open>src/network_traversal/lifecycle.rs\<close>): the session made from an authenticated
  descriptor, the accounting of its budgets, the router transport that enforces them, the path check, and
  the run over the mapping methods with its cleanup. The injected \<open>MappingRuntime\<close> is a record of
  functions on an arbitrary world \<open>'w\<close>; a listener is a handle into that world.
\<close>

section \<open>Vocabulary\<close>

definition METHOD_WINDOW_MS :: nat where "METHOD_WINDOW_MS = 8000"
definition INBOUND_PORT_MIN :: u16 where "INBOUND_PORT_MIN = 20000"
definition INBOUND_PORT_MAX :: u16 where "INBOUND_PORT_MAX = 60000"

datatype mapping_stop =
    StopCancelled
  | StopExpired
  | StopGracefulShutdown
  | StopDeadline
  | StopBudget
  | StopInvalidBinding
  | StopUnsupported
  | StopCleanupUncertain

record mapping_bindings =
  mb_claim_authority_digest :: string
  mb_artifact_digest :: string
  mb_helper :: helper_identity
  mb_consent_reference :: string
  mb_processor_allowlist_digest :: string
  mb_exclusive_reservation_digest :: string

record mapping_session =
  se_descriptor :: traversal_descriptor
  se_reservation :: reservation

definition from_authenticated_bootstrap ::
  "crates \<Rightarrow> traversal_descriptor \<Rightarrow> mapping_bindings \<Rightarrow> nat \<Rightarrow> nat \<Rightarrow> traversal_refusal + mapping_session" where
  "from_authenticated_bootstrap cr d b now_ms job_expires_at_ms =
     res_bind (can_start cr d now_ms job_expires_at_ms EXISTING_DELIVERY_RESERVE_MS) (\<lambda>_.
     res_bind (ok_or (td_mapping d) InvalidConsent) (\<lambda>consent.
     guard (\<not> (td_mode d \<noteq> ModeMapping
              \<or> td_claim_authority_digest d \<noteq> mb_claim_authority_digest b
              \<or> td_artifact_digest d \<noteq> mb_artifact_digest b
              \<or> td_helper_version d \<noteq> hi_version (mb_helper b)
              \<or> td_helper_digest d \<noteq> hi_digest (mb_helper b)
              \<or> mc_consent_reference consent \<noteq> mb_consent_reference b
              \<or> mc_processor_allowlist_digest consent \<noteq> mb_processor_allowlist_digest b
              \<or> mc_exclusive_reservation_digest consent \<noteq> mb_exclusive_reservation_digest b)) InvalidBinding
       (let finish = now_ms + tb_experiment_ms (td_budgets d)
        in Inr \<lparr>se_descriptor = d,
             se_reservation = \<lparr>rs_experiment_ms = tb_experiment_ms (td_budgets d),
               rs_cleanup_reserve_ms = tb_cleanup_reserve_ms (td_budgets d),
               rs_delivery_reserve_ms = EXISTING_DELIVERY_RESERVE_MS, rs_collector_end_ms = finish,
               rs_delivery_end_ms = finish + EXISTING_DELIVERY_RESERVE_MS\<rparr>\<rparr>)))"

record mapping_method_plan =
  pl_protocol :: router_protocol
  pl_transport :: port_protocol

record mapping_gateway =
  mg_gateway :: selected_gateway
  mg_reservation :: exclusive_reservation
  mg_local_address :: ipv4
  mg_external_address :: "ipv4 option"
  mg_igd :: "igd_control_descriptor option"
  mg_discovery_datagrams :: nat
  mg_discovery_control_requests :: nat

record mapping_path_check =
  pc_stage :: traversal_stage
  pc_method :: traversal_method
  pc_transport :: traversal_transport
  pc_family :: traversal_family
  pc_port :: u16

record mapping_path_evidence =
  pe_transcript :: traversal_transcript
  pe_echoed_challenge :: "bytes option"

type_synonym listener = nat

record 'w mapping_runtime =
  rt_now_ms :: "'w \<Rightarrow> nat \<times> 'w"
  rt_observed_address :: "'w \<Rightarrow> ipv4 \<times> 'w"
  rt_stop :: "'w \<Rightarrow> mapping_stop option \<times> 'w"
  rt_nonce :: "'w \<Rightarrow> (mapping_stop + bytes) \<times> 'w"
  rt_bind_fresh :: "port_protocol \<Rightarrow> 'w \<Rightarrow> (mapping_stop + listener) \<times> 'w"
  rt_port :: "listener \<Rightarrow> 'w \<Rightarrow> u16 \<times> 'w"
  rt_path_check :: "listener \<Rightarrow> mapping_path_check \<Rightarrow> nat \<Rightarrow> 'w \<Rightarrow> (mapping_stop + mapping_path_evidence) \<times> 'w"
  rt_attest_path :: "traversal_transcript \<Rightarrow> nat \<Rightarrow> 'w \<Rightarrow> (mapping_stop + unit) \<times> 'w"
  rt_router_exchange :: "socket_addr \<Rightarrow> bytes \<Rightarrow> nat \<Rightarrow> nat \<Rightarrow> 'w \<Rightarrow> (control_refusal + nat) \<times> bytes \<times> 'w"

record mapping_path_summary =
  ps_stage :: traversal_stage
  ps_outcome :: traversal_outcome
  ps_error :: "traversal_error_class option"

record mapping_method_report =
  mr_plan :: mapping_method_plan
  mr_baseline :: "mapping_path_summary option"
  mr_create :: "traversal_outcome option"
  mr_granted_lease_sec :: "u32 option"
  mr_verification :: "mapping_path_summary option"
  mr_cleanup :: traversal_cleanup
  mr_expiry_unknown :: bool
  mr_stopped :: "mapping_stop option"

record mapping_run_report =
  rr_discovery :: traversal_outcome
  rr_methods :: "mapping_method_report list"
  rr_deferred_methods :: nat
  rr_stopped :: "mapping_stop option"
  rr_sent_datagrams :: nat
  rr_control_requests :: nat
  rr_external_dialbacks :: nat

section \<open>Accounting\<close>

record accounting =
  ac_ordinary_datagrams :: nat
  ac_ordinary_control :: nat
  ac_cleanup_datagrams :: nat
  ac_cleanup_control :: nat
  ac_dialbacks :: nat
  ac_sent_datagrams :: nat
  ac_control_requests :: nat
  ac_external_dialbacks :: nat
  ac_datagram_bytes :: nat

text \<open>Validated budgets contain the cleanup allowances, so the subtractions are exact.\<close>

definition accounting_new :: "traversal_budgets \<Rightarrow> accounting" where
  "accounting_new b =
     \<lparr>ac_ordinary_datagrams = tb_outbound_datagrams b - tb_cleanup_datagrams b,
      ac_ordinary_control = tb_control_requests b - tb_cleanup_control_requests b,
      ac_cleanup_datagrams = tb_cleanup_datagrams b, ac_cleanup_control = tb_cleanup_control_requests b,
      ac_dialbacks = tb_external_dialbacks b, ac_sent_datagrams = 0, ac_control_requests = 0,
      ac_external_dialbacks = 0, ac_datagram_bytes = tb_datagram_bytes b\<rparr>"

definition charge :: "nat \<Rightarrow> nat \<Rightarrow> nat \<Rightarrow> bool \<Rightarrow> accounting \<Rightarrow> mapping_stop + accounting" where
  "charge datagrams controls dialbacks cleanup a =
     (let d = (if cleanup then ac_cleanup_datagrams a else ac_ordinary_datagrams a);
          c = (if cleanup then ac_cleanup_control a else ac_ordinary_control a)
      in if d < datagrams \<or> c < controls \<or> ac_dialbacks a < dialbacks then Inl StopBudget
         else Inr ((if cleanup
                    then a\<lparr>ac_cleanup_datagrams := d - datagrams, ac_cleanup_control := c - controls\<rparr>
                    else a\<lparr>ac_ordinary_datagrams := d - datagrams, ac_ordinary_control := c - controls\<rparr>)
                   \<lparr>ac_dialbacks := ac_dialbacks a - dialbacks,
                    ac_sent_datagrams := ac_sent_datagrams a + datagrams,
                    ac_control_requests := ac_control_requests a + controls,
                    ac_external_dialbacks := ac_external_dialbacks a + dialbacks\<rparr>))"

definition udp_router :: "router_protocol \<Rightarrow> nat" where
  "udp_router p = (if p \<noteq> RouterUpnpIgd then 1 else 0)"

definition fits :: "accounting \<Rightarrow> mapping_method_plan list \<Rightarrow> nat \<Rightarrow> bool" where
  "fits a plans available_ms \<longleftrightarrow>
     (let controls = sum_list (map (\<lambda>p. 4 + (if pl_protocol p \<noteq> RouterUpnpIgd then 1 else 3)) plans);
          datagrams = sum_list (map (\<lambda>p. udp_router (pl_protocol p) + 2 * (if pl_transport p = PortUdp then 1 else 0)) plans);
          deletes_udp = sum_list (map (\<lambda>p. udp_router (pl_protocol p)) plans)
      in controls \<le> ac_ordinary_control a \<and> datagrams \<le> ac_ordinary_datagrams a
         \<and> length plans \<le> ac_cleanup_control a \<and> deletes_udp \<le> ac_cleanup_datagrams a
         \<and> 2 * length plans \<le> ac_dialbacks a \<and> length plans * METHOD_WINDOW_MS \<le> available_ms
         \<and> (datagrams + deletes_udp = 0 \<or> ac_datagram_bytes a \<ge> 60))"

fun plan_method :: "router_protocol \<Rightarrow> traversal_method" where
  "plan_method RouterPcp = MethodPcp"
| "plan_method RouterNatPmp = MethodNatPmp"
| "plan_method RouterUpnpIgd = MethodUpnpIgd"

fun plan_transport :: "port_protocol \<Rightarrow> traversal_transport" where
  "plan_transport PortTcp = TransportTcp"
| "plan_transport PortUdp = TransportUdp"

text \<open>A fallible operation on a state, and \<open>?\<close>.\<close>

type_synonym ('s, 'a) run = "'s \<Rightarrow> (mapping_stop + 'a) \<times> 's"

definition run_bind :: "('s, 'a) run \<Rightarrow> ('a \<Rightarrow> ('s, 'b) run) \<Rightarrow> ('s, 'b) run" where
  "run_bind m f s = (case m s of (Inl e, s1) \<Rightarrow> (Inl e, s1) | (Inr x, s1) \<Rightarrow> f x s1)"

definition ordinary :: "'w mapping_runtime \<Rightarrow> nat \<Rightarrow> ('w, unit) run" where
  "ordinary rt finish w =
     (case rt_stop rt w of
        (Some stop, w1) \<Rightarrow> (Inl stop, w1)
      | (None, w1) \<Rightarrow>
          let (now, w2) = rt_now_ms rt w1 in if now \<ge> finish then (Inl StopDeadline, w2) else (Inr (), w2))"

section \<open>The bounded router transport\<close>

fun contains_bytes :: "bytes \<Rightarrow> bytes \<Rightarrow> bool" where
  "contains_bytes pat [] \<longleftrightarrow> pat = []"
| "contains_bytes pat (b # bs) \<longleftrightarrow> take (length pat) (b # bs) = pat \<or> contains_bytes pat bs"

fun delete_request :: "router_protocol \<Rightarrow> bytes \<Rightarrow> bool" where
  "delete_request RouterPcp q \<longleftrightarrow> length q = PCP_MAP_PACKET_BYTES \<and> take 4 (drop 4 q) = [0, 0, 0, 0]"
| "delete_request RouterNatPmp q \<longleftrightarrow> length q = NATPMP_MAP_REQUEST_BYTES \<and> take 4 (drop 8 q) = [0, 0, 0, 0]"
| "delete_request RouterUpnpIgd q \<longleftrightarrow> contains_bytes (as_bytes (''#DeletePortMapping'' @ quote)) q"

type_synonym 'w run_state = "accounting \<times> 'w"

definition bounded_exchange ::
  "'w mapping_runtime \<Rightarrow> router_protocol \<Rightarrow> nat \<Rightarrow> nat \<Rightarrow> bool \<Rightarrow> 'w run_state transport" where
  "bounded_exchange rt protocol ordinary_end cleanup_end cleaning s destination request n =
     (let (a, w) = s;
          cleanup = (cleaning \<or> delete_request protocol request);
          finish = (if cleanup then cleanup_end else ordinary_end);
          (now, w1) = rt_now_ms rt w
      in if now \<ge> finish then (Inl ControlBounded, [], a, w1)
         else let (stop, w2) = (if cleanup then (None, w1) else rt_stop rt w1)
         in if stop \<noteq> None then (Inl ControlBounded, [], a, w2)
            else let datagrams = udp_router protocol
            in if datagrams \<noteq> 0 \<and> length request > ac_datagram_bytes a then (Inl ControlOversize, [], a, w2)
               else (case charge datagrams 1 0 cleanup a of
                   Inl _ \<Rightarrow> (Inl ControlBounded, [], a, w2)
                 | Inr a1 \<Rightarrow>
                     (case rt_router_exchange rt destination request n finish w2 of
                        (Inl e, written, w3) \<Rightarrow> (Inl e, written, a1, w3)
                      | (Inr count, written, w3) \<Rightarrow>
                          if count > n then (Inl ControlBounded, written, a1, w3)
                          else if \<not> cleanup then (Inr count, written, a1, w3)
                          else let (now2, w4) = rt_now_ms rt w3
                          in if now2 \<ge> finish then (Inl ControlBounded, written, a1, w4)
                             else (Inr count, written, a1, w4))))"

section \<open>Path checks\<close>

definition path_evidence_ok ::
  "crates \<Rightarrow> traversal_descriptor \<Rightarrow> mapping_path_check \<Rightarrow> mapping_path_evidence \<Rightarrow> nat \<Rightarrow> bool" where
  "path_evidence_ok cr d check e now_ms \<longleftrightarrow>
     (let t = pe_transcript e
      in is_ok (transcript_validate_scope cr t d now_ms) \<and> tt_authority t = ExternalPath
         \<and> tt_stage t = pc_stage check \<and> tt_method t = pc_method check
         \<and> tt_transport t = pc_transport check \<and> tt_family t = pc_family check
         \<and> tt_outcome t \<in> {OutcomeSucceeded, OutcomeFailed, OutcomeUnverifiableEndpoint, OutcomeBudgetExhausted,
              OutcomeProberNoEgress}
         \<and> (tt_outcome t = OutcomeSucceeded \<longrightarrow>
              (case pe_echoed_challenge e of None \<Rightarrow> False | Some c \<Rightarrow> hex_encode cr c = tt_challenge t)))"

definition on_world :: "('w, 'a) run \<Rightarrow> ('w run_state, 'a) run" where
  "on_world m s = (let (r, w) = m (snd s) in (r, fst s, w))"

definition charging :: "nat \<Rightarrow> nat \<Rightarrow> nat \<Rightarrow> bool \<Rightarrow> ('w run_state, unit) run" where
  "charging datagrams controls dialbacks cleanup s =
     (case charge datagrams controls dialbacks cleanup (fst s) of
        Inl e \<Rightarrow> (Inl e, s) | Inr a \<Rightarrow> (Inr (), a, snd s))"

definition check_evidence ::
  "crates \<Rightarrow> 'w mapping_runtime \<Rightarrow> traversal_descriptor \<Rightarrow> mapping_path_check \<Rightarrow> mapping_path_evidence \<Rightarrow> ('w, unit) run" where
  "check_evidence cr rt d check e w =
     (let (now, w1) = rt_now_ms rt w
      in (if path_evidence_ok cr d check e now then Inr () else Inl StopInvalidBinding, w1))"

definition path ::
  "crates \<Rightarrow> 'w mapping_runtime \<Rightarrow> listener \<Rightarrow> traversal_descriptor \<Rightarrow> mapping_path_check \<Rightarrow> nat
     \<Rightarrow> ('w run_state, mapping_path_summary) run" where
  "path cr rt l d check finish =
     run_bind (on_world (ordinary rt finish)) (\<lambda>_.
     run_bind (charging (if pc_transport check = TransportUdp then 1 else 0) 2 1 False) (\<lambda>_.
     run_bind (on_world (rt_path_check rt l check finish)) (\<lambda>e.
     run_bind (on_world (ordinary rt finish)) (\<lambda>_.
     run_bind (on_world (check_evidence cr rt d check e)) (\<lambda>_.
     run_bind (on_world (rt_attest_path rt (pe_transcript e) finish)) (\<lambda>_.
     run_bind (on_world (ordinary rt finish)) (\<lambda>_ s.
       (Inr \<lparr>ps_stage = pc_stage check, ps_outcome = tt_outcome (pe_transcript e),
             ps_error = tt_error_class (pe_transcript e)\<rparr>, s))))))))"

section \<open>One method\<close>

definition row_new :: "mapping_method_plan \<Rightarrow> mapping_method_report" where
  "row_new plan = \<lparr>mr_plan = plan, mr_baseline = None, mr_create = None, mr_granted_lease_sec = None,
     mr_verification = None, mr_cleanup = CleanupNotCreated, mr_expiry_unknown = False, mr_stopped = None\<rparr>"

text \<open>
  What a round of the loop over the plans does to the report: the row it pushes and the stop with which it
  breaks. The constants of a run are collected in a record.
\<close>

type_synonym round_result = "mapping_method_report option \<times> mapping_stop option"

record 'w run_env =
  re_crates :: crates
  re_runtime :: "'w mapping_runtime"
  re_descriptor :: traversal_descriptor
  re_consent :: mapping_consent
  re_gateway :: mapping_gateway
  re_end :: nat
  re_active_end :: nat

definition stop_row :: "mapping_method_report \<Rightarrow> mapping_stop \<Rightarrow> round_result" where
  "stop_row row stop = (Some (row\<lparr>mr_stopped := Some stop\<rparr>), Some stop)"

definition bounded_control :: "'w run_env \<Rightarrow> router_protocol \<Rightarrow> bool \<Rightarrow> 'w run_state transport" where
  "bounded_control v protocol cleaning = bounded_exchange (re_runtime v) protocol (re_active_end v) (re_end v) cleaning"

definition never :: "'s canceller" where "never s = (False, s)"

definition create_mapping ::
  "'w run_env \<Rightarrow> mapping_method_plan \<Rightarrow> u16 \<Rightarrow> bytes \<Rightarrow> 'w run_state \<Rightarrow> mapping_effect option \<times> 'w run_state" where
  "create_mapping v plan port nonce s =
     (let g = re_gateway v; maximum = of_nat (mc_maximum_lease_sec (re_consent v));
          control = bounded_control v (pl_protocol plan) False;
          done = (\<lambda>(e, s). (Some e, s))
      in case pl_protocol plan of
           RouterPcp \<Rightarrow> done (map_pcp (re_crates v) (mg_gateway g)
             \<lparr>pm_local_address = mg_local_address g, pm_internal_port = port, pm_protocol = pl_transport plan,
              pm_nonce = nonce, pm_maximum_lease_sec = maximum, pm_previous_epoch = None,
              pm_reservation = Some (mg_reservation g)\<rparr> control never s)
         | RouterNatPmp \<Rightarrow> done (map_nat_pmp (re_crates v) (mg_gateway g)
             \<lparr>nm_internal_port = port, nm_protocol = pl_transport plan, nm_maximum_lease_sec = maximum,
              nm_previous_epoch = None, nm_reservation = Some (mg_reservation g)\<rparr> control never s)
         | RouterUpnpIgd \<Rightarrow>
             (case mg_igd g of
                None \<Rightarrow> (None, s)
              | Some igd \<Rightarrow> done (map_upnp (re_crates v) (mg_gateway g)
                  \<lparr>um_descriptor = igd, um_local_address = mg_local_address g, um_internal_port = port,
                   um_protocol = pl_transport plan, um_maximum_lease_sec = maximum,
                   um_reservation = Some (mg_reservation g)\<rparr> control never s)))"

definition unverifiable :: mapping_path_summary where
  "unverifiable = \<lparr>ps_stage = StageMappingVerify, ps_outcome = OutcomeUnverifiableEndpoint, ps_error = None\<rparr>"

definition port_in_range :: "u16 \<Rightarrow> bool" where
  "port_in_range port \<longleftrightarrow> INBOUND_PORT_MIN \<le> port \<and> port \<le> INBOUND_PORT_MAX"

definition verify_mapping ::
  "'w run_env \<Rightarrow> mapping_method_plan \<Rightarrow> listener \<Rightarrow> mapping_path_check \<Rightarrow> owned_handle \<Rightarrow> mapping_method_report
     \<Rightarrow> 'w run_state \<Rightarrow> mapping_method_report \<times> 'w run_state" where
  "verify_mapping v plan l baseline h row s =
     (case (if pl_protocol plan = RouterPcp then oh_external_address h else mg_external_address (re_gateway v)) of
        None \<Rightarrow> (row\<lparr>mr_verification := Some unverifiable\<rparr>, s)
      | Some address \<Rightarrow>
          let check = baseline\<lparr>pc_stage := StageMappingVerify, pc_method := plan_method (pl_protocol plan),
                pc_port := oh_external_port h\<rparr>
          in if \<not> port_in_range (pc_port check) then (row\<lparr>mr_stopped := Some StopInvalidBinding\<rparr>, s)
             else let (observed, w) = rt_observed_address (re_runtime v) (snd s); s = (fst s, w)
             in if address \<noteq> observed then (row\<lparr>mr_verification := Some unverifiable\<rparr>, s)
                else (case path (re_crates v) (re_runtime v) l (re_descriptor v) check (re_active_end v) s of
                    (Inr summary, s) \<Rightarrow> (row\<lparr>mr_verification := Some summary\<rparr>, s)
                  | (Inl stop, s) \<Rightarrow> (row\<lparr>mr_stopped := Some stop\<rparr>, s)))"

definition cleanup_mapping ::
  "'w run_env \<Rightarrow> mapping_method_plan \<Rightarrow> mapping_effect \<Rightarrow> owned_handle \<Rightarrow> mapping_method_report \<Rightarrow> 'w run_state
     \<Rightarrow> mapping_method_report \<times> 'w run_state" where
  "cleanup_mapping v plan created h row s =
     (let before = ac_control_requests (fst s);
          (deleted, s) = delete_owned_mapping (re_crates v) (mg_gateway (re_gateway v)) h
            (Some (mg_reservation (re_gateway v))) (me_epoch created) (bounded_control v (pl_protocol plan) True) never
            (mg_igd (re_gateway v)) s
      in (if me_cleanup deleted = CleanupConfirmedDeleted then row\<lparr>mr_cleanup := CleanupConfirmedDeleted\<rparr>
          else if ac_control_requests (fst s) = before then row\<lparr>mr_cleanup := CleanupLeaseExpiryPending\<rparr>
          else row\<lparr>mr_expiry_unknown := (me_cleanup deleted = CleanupExpiryUnknown),
                   mr_cleanup := CleanupDeleteFailed\<rparr>, s))"

definition settle_mapping ::
  "'w run_env \<Rightarrow> mapping_method_plan \<Rightarrow> listener \<Rightarrow> mapping_path_check \<Rightarrow> mapping_effect \<Rightarrow> mapping_method_report
     \<Rightarrow> 'w run_state \<Rightarrow> mapping_method_report \<times> 'w run_state" where
  "settle_mapping v plan l baseline created row s =
     (case (if me_cleanup created = CleanupLeaseExpiryPending then me_handle created else None) of
        None \<Rightarrow> (row, s)
      | Some h \<Rightarrow>
          let (row, s) = (if me_outcome created = OutcomeSucceeded then verify_mapping v plan l baseline h row s
                          else (row, s))
          in cleanup_mapping v plan created h row s)"

definition round_end :: "mapping_method_report \<Rightarrow> round_result" where
  "round_end row =
     (let row = row\<lparr>mr_expiry_unknown := mr_expiry_unknown row
            \<or> mr_cleanup row \<in> {CleanupCreationOutcomeUnknown, CleanupExpiryUnknown}\<rparr>;
          uncertain = (mr_cleanup row \<notin> {CleanupNotCreated, CleanupConfirmedDeleted})
      in (Some row, if uncertain \<or> mr_stopped row \<noteq> None
                    then Some (case mr_stopped row of None \<Rightarrow> StopCleanupUncertain | Some stop \<Rightarrow> stop) else None))"

text \<open>From the creation on: the mapping is made, verified and cleaned up.\<close>

definition round_create ::
  "'w run_env \<Rightarrow> mapping_method_plan \<Rightarrow> listener \<Rightarrow> mapping_path_check \<Rightarrow> mapping_method_report \<Rightarrow> bytes
     \<Rightarrow> 'w run_state \<Rightarrow> round_result \<times> 'w run_state" where
  "round_create v plan l baseline row nonce s =
     (case create_mapping v plan (pc_port baseline) nonce s of
        (None, s) \<Rightarrow> (stop_row row StopUnsupported, s)
      | (Some created, s) \<Rightarrow>
          let row = row\<lparr>mr_create := Some (me_outcome created),
                mr_granted_lease_sec := me_granted_lifetime_sec created, mr_cleanup := me_cleanup created\<rparr>;
              (row, s) = settle_mapping v plan l baseline created row s
          in (round_end row, s))"

text \<open>From the measured baseline to the creation: the reserve for the deletion and the nonce.\<close>

definition round_reserve ::
  "'w run_env \<Rightarrow> mapping_method_plan \<Rightarrow> listener \<Rightarrow> mapping_path_check \<Rightarrow> mapping_method_report
     \<Rightarrow> 'w run_state \<Rightarrow> round_result \<times> 'w run_state" where
  "round_reserve v plan l baseline row s =
     (case on_world (ordinary (re_runtime v) (re_active_end v)) s of
        (Inl stop, s) \<Rightarrow> (stop_row row stop, s)
      | (Inr _, s) \<Rightarrow>
          if ac_cleanup_control (fst s) = 0 \<or> ac_cleanup_datagrams (fst s) < udp_router (pl_protocol plan)
          then (stop_row row StopBudget, s)
          else let (now, w) = rt_now_ms (re_runtime v) (snd s); s = (fst s, w)
          in if saturating_add_u64 now 1000 \<ge> re_active_end v then (stop_row row StopBudget, s)
             else if pl_protocol plan \<noteq> RouterPcp
             then round_create v plan l baseline row (replicate 12 0) s
             else (case on_world (rt_nonce (re_runtime v)) s of
                 (Inr n, s) \<Rightarrow>
                   if n \<noteq> replicate 12 0 then round_create v plan l baseline row n s
                   else (stop_row row StopUnsupported, s)
               | (Inl _, s) \<Rightarrow> (stop_row row StopUnsupported, s)))"

definition run_round :: "'w run_env \<Rightarrow> mapping_method_plan \<Rightarrow> 'w run_state \<Rightarrow> round_result \<times> 'w run_state" where
  "run_round v plan s =
     (case on_world (ordinary (re_runtime v) (re_active_end v)) s of
        (Inl stop, s) \<Rightarrow> ((None, Some stop), s)
      | (Inr _, s) \<Rightarrow>
     (case on_world (rt_bind_fresh (re_runtime v) (pl_transport plan)) s of
        (Inl stop, s) \<Rightarrow> ((None, Some stop), s)
      | (Inr l, s) \<Rightarrow>
          let (port, w) = rt_port (re_runtime v) l (snd s); s = (fst s, w)
          in if \<not> port_in_range port then ((None, Some StopInvalidBinding), s)
             else let baseline = \<lparr>pc_stage = StageBaseline, pc_method = MethodUnassisted,
                 pc_transport = plan_transport (pl_transport plan), pc_family = FamilyV4, pc_port = port\<rparr>
             in (case path (re_crates v) (re_runtime v) l (re_descriptor v) baseline (re_active_end v) s of
                   (Inl stop, s) \<Rightarrow> (stop_row (row_new plan) stop, s)
                 | (Inr summary, s) \<Rightarrow>
                     let row = (row_new plan)\<lparr>mr_baseline := Some summary\<rparr>
                     in if ps_outcome summary \<notin> {OutcomeSucceeded, OutcomeFailed}
                        then (stop_row row StopUnsupported, s)
                        else round_reserve v plan l baseline row s)))"

section \<open>The run\<close>

fun run_rounds ::
  "'w run_env \<Rightarrow> mapping_method_plan list \<Rightarrow> 'w run_state
     \<Rightarrow> (mapping_method_report list \<times> mapping_stop option) \<times> 'w run_state" where
  "run_rounds v [] s = (([], None), s)"
| "run_rounds v (plan # plans) s =
     (case run_round v plan s of
        ((row, Some stop), s1) \<Rightarrow> ((case row of None \<Rightarrow> [] | Some r \<Rightarrow> [r], Some stop), s1)
      | ((row, None), s1) \<Rightarrow>
          let ((rows, stop), s2) = run_rounds v plans s1
          in (((case row of None \<Rightarrow> [] | Some r \<Rightarrow> [r]) @ rows, stop), s2))"

fun plan_operation :: "router_protocol \<Rightarrow> traversal_operation" where
  "plan_operation RouterPcp = MapPcp"
| "plan_operation RouterNatPmp = MapNatPmp"
| "plan_operation RouterUpnpIgd = MapUpnp"

definition plan_ok :: "traversal_descriptor \<Rightarrow> mapping_method_plan \<Rightarrow> bool" where
  "plan_ok d p \<longleftrightarrow> plan_operation (pl_protocol p) \<in> set (td_operations d)
     \<and> (if pl_transport p = PortTcp then BaselineTcp else BaselineUdp) \<in> set (td_operations d)"

definition report_new :: mapping_run_report where
  "report_new = \<lparr>rr_discovery = OutcomeNotStarted, rr_methods = [], rr_deferred_methods = 0, rr_stopped = None,
     rr_sent_datagrams = 0, rr_control_requests = 0, rr_external_dialbacks = 0\<rparr>"

text \<open>\<open>None\<close> is the panic of \<open>expect\<close> on a session without a mapping consent.\<close>

definition run_mapping_lifecycle ::
  "crates \<Rightarrow> mapping_session \<Rightarrow> mapping_method_plan list \<Rightarrow> mapping_gateway \<Rightarrow> 'w mapping_runtime \<Rightarrow> 'w
     \<Rightarrow> mapping_run_report option \<times> 'w" where
  "run_mapping_lifecycle cr session plans gateway rt w =
     (let d = se_descriptor session; finish = rs_collector_end_ms (se_reservation session);
          active_end = finish - rs_cleanup_reserve_ms (se_reservation session); a = accounting_new (td_budgets d)
      in case td_mapping d of
           None \<Rightarrow> (None, w)
         | Some consent \<Rightarrow>
     let (now, w) = rt_now_ms rt w
     in if \<not> is_ok (validate_at cr d now) \<or> plans = [] \<or> length plans > 3 \<or> \<not> list_all (plan_ok d) plans
           \<or> \<not> distinct plans
           \<or> \<not> matches_binding cr (mg_reservation gateway) (mg_gateway gateway) (mc_exclusive_reservation_digest consent)
        then (Some (report_new\<lparr>rr_stopped := Some StopInvalidBinding\<rparr>), w)
        else (case charge (mg_discovery_datagrams gateway) (mg_discovery_control_requests gateway) 0 False a of
            Inl _ \<Rightarrow> (Some (report_new\<lparr>rr_stopped := Some StopBudget\<rparr>), w)
          | Inr a \<Rightarrow>
              let report = report_new\<lparr>rr_discovery := OutcomeSucceeded, rr_sent_datagrams := ac_sent_datagrams a,
                    rr_control_requests := ac_control_requests a\<rparr>;
                  (now, w) = rt_now_ms rt w;
                  available = saturating_sub active_end now;
                  selected = (if fits a plans available then plans else take 1 plans);
                  report = (if fits a plans available then report
                            else report\<lparr>rr_deferred_methods := length plans - 1\<rparr>)
              in if \<not> fits a selected available then (Some (report\<lparr>rr_stopped := Some StopBudget\<rparr>), w)
                 else let v = \<lparr>re_crates = cr, re_runtime = rt, re_descriptor = d, re_consent = consent,
                         re_gateway = gateway, re_end = finish, re_active_end = active_end\<rparr>;
                     ((rows, stop), a, w) = run_rounds v selected (a, w)
                 in (Some (report\<lparr>rr_methods := rows, rr_stopped := stop, rr_sent_datagrams := ac_sent_datagrams a,
                           rr_control_requests := ac_control_requests a,
                           rr_external_dialbacks := ac_external_dialbacks a\<rparr>), w)))"

end
