(* ===== verification/LifecycleProofs.thy ===== *)
theory LifecycleProofs
  imports Lifecycle
begin

text \<open>
  Correctness of the mapping run: the locales state what one exchange of the injected runtime preserves, and lift it
  to every adapter, every round and the whole run; the properties follow for the runtime that logs its calls.
\<close>

section \<open>What every router operation preserves\<close>

text \<open>
  The interface of the adapters to their transport: a preorder on the states that every exchange with the
  gateway and every look at the cancellation advances, for the requests that may be sent. Then every mapping
  operation advances it that sends no others.
\<close>

definition soap_asking :: "ipv4 \<Rightarrow> igd_control_descriptor \<Rightarrow> bytes \<Rightarrow> bool" where
  "soap_asking client d q \<longleftrightarrow> (\<exists>port protocol.
     soap_request d ''GetSpecificPortMappingEntry'' (tuple_fields port protocol) = Inr q
     \<or> soap_request d ''AddPortMapping'' (add_fields client port protocol) = Inr q)"

definition soap_deleting :: "igd_control_descriptor \<Rightarrow> bytes \<Rightarrow> bool" where
  "soap_deleting d q \<longleftrightarrow> (\<exists>port protocol. soap_request d ''DeletePortMapping'' (tuple_fields port protocol) = Inr q)"

lemma snd_case_pair: "snd (case z of (a, b) \<Rightarrow> (f a b, b)) = snd z"
  by (cases z) simp

definition soap_allowed :: "(bytes \<Rightarrow> bool) \<Rightarrow> upnp_map \<Rightarrow> bool" where
  "soap_allowed sendable input \<longleftrightarrow> (\<forall>q. soap_asking (um_local_address input) (um_descriptor input) q
     \<or> soap_deleting (um_descriptor input) q \<longrightarrow> sendable q)"

locale router_advance =
  fixes exchange :: "'s transport" and cancelled :: "'s canceller" and adv :: "'s \<Rightarrow> 's \<Rightarrow> bool"
    and g :: selected_gateway and sendable :: "bytes \<Rightarrow> bool"
  assumes adv_refl [simp, intro]: "adv s s"
    and adv_trans: "adv s s1 \<Longrightarrow> adv s1 s2 \<Longrightarrow> adv s s2"
    and adv_exchange: "fst d = sg_gateway g \<Longrightarrow> sendable q \<Longrightarrow> adv s (snd (snd (exchange s d q n)))"
    and adv_cancelled: "adv s (snd (cancelled s))"
begin

lemma exchange_with_gateway_adv:
  assumes "q = [] \<or> sendable q"
  shows "adv s (snd (exchange_with_gateway cr g p location q exchange cancelled s))"
proof -
  obtain stop s1 where c: "cancelled s = (stop, s1)" by (cases "cancelled s")
  have 1: "adv s s1" using adv_cancelled [of s] c by simp
  show ?thesis
  proof (cases "stop \<or> q = [] \<or> length q > CONTROL_MAX_BYTES \<or> (\<exists>e. control_destination cr g p location = Inl e)")
    case True
    then show ?thesis using 1 by (auto simp: exchange_with_gateway_def c)
  next
    case False
    then obtain d where d: "control_destination cr g p location = Inr d"
      by (cases "control_destination cr g p location") auto
    obtain r b s2 where x: "exchange s1 d q CONTROL_MAX_BYTES = (r, b, s2)" by (metis surj_pair)
    have "adv s1 s2" using adv_exchange [of d q s1 CONTROL_MAX_BYTES] control_destination_gateway [OF d] x assms False by simp
    then have 2: "adv s s2" using 1 adv_trans by blast
    then have "adv s (snd (cancelled s2))" using adv_cancelled adv_trans by blast
    then show ?thesis using False 2 d x
      by (cases r) (auto simp: exchange_with_gateway_def c split: prod.splits if_splits)
  qed
qed

lemma exchange_upnp_soap_adv:
  assumes "sendable q"
  shows "adv s (snd (exchange_upnp_soap cr g location q exchange cancelled s))"
proof -
  obtain stop s1 where c: "cancelled s = (stop, s1)" by (cases "cancelled s")
  have 1: "adv s s1" using adv_cancelled [of s] c by simp
  show ?thesis
  proof (cases "control_destination cr g RouterUpnpIgd (Some location)")
    case (Inl e)
    then show ?thesis using 1 by (auto simp: exchange_upnp_soap_def c simp del: control_destination.simps)
  next
    case (Inr d)
    obtain r b s2 where x: "exchange s1 d q UPNP_SOAP_MAX_BYTES = (r, b, s2)" by (metis surj_pair)
    have "adv s1 s2" using adv_exchange [of d q s1 UPNP_SOAP_MAX_BYTES] control_destination_gateway [OF Inr] x assms by simp
    then have "adv s s2" using 1 adv_trans by blast
    then show ?thesis using 1 Inr x
      by (cases r) (auto simp: exchange_upnp_soap_def c simp del: control_destination.simps)
  qed
qed

lemma send_delete_adv:
  assumes "q = [] \<or> sendable q"
  shows "adv s (snd (send_delete cr h g q ep exchange cancelled n s))"
proof -
  obtain stop s1 where c: "cancelled s = (stop, s1)" by (cases "cancelled s")
  obtain r s2 where x: "exchange_with_gateway cr g (oh_protocol h) None q exchange cancelled s1 = (r, s2)"
    by (metis surj_pair)
  have "adv s s1" "adv s1 s2" using adv_cancelled [of s] c exchange_with_gateway_adv [OF assms, of s1 cr "oh_protocol h" None] x by simp_all
  then have "adv s s1" "adv s s2" using adv_trans by blast+
  then show ?thesis by (cases r) (auto simp: send_delete_def c x Let_def)
qed

lemma create_answered_adv:
  assumes "\<And>h. oh_protocol h = mp_protocol parts \<Longrightarrow> oh_nonce h = mp_nonce parts \<Longrightarrow> sendable (delete_packet h)"
  shows "adv s (snd (create_answered cr parts g exchange cancelled class_of p s))"
proof -
  have "sendable (delete_packet (correlated_handle parts port lifetime epoch authorized))" for port lifetime epoch authorized
    by (rule assms) (simp_all add: correlated_handle_def)
  then have "adv s (snd (adopt_or_refuse cr e parts p g exchange cancelled s))" for e
    using send_delete_adv by (simp add: adopt_or_refuse_def Let_def)
  then show ?thesis
    by (simp add: create_answered_def Let_def snd_case_pair split: server_class.split)
qed

lemma exchange_create_adv:
  assumes "sendable q"
    and "\<And>h. oh_protocol h = mp_protocol parts \<Longrightarrow> oh_nonce h = mp_nonce parts \<Longrightarrow> sendable (delete_packet h)"
  shows "adv s (snd (exchange_create cr parts g q exchange cancelled decode class_of s))"
proof -
  obtain stop s1 where c: "cancelled s = (stop, s1)" by (cases "cancelled s")
  obtain r s2 where x: "exchange_with_gateway cr g (mp_protocol parts) None q exchange cancelled s1 = (r, s2)"
    by (metis surj_pair)
  have "adv s s1" "adv s1 s2" using adv_cancelled [of s] c exchange_with_gateway_adv [of q s1 cr "mp_protocol parts" None] assms(1) x by simp_all
  then have 2: "adv s s1" "adv s s2" using adv_trans by blast+
  then have "adv s (snd (create_answered cr parts g exchange cancelled class_of p s2))" for p
    using create_answered_adv [OF assms(2)] adv_trans by blast
  then show ?thesis using 2
    by (simp add: exchange_create_def c x split: sum.split decode_fault.split prod.split)
qed

lemma map_pcp_adv:
  assumes "sendable (pcp_request input)"
    and "\<And>h. oh_protocol h = RouterPcp \<Longrightarrow> oh_nonce h = Some (pm_nonce input) \<Longrightarrow> sendable (delete_packet h)"
  shows "adv s (snd (map_pcp cr g input exchange cancelled s))"
  using assms by (simp add: map_pcp_def exchange_create_adv split: option.split)

lemma map_nat_pmp_adv:
  assumes "sendable (natpmp_request input)" and "\<And>h. oh_protocol h = RouterNatPmp \<Longrightarrow> sendable (delete_packet h)"
  shows "adv s (snd (map_nat_pmp cr g input exchange cancelled s))"
  using assms by (simp add: map_nat_pmp_def exchange_create_adv split: option.split)

lemma attempt_adv:
  assumes "\<And>q. soap_request d action inner = Inr q \<Longrightarrow> sendable q"
  shows "adv s (snd (attempt cr g d action inner exchange cancelled s))"
proof -
  obtain stop s1 where c: "cancelled s = (stop, s1)" by (cases "cancelled s")
  have 1: "adv s s1" using adv_cancelled [of s] c by simp
  show ?thesis
  proof (cases "soap_request d action inner")
    case (Inl e)
    then show ?thesis using 1 by (simp add: attempt_def c)
  next
    case (Inr q)
    obtain x s2 where x: "exchange_upnp_soap cr g (control_target d) q exchange cancelled s1 = (x, s2)"
      by (metis surj_pair)
    then have "adv s s2" using 1 exchange_upnp_soap_adv [OF assms [OF Inr]] adv_trans by (metis snd_conv)
    then show ?thesis using 1 Inr x by (simp add: attempt_def c split: upnp_soap_reply.split sum.split)
  qed
qed

lemma adv_attempt:
  "attempt cr g d action inner exchange cancelled s = (x, s') \<Longrightarrow> (\<And>q. soap_request d action inner = Inr q \<Longrightarrow> sendable q)
    \<Longrightarrow> adv s s'"
  using attempt_adv [of d action inner s cr] by simp

lemma transmit_delete_adv:
  assumes "\<And>q. soap_deleting d q \<Longrightarrow> sendable q"
  shows "adv s (snd (transmit_delete cr g d h exchange cancelled s))"
proof -
  obtain x s1 where x: "attempt cr g d ''DeletePortMapping'' (tuple_fields (oh_external_port h) (oh_port_protocol h))
      exchange cancelled s = (x, s1)" by (metis surj_pair)
  have "adv s s1" using x by (rule adv_attempt) (rule assms, unfold soap_deleting_def, blast)
  then show ?thesis by (cases x) (simp_all add: transmit_delete_def x)
qed

lemma delete_owned_adv:
  assumes "\<And>d q. control = Some d \<Longrightarrow> soap_deleting d q \<Longrightarrow> sendable q"
  shows "adv s (snd (delete_owned cr g h control exchange cancelled s))"
proof (cases control)
  case None
  then show ?thesis by (simp add: delete_owned_def Let_def)
next
  case (Some d)
  obtain stop s1 where c: "cancelled s = (stop, s1)" by (cases "cancelled s")
  obtain a s2 where a: "transmit_delete cr g d h exchange cancelled s1 = (a, s2)" by (metis surj_pair)
  have "adv s s1" "adv s1 s2"
    using adv_cancelled [of s] c transmit_delete_adv [of d s1 cr h, OF assms [OF Some]] a by simp_all
  then have 2: "adv s s1" "adv s s2" using adv_trans by blast+
  show ?thesis
  proof (cases "oh_protocol h \<noteq> RouterUpnpIgd \<or> \<not> control_matches cr g h d")
    case True
    then have "snd (delete_owned cr g h control exchange cancelled s) = s"
      unfolding delete_owned_def Let_def Some option.case by (simp only: if_True snd_conv)
    then show ?thesis by simp
  next
    case False
    then have "snd (delete_owned cr g h control exchange cancelled s) = (if stop then s1 else s2)"
      unfolding delete_owned_def Let_def Some option.case c a prod.case by (cases stop) (simp_all only: False if_False if_True snd_conv)
    then show ?thesis using 2 by simp
  qed
qed

lemma delete_owned_mapping_adv:
  assumes "oh_protocol h \<noteq> RouterUpnpIgd \<Longrightarrow> sendable (delete_packet h)"
    and "\<And>d q. control = Some d \<Longrightarrow> soap_deleting d q \<Longrightarrow> sendable q"
  shows "adv s (snd (delete_owned_mapping cr g h reservation ep exchange cancelled control s))"
  using delete_owned_adv [OF assms(2)] send_delete_adv [of "delete_packet h"] assms(1) by (simp add: delete_owned_mapping_def)

lemma adv_probe:
  "soap_allowed sendable input
   \<Longrightarrow> attempt cr g (um_descriptor input) ''GetSpecificPortMappingEntry'' (tuple_fields (um_internal_port input) (um_protocol input))
     exchange cancelled s = (x, s') \<Longrightarrow> adv s s'"
  by (erule adv_attempt) (unfold soap_allowed_def soap_asking_def, blast)

lemma adv_add:
  "soap_allowed sendable input \<Longrightarrow> attempt cr g (um_descriptor input) ''AddPortMapping''
     (add_fields (um_local_address input) (um_internal_port input) (um_protocol input)) exchange cancelled s = (x, s') \<Longrightarrow> adv s s'"
  by (erule adv_attempt) (unfold soap_allowed_def soap_asking_def, blast)

lemma cleanup_unusable_adv:
  assumes "soap_allowed sendable input"
  shows "adv s (snd (cleanup_unusable cr g input r lease exchange cancelled s))"
  unfolding cleanup_unusable_def Let_def snd_case_pair by (rule delete_owned_mapping_adv) (use assms in \<open>auto simp: soap_allowed_def\<close>)

lemma confirm_stage_adv:
  assumes "soap_allowed sendable input"
  shows "adv s (snd (upnp_confirm_stage cr g input r ceiling exchange cancelled s))"
proof -
  obtain stop s1 where c: "cancelled s = (stop, s1)" by (cases "cancelled s")
  obtain x s2 where x: "attempt cr g (um_descriptor input) ''GetSpecificPortMappingEntry''
      (tuple_fields (um_internal_port input) (um_protocol input)) exchange cancelled s1 = (x, s2)" by (metis surj_pair)
  have 1: "adv s s1" using adv_cancelled [of s] c by simp
  then have 2: "adv s s2" using adv_trans [OF _ adv_probe [OF assms x]] by blast
  have "adv s (snd (cleanup_unusable cr g input r lease exchange cancelled s2))" for lease
    using adv_trans [OF 2 cleanup_unusable_adv [OF assms]] .
  then show ?thesis using 1 2
    by (cases x) (simp_all add: upnp_confirm_stage_def c x split: upnp_confirm.split)
qed

lemma add_stage_adv:
  assumes "soap_allowed sendable input"
  shows "adv s (snd (upnp_add_stage cr g input r ceiling exchange cancelled s))"
proof -
  obtain stop s1 where c: "cancelled s = (stop, s1)" by (cases "cancelled s")
  obtain x s2 where x: "attempt cr g (um_descriptor input) ''AddPortMapping''
      (add_fields (um_local_address input) (um_internal_port input) (um_protocol input)) exchange cancelled s1 = (x, s2)"
    by (metis surj_pair)
  have 1: "adv s s1" using adv_cancelled [of s] c by simp
  then have 2: "adv s s2" using adv_trans [OF _ adv_add [OF assms x]] by blast
  then have "adv s (snd (upnp_confirm_stage cr g input r ceiling exchange cancelled s2))"
    using confirm_stage_adv [OF assms] adv_trans by blast
  then show ?thesis using 1 2
    by (cases x) (simp_all add: upnp_add_stage_def c x split: add_reply.split)
qed

lemma map_upnp_adv:
  assumes "soap_allowed sendable input"
  shows "adv s (snd (map_upnp cr g input exchange cancelled s))"
proof (cases "\<exists>ceiling r. upnp_checked g input ceiling r")
  case True
  then obtain ceiling r where ok: "upnp_checked g input ceiling r" by blast
  obtain x s1 where x: "attempt cr g (um_descriptor input) (fst (probe_op input)) (snd (probe_op input))
      exchange cancelled s = (x, s1)" by (metis surj_pair)
  note 1 = adv_probe [OF assms x [unfolded probe_op_def fst_conv snd_conv]]
  then have "adv s (snd (upnp_add_stage cr g input r ceiling exchange cancelled s1))"
    using add_stage_adv [OF assms] adv_trans by blast
  then show ?thesis using 1
    by (simp add: map_upnp_checked [OF ok] x split: upnp_attempt.split upnp_probe.split)
next
  case False
  then show ?thesis using map_upnp_checks [of g input cr exchange cancelled s] by auto
qed

end

section \<open>What a run spends\<close>

datatype run_event =
    EvPath mapping_path_check nat
  | EvAttest nat
  | EvRouter socket_addr bytes nat

definition paths :: "run_event list \<Rightarrow> nat" where
  "paths es = length (filter (\<lambda>e. case e of EvPath _ _ \<Rightarrow> True | _ \<Rightarrow> False) es)"

definition attests :: "run_event list \<Rightarrow> nat" where
  "attests es = length (filter (\<lambda>e. case e of EvAttest _ \<Rightarrow> True | _ \<Rightarrow> False) es)"

definition routers :: "run_event list \<Rightarrow> nat" where
  "routers es = length (filter (\<lambda>e. case e of EvRouter _ _ _ \<Rightarrow> True | _ \<Rightarrow> False) es)"

text \<open>The requests sent with the deadline of the cleanup.\<close>

definition cleanups :: "nat \<Rightarrow> run_event list \<Rightarrow> nat" where
  "cleanups finish es = length (filter (\<lambda>e. case e of EvRouter _ _ dl \<Rightarrow> dl = finish | _ \<Rightarrow> False) es)"

text \<open>
  What a request says, by the encodings of the three protocols: it asks for a mapping of the fixed lease, or whether
  there is one, or it deletes one.
\<close>

definition asking :: "mapping_gateway \<Rightarrow> bytes \<Rightarrow> bool" where
  "asking gw q \<longleftrightarrow>
     (\<exists>protocol port nonce. q = encode_pcp (mg_local_address gw) (pcp_number protocol) port port nonce 60)
     \<or> (\<exists>protocol port. q = encode_natpmp (natpmp_number protocol) port port 60)
     \<or> (\<exists>d. mg_igd gw = Some d \<and> soap_asking (mg_local_address gw) d q)"

definition deleting :: "mapping_gateway \<Rightarrow> bytes \<Rightarrow> bool" where
  "deleting gw q \<longleftrightarrow>
     (\<exists>client protocol internal external nonce. q = encode_pcp client (pcp_number protocol) internal external nonce 0)
     \<or> (\<exists>protocol internal. q = encode_natpmp (natpmp_number protocol) internal 0 0)
     \<or> (\<exists>d. mg_igd gw = Some d \<and> soap_deleting d q)"

text \<open>
  Effects have the ordinary deadline, deletions alone the later one. Requests to the router go to the gateway, and
  each asks or deletes.
\<close>

fun event_ok :: "nat \<Rightarrow> nat \<Rightarrow> mapping_gateway \<Rightarrow> run_event \<Rightarrow> bool" where
  "event_ok finish active gw (EvPath _ dl) \<longleftrightarrow> dl = active"
| "event_ok finish active gw (EvAttest dl) \<longleftrightarrow> dl = active"
| "event_ok finish active gw (EvRouter dest q dl) \<longleftrightarrow> fst dest = sg_gateway (mg_gateway gw)
     \<and> asking gw q \<noteq> deleting gw q \<and> dl = (if deleting gw q then finish else active)"

subsection \<open>Requests\<close>

lemma encode_pcp_lifetime: "encode_pcp a p i e n l = encode_pcp a' p' i' e' n' l' \<Longrightarrow> be32 l = be32 l'"
  by (simp add: encode_pcp_def)

lemma encode_natpmp_lifetime: "encode_natpmp p i e l = encode_natpmp p' i' e' l' \<Longrightarrow> be32 l = be32 l'"
  by (simp add: encode_natpmp_def)

lemma request_heads:
  "hd (encode_pcp a p i e n l) = 2" "hd (encode_natpmp p i e l) = 0"
  "soap_request d action inner = Inr q \<Longrightarrow> hd q = 80"
  by (auto simp: encode_pcp_def encode_natpmp_def PCP_VERSION_def NATPMP_VERSION_def soap_request_def Let_def res_simps as_bytes_def)

lemma be32_lease: "be32 60 \<noteq> be32 0" "be32 60 \<noteq> [0, 0, 0, 0]" "be32 0 = [0, 0, 0, 0]"
  by (simp_all add: be32_def)

lemma contains_bytes_iff: "contains_bytes pat bs \<longleftrightarrow> (\<exists>u v. bs = u @ pat @ v)"
proof (induction bs)
  case (Cons b bs)
  have "take (length pat) (b # bs) = pat \<longleftrightarrow> (\<exists>v. b # bs = pat @ v)"
    by (metis append_eq_conv_conj append_take_drop_id)
  moreover have "(\<exists>u v. b # bs = u @ pat @ v) \<longleftrightarrow> (\<exists>v. b # bs = pat @ v) \<or> (\<exists>u v. bs = u @ pat @ v)"
    by (auto simp: Cons_eq_append_conv)
  ultimately show ?case using Cons by simp
qed simp

text \<open>
  A SOAP request has its action after the only \<open>#\<close>, provided that the path has none, as the path and query of a URL.
\<close>

lemma soap_request_action:
  assumes "soap_request d action inner = Inr q" "CHR ''#'' \<notin> set (igd_path_and_query d)"
    and "CHR ''#'' \<notin> set action" "CHR ''#'' \<notin> set inner"
  obtains u v where "q = as_bytes (u @ CHR ''#'' # action @ quote @ v)" "CHR ''#'' \<notin> set u" "CHR ''#'' \<notin> set v"
proof -
  let ?urn = "service_urn (igd_service d)" and ?body = "envelope (service_urn (igd_service d)) action inner"
  let ?host = "show_ipv4 (igd_gateway d) @ '':'' @ show_nat (unat (igd_port d))"
  let ?u = "''POST '' @ igd_path_and_query d @ '' HTTP/1.1'' @ CRLF @ ''Host: '' @ ?host @ CRLF
            @ ''Content-Type: text/xml; charset='' @ quote @ ''utf-8'' @ quote @ CRLF @ ''SOAPAction: '' @ quote @ ?urn"
  let ?v = "CRLF @ ''Content-Length: '' @ show_nat (length ?body) @ CRLF @ ''Connection: close'' @ CRLF @ CRLF @ ?body"
  have digits: "CHR ''#'' \<notin> set (show_nat n)" "CHR ''#'' \<notin> set (show_ipv4 a)" for n a
    using show_nat_chars [of "CHR ''#''" n] show_ipv4_chars [of "CHR ''#''" a] by (auto simp: is_ascii_digit_def)
  have urn: "CHR ''#'' \<notin> set ?urn" by (cases "igd_service d") simp_all
  have "q = as_bytes (?u @ CHR ''#'' # action @ quote @ ?v)"
    using assms(1) by (simp add: soap_request_def Let_def res_simps)
  moreover have "CHR ''#'' \<notin> set ?u" using assms(2) digits urn by (simp add: CRLF_def quote_def)
  moreover have "CHR ''#'' \<notin> set ?v" using assms(3,4) digits urn by (simp add: CRLF_def quote_def envelope_def)
  ultimately show thesis using that by blast
qed

lemma soap_delete_request:
  assumes "soap_request d action inner = Inr q" "CHR ''#'' \<notin> set (igd_path_and_query d)"
    and "CHR ''#'' \<notin> set action" "CHR ''#'' \<notin> set inner" "action \<noteq> []"
  shows "delete_request RouterUpnpIgd q \<Longrightarrow> hd action = CHR ''D''"
    and "action = ''DeletePortMapping'' \<Longrightarrow> delete_request RouterUpnpIgd q"
proof -
  obtain u v where q: "q = as_bytes (u @ CHR ''#'' # action @ quote @ v)" "CHR ''#'' \<notin> set u" "CHR ''#'' \<notin> set v"
    by (rule soap_request_action [OF assms(1-4)])
  show "delete_request RouterUpnpIgd q" if "action = ''DeletePortMapping''"
  proof -
    have "q = as_bytes u @ as_bytes (''#DeletePortMapping'' @ quote) @ as_bytes v" unfolding q(1) that by (simp add: as_bytes_def)
    then show ?thesis unfolding delete_request.simps contains_bytes_iff by blast
  qed
  assume "delete_request RouterUpnpIgd q"
  then obtain x y where "q = x @ as_bytes (''#DeletePortMapping'' @ quote) @ y" unfolding delete_request.simps contains_bytes_iff by blast
  then have "map (\<lambda>b. char_of (unat b)) q = map (\<lambda>b. char_of (unat b)) x @ (''#DeletePortMapping'' @ quote) @ map (\<lambda>b. char_of (unat b)) y"
    by (simp only: map_append as_bytes_inverse)
  then obtain x y where "u @ CHR ''#'' # action @ quote @ v = x @ CHR ''#'' # ''DeletePortMapping'' @ quote @ y"
    unfolding q(1) as_bytes_inverse by auto
  moreover have "CHR ''#'' \<notin> set (action @ quote @ v)" using q(3) assms(3) by (simp add: quote_def)
  ultimately have "action @ quote @ v = ''DeletePortMapping'' @ quote @ y"
    using iffD1 [OF append_Cons_eq_iff [OF q(2)]] by blast
  then show "hd action = CHR ''D''" using assms(5) by (cases action) simp_all
qed

lemma fields_plain: "CHR ''#'' \<notin> set (tuple_fields port protocol)" "CHR ''#'' \<notin> set (add_fields client port protocol)"
proof -
  have digits: "CHR ''#'' \<notin> set (show_nat n)" "CHR ''#'' \<notin> set (show_ipv4 a)" for n a
    using show_nat_chars [of "CHR ''#''" n] show_ipv4_chars [of "CHR ''#''" a] by (auto simp: is_ascii_digit_def)
  show "CHR ''#'' \<notin> set (tuple_fields port protocol)" by (cases protocol) (simp_all add: tuple_fields_def digits)
  then show "CHR ''#'' \<notin> set (add_fields client port protocol)" by (simp add: add_fields_def digits)
qed

definition plain_control :: "mapping_gateway \<Rightarrow> bool" where
  "plain_control gw \<longleftrightarrow> (\<forall>d. mg_igd gw = Some d \<longrightarrow> CHR ''#'' \<notin> set (igd_path_and_query d))"

lemma soap_kinds:
  assumes "CHR ''#'' \<notin> set (igd_path_and_query d)"
  shows "soap_asking client d q \<Longrightarrow> \<not> delete_request RouterUpnpIgd q" "soap_deleting d q \<Longrightarrow> delete_request RouterUpnpIgd q"
proof -
  show "\<not> delete_request RouterUpnpIgd q" if a: "soap_asking client d q"
  proof -
    obtain port protocol where "soap_request d ''GetSpecificPortMappingEntry'' (tuple_fields port protocol) = Inr q
        \<or> soap_request d ''AddPortMapping'' (add_fields client port protocol) = Inr q"
      using a unfolding soap_asking_def by blast
    then show ?thesis
      using soap_delete_request(1) [of d "''GetSpecificPortMappingEntry''" "tuple_fields port protocol" q]
        soap_delete_request(1) [of d "''AddPortMapping''" "add_fields client port protocol" q] assms fields_plain
      by (auto simp del: delete_request.simps)
  qed
  show "delete_request RouterUpnpIgd q" if a: "soap_deleting d q"
  proof -
    obtain port protocol where "soap_request d ''DeletePortMapping'' (tuple_fields port protocol) = Inr q"
      using a unfolding soap_deleting_def by blast
    then show ?thesis using soap_delete_request(2) assms fields_plain(1) by (simp del: delete_request.simps)
  qed
qed

lemma soap_heads: "soap_asking client d q \<Longrightarrow> hd q = 80" "soap_deleting d q \<Longrightarrow> hd q = 80"
  unfolding soap_asking_def soap_deleting_def using request_heads(3) by blast+

text \<open>No request asks and deletes.\<close>

lemma deletingE:
  assumes "deleting gw q"
  obtains (pcp) a p i e n where "q = encode_pcp a p i e n 0" "hd q = 2"
  | (natpmp) p i where "q = encode_natpmp p i 0 0" "hd q = 0"
  | (soap) d where "mg_igd gw = Some d" "soap_deleting d q" "hd q = 80"
  using assms unfolding deleting_def by (elim disjE exE conjE) (auto simp: request_heads soap_heads)

lemma asking_not_deleting:
  assumes "plain_control gw" "asking gw q" "deleting gw q"
  shows False
  using assms(2) unfolding asking_def
proof (elim disjE exE conjE)
  fix protocol port nonce
  assume q: "q = encode_pcp (mg_local_address gw) (pcp_number protocol) port port nonce 60"
  then have "hd q = 2" by (simp add: request_heads)
  from assms(3) show False
  proof (cases rule: deletingE)
    case (pcp a p i e n)
    then show False using encode_pcp_lifetime [OF trans [OF q [symmetric]]] be32_lease(1) by blast
  qed (use \<open>hd q = 2\<close> in simp_all)
next
  fix protocol port
  assume q: "q = encode_natpmp (natpmp_number protocol) port port 60"
  then have "hd q = 0" by (simp add: request_heads)
  from assms(3) show False
  proof (cases rule: deletingE)
    case (natpmp p i)
    then show False using encode_natpmp_lifetime [OF trans [OF q [symmetric]]] be32_lease(1) by blast
  qed (use \<open>hd q = 0\<close> in simp_all)
next
  fix d
  assume d: "mg_igd gw = Some d" "soap_asking (mg_local_address gw) d q"
  have plain: "CHR ''#'' \<notin> set (igd_path_and_query d)" using assms(1) d(1) unfolding plain_control_def by blast
  have "hd q = 80" using soap_heads(1) [OF d(2)] .
  with assms(3) have "soap_deleting d q" by (cases rule: deletingE) (use d(1) in simp_all)
  then show False using soap_kinds [OF plain] d(2) by blast
qed

text \<open>What \<open>bounded_exchange\<close> takes for cleanup are the deletions.\<close>

definition may_send :: "mapping_gateway \<Rightarrow> router_protocol \<Rightarrow> bool \<Rightarrow> bytes \<Rightarrow> bool" where
  "may_send gw p cleaning q \<longleftrightarrow> asking gw q \<noteq> deleting gw q \<and> (cleaning \<or> delete_request p q) = deleting gw q"

lemma may_send_deletion:
  assumes "plain_control gw" "deleting gw q" "cleaning \<or> delete_request p q"
  shows "may_send gw p cleaning q"
  using assms asking_not_deleting unfolding may_send_def by blast

lemma may_send_question:
  assumes "plain_control gw" "asking gw q" "\<not> delete_request p q"
  shows "may_send gw p False q"
  using assms asking_not_deleting unfolding may_send_def by blast

lemma deleting_packet: "oh_protocol h \<noteq> RouterUpnpIgd \<Longrightarrow> deleting gw (delete_packet h)"
  unfolding deleting_def delete_packet_def by (cases "oh_protocol h") (simp_all, blast+)

lemma delete_request_packet:
  assumes "oh_protocol h = p" "p = RouterNatPmp \<or> p = RouterPcp \<and> (\<exists>n. oh_nonce h = Some n \<and> length n = 12)"
  shows "delete_request p (delete_packet h)"
  using assms
  by (auto simp: delete_packet_def length_encode_pcp PCP_MAP_PACKET_BYTES_def NATPMP_MAP_REQUEST_BYTES_def)
    (simp_all add: encode_pcp_def encode_natpmp_def be32_lease)

lemma create_requests:
  "\<not> delete_request RouterPcp (pcp_request pm)" "\<not> delete_request RouterNatPmp (natpmp_request nm)"
  by (simp_all add: pcp_request_def natpmp_request_def MAPPING_REQUESTED_LEASE_SEC_def encode_pcp_def encode_natpmp_def be32_lease)

lemma asking_requests:
  "pm_local_address pm = mg_local_address gw \<Longrightarrow> asking gw (pcp_request pm)" "asking gw (natpmp_request nm)"
  unfolding pcp_request_def natpmp_request_def asking_def MAPPING_REQUESTED_LEASE_SEC_def by metis+

subsection \<open>Accounts\<close>

lemmas event_counts = paths_def attests_def routers_def cleanups_def

definition balanced :: "accounting \<Rightarrow> accounting \<Rightarrow> bool" where
  "balanced a a' \<longleftrightarrow>
     ac_ordinary_control a' + ac_cleanup_control a' + ac_control_requests a'
       = ac_ordinary_control a + ac_cleanup_control a + ac_control_requests a
     \<and> ac_ordinary_datagrams a' + ac_cleanup_datagrams a' + ac_sent_datagrams a'
       = ac_ordinary_datagrams a + ac_cleanup_datagrams a + ac_sent_datagrams a
     \<and> ac_dialbacks a' + ac_external_dialbacks a' = ac_dialbacks a + ac_external_dialbacks a
     \<and> ac_datagram_bytes a' = ac_datagram_bytes a"

lemma charge_Inr:
  assumes "charge datagrams controls dialbacks cleanup a = Inr a'"
  shows "balanced a a'" "ac_control_requests a' = ac_control_requests a + controls"
    "ac_external_dialbacks a' = ac_external_dialbacks a + dialbacks"
    "ac_sent_datagrams a' = ac_sent_datagrams a + datagrams"
    "ac_cleanup_control a' = ac_cleanup_control a - (if cleanup then controls else 0)"
    "ac_cleanup_datagrams a' = ac_cleanup_datagrams a - (if cleanup then datagrams else 0)"
    "cleanup \<Longrightarrow> controls \<le> ac_cleanup_control a"
  using assms by (auto simp: charge_def Let_def balanced_def split: if_splits)

definition spends ::
  "nat \<Rightarrow> nat \<Rightarrow> mapping_gateway \<Rightarrow> ('w \<Rightarrow> run_event list) \<Rightarrow> 'w run_state \<Rightarrow> 'w run_state \<Rightarrow> bool" where
  "spends finish active g log s s' \<longleftrightarrow> (\<exists>es. log (snd s') = log (snd s) @ es \<and> list_all (event_ok finish active g) es
     \<and> attests es \<le> paths es \<and> balanced (fst s) (fst s')
     \<and> ac_control_requests (fst s') = ac_control_requests (fst s) + routers es + 2 * paths es
     \<and> ac_external_dialbacks (fst s') = ac_external_dialbacks (fst s) + paths es
     \<and> ac_cleanup_control (fst s) = ac_cleanup_control (fst s') + cleanups finish es
     \<and> ac_cleanup_datagrams (fst s) \<le> ac_cleanup_datagrams (fst s') + cleanups finish es)"

lemma spends_quiet: "fst s' = fst s \<Longrightarrow> log (snd s') = log (snd s) \<Longrightarrow> spends finish active g log s s'"
  by (simp add: spends_def balanced_def event_counts)

lemma spends_trans:
  assumes "spends finish active g log s s1" "spends finish active g log s1 s2"
  shows "spends finish active g log s s2"
proof -
  obtain es es' where "log (snd s1) = log (snd s) @ es" "log (snd s2) = log (snd s1) @ es'"
    "list_all (event_ok finish active g) (es @ es')" "attests (es @ es') \<le> paths (es @ es')"
    "balanced (fst s) (fst s1)" "balanced (fst s1) (fst s2)"
    "ac_control_requests (fst s2) = ac_control_requests (fst s) + routers (es @ es') + 2 * paths (es @ es')"
    "ac_external_dialbacks (fst s2) = ac_external_dialbacks (fst s) + paths (es @ es')"
    "ac_cleanup_control (fst s) = ac_cleanup_control (fst s2) + cleanups finish (es @ es')"
    "ac_cleanup_datagrams (fst s) \<le> ac_cleanup_datagrams (fst s2) + cleanups finish (es @ es')"
    using assms unfolding spends_def by (auto simp: event_counts)
  then show ?thesis unfolding spends_def balanced_def by (intro exI [of _ "es @ es'"]) simp
qed

text \<open>A runtime whose calls are logged: the paths checked, the transcripts attested and the router requests.\<close>

locale logged_runtime =
  fixes rt :: "'w mapping_runtime" and log :: "'w \<Rightarrow> run_event list"
  assumes log_now: "log (snd (rt_now_ms rt w)) = log w"
    and log_observed: "log (snd (rt_observed_address rt w)) = log w"
    and log_stop: "log (snd (rt_stop rt w)) = log w"
    and log_nonce: "log (snd (rt_nonce rt w)) = log w"
    and log_bind: "log (snd (rt_bind_fresh rt p w)) = log w"
    and log_port: "log (snd (rt_port rt l w)) = log w"
    and log_path: "log (snd (rt_path_check rt l check dl w)) = log w @ [EvPath check dl]"
    and log_attest: "log (snd (rt_attest_path rt t dl w)) = log w @ [EvAttest dl]"
    and log_router: "log (snd (snd (rt_router_exchange rt d q n dl w))) = log w @ [EvRouter d q dl]"
begin

lemma log_ordinary: "log (snd (ordinary rt finish w)) = log w"
proof -
  obtain stop w1 where s: "rt_stop rt w = (stop, w1)" by (metis surj_pair)
  obtain now w2 where n: "rt_now_ms rt w1 = (now, w2)" by (metis surj_pair)
  have "log w1 = log w" "log w2 = log w" using log_stop [of w] s log_now [of w1] n by simp_all
  then show ?thesis by (cases stop) (simp_all add: ordinary_def s n)
qed

lemma bounded_exchange_spends:
  assumes "fst d = sg_gateway (mg_gateway g)" "active < finish" "may_send g p cleaning q"
  shows "spends finish active g log s (snd (snd (bounded_exchange rt p active finish cleaning s d q n)))"
proof -
  obtain a w where s: "s = (a, w)" by (cases s)
  define cl where "cl \<longleftrightarrow> cleaning \<or> delete_request p q"
  define dl where "dl = (if cl then finish else active)"
  obtain now w1 where n: "rt_now_ms rt w = (now, w1)" by (metis surj_pair)
  obtain stop w2 where st: "(if cl then (None, w1) else rt_stop rt w1) = (stop, w2)" by (metis surj_pair)
  obtain r b w3 where x: "rt_router_exchange rt d q n dl w2 = (r, b, w3)" by (metis surj_pair)
  obtain now2 w4 where n2: "rt_now_ms rt w3 = (now2, w4)" by (metis surj_pair)
  have l1: "log w1 = log w" using log_now [of w] n by simp
  have l2: "log w2 = log w" using st log_stop [of w1] l1 by (cases cl) auto
  have l3: "log w3 = log w @ [EvRouter d q dl]" using log_router [of d q n dl w2] x l2 by simp
  have l4: "log w4 = log w3" using log_now [of w3] n2 by simp
  have quiet: "spends finish active g log s (a, w1)" "spends finish active g log s (a, w2)"
    using l1 l2 s by (simp_all add: spends_quiet)
  have paid: "spends finish active g log s (a1, w3) \<and> spends finish active g log s (a1, w4)"
    if "charge (udp_router p) 1 0 cl a = Inr a1" for a1
  proof -
    have "udp_router p \<le> 1" by (simp add: udp_router_def)
    moreover have "event_ok finish active g (EvRouter d q dl)" "cl \<longleftrightarrow> deleting g q"
      using assms unfolding may_send_def cl_def dl_def by auto
    ultimately show ?thesis using charge_Inr [OF that] l3 l4 assms(2)
      by (auto simp: spends_def s event_counts dl_def simp del: event_ok.simps intro!: exI [of _ "[EvRouter d q dl]"])
  qed
  have "snd (snd (bounded_exchange rt p active finish cleaning s d q n)) =
      (if now \<ge> dl then (a, w1)
       else if stop \<noteq> None \<or> (udp_router p \<noteq> 0 \<and> length q > ac_datagram_bytes a) then (a, w2)
       else (case charge (udp_router p) 1 0 cl a of
           Inl _ \<Rightarrow> (a, w2)
         | Inr a1 \<Rightarrow> (a1, case r of Inl _ \<Rightarrow> w3 | Inr count \<Rightarrow> if count > n \<or> \<not> cl then w3 else w4)))"
    unfolding bounded_exchange_def Let_def s prod.case cl_def [symmetric] dl_def [symmetric] n st x n2
    by (simp split: sum.split)
  then show ?thesis using quiet paid by (simp split: sum.split)
qed

lemma on_world_quiet: "log (snd (m (snd s))) = log (snd s) \<Longrightarrow> spends finish active g log s (snd (on_world m s))"
  by (cases "m (snd s)") (simp add: on_world_def spends_quiet)

lemma path_spends: "spends finish active g log s (snd (path cr rt l d check active s))"
proof -
  obtain a w where s: "s = (a, w)" by (cases s)
  obtain o1 w1 where o1: "ordinary rt active w = (o1, w1)" by (metis surj_pair)
  obtain e w2 where e: "rt_path_check rt l check active w1 = (e, w2)" by (metis surj_pair)
  obtain o2 w3 where o2: "ordinary rt active w2 = (o2, w3)" by (metis surj_pair)
  define ev where "ev = (case e of Inr ev \<Rightarrow> ev | Inl _ \<Rightarrow> undefined)"
  obtain k w4 where k: "check_evidence cr rt d check ev w3 = (k, w4)" by (metis surj_pair)
  obtain t w5 where t: "rt_attest_path rt (pe_transcript ev) active w4 = (t, w5)" by (metis surj_pair)
  obtain o3 w6 where o3: "ordinary rt active w5 = (o3, w6)" by (metis surj_pair)
  have l1: "log w1 = log w" using log_ordinary [of active w] o1 by simp
  have l2: "log w2 = log w @ [EvPath check active]" using log_path [of l check active w1] e l1 by simp
  have l3: "log w3 = log w2" using log_ordinary [of active w2] o2 by simp
  have l4: "log w4 = log w2"
    using log_now [of w3] k l3 by (simp add: check_evidence_def split: prod.splits)
  have l5: "log w5 = log w2 @ [EvAttest active]" using log_attest [of "pe_transcript ev" active w4] t l4 by simp
  have l6: "log w6 = log w5" using log_ordinary [of active w5] o3 by simp
  have quiet: "spends finish active g log s (a, w1)" using l1 s by (simp add: spends_quiet)
  have paid: "spends finish active g log s (a1, w')"
    if "charge (if pc_transport check = TransportUdp then 1 else 0) 2 1 False a = Inr a1" "w' \<in> {w2, w3, w4, w5, w6}" for a1 w'
  proof -
    have "log w' = log w @ [EvPath check active] \<or> log w' = log w @ [EvPath check active, EvAttest active]"
      using that(2) l2 l3 l4 l5 l6 by auto
    then obtain es where "log w' = log w @ es" "es \<in> {[EvPath check active], [EvPath check active, EvAttest active]}"
      by blast
    then show ?thesis unfolding spends_def s
      using charge_Inr [OF that(1)] by (intro exI [of _ es]) (auto simp: event_counts)
  qed
  have "snd (path cr rt l d check active s) = (case o1 of Inl _ \<Rightarrow> (a, w1) | Inr _ \<Rightarrow>
      (case charge (if pc_transport check = TransportUdp then 1 else 0) 2 1 False a of Inl _ \<Rightarrow> (a, w1)
       | Inr a1 \<Rightarrow> (a1, case e of Inl _ \<Rightarrow> w2 | Inr _ \<Rightarrow> (case o2 of Inl _ \<Rightarrow> w3 | Inr _ \<Rightarrow>
           (case k of Inl _ \<Rightarrow> w4 | Inr _ \<Rightarrow> (case t of Inl _ \<Rightarrow> w5 | Inr _ \<Rightarrow> w6))))))"
    using o2 k t o3
    by (cases o1; cases e; cases o2; cases k; cases t; cases o3)
      (simp_all add: path_def run_bind_def on_world_def charging_def s o1 e ev_def split: sum.split)
  then show ?thesis using quiet paid by (auto split: sum.split)
qed

end

text \<open>
  A run between its ordinary end and its absolute end, at one gateway. Nonces are arrays of twelve bytes in the
  code, and a control path comes from a URL.
\<close>

locale bounded_run = logged_runtime +
  fixes v :: "'a run_env"
  assumes env_runtime: "re_runtime v = rt" and reserve_left: "re_active_end v < re_end v"
    and nonce_array: "rt_nonce rt w = (Inr n, w') \<Longrightarrow> length n = 12"
    and control_plain: "plain_control (re_gateway v)"
begin

abbreviation adv :: "'a run_state \<Rightarrow> 'a run_state \<Rightarrow> bool" where
  "adv \<equiv> spends (re_end v) (re_active_end v) (re_gateway v) log"

end

sublocale bounded_run \<subseteq> control: router_advance
  "bounded_control v p cleaning" never "spends (re_end v) (re_active_end v) (re_gateway v) log" "mg_gateway (re_gateway v)"
  "may_send (re_gateway v) p cleaning"
  for p cleaning
proof
  show "spends (re_end v) (re_active_end v) (re_gateway v) log s s" for s by (simp add: spends_quiet)
  show "spends (re_end v) (re_active_end v) (re_gateway v) log s (snd (never s))" for s
    by (simp add: spends_quiet never_def)
  show "fst d = sg_gateway (mg_gateway (re_gateway v)) \<Longrightarrow> may_send (re_gateway v) p cleaning q
      \<Longrightarrow> spends (re_end v) (re_active_end v) (re_gateway v) log s (snd (snd (bounded_control v p cleaning s d q n)))" for d s q n
    unfolding bounded_control_def env_runtime by (erule bounded_exchange_spends [OF _ reserve_left])
qed (rule spends_trans)

context bounded_run
begin

lemma may_delete: "oh_protocol h \<noteq> RouterUpnpIgd \<Longrightarrow> may_send (re_gateway v) p True (delete_packet h)"
  by (rule may_send_deletion [OF control_plain deleting_packet]) simp_all

lemma upnp_allowed:
  assumes "mg_igd (re_gateway v) = Some (um_descriptor input)" "um_local_address input = mg_local_address (re_gateway v)"
  shows "soap_allowed (may_send (re_gateway v) RouterUpnpIgd False) input"
  unfolding soap_allowed_def
proof (intro allI impI, elim disjE)
  have plain: "CHR ''#'' \<notin> set (igd_path_and_query (um_descriptor input))"
    using control_plain assms(1) unfolding plain_control_def by blast
  fix q
  show "may_send (re_gateway v) RouterUpnpIgd False q" if "soap_asking (um_local_address input) (um_descriptor input) q"
    using that assms soap_kinds(1) [OF plain that]
    by (intro may_send_question [OF control_plain]) (auto simp: asking_def)
  show "may_send (re_gateway v) RouterUpnpIgd False q" if "soap_deleting (um_descriptor input) q"
    using that assms soap_kinds(2) [OF plain that]
    by (intro may_send_deletion [OF control_plain]) (auto simp: deleting_def)
qed

lemma create_mapping_adv:
  assumes "pl_protocol plan = RouterPcp \<Longrightarrow> length nonce = 12"
  shows "adv s (snd (create_mapping v plan port nonce s))"
proof (cases "pl_protocol plan")
  case RouterPcp
  have "adv s (snd (map_pcp (re_crates v) (mg_gateway (re_gateway v)) input (bounded_control v RouterPcp False) never s))"
    if i: "pm_local_address input = mg_local_address (re_gateway v)" "pm_nonce input = nonce" for input
  proof (rule control.map_pcp_adv)
    show "may_send (re_gateway v) RouterPcp False (pcp_request input)"
      by (rule may_send_question [OF control_plain asking_requests(1) [OF i(1)] create_requests(1)])
    show "may_send (re_gateway v) RouterPcp False (delete_packet h)"
      if "oh_protocol h = RouterPcp" "oh_nonce h = Some (pm_nonce input)" for h
      using that i(2) assms RouterPcp delete_request_packet [of h RouterPcp]
      by (intro may_send_deletion [OF control_plain deleting_packet]) (auto simp del: delete_request.simps)
  qed
  then show ?thesis using RouterPcp by (simp add: create_mapping_def Let_def case_prod_beta)
next
  case RouterNatPmp
  have "adv s (snd (map_nat_pmp (re_crates v) (mg_gateway (re_gateway v)) input (bounded_control v RouterNatPmp False) never s))" for input
  proof (rule control.map_nat_pmp_adv)
    show "may_send (re_gateway v) RouterNatPmp False (natpmp_request input)"
      by (rule may_send_question [OF control_plain asking_requests(2) create_requests(2)])
    show "may_send (re_gateway v) RouterNatPmp False (delete_packet h)" if "oh_protocol h = RouterNatPmp" for h
      using that delete_request_packet [of h RouterNatPmp]
      by (intro may_send_deletion [OF control_plain deleting_packet]) (auto simp del: delete_request.simps)
  qed
  then show ?thesis using RouterNatPmp by (simp add: create_mapping_def Let_def case_prod_beta)
next
  case RouterUpnpIgd
  show ?thesis
    using RouterUpnpIgd control.map_upnp_adv [OF upnp_allowed]
    by (simp add: create_mapping_def Let_def case_prod_beta spends_quiet split: option.split)
qed

lemma verify_mapping_adv: "adv s (snd (verify_mapping v plan l baseline h row s))"
proof -
  obtain observed w where o: "rt_observed_address rt (snd s) = (observed, w)" by (metis surj_pair)
  have 1: "adv s (fst s, w)" using log_observed [of "snd s"] o by (simp add: spends_quiet)
  have "adv s (snd (path (re_crates v) rt l d check (re_active_end v) (fst s, w)))" for d check
    using spends_trans [OF 1 path_spends] .
  then have p: "path (re_crates v) rt l d check (re_active_end v) (fst s, w) = (r, s') \<Longrightarrow> adv s s'" for d check r s'
    by (metis snd_conv)
  show ?thesis
    using 1 p by (auto simp: verify_mapping_def Let_def env_runtime o spends_quiet split: option.split prod.split sum.split)
qed

lemma settle_mapping_adv: "adv s (snd (settle_mapping v plan l baseline created row s))"
proof -
  have c: "adv s (snd (cleanup_mapping v plan created h row s))" for h row s
  proof -
    have "may_send (re_gateway v) (pl_protocol plan) True q" if "mg_igd (re_gateway v) = Some d" "soap_deleting d q" for d q
      using that by (intro may_send_deletion [OF control_plain]) (auto simp: deleting_def)
    then show ?thesis
      using control.delete_owned_mapping_adv [OF may_delete] by (simp add: cleanup_mapping_def Let_def case_prod_beta)
  qed
  have "adv s (snd (cleanup_mapping v plan created h (fst (verify_mapping v plan l baseline h row s))
      (snd (verify_mapping v plan l baseline h row s))))" for h
    using spends_trans [OF verify_mapping_adv c] .
  then show ?thesis using c by (simp add: settle_mapping_def Let_def case_prod_beta spends_quiet split: option.split)
qed

lemma round_create_adv:
  assumes "pl_protocol plan = RouterPcp \<Longrightarrow> length nonce = 12"
  shows "adv s (snd (round_create v plan l baseline row nonce s))"
proof -
  obtain e s1 where e: "create_mapping v plan (pc_port baseline) nonce s = (e, s1)" by (metis surj_pair)
  have 1: "adv s s1" using create_mapping_adv [of plan nonce s "pc_port baseline"] assms e by simp
  have "adv s (snd (settle_mapping v plan l baseline created row' s1))" for created row'
    using spends_trans [OF 1 settle_mapping_adv] .
  then show ?thesis using 1 by (cases e) (simp_all add: round_create_def e Let_def case_prod_beta)
qed

lemma on_world_adv:
  assumes "on_world m s = (r, s1)" "\<And>w. log (snd (m w)) = log w"
  shows "adv s s1"
  using on_world_quiet [of m s, OF assms(2)] assms(1) by simp

lemma round_reserve_adv: "adv s (snd (round_reserve v plan l baseline row s))"
proof -
  obtain o1 s1 where o1: "on_world (ordinary rt (re_active_end v)) s = (o1, s1)" by (metis surj_pair)
  obtain now w where n: "rt_now_ms rt (snd s1) = (now, w)" by (metis surj_pair)
  obtain k s3 where k: "on_world (rt_nonce rt) (fst s1, w) = (k, s3)" by (metis surj_pair)
  have 1: "adv s s1" using on_world_adv [OF o1 log_ordinary] .
  have "adv s1 (fst s1, w)" using log_now [of "snd s1"] n by (simp add: spends_quiet)
  then have 2: "adv s (fst s1, w)" using 1 spends_trans by blast
  then have 3: "adv s s3" using spends_trans [OF _ on_world_adv [OF k log_nonce]] by blast
  have "length n = 12" if "k = Inr n" for n
    using k that nonce_array [of w n] by (cases "rt_nonce rt w") (auto simp: on_world_def)
  then have "adv s (snd (round_create v plan l baseline row x s3))" if "k = Inr x" for x
    using spends_trans [OF 3 round_create_adv] that by blast
  moreover have "pl_protocol plan \<noteq> RouterPcp \<Longrightarrow> adv s (snd (round_create v plan l baseline row x (fst s1, w)))" for x
    using spends_trans [OF 2 round_create_adv] by blast
  ultimately show ?thesis using 1 2 3
    by (cases o1; cases k) (simp_all add: round_reserve_def env_runtime o1 n k Let_def)
qed

lemma run_round_adv: "adv s (snd (run_round v plan s))"
proof -
  obtain o1 s1 where o1: "on_world (ordinary rt (re_active_end v)) s = (o1, s1)" by (metis surj_pair)
  obtain l s2 where l: "on_world (rt_bind_fresh rt (pl_transport plan)) s1 = (l, s2)" by (metis surj_pair)
  have 1: "adv s s1" using on_world_adv [OF o1 log_ordinary] .
  have 2: "adv s s2" using spends_trans [OF 1 on_world_adv [OF l log_bind]] .
  show ?thesis
  proof (cases "\<exists>x y. o1 = Inr x \<and> l = Inr y")
    case False
    then show ?thesis using 1 2 by (cases o1; cases l) (auto simp: run_round_def env_runtime o1 l)
  next
    case True
    then obtain y where y: "o1 = Inr ()" "l = Inr y" by auto
    obtain port w where p: "rt_port rt y (snd s2) = (port, w)" by (metis surj_pair)
    define b where "b = \<lparr>pc_stage = StageBaseline, pc_method = MethodUnassisted,
        pc_transport = plan_transport (pl_transport plan), pc_family = FamilyV4, pc_port = port\<rparr>"
    obtain r s3 where r: "path (re_crates v) rt y (re_descriptor v) b (re_active_end v) (fst s2, w) = (r, s3)"
      by (metis surj_pair)
    have "adv s2 (fst s2, w)" using log_port [of y "snd s2"] p by (simp add: spends_quiet)
    then have 3: "adv s (fst s2, w)" using 2 spends_trans by blast
    then have 4: "adv s s3" using spends_trans [OF _ path_spends] r by (metis snd_conv)
    have "adv s (snd (round_reserve v plan y b row s3))" for row using spends_trans [OF 4 round_reserve_adv] .
    then show ?thesis using 3 4
      by (cases r) (simp_all add: run_round_def env_runtime o1 l y p r Let_def b_def [symmetric])
  qed
qed

lemma run_rounds_adv: "adv s (snd (run_rounds v plans s))"
proof (induction plans arbitrary: s)
  case Nil
  then show ?case by (simp add: spends_quiet)
next
  case (Cons plan plans)
  obtain row stop s1 where r: "run_round v plan s = ((row, stop), s1)" by (metis surj_pair)
  have 1: "adv s s1" using run_round_adv [of s plan] r by simp
  have "adv s (snd (run_rounds v plans s1))" using spends_trans [OF 1 Cons.IH] .
  then show ?case using 1 by (cases stop) (simp_all add: r Let_def case_prod_beta)
qed

end

section \<open>The observed run\<close>

definition observing :: "('w \<Rightarrow> 'r \<times> 'w) \<Rightarrow> run_event list \<Rightarrow> 'w \<times> run_event list \<Rightarrow> 'r \<times> 'w \<times> run_event list" where
  "observing f es s = (let (r, w) = f (fst s) in (r, w, snd s @ es))"

text \<open>Any runtime, observed: the log holds what was handed to the prober and to the router.\<close>

definition observed_runtime :: "'w mapping_runtime \<Rightarrow> ('w \<times> run_event list) mapping_runtime" where
  "observed_runtime rt =
     \<lparr>rt_now_ms = observing (rt_now_ms rt) [], rt_observed_address = observing (rt_observed_address rt) [],
      rt_stop = observing (rt_stop rt) [], rt_nonce = observing (rt_nonce rt) [],
      rt_bind_fresh = (\<lambda>p. observing (rt_bind_fresh rt p) []), rt_port = (\<lambda>l. observing (rt_port rt l) []),
      rt_path_check = (\<lambda>l check dl. observing (rt_path_check rt l check dl) [EvPath check dl]),
      rt_attest_path = (\<lambda>t dl. observing (rt_attest_path rt t dl) [EvAttest dl]),
      rt_router_exchange = (\<lambda>d q n dl s.
        let (r, b, w) = rt_router_exchange rt d q n dl (fst s) in (r, b, w, snd s @ [EvRouter d q dl]))\<rparr>"

lemma snd_observing: "snd (snd (observing f es s)) = snd s @ es"
  by (simp add: observing_def split: prod.split)

interpretation watched: logged_runtime "observed_runtime rt" snd
  for rt :: "'w mapping_runtime"
  by unfold_locales (simp_all add: observed_runtime_def snd_observing split: prod.split)

text \<open>What the session of an authenticated bootstrap guarantees about its ends and its accounting.\<close>

lemma session_facts:
  assumes "from_authenticated_bootstrap cr d b now job = Inr session"
  shows "se_descriptor session = d" "\<exists>consent. td_mapping d = Some consent"
    "rs_collector_end_ms (se_reservation session) = now + tb_experiment_ms (td_budgets d)"
    "rs_collector_end_ms (se_reservation session) - rs_cleanup_reserve_ms (se_reservation session)
       < rs_collector_end_ms (se_reservation session)"
    "tb_cleanup_control_requests (td_budgets d) \<le> tb_control_requests (td_budgets d)"
    "tb_cleanup_datagrams (td_budgets d) \<le> tb_outbound_datagrams (td_budgets d)"
proof -
  obtain consent where c: "can_start cr d now job EXISTING_DELIVERY_RESERVE_MS = Inr ()" "td_mapping d = Some consent"
    and s: "se_descriptor session = d"
      "rs_collector_end_ms (se_reservation session) = now + tb_experiment_ms (td_budgets d)"
      "rs_cleanup_reserve_ms (se_reservation session) = tb_cleanup_reserve_ms (td_budgets d)"
    using assms unfolding from_authenticated_bootstrap_def res_bind_eq_Inr guard_eq_Inr ok_or_eq_Inr Let_def by auto
  have "budgets_validate (td_budgets d) = Inr ()"
    using c(1) unfolding can_start_Inr validate_at_Inr descriptor_validate_Inr by blast
  then have b: "0 < tb_cleanup_reserve_ms (td_budgets d)" "tb_cleanup_reserve_ms (td_budgets d) < tb_experiment_ms (td_budgets d)"
      "tb_cleanup_control_requests (td_budgets d) \<le> tb_control_requests (td_budgets d)"
      "tb_cleanup_datagrams (td_budgets d) \<le> tb_outbound_datagrams (td_budgets d)"
    unfolding budgets_validate_Inr by blast+
  show "se_descriptor session = d" "\<exists>consent. td_mapping d = Some consent"
    "rs_collector_end_ms (se_reservation session) = now + tb_experiment_ms (td_budgets d)"
    "rs_collector_end_ms (se_reservation session) - rs_cleanup_reserve_ms (se_reservation session)
       < rs_collector_end_ms (se_reservation session)"
    "tb_cleanup_control_requests (td_budgets d) \<le> tb_control_requests (td_budgets d)"
    "tb_cleanup_datagrams (td_budgets d) \<le> tb_outbound_datagrams (td_budgets d)"
    using s c(2) b by auto
qed

lemma session_reserve:
  "from_authenticated_bootstrap cr d b now job = Inr session \<Longrightarrow>
    rs_cleanup_reserve_ms (se_reservation session) = tb_cleanup_reserve_ms (td_budgets d)"
  unfolding from_authenticated_bootstrap_def res_bind_eq_Inr guard_eq_Inr ok_or_eq_Inr Let_def by auto

text \<open>A run either stops before any effect or runs its rounds on the charged accounting.\<close>

lemma lifecycle_cases:
  assumes "run_mapping_lifecycle cr session plans gateway rt w = (report, w')"
    and "td_mapping (se_descriptor session) = Some consent"
    and "\<And>w. log (snd (rt_now_ms rt w)) = log w"
  obtains (stopped) r where "report = Some r" "rr_methods r = []" "rr_stopped r \<noteq> None" "log w' = log w"
      "rr_external_dialbacks r = 0" "rr_sent_datagrams r \<le> tb_outbound_datagrams (td_budgets (se_descriptor session))
        - tb_cleanup_datagrams (td_budgets (se_descriptor session))"
      "rr_control_requests r \<le> tb_control_requests (td_budgets (se_descriptor session))
        - tb_cleanup_control_requests (td_budgets (se_descriptor session))"
    | (ran) r v selected rows stop a w1 a' where "report = Some r" "log w1 = log w"
      "charge (mg_discovery_datagrams gateway) (mg_discovery_control_requests gateway) 0 False
         (accounting_new (td_budgets (se_descriptor session))) = Inr a"
      "run_rounds v selected (a, w1) = ((rows, stop), a', w')"
      "v = \<lparr>re_crates = cr, re_runtime = rt, re_descriptor = se_descriptor session, re_consent = consent,
         re_gateway = gateway, re_end = rs_collector_end_ms (se_reservation session),
         re_active_end = rs_collector_end_ms (se_reservation session) - rs_cleanup_reserve_ms (se_reservation session)\<rparr>"
      "rr_methods r = rows" "rr_stopped r = stop" "rr_sent_datagrams r = ac_sent_datagrams a'"
      "rr_control_requests r = ac_control_requests a'" "rr_external_dialbacks r = ac_external_dialbacks a'"
      "selected = plans \<or> selected = take 1 plans" "length plans \<le> 3" "distinct plans"
      "matches_binding cr (mg_reservation gateway) (mg_gateway gateway) (mc_exclusive_reservation_digest consent)"
      "\<exists>available. fits a selected available" "length selected + rr_deferred_methods r = length plans"
proof -
  let ?d = "se_descriptor session" and ?fin = "rs_collector_end_ms (se_reservation session)"
  let ?act = "?fin - rs_cleanup_reserve_ms (se_reservation session)"
  obtain now w0 where n: "rt_now_ms rt w = (now, w0)" by (metis surj_pair)
  obtain now1 w1 where n1: "rt_now_ms rt w0 = (now1, w1)" by (metis surj_pair)
  have l: "log w0 = log w" "log w1 = log w" using assms(3) [of w] assms(3) [of w0] n n1 by simp_all
  define ok where "ok \<longleftrightarrow> is_ok (validate_at cr ?d now) \<and> plans \<noteq> [] \<and> length plans \<le> 3 \<and> list_all (plan_ok ?d) plans
    \<and> distinct plans \<and> matches_binding cr (mg_reservation gateway) (mg_gateway gateway) (mc_exclusive_reservation_digest consent)"
  note run = assms(1) [unfolded run_mapping_lifecycle_def Let_def assms(2) option.case n prod.case]
  show thesis
  proof (cases "ok")
    case False
    then have "report = Some (report_new\<lparr>rr_stopped := Some StopInvalidBinding\<rparr>)" "w' = w0"
      using run by (auto simp: ok_def split: if_splits)
    then show thesis using stopped l by (simp add: report_new_def)
  next
    case True
    then have go: "\<not> (\<not> is_ok (validate_at cr ?d now) \<or> plans = [] \<or> length plans > 3 \<or> \<not> list_all (plan_ok ?d) plans
       \<or> \<not> distinct plans \<or> \<not> matches_binding cr (mg_reservation gateway) (mg_gateway gateway) (mc_exclusive_reservation_digest consent))"
      by (auto simp: ok_def)
    note run = run [unfolded if_not_P [OF go] n1 prod.case]
    show thesis
    proof (cases "charge (mg_discovery_datagrams gateway) (mg_discovery_control_requests gateway) 0 False
        (accounting_new (td_budgets ?d))")
      case (Inl x)
      then have "report = Some (report_new\<lparr>rr_stopped := Some StopBudget\<rparr>)" "w' = w0" using run by simp_all
      then show thesis using stopped l by (simp add: report_new_def)
    next
      case (Inr a)
      define available where "available = saturating_sub ?act now1"
      define selected where "selected = (if fits a plans available then plans else take 1 plans)"
      define v where "v = \<lparr>re_crates = cr, re_runtime = rt, re_descriptor = ?d, re_consent = consent,
         re_gateway = gateway, re_end = ?fin, re_active_end = ?act\<rparr>"
      obtain rows stop a' w2 where r: "run_rounds v selected (a, w1) = ((rows, stop), a', w2)" by (metis surj_pair)
      note run = run [unfolded Inr sum.case available_def [symmetric] selected_def [symmetric] v_def [symmetric] r prod.case]
      show thesis
      proof (cases "fits a selected available")
        case False
        then obtain r where "report = Some r" "rr_methods r = []" "rr_stopped r \<noteq> None" "w' = w1" "rr_external_dialbacks r = 0"
            "rr_sent_datagrams r = ac_sent_datagrams a" "rr_control_requests r = ac_control_requests a"
          using run by (auto simp: report_new_def)
        moreover have "ac_sent_datagrams a \<le> tb_outbound_datagrams (td_budgets ?d) - tb_cleanup_datagrams (td_budgets ?d)"
            "ac_control_requests a \<le> tb_control_requests (td_budgets ?d) - tb_cleanup_control_requests (td_budgets ?d)"
          using Inr by (auto simp: charge_def accounting_new_def Let_def split: if_splits)
        ultimately show thesis using stopped l by simp
      next
        case fit: True
        then obtain r where "report = Some r" "rr_methods r = rows" "rr_stopped r = stop" "w' = w2"
            "rr_sent_datagrams r = ac_sent_datagrams a'" "rr_control_requests r = ac_control_requests a'"
            "rr_external_dialbacks r = ac_external_dialbacks a'"
            "length selected + rr_deferred_methods r = length plans"
          using run True by (auto simp: report_new_def selected_def ok_def Suc_le_eq)
        moreover have "selected = plans \<or> selected = take 1 plans" by (simp add: selected_def)
        ultimately show thesis using ran [of r w1 a v selected rows stop a'] l Inr r v_def True fit
          unfolding ok_def by blast
      qed
    qed
  qed
qed

section \<open>Rows\<close>

text \<open>
  A settled row leaves nothing behind at the router. A row that created something had a measured baseline,
  and a row whose router state is unknown says so.
\<close>

definition settled :: "mapping_method_report \<Rightarrow> bool" where
  "settled row \<longleftrightarrow> mr_stopped row = None \<and> mr_cleanup row \<in> {CleanupNotCreated, CleanupConfirmedDeleted}"

definition measured :: "mapping_method_report \<Rightarrow> bool" where
  "measured row \<longleftrightarrow> (case mr_baseline row of None \<Rightarrow> False
     | Some b \<Rightarrow> ps_outcome b \<in> {OutcomeSucceeded, OutcomeFailed})"

definition row_ok :: "mapping_method_report \<Rightarrow> bool" where
  "row_ok row \<longleftrightarrow>
     (case mr_create row of
        None \<Rightarrow> mr_cleanup row = CleanupNotCreated \<and> mr_verification row = None \<and> mr_stopped row \<noteq> None
      | Some outcome \<Rightarrow> measured row \<and> (mr_verification row = None \<or> outcome = OutcomeSucceeded))
     \<and> (mr_cleanup row \<notin> {CleanupCreationOutcomeUnknown, CleanupExpiryUnknown} \<or> mr_expiry_unknown row)"

definition round_ok :: "mapping_method_plan \<Rightarrow> round_result \<Rightarrow> bool" where
  "round_ok plan r \<longleftrightarrow> (case r of
       (None, stop) \<Rightarrow> stop \<noteq> None
     | (Some row, stop) \<Rightarrow> mr_plan row = plan \<and> row_ok row \<and> (stop = None) = settled row)"

lemma verify_mapping_row:
  fixes v plan l baseline h row s
  defines "row' \<equiv> fst (verify_mapping v plan l baseline h row s)"
  shows "mr_plan row' = mr_plan row" "mr_create row' = mr_create row" "mr_baseline row' = mr_baseline row"
  unfolding row'_def verify_mapping_def Let_def
  by (simp_all split: option.split prod.split sum.split)

lemma cleanup_mapping_row:
  fixes v plan created h row s
  defines "row' \<equiv> fst (cleanup_mapping v plan created h row s)"
  shows "mr_plan row' = mr_plan row" "mr_create row' = mr_create row" "mr_baseline row' = mr_baseline row"
    "mr_verification row' = mr_verification row"
  unfolding row'_def cleanup_mapping_def Let_def by (simp_all split: prod.split)

lemma settle_mapping_row:
  fixes v plan l baseline created row s
  defines "row' \<equiv> fst (settle_mapping v plan l baseline created row s)"
  shows "mr_plan row' = mr_plan row" "mr_create row' = mr_create row" "mr_baseline row' = mr_baseline row"
    "mr_verification row' = mr_verification row \<or> me_outcome created = OutcomeSucceeded"
  unfolding row'_def settle_mapping_def Let_def
  by (simp_all add: case_prod_beta cleanup_mapping_row verify_mapping_row split: option.split)

lemma round_end_ok:
  assumes "mr_create row = Some outcome" "measured row" "mr_verification row = None \<or> outcome = OutcomeSucceeded"
  shows "round_ok (mr_plan row) (round_end row)"
  using assms by (auto simp: round_ok_def round_end_def Let_def row_ok_def measured_def settled_def)

lemma stop_row_ok:
  "mr_create row = None \<Longrightarrow> mr_cleanup row = CleanupNotCreated \<Longrightarrow> mr_verification row = None
    \<Longrightarrow> round_ok (mr_plan row) (stop_row row stop)"
  by (simp add: round_ok_def stop_row_def row_ok_def settled_def)

definition fresh_row :: "mapping_method_report \<Rightarrow> bool" where
  "fresh_row row \<longleftrightarrow> mr_create row = None \<and> mr_cleanup row = CleanupNotCreated \<and> mr_verification row = None"

lemma round_create_ok:
  assumes "fresh_row row" "measured row"
  shows "round_ok (mr_plan row) (fst (round_create v plan l baseline row nonce s))"
proof -
  obtain e s1 where e: "create_mapping v plan (pc_port baseline) nonce s = (e, s1)" by (metis surj_pair)
  show ?thesis
  proof (cases e)
    case None
    then show ?thesis using assms stop_row_ok by (simp add: round_create_def e fresh_row_def)
  next
    case (Some created)
    define row1 where "row1 = row\<lparr>mr_create := Some (me_outcome created),
      mr_granted_lease_sec := me_granted_lifetime_sec created, mr_cleanup := me_cleanup created\<rparr>"
    define row2 where "row2 = fst (settle_mapping v plan l baseline created row1 s1)"
    have "fst (round_create v plan l baseline row nonce s) = round_end row2"
      by (simp add: round_create_def e Some Let_def case_prod_beta row1_def row2_def)
    moreover have "mr_plan row2 = mr_plan row" "mr_create row2 = Some (me_outcome created)" "measured row2"
        "mr_verification row2 = None \<or> me_outcome created = OutcomeSucceeded"
      using settle_mapping_row [of v plan l baseline created row1 s1] assms
      by (auto simp: row1_def row2_def measured_def fresh_row_def)
    ultimately show ?thesis using round_end_ok by metis
  qed
qed

lemma round_reserve_ok:
  assumes "fresh_row row" "measured row"
  shows "round_ok (mr_plan row) (fst (round_reserve v plan l baseline row s))"
  using round_create_ok [OF assms, of v] stop_row_ok [of row] assms(1)
  by (simp add: round_reserve_def fresh_row_def Let_def split: sum.split prod.split)

lemma run_round_ok: "round_ok plan (fst (run_round v plan s))"
proof -
  have "fresh_row (row_new plan)" "mr_plan (row_new plan) = plan"
    by (simp_all add: fresh_row_def row_new_def)
  moreover have "fresh_row ((row_new plan)\<lparr>mr_baseline := b\<rparr>)" "mr_plan ((row_new plan)\<lparr>mr_baseline := b\<rparr>) = plan"
    "measured ((row_new plan)\<lparr>mr_baseline := Some x\<rparr>) \<longleftrightarrow> ps_outcome x \<in> {OutcomeSucceeded, OutcomeFailed}" for b x
    by (simp_all add: fresh_row_def row_new_def measured_def)
  ultimately have rows: "round_ok plan (stop_row (row_new plan) stop)"
      "round_ok plan (stop_row ((row_new plan)\<lparr>mr_baseline := b\<rparr>) stop)"
      "ps_outcome x \<in> {OutcomeSucceeded, OutcomeFailed} \<Longrightarrow>
        round_ok plan (fst (round_reserve v plan l baseline ((row_new plan)\<lparr>mr_baseline := Some x\<rparr>) s))"
    for stop b x l baseline s
    using stop_row_ok [of "row_new plan" stop] stop_row_ok [of "(row_new plan)\<lparr>mr_baseline := b\<rparr>" stop]
      round_reserve_ok [of "(row_new plan)\<lparr>mr_baseline := Some x\<rparr>" v plan l baseline s]
    by (auto simp: fresh_row_def)
  moreover have "round_ok plan (None, Some stop)" for stop by (simp add: round_ok_def)
  ultimately show ?thesis
    unfolding run_round_def Let_def by (simp split: sum.split prod.split)
qed

definition rows_ok :: "mapping_method_plan list \<Rightarrow> mapping_method_report list \<Rightarrow> mapping_stop option \<Rightarrow> bool" where
  "rows_ok plans rows stop \<longleftrightarrow> map mr_plan rows = take (length rows) plans \<and> list_all row_ok rows
     \<and> list_all settled (butlast rows) \<and> (if stop = None then list_all settled rows \<and> length rows = length plans else True)"

lemma run_rounds_ok: "rows_ok plans (fst (fst (run_rounds v plans s))) (snd (fst (run_rounds v plans s)))"
proof (induction plans arbitrary: s)
  case Nil
  then show ?case by (simp add: rows_ok_def)
next
  case (Cons plan plans)
  obtain row stop s1 where r: "run_round v plan s = ((row, stop), s1)" by (metis surj_pair)
  have ok: "round_ok plan (row, stop)" using run_round_ok [of plan v s] r by simp
  show ?case
  proof (cases stop)
    case (Some x)
    then show ?thesis using ok r by (cases row) (simp_all add: rows_ok_def round_ok_def)
  next
    case None
    then obtain x where x: "row = Some x" "mr_plan x = plan" "row_ok x" "settled x"
      using ok by (cases row) (simp_all add: round_ok_def)
    then show ?thesis using Cons.IH [of s1] None r
      by (auto simp: rows_ok_def Let_def case_prod_beta)
  qed
qed

section \<open>Properties\<close>

text \<open>
  C38. The rows of a report follow the plans in order. Every row but the last is settled, a run that reports
  no stop settled all of its rows, and every plan has a row unless it was deferred. A row that created a
  mapping has a measured baseline, and a row whose mapping is of unknown state says that its expiry is
  unknown.
\<close>

theorem rows_settled_before_next:
  "case fst (run_mapping_lifecycle cr session plans gateway rt w) of
     None \<Rightarrow> td_mapping (se_descriptor session) = None
   | Some r \<Rightarrow>
       map mr_plan (rr_methods r) = take (length (rr_methods r)) plans
       \<and> list_all settled (butlast (rr_methods r)) \<and> list_all row_ok (rr_methods r)
       \<and> (if rr_stopped r = None
          then list_all settled (rr_methods r) \<and> length (rr_methods r) + rr_deferred_methods r = length plans
          else True)"
proof (cases "td_mapping (se_descriptor session)")
  case None
  then show ?thesis by (simp add: run_mapping_lifecycle_def Let_def)
next
  case (Some consent)
  obtain report w' where run: "run_mapping_lifecycle cr session plans gateway rt w = (report, w')"
    by (metis surj_pair)
  have "\<And>w. (\<lambda>_. ()) (snd (rt_now_ms rt w)) = (\<lambda>_. ()) w" by simp
  from run Some this show ?thesis
  proof (cases rule: lifecycle_cases [where log = "\<lambda>_. ()"])
    case (stopped r)
    then show ?thesis by (auto simp: run)
  next
    case (ran r v selected rows stop a w1 a')
    then have "rows_ok selected rows stop" using run_rounds_ok [of selected v "(a, w1)"] by simp
    moreover have "take (length rows) selected = take (length rows) plans"
      if "map mr_plan rows = take (length rows) selected"
      using ran(11) arg_cong [OF that, of length] by (auto simp: min_def split: if_splits)
    ultimately show ?thesis using ran by (auto simp: run rows_ok_def)
  qed
qed

text \<open>
  C37. A session made from an authenticated bootstrap always yields a report, and the run keeps its budgets.
  The report counts every request handed to the router and two control requests for every path check,
  within the control budget, and path checks stay within the dialback budget with at most one attested
  transcript each. Every request to the router goes to the selected gateway and either asks (a PCP or NAT-PMP
  request for 60 seconds, a UPnP lookup or addition) or deletes a mapping, as its bytes say. Deletions alone have
  the later deadline, the end of the cleanup reserve, and every other effect has the ordinary one. The deletions
  stay within the cleanup allowance, and all other control requests and datagrams leave that allowance untouched.
  Nonces are arrays of twelve bytes, and the control path of the gateway comes from a URL, where no \<open>#\<close> can be.
\<close>

theorem lifecycle_within_budget:
  assumes "from_authenticated_bootstrap cr d b now job = Inr session"
    and "\<forall>w n w'. rt_nonce rt w = (Inr n, w') \<longrightarrow> length n = 12"
    and "\<forall>c. mg_igd gateway = Some c \<longrightarrow> CHR ''#'' \<notin> set (igd_path_and_query c)"
  shows "case run_mapping_lifecycle cr session plans gateway (observed_runtime rt) (w, []) of
    (report, _, log) \<Rightarrow> \<exists>r. report = Some r
      \<and> rr_control_requests r \<le> tb_control_requests (td_budgets d)
      \<and> rr_sent_datagrams r \<le> tb_outbound_datagrams (td_budgets d)
      \<and> rr_external_dialbacks r \<le> tb_external_dialbacks (td_budgets d)
      \<and> routers log + 2 * paths log \<le> rr_control_requests r
      \<and> attests log \<le> paths log \<and> paths log = rr_external_dialbacks r
      \<and> cleanups (now + tb_experiment_ms (td_budgets d)) log \<le> tb_cleanup_control_requests (td_budgets d)
      \<and> rr_control_requests r \<le> tb_control_requests (td_budgets d) - tb_cleanup_control_requests (td_budgets d)
          + cleanups (now + tb_experiment_ms (td_budgets d)) log
      \<and> rr_sent_datagrams r \<le> tb_outbound_datagrams (td_budgets d) - tb_cleanup_datagrams (td_budgets d)
          + cleanups (now + tb_experiment_ms (td_budgets d)) log
      \<and> list_all (event_ok (now + tb_experiment_ms (td_budgets d))
          (now + tb_experiment_ms (td_budgets d) - tb_cleanup_reserve_ms (td_budgets d)) gateway) log"
proof -
  note facts = session_facts [OF assms(1)]
  obtain consent where c: "td_mapping (se_descriptor session) = Some consent" using facts by auto
  let ?rt = "observed_runtime rt"
  obtain report w' es where run: "run_mapping_lifecycle cr session plans gateway ?rt (w, []) = (report, w', es)"
    by (metis surj_pair)
  from run c watched.log_now [of rt] show ?thesis
  proof (cases rule: lifecycle_cases [where log = snd])
    case (stopped r)
    then show ?thesis using facts(1,5,6) by (auto simp: run event_counts)
  next
    case (ran r v selected rows stop a w1 a')
    let ?fin = "now + tb_experiment_ms (td_budgets d)"
    let ?act = "?fin - tb_cleanup_reserve_ms (td_budgets d)"
    have v: "re_runtime v = ?rt" "re_end v = ?fin" "re_active_end v = ?act" "re_gateway v = gateway"
      using ran(5) facts session_reserve [OF assms(1)] by simp_all
    have nonce: "length n = 12" if "rt_nonce ?rt x = (Inr n, x')" for x n x'
      using that assms(2) by (auto simp: observed_runtime_def observing_def split: prod.splits)
    have "bounded_run ?rt snd v"
      by unfold_locales (use v facts(3,4) session_reserve [OF assms(1)] nonce assms(3) in \<open>simp_all add: plain_control_def\<close>)
    then have "spends ?fin ?act gateway snd (a, w1) (a', w', es)"
      using bounded_run.run_rounds_adv [of ?rt snd v "(a, w1)" selected] ran(4) v by simp
    then have "balanced a a'" "list_all (event_ok ?fin ?act gateway) es" "attests es \<le> paths es"
        "ac_control_requests a' = ac_control_requests a + routers es + 2 * paths es"
        "ac_external_dialbacks a' = ac_external_dialbacks a + paths es"
        "ac_cleanup_control a = ac_cleanup_control a' + cleanups ?fin es"
        "ac_cleanup_datagrams a \<le> ac_cleanup_datagrams a' + cleanups ?fin es"
      using ran(2) unfolding spends_def by auto
    moreover have "balanced (accounting_new (td_budgets d)) a" "ac_external_dialbacks a = 0"
        "ac_cleanup_control a = tb_cleanup_control_requests (td_budgets d)"
        "ac_cleanup_datagrams a = tb_cleanup_datagrams (td_budgets d)"
      using charge_Inr [OF ran(3)] facts(1) by (simp_all add: accounting_new_def)
    ultimately show ?thesis using ran(1,8,9,10) facts(5,6)
      by (auto simp: run balanced_def accounting_new_def)
  qed
qed

section \<open>Witnesses\<close>

definition sample_bindings :: mapping_bindings where
  "sample_bindings = \<lparr>mb_claim_authority_digest = sample_digest_a, mb_artifact_digest = sample_digest_a,
     mb_helper = \<lparr>hi_version = ''1'', hi_digest = sample_digest_a\<rparr>, mb_consent_reference = ''r'',
     mb_processor_allowlist_digest = sample_digest_a, mb_exclusive_reservation_digest = sample_digest_b\<rparr>"

text \<open>A run that measures a path, creates a mapping with PCP and deletes it again, all within its budgets.\<close>

definition run_descriptor :: traversal_descriptor where
  "run_descriptor = sample_mapping_descriptor\<lparr>td_operations := [BaselineTcp, MapPcp],
     td_budgets := (td_budgets sample_mapping_descriptor)\<lparr>tb_control_requests := 8, tb_external_dialbacks := 2\<rparr>\<rparr>"

definition run_session :: mapping_session where
  "run_session = \<lparr>se_descriptor = run_descriptor,
     se_reservation = \<lparr>rs_experiment_ms = 20000, rs_cleanup_reserve_ms = 5000, rs_delivery_reserve_ms = 40000,
       rs_collector_end_ms = 22000, rs_delivery_end_ms = 62000\<rparr>\<rparr>"

definition run_transcript :: traversal_transcript where
  "run_transcript = sample_router_transcript
     \<lparr>tt_domain := TRAVERSAL_EXTERNAL_PATH_DOMAIN, tt_authority := ExternalPath, tt_stage := StageBaseline,
      tt_method := MethodUnassisted, tt_transport := TransportTcp, tt_granted_lease_sec := None,
      tt_outcome := OutcomeFailed, tt_error_class := Some ErrorTimeout\<rparr>"

definition run_gateway :: mapping_gateway where
  "run_gateway = \<lparr>mg_gateway = sample_gateway,
     mg_reservation = \<lparr>er_gateway = sg_gateway sample_gateway, er_digest = replicate 32 0xbb\<rparr>,
     mg_local_address = sample_address, mg_external_address = None, mg_igd = None,
     mg_discovery_datagrams = 0, mg_discovery_control_requests = 0\<rparr>"

text \<open>Every path fails, and the router grants the lease asked for and confirms every deletion.\<close>

definition granting_runtime :: "unit mapping_runtime" where
  "granting_runtime = \<lparr>rt_now_ms = (\<lambda>w. (3000, w)), rt_observed_address = (\<lambda>w. (ipv4_new 203 0 113 9, w)),
     rt_stop = (\<lambda>w. (None, w)), rt_nonce = (\<lambda>w. (Inr sample_nonce, w)),
     rt_bind_fresh = (\<lambda>_ w. (Inr 0, w)), rt_port = (\<lambda>_ w. (40000, w)),
     rt_path_check = (\<lambda>_ _ _ w. (Inr \<lparr>pe_transcript = run_transcript, pe_echoed_challenge = None\<rparr>, w)),
     rt_attest_path = (\<lambda>_ _ w. (Inr (), w)),
     rt_router_exchange = (\<lambda>d q n dl w. case sample_router 60 w d q n of (r, b, w) \<Rightarrow> (r, b, w))\<rparr>"

abbreviation run_plan :: mapping_method_plan where
  "run_plan \<equiv> \<lparr>pl_protocol = RouterPcp, pl_transport = PortTcp\<rparr>"

lemma run_descriptor_valid: "descriptor_validate evidence_crates run_descriptor = Inr ()"
  using sample_hex_text(1) [of 16] sample_digests sample_texts
  by (simp add: descriptor_validate_Inr evidence_bounded run_descriptor_def sample_mapping_descriptor_def binding_ok_def
      budgets_validate_Inr deadlines_ok_def SAFE_INTEGER_def TRAVERSAL_CAPABILITY_MAX_MS_def
      less_traversal_operation_def validate_mapping_Inr validate_pair_Inr consent_ok_def consent_matches_def)

lemma run_session: "from_authenticated_bootstrap evidence_crates run_descriptor sample_bindings 2000 100000 = Inr run_session"
proof -
  have "can_start evidence_crates run_descriptor 2000 100000 EXISTING_DELIVERY_RESERVE_MS = Inr ()"
    using run_descriptor_valid
    by (simp add: can_start_Inr validate_at_Inr EXISTING_DELIVERY_RESERVE_MS_def u64_max_def)
      (simp add: run_descriptor_def sample_mapping_descriptor_def)
  then show ?thesis
    by (simp add: from_authenticated_bootstrap_def res_simps Let_def)
      (simp add: run_descriptor_def run_session_def sample_mapping_descriptor_def sample_bindings_def guard_def
        EXISTING_DELIVERY_RESERVE_MS_def)
qed

lemma run_transcript_scope: "transcript_validate_scope evidence_crates run_transcript run_descriptor 3000 = Inr ()"
proof -
  have "transcript_validate evidence_crates run_transcript = Inr ()"
    using sample_hex_text [of 16] sample_hex_text [of 32] sample_evidence_digest(1)
    by (simp add: transcript_validate_Inr transcript_checks evidence_bounded sample_first_transcript_def
        run_transcript_def sample_router_transcript_def SAFE_INTEGER_def TRAVERSAL_EXPERIMENT_MAX_MS_def)
  moreover have "binding_digest evidence_crates run_descriptor = Inr sample_evidence_digest"
    by (simp add: binding_digest_def canonical_bytes_def run_descriptor_valid evidence_canonical sample_evidence_digest(2))
  ultimately show ?thesis
    unfolding transcript_validate_scope_Inr validate_at_Inr run_descriptor_valid
    by (simp add: run_transcript_def sample_router_transcript_def sample_first_transcript_def run_descriptor_def
        sample_mapping_descriptor_def)
qed

lemma hex_digit_b: "hex_digit 11 = CHR ''b''"
  by code_simp

lemma run_binding: "matches_binding evidence_crates (mg_reservation run_gateway) (mg_gateway run_gateway) sample_digest_b"
proof -
  have "hex_text (replicate n 0xbb) = replicate (2 * n) (CHR ''b'')" for n
    by (induction n) (simp_all add: hex_text_def hex_digit_b)
  from this [of 32] show ?thesis
    by (simp add: matches_binding_def run_gateway_def authorizes_def evidence_crates_fields sample_digest_b_def)
qed

lemma granting_calls:
  "rt_now_ms (observed_runtime granting_runtime) w = (3000, w)" "rt_stop (observed_runtime granting_runtime) w = (None, w)"
  "rt_observed_address (observed_runtime granting_runtime) w = (ipv4_new 203 0 113 9, w)"
  "rt_nonce (observed_runtime granting_runtime) w = (Inr sample_nonce, w)"
  "rt_bind_fresh (observed_runtime granting_runtime) p w = (Inr 0, w)" "rt_port (observed_runtime granting_runtime) l w = (40000, w)"
  "rt_path_check (observed_runtime granting_runtime) l check dl w
     = (Inr \<lparr>pe_transcript = run_transcript, pe_echoed_challenge = None\<rparr>, (), snd w @ [EvPath check dl])"
  "rt_attest_path (observed_runtime granting_runtime) t dl w = (Inr (), (), snd w @ [EvAttest dl])"
  "rt_router_exchange (observed_runtime granting_runtime) d q n dl w
     = (Inr 60, pcp_reply q 0 (if take 4 (drop 4 q) = [0, 0, 0, 0] then 0 else 60) 9 40001 sample_address, (), snd w @ [EvRouter d q dl])"
  by (simp_all add: observed_runtime_def granting_runtime_def observing_def sample_router_def prod_eq_iff split: prod.split)

lemma granting_ordinary: "3000 < finish \<Longrightarrow> ordinary (observed_runtime granting_runtime) finish w = (Inr (), w)"
  by (simp add: ordinary_def granting_calls)

definition run_env :: "(unit \<times> run_event list) run_env" where
  "run_env = \<lparr>re_crates = evidence_crates, re_runtime = observed_runtime granting_runtime, re_descriptor = run_descriptor,
     re_consent = the (td_mapping run_descriptor), re_gateway = run_gateway, re_end = 22000, re_active_end = 17000\<rparr>"

definition run_baseline :: mapping_path_check where
  "run_baseline = \<lparr>pc_stage = StageBaseline, pc_method = MethodUnassisted, pc_transport = TransportTcp, pc_family = FamilyV4,
     pc_port = 40000\<rparr>"

definition run_pcp_map :: pcp_map where
  "run_pcp_map = \<lparr>pm_local_address = sample_address, pm_internal_port = 40000, pm_protocol = PortTcp, pm_nonce = sample_nonce,
     pm_maximum_lease_sec = 120, pm_previous_epoch = None, pm_reservation = Some (mg_reservation run_gateway)\<rparr>"

definition run_account :: "nat \<Rightarrow> nat \<Rightarrow> nat \<Rightarrow> accounting" where
  "run_account requests deletions checks =
     \<lparr>ac_ordinary_datagrams = 6 - requests, ac_ordinary_control = 6 - requests - 2 * checks,
      ac_cleanup_datagrams = 2 - deletions, ac_cleanup_control = 2 - deletions, ac_dialbacks = 2 - checks,
      ac_sent_datagrams = requests + deletions, ac_control_requests = requests + deletions + 2 * checks,
      ac_external_dialbacks = checks, ac_datagram_bytes = 256\<rparr>"

lemma run_path:
  "path evidence_crates (observed_runtime granting_runtime) l run_descriptor run_baseline 17000 (run_account 0 0 0, w)
     = (Inr \<lparr>ps_stage = StageBaseline, ps_outcome = OutcomeFailed, ps_error = Some ErrorTimeout\<rparr>,
        run_account 0 0 1, (), snd w @ [EvPath run_baseline 17000, EvAttest 17000])"
proof -
  have "path_evidence_ok evidence_crates run_descriptor run_baseline \<lparr>pe_transcript = run_transcript, pe_echoed_challenge = None\<rparr> 3000"
    using run_transcript_scope
    by (simp add: path_evidence_ok_def run_baseline_def)
      (simp add: run_transcript_def sample_router_transcript_def sample_first_transcript_def)
  then show ?thesis
    by (simp add: path_def run_bind_def on_world_def granting_ordinary charging_def charge_def run_account_def granting_calls check_evidence_def)
      (simp add: run_transcript_def run_baseline_def sample_router_transcript_def sample_first_transcript_def)
qed

lemma run_exchange:
  assumes "length q = 60" "take 4 (drop 4 q) = (if deletion then [0, 0, 0, 0] else [0, 0, 0, 60])"
  shows "bounded_control run_env RouterPcp deletion (run_account (if deletion then 1 else 0) 0 1, w) d q 1100
    = (Inr 60, pcp_reply q 0 (if deletion then 0 else 60) 9 40001 sample_address,
       run_account 1 (if deletion then 1 else 0) 1, (), snd w @ [EvRouter d q (if deletion then 22000 else 17000)])"
  using assms
  by (cases deletion) (simp_all add: bounded_control_def run_env_def bounded_exchange_def granting_calls udp_router_def charge_def
      run_account_def PCP_MAP_PACKET_BYTES_def)

abbreviation run_deletion :: bytes where
  "run_deletion \<equiv> encode_pcp sample_address 6 40000 40001 sample_nonce 0"

lemma run_packets:
  "length (pcp_request run_pcp_map) = 60" "take 4 (drop 4 (pcp_request run_pcp_map)) = [0, 0, 0, 60]"
  "length run_deletion = 60" "take 4 (drop 4 run_deletion) = [0, 0, 0, 0]"
  by (simp_all add: pcp_request_def run_pcp_map_def length_encode_pcp sample_nonce_facts)
    (simp_all add: encode_pcp_def MAPPING_REQUESTED_LEASE_SEC_def be32_def)

lemma run_exchanges:
  "exchange_with_gateway cr sample_gateway RouterPcp None (pcp_request run_pcp_map) (bounded_control run_env RouterPcp False) never
     (run_account 0 0 1, w) = (Inr (pcp_reply (pcp_request run_pcp_map) 0 60 9 40001 sample_address),
       run_account 1 0 1, (), snd w @ [EvRouter (sg_gateway sample_gateway, 5351) (pcp_request run_pcp_map) 17000])"
  "exchange_with_gateway cr sample_gateway RouterPcp None run_deletion (bounded_control run_env RouterPcp True) never
     (run_account 1 0 1, w) = (Inr (pcp_reply run_deletion 0 0 9 40001 sample_address),
       run_account 1 1 1, (), snd w @ [EvRouter (sg_gateway sample_gateway, 5351) run_deletion 22000])"
  by (rule exchange_answered_by; simp add: never_def run_packets run_exchange [of _ False, simplified] run_exchange [of _ True, simplified])+

lemma run_decoded:
  "decode_pcp (pcp_reply (pcp_request run_pcp_map) 0 60 9 40001 sample_address)
     = Inr \<lparr>pp_version_ok = True, pp_opcode_ok = True, pp_result = 0, pp_lifetime = 60, pp_epoch = 9,
         pp_protocol = pcp_number PortTcp, pp_internal_port = 40000, pp_assigned_port = 40001,
         pp_nonce = Some sample_nonce, pp_assigned_ip = Some sample_address\<rparr>"
  "decode_pcp (pcp_reply run_deletion 0 0 9 40001 sample_address)
     = Inr \<lparr>pp_version_ok = True, pp_opcode_ok = True, pp_result = 0, pp_lifetime = 0, pp_epoch = 9,
         pp_protocol = pcp_number PortTcp, pp_internal_port = 40000, pp_assigned_port = 40001,
         pp_nonce = Some sample_nonce, pp_assigned_ip = Some sample_address\<rparr>"
  using decode_pcp_reply [OF sample_nonce_facts(1)] sample_usable by (simp_all add: pcp_request_def run_pcp_map_def)

lemma run_map_fields:
  "pm_local_address run_pcp_map = sample_address" "pm_internal_port run_pcp_map = 40000" "pm_protocol run_pcp_map = PortTcp"
  "pm_nonce run_pcp_map = sample_nonce" "pm_maximum_lease_sec run_pcp_map = 120" "pm_previous_epoch run_pcp_map = None"
  "pm_reservation run_pcp_map = Some (mg_reservation run_gateway)"
  by (simp_all add: run_pcp_map_def)

lemma run_created:
  "\<exists>e h. map_pcp cr sample_gateway run_pcp_map (bounded_control run_env RouterPcp False) never (run_account 0 0 1, w)
     = (e, run_account 1 0 1, (), snd w @ [EvRouter (sg_gateway sample_gateway, 5351) (pcp_request run_pcp_map) 17000])
   \<and> me_cleanup e = CleanupLeaseExpiryPending \<and> me_outcome e = OutcomeSucceeded \<and> me_epoch e = Some 9 \<and> me_handle e = Some h
   \<and> h = \<lparr>oh_protocol = RouterPcp, oh_port_protocol = PortTcp, oh_internal_port = 40000, oh_external_port = 40001,
      oh_client = sample_address, oh_granted_lifetime_sec = 60, oh_epoch = 9, oh_nonce = Some sample_nonce,
      oh_reservation_digest = Some (replicate 32 0xbb), oh_cleanup_authorized = True, oh_external_address = Some sample_address\<rparr>"
  using sample_usable sample_nonce_facts
  by (simp add: map_pcp_def run_map_fields lease_ceiling_def MAPPING_REQUESTED_LEASE_SEC_def MAPPING_MAXIMUM_LEASE_SEC_def
      MAPPING_HIGH_PORT_MIN_def exchange_create_def never_def run_exchanges(1) [simplified One_nat_def]
      run_decoded(1) [simplified] create_answered_def rebooted_def pcp_class_def adopt_or_refuse_def finite_lease_def
      correlated_handle_def Let_def run_gateway_def authorizes_def)

lemma run_deleted:
  "\<exists>e. delete_owned_mapping cr sample_gateway
     \<lparr>oh_protocol = RouterPcp, oh_port_protocol = PortTcp, oh_internal_port = 40000, oh_external_port = 40001,
      oh_client = sample_address, oh_granted_lifetime_sec = 60, oh_epoch = 9, oh_nonce = Some sample_nonce,
      oh_reservation_digest = Some (replicate 32 0xbb), oh_cleanup_authorized = True, oh_external_address = Some sample_address\<rparr>
     (Some (mg_reservation run_gateway)) (Some 9) (bounded_control run_env RouterPcp True) never None (run_account 1 0 1, w)
     = (e, run_account 1 1 1, (), snd w @ [EvRouter (sg_gateway sample_gateway, 5351) run_deletion 22000])
   \<and> me_cleanup e = CleanupConfirmedDeleted"
  by (simp add: delete_owned_mapping_def delete_allowed_def run_gateway_def authorizes_def send_delete_def never_def delete_packet_def
      run_exchanges(2) [simplified never_def One_nat_def] delete_answered_def run_decoded(2) delete_matches_def rebooted_def reply_class.simps pcp_class_def
      delete_start_def Let_def MAPPING_MAXIMUM_LEASE_SEC_def)

abbreviation run_log :: "run_event list" where
  "run_log \<equiv> [EvPath run_baseline 17000, EvAttest 17000, EvRouter (sg_gateway sample_gateway, 5351) (pcp_request run_pcp_map) 17000,
     EvRouter (sg_gateway sample_gateway, 5351) run_deletion 22000]"

lemma run_env_fields:
  "re_crates run_env = evidence_crates" "re_runtime run_env = observed_runtime granting_runtime" "re_descriptor run_env = run_descriptor"
  "mc_maximum_lease_sec (re_consent run_env) = 120" "re_gateway run_env = run_gateway" "re_end run_env = 22000"
  "re_active_end run_env = 17000" "mg_gateway run_gateway = sample_gateway" "mg_local_address run_gateway = sample_address"
  "mg_igd run_gateway = None"
  by (simp_all add: run_env_def run_descriptor_def sample_mapping_descriptor_def run_gateway_def)

lemma run_round_created:
  "mr_stopped row0 = None \<Longrightarrow> \<exists>row. round_create run_env run_plan l run_baseline row0 sample_nonce (run_account 0 0 1, w)
     = ((Some row, None), run_account 1 1 1, (), snd w @ drop 2 run_log)"
proof -
  assume none: "mr_stopped row0 = None"
  let ?ev = "EvRouter (sg_gateway sample_gateway, 5351)"
  obtain e h where c: "map_pcp evidence_crates sample_gateway run_pcp_map (bounded_control run_env RouterPcp False) never (run_account 0 0 1, w)
       = (e, run_account 1 0 1, (), snd w @ [?ev (pcp_request run_pcp_map) 17000])"
     "me_cleanup e = CleanupLeaseExpiryPending" "me_outcome e = OutcomeSucceeded" "me_epoch e = Some 9" "me_handle e = Some h"
     "h = \<lparr>oh_protocol = RouterPcp, oh_port_protocol = PortTcp, oh_internal_port = 40000, oh_external_port = 40001,
      oh_client = sample_address, oh_granted_lifetime_sec = 60, oh_epoch = 9, oh_nonce = Some sample_nonce,
      oh_reservation_digest = Some (replicate 32 0xbb), oh_cleanup_authorized = True, oh_external_address = Some sample_address\<rparr>"
    using run_created [of evidence_crates w] by blast
  have create: "create_mapping run_env run_plan 40000 sample_nonce (run_account 0 0 1, w)
      = (Some e, run_account 1 0 1, (), snd w @ [?ev (pcp_request run_pcp_map) 17000])"
    using c(1) by (simp add: create_mapping_def run_env_fields run_pcp_map_def)
  have "sample_address \<noteq> ipv4_new 203 0 113 9" by (simp add: sample_address_def ipv4_new_def of_be32_def)
  then have verify: "verify_mapping run_env run_plan l run_baseline h row (a, w') = (row\<lparr>mr_verification := Some unverifiable\<rparr>, a, w')" for row a w'
    by (simp add: verify_mapping_def c(6) run_env_fields granting_calls port_in_range_def INBOUND_PORT_MIN_def INBOUND_PORT_MAX_def)
  obtain x where x: "delete_owned_mapping evidence_crates sample_gateway h (Some (mg_reservation run_gateway)) (Some 9)
      (bounded_control run_env RouterPcp True) never None (run_account 1 0 1, (), snd w @ [?ev (pcp_request run_pcp_map) 17000])
       = (x, run_account 1 1 1, (), snd w @ [?ev (pcp_request run_pcp_map) 17000, ?ev run_deletion 22000])"
      "me_cleanup x = CleanupConfirmedDeleted"
    using run_deleted [of evidence_crates "((), snd w @ [?ev (pcp_request run_pcp_map) 17000])"] unfolding c(6) by auto
  have port: "pc_port run_baseline = 40000" by (simp add: run_baseline_def)
  show ?thesis
    unfolding round_create_def port create prod.case option.case Let_def settle_mapping_def c(2,3,5) verify cleanup_mapping_def run_env_fields x(1,2)
      c(4) mapping_method_plan.simps
    by (simp add: verify cleanup_mapping_def run_env_fields c(4) x round_end_def Let_def none del: One_nat_def)
qed

lemma run_round_run: "\<exists>row. run_round run_env run_plan (run_account 0 0 0, w) = ((Some row, None), run_account 1 1 1, (), snd w @ run_log)"
proof -
  let ?row = "(row_new run_plan)\<lparr>mr_baseline := Some \<lparr>ps_stage = StageBaseline, ps_outcome = OutcomeFailed, ps_error = Some ErrorTimeout\<rparr>\<rparr>"
  let ?w = "((), snd w @ [EvPath run_baseline 17000, EvAttest 17000])"
  have "round_reserve run_env run_plan 0 run_baseline ?row (run_account 0 0 1, ?w)
      = round_create run_env run_plan 0 run_baseline ?row sample_nonce (run_account 0 0 1, ?w)"
    by (simp add: round_reserve_def run_env_fields on_world_def granting_ordinary granting_calls udp_router_def saturating_add_u64_def u64_max_def
        sample_nonce_facts)
      (simp add: run_account_def)
  moreover have range: "port_in_range 40000" by (simp add: port_in_range_def INBOUND_PORT_MIN_def INBOUND_PORT_MAX_def)
  moreover have "run_round run_env run_plan (run_account 0 0 0, w) = round_reserve run_env run_plan 0 run_baseline ?row (run_account 0 0 1, ?w)"
    by (simp add: run_round_def run_env_fields on_world_def granting_ordinary granting_calls range run_path run_baseline_def [symmetric] del: One_nat_def)
  ultimately show ?thesis using run_round_created [of ?row 0 ?w] by (simp add: row_new_def del: One_nat_def)
qed

lemma run_lifecycle:
  "\<exists>r. run_mapping_lifecycle evidence_crates run_session [run_plan] run_gateway (observed_runtime granting_runtime) ((), []) = (Some r, (), run_log)"
proof -
  obtain consent where c: "td_mapping run_descriptor = Some consent" "mc_exclusive_reservation_digest consent = sample_digest_b"
    by (simp add: run_descriptor_def sample_mapping_descriptor_def)
  have v: "is_ok (validate_at evidence_crates run_descriptor 3000)"
    using transcript_validate_scope_Inr [of evidence_crates run_transcript run_descriptor 3000] run_transcript_scope by (simp add: is_ok_iff)
  have p: "plan_ok run_descriptor run_plan" by (simp add: plan_ok_def run_descriptor_def)
  have a: "charge (mg_discovery_datagrams run_gateway) (mg_discovery_control_requests run_gateway) 0 False
      (accounting_new (td_budgets run_descriptor)) = Inr (run_account 0 0 0)"
    by (simp add: run_gateway_def charge_def accounting_new_def run_descriptor_def sample_mapping_descriptor_def run_account_def)
  have f: "fits (run_account 0 0 0) [run_plan] 14000"
    by (simp add: fits_def run_account_def udp_router_def METHOD_WINDOW_MS_def)
  have e: "\<lparr>re_crates = evidence_crates, re_runtime = observed_runtime granting_runtime, re_descriptor = run_descriptor, re_consent = consent,
      re_gateway = run_gateway, re_end = 22000, re_active_end = 17000\<rparr> = run_env"
    using c(1) by (simp add: run_env_def)
  show ?thesis
    using run_round_run [of "((), [])"] v p run_binding
    by (auto simp: run_mapping_lifecycle_def run_session_def c granting_calls a f e saturating_sub_def Let_def simp del: One_nat_def)
qed

theorem lifecycle_within_budget_witness:
  "from_authenticated_bootstrap evidence_crates run_descriptor sample_bindings 2000 100000 = Inr run_session
   \<and> (\<exists>r. run_mapping_lifecycle evidence_crates run_session [run_plan] run_gateway (observed_runtime granting_runtime) ((), [])
        = (Some r, (), run_log)
      \<and> 4 \<le> rr_control_requests r \<and> rr_control_requests r \<le> 7 \<and> rr_sent_datagrams r \<le> 7 \<and> rr_external_dialbacks r = 1)
   \<and> asking run_gateway (pcp_request run_pcp_map) \<and> deleting run_gateway run_deletion"
proof -
  obtain r where r: "run_mapping_lifecycle evidence_crates run_session [run_plan] run_gateway (observed_runtime granting_runtime) ((), [])
      = (Some r, (), run_log)" using run_lifecycle by blast
  have h: "\<forall>w n w'. rt_nonce granting_runtime w = (Inr n, w') \<longrightarrow> length n = 12"
      "\<forall>c. mg_igd run_gateway = Some c \<longrightarrow> CHR ''#'' \<notin> set (igd_path_and_query c)"
    by (simp_all add: granting_runtime_def sample_nonce_facts run_gateway_def)
  have b: "tb_experiment_ms (td_budgets run_descriptor) = 20000" "tb_cleanup_reserve_ms (td_budgets run_descriptor) = 5000"
      "tb_control_requests (td_budgets run_descriptor) = 8" "tb_cleanup_control_requests (td_budgets run_descriptor) = 2"
      "tb_outbound_datagrams (td_budgets run_descriptor) = 8" "tb_cleanup_datagrams (td_budgets run_descriptor) = 2"
    by (simp_all add: run_descriptor_def sample_mapping_descriptor_def)
  show ?thesis
    using lifecycle_within_budget [OF run_session h, of "[run_plan]" "()"] run_session r
    by (auto simp: b event_counts split: if_splits)
qed

end
