(* ===== verification/Igd.thy ===== *)
theory Igd
  imports Soap
begin

text \<open>
  Bounded discovery of a UPnP gateway (\<open>src/network_traversal/igd.rs\<close>): the search datagram and its
  replies, the device description and its XML reader, the choice of a control address at the selected
  gateway, and the two host transports. Search, document fetch, clock, sockets and cancellation are
  functions on an arbitrary world. The readers shared with \<open>mapping/upnp.rs\<close>, which has its own copies of
  them, are those of the theory Soap.
\<close>

section \<open>Vocabulary\<close>

definition IGD_SSDP_ADDRESS :: ipv4 where "IGD_SSDP_ADDRESS = ipv4_new 239 255 255 250"
definition IGD_SSDP_PORT :: nat where "IGD_SSDP_PORT = 1900"
definition IGD_SSDP_MAX_BYTES :: nat where "IGD_SSDP_MAX_BYTES = CONTROL_MAX_BYTES"
definition IGD_SSDP_MAX_REPLIES :: nat where "IGD_SSDP_MAX_REPLIES = 4"
definition IGD_XML_MAX_BYTES :: nat where "IGD_XML_MAX_BYTES = 16 * 1024"
definition IGD_MAX_SERVICE_CANDIDATES :: nat where "IGD_MAX_SERVICE_CANDIDATES = 4"
definition IGD_MAX_DOCUMENT_FETCHES :: nat where "IGD_MAX_DOCUMENT_FETCHES = 2"
definition IGD_SEARCH_BUDGET :: duration where "IGD_SEARCH_BUDGET = from_millis 1000"
definition IGD_HTTP_BUDGET :: duration where "IGD_HTTP_BUDGET = from_millis 1000"

definition WAN_IP_V1 :: string where "WAN_IP_V1 = ''urn:schemas-upnp-org:service:WANIPConnection:1''"
definition WAN_IP_V2 :: string where "WAN_IP_V2 = ''urn:schemas-upnp-org:service:WANIPConnection:2''"
definition WAN_PPP_V1 :: string where "WAN_PPP_V1 = ''urn:schemas-upnp-org:service:WANPPPConnection:1''"
definition WAN_PPP_V2 :: string where "WAN_PPP_V2 = ''urn:schemas-upnp-org:service:WANPPPConnection:2''"

definition SSDP_MSEARCH :: string where
  "SSDP_MSEARCH = ''M-SEARCH * HTTP/1.1'' @ CRLF @ ''HOST: 239.255.255.250:1900'' @ CRLF
     @ ''MAN: '' @ quote @ ''ssdp:discover'' @ quote @ CRLF @ ''MX: 1'' @ CRLF
     @ ''ST: urn:schemas-upnp-org:device:InternetGatewayDevice:1'' @ CRLF @ CRLF"

datatype igd_refusal =
    IgdCancelled
  | IgdDeadline
  | IgdBounded
  | IgdMalformed
  | IgdMalformedPort
  | IgdWrongTarget
  | IgdRedirect
  | IgdEntity

datatype igd_discovery =
    IgdFound igd_control_descriptor
  | IgdUnsupported
  | IgdNotAdvertised
  | IgdRefused igd_refusal

datatype igd_io_error = IoUnavailable | IoCancelled | IoDeadline | IoBounded | IoMalformed | IoRedirect

record resolved_location =
  rl_url :: string
  rl_socket :: socket_addr

record service_candidate =
  sc_service :: igd_service_kind
  sc_control_url :: string

fun io_discovery :: "igd_io_error \<Rightarrow> igd_discovery" where
  "io_discovery IoUnavailable = IgdUnsupported"
| "io_discovery IoCancelled = IgdRefused IgdCancelled"
| "io_discovery IoDeadline = IgdRefused IgdDeadline"
| "io_discovery IoBounded = IgdRefused IgdBounded"
| "io_discovery IoMalformed = IgdRefused IgdMalformed"
| "io_discovery IoRedirect = IgdRefused IgdRedirect"

section \<open>Addresses at the gateway\<close>

fun split_any :: "(char \<Rightarrow> bool) \<Rightarrow> string \<Rightarrow> string list" where
  "split_any p [] = [[]]"
| "split_any p (c # s) =
     (if p c then [] # split_any p s
      else (case split_any p s of [] \<Rightarrow> [[c]] | x # xs \<Rightarrow> (c # x) # xs))"

definition contains_str :: "string \<Rightarrow> string \<Rightarrow> bool" where
  "contains_str s pat \<longleftrightarrow> find_sub pat s \<noteq> None"

definition looks_like_bad_port :: "string \<Rightarrow> bool" where
  "looks_like_bad_port raw =
     (case strip_prefix ''http://'' raw of
        None \<Rightarrow> False
      | Some rest \<Rightarrow>
          let authority = takeWhile (\<lambda>c. c \<notin> {CHR ''/'', CHR ''?'', CHR ''#''}) rest
          in if CHR '':'' \<notin> set authority then False
             else let port = last (split_char (CHR '':'') authority)
             in if port = [] \<or> \<not> list_all is_ascii_digit port then True
                else (case from_str_radix u16_max 10 port of None \<Rightarrow> True | Some v \<Rightarrow> v = 0))"

definition reject_control_syntax :: "string \<Rightarrow> igd_refusal option" where
  "reject_control_syntax control =
     (if length control > CONTROL_LOCATION_MAX_BYTES then Some IgdBounded
      else if starts_with control ''//'' \<or> CHR 0x5C \<in> set control \<or> CHR ''@'' \<in> set control
        \<or> ''..'' \<in> set (split_any (\<lambda>c. c = CHR ''/'' \<or> c = CHR 0x5C \<or> c = CHR ''?'') control)
        \<or> list_ex (\<lambda>c. is_ascii_control c \<or> c = CHR 0x20) control
      then Some IgdWrongTarget
      else if looks_like_bad_port control then Some IgdMalformedPort
      else None)"

definition gateway_url_parts :: "ipv4 \<Rightarrow> url \<Rightarrow> igd_refusal + resolved_location" where
  "gateway_url_parts gateway u =
     guard (\<not> (url_scheme u \<noteq> ''http'' \<or> url_username u \<noteq> [] \<or> url_password u \<noteq> None)) IgdWrongTarget
    (guard (url_fragment u = None) IgdMalformed
    (guard (url_host_ipv4 u = Some gateway) IgdWrongTarget
    (res_bind (ok_or (url_port_or_default u) IgdMalformedPort) (\<lambda>port.
     guard (port \<noteq> 0) IgdMalformedPort
    (guard (''..'' \<notin> set (split_char (CHR ''/'') (url_path u))) IgdWrongTarget
    (let base = ''http://'' @ show_ipv4 gateway @ '':'' @ show_nat port @ url_path u
     in res_bind
          (case url_query u of
             None \<Rightarrow> Inr base
           | Some query \<Rightarrow>
               guard (\<not> (CHR ''@'' \<in> set query \<or> CHR 0x5C \<in> set query \<or> CHR 0x20 \<in> set query)) IgdWrongTarget
                 (Inr (base @ ''?'' @ query)))
          (\<lambda>reconstructed.
             guard (length reconstructed \<le> CONTROL_LOCATION_MAX_BYTES) IgdBounded
               (Inr \<lparr>rl_url = reconstructed, rl_socket = (gateway, port)\<rparr>))))))))"

definition validate_gateway_url :: "crates \<Rightarrow> ipv4 \<Rightarrow> string \<Rightarrow> igd_refusal + resolved_location" where
  "validate_gateway_url cr gateway raw =
     guard (length raw \<le> CONTROL_LOCATION_MAX_BYTES) IgdBounded
    (guard (\<not> (CHR ''@'' \<in> set raw \<or> CHR 0x5C \<in> set raw \<or> CHR 0x20 \<in> set raw)) IgdWrongTarget
    (case url_parse cr raw of
       None \<Rightarrow> Inl (if looks_like_bad_port raw then IgdMalformedPort else IgdMalformed)
     | Some u \<Rightarrow> gateway_url_parts gateway u))"

text \<open>The path of a URL text: what follows the authority.\<close>

definition url_rest :: "string \<Rightarrow> string option" where
  "url_rest u = (case split_once ''://'' u of
     None \<Rightarrow> None
   | Some (_, rest) \<Rightarrow> map_option (\<lambda>i. drop i rest) (find_sub ''/'' rest))"

record validated_target =
  vt_port :: u16
  vt_path_and_query :: string

definition resolve_control :: "crates \<Rightarrow> ipv4 \<Rightarrow> string \<Rightarrow> string \<Rightarrow> igd_refusal + validated_target" where
  "resolve_control cr gateway base control =
     (case reject_control_syntax control of
        Some refusal \<Rightarrow> Inl refusal
      | None \<Rightarrow>
          res_bind
            (if contains_str control ''://'' then Inr control
             else res_bind (ok_or (url_parse cr base) IgdMalformed) (\<lambda>b.
                  res_bind (ok_or (url_join cr b control) IgdMalformed) (\<lambda>u. Inr (url_text u))))
            (\<lambda>joined. res_bind (validate_gateway_url cr gateway joined) (\<lambda>location.
               res_bind (ok_or (url_rest (rl_url location)) IgdMalformed) (\<lambda>p.
                 Inr \<lparr>vt_port = of_nat (snd (rl_socket location)), vt_path_and_query = p\<rparr>))))"

definition descriptor_from :: "igd_service_kind \<Rightarrow> ipv4 \<Rightarrow> validated_target \<Rightarrow> igd_control_descriptor" where
  "descriptor_from service gateway target =
     \<lparr>igd_service = service, igd_gateway = gateway, igd_port = vt_port target,
      igd_path_and_query = vt_path_and_query target\<rparr>"

record control_choice =
  cc_ip :: "validated_target option"
  cc_ppp :: "validated_target option"
  cc_wrong_target :: bool
  cc_bad_port :: bool

fun choose_control ::
  "crates \<Rightarrow> ipv4 \<Rightarrow> string \<Rightarrow> service_candidate list \<Rightarrow> control_choice \<Rightarrow> igd_refusal + control_choice" where
  "choose_control cr gateway base [] c = Inr c"
| "choose_control cr gateway base (x # xs) c =
     (if cc_ip c \<noteq> None then Inr c
      else (case resolve_control cr gateway base (sc_control_url x) of
          Inr target \<Rightarrow>
            choose_control cr gateway base xs
              (case sc_service x of
                 WanIpConnection \<Rightarrow> c\<lparr>cc_ip := Some target\<rparr>
               | WanPppConnection \<Rightarrow> if cc_ppp c = None then c\<lparr>cc_ppp := Some target\<rparr> else c)
        | Inl IgdWrongTarget \<Rightarrow> choose_control cr gateway base xs (c\<lparr>cc_wrong_target := True\<rparr>)
        | Inl IgdMalformedPort \<Rightarrow> choose_control cr gateway base xs (c\<lparr>cc_bad_port := True\<rparr>)
        | Inl refusal \<Rightarrow> Inl refusal))"

definition select_control ::
  "crates \<Rightarrow> ipv4 \<Rightarrow> string \<Rightarrow> service_candidate list \<Rightarrow> igd_refusal + igd_control_descriptor option" where
  "select_control cr gateway base candidates =
     res_bind (choose_control cr gateway base candidates
         \<lparr>cc_ip = None, cc_ppp = None, cc_wrong_target = False, cc_bad_port = False\<rparr>) (\<lambda>c.
       case cc_ip c of
         Some target \<Rightarrow> Inr (Some (descriptor_from WanIpConnection gateway target))
       | None \<Rightarrow>
           (case cc_ppp c of
              Some target \<Rightarrow> Inr (Some (descriptor_from WanPppConnection gateway target))
            | None \<Rightarrow> if cc_wrong_target c then Inl IgdWrongTarget
                      else if cc_bad_port c then Inl IgdMalformedPort else Inr None))"

section \<open>The device description\<close>

datatype text_target = TargetIgnore | TargetServiceType | TargetControlUrl

record igd_parser =
  ip_rest :: string
  ip_depth :: nat
  ip_stack :: "(string \<times> text_target) list"
  ip_target :: text_target
  ip_buffer :: string
  ip_in_service :: bool
  ip_service_type :: "string option"
  ip_control_url :: "string option"
  ip_candidates :: "service_candidate list"

fun refusal_of :: "parse_fault \<Rightarrow> igd_refusal" where
  "refusal_of ParseMalformed = IgdMalformed"
| "refusal_of ParseEntity = IgdEntity"
| "refusal_of ParseBounded = IgdBounded"

definition service_kind :: "string \<Rightarrow> igd_service_kind option" where
  "service_kind v =
     (if v = WAN_IP_V1 \<or> v = WAN_IP_V2 then Some WanIpConnection
      else if v = WAN_PPP_V1 \<or> v = WAN_PPP_V2 then Some WanPppConnection
      else None)"

definition igd_attribute_value :: "string \<Rightarrow> igd_refusal + string" where
  "igd_attribute_value s =
     (case s of
        [] \<Rightarrow> Inl IgdMalformed
      | q # r \<Rightarrow>
          if q \<noteq> CHR 0x22 \<and> q \<noteq> CHR 0x27 then Inl IgdMalformed
          else let raw = takeWhile (\<lambda>c. c \<noteq> q \<and> c \<noteq> CHR ''<'') r
          in (case drop (length raw) r of
                [] \<Rightarrow> Inl IgdMalformed
              | e # r' \<Rightarrow>
                  if e \<noteq> q then Inl IgdMalformed
                  else res_bind (map_err refusal_of (decode_text raw)) (\<lambda>_. Inr r')))"

fun igd_attributes :: "nat \<Rightarrow> string \<Rightarrow> igd_refusal + (bool \<times> string)" where
  "igd_attributes k s =
     (let s = skip_whitespace s
      in if starts_with s ''/>'' then Inr (True, drop 2 s)
         else if starts_with s ''>'' then Inr (False, drop 1 s)
         else if s = [] then Inl IgdMalformed
         else (case k of
             0 \<Rightarrow> Inl IgdBounded
           | Suc k' \<Rightarrow>
               res_bind (map_err refusal_of (read_name s)) (\<lambda>(_, s).
                 let s = skip_whitespace s
                 in guard (starts_with s ''='') IgdMalformed
                      (res_bind (igd_attribute_value (skip_whitespace (drop 1 s))) (igd_attributes k')))))"

declare igd_attributes.simps [simp del]

definition finish_service :: "igd_parser \<Rightarrow> igd_refusal + igd_parser" where
  "finish_service x =
     (let y = x\<lparr>ip_in_service := False, ip_service_type := None, ip_control_url := None\<rparr>
      in case ip_service_type x of
           None \<Rightarrow> Inr y
         | Some t \<Rightarrow>
             (case ip_control_url x of
                None \<Rightarrow> Inr y
              | Some u \<Rightarrow>
                  (case service_kind t of
                     None \<Rightarrow> Inr y
                   | Some service \<Rightarrow>
                       guard (length (ip_candidates x) \<noteq> IGD_MAX_SERVICE_CANDIDATES) IgdBounded
                         (Inr (y\<lparr>ip_candidates := ip_candidates x @ [\<lparr>sc_service = service, sc_control_url = u\<rparr>]\<rparr>)))))"

fun text_target_of :: "string \<Rightarrow> text_target" where
  "text_target_of l = (if l = ''serviceType'' then TargetServiceType
     else if l = ''controlURL'' then TargetControlUrl else TargetIgnore)"

definition igd_open :: "string \<Rightarrow> igd_parser \<Rightarrow> igd_refusal + igd_parser" where
  "igd_open name x =
     guard (ip_depth x + 1 \<le> IGD_XML_MAX_DEPTH) IgdBounded
       (let target = text_target_of (local_name name);
            x = x\<lparr>ip_depth := ip_depth x + 1\<rparr>
        in res_bind
             (if target \<noteq> TargetIgnore
              then guard (ip_target x = TargetIgnore) IgdMalformed (Inr (x\<lparr>ip_target := target, ip_buffer := []\<rparr>))
              else Inr x)
             (\<lambda>x. Inr (x\<lparr>ip_stack := (name, target) # ip_stack x\<rparr>)))"

definition igd_start_tag :: "igd_parser \<Rightarrow> igd_refusal + igd_parser" where
  "igd_start_tag x =
     res_bind (map_err refusal_of (read_name (drop 1 (ip_rest x)))) (\<lambda>(name, s).
     res_bind (igd_attributes 16 s) (\<lambda>(self_closing, s).
       let service = (local_name name = ''service'')
       in res_bind
            (if service
             then guard (\<not> ip_in_service x) IgdMalformed
                    (Inr (x\<lparr>ip_rest := s, ip_in_service := True, ip_service_type := None, ip_control_url := None\<rparr>))
             else Inr (x\<lparr>ip_rest := s\<rparr>))
            (\<lambda>x. if self_closing then Inr (if service then x\<lparr>ip_in_service := False\<rparr> else x)
                 else igd_open name x)))"

definition trim_ascii :: "string \<Rightarrow> string" where
  "trim_ascii s = rev (dropWhile is_ascii_whitespace (rev (dropWhile is_ascii_whitespace s)))"

definition igd_store :: "text_target \<Rightarrow> igd_parser \<Rightarrow> igd_parser" where
  "igd_store target x =
     (if target = TargetIgnore then x
      else let t = trim_ascii (ip_buffer x); x = x\<lparr>ip_buffer := [], ip_target := TargetIgnore\<rparr>
      in if t = [] then x
         else (case target of
             TargetServiceType \<Rightarrow> x\<lparr>ip_service_type := Some t\<rparr>
           | TargetControlUrl \<Rightarrow> x\<lparr>ip_control_url := Some t\<rparr>
           | TargetIgnore \<Rightarrow> x))"

definition igd_end_tag :: "igd_parser \<Rightarrow> igd_refusal + igd_parser" where
  "igd_end_tag x =
     res_bind (map_err refusal_of (read_name (drop 2 (ip_rest x)))) (\<lambda>(name, s).
       let s = skip_whitespace s
       in guard (starts_with s ''>'') IgdMalformed
            (case ip_stack x of
               [] \<Rightarrow> Inl IgdMalformed
             | (frame, target) # stack \<Rightarrow>
                 guard (frame = name) IgdMalformed
                   (let x = igd_store target (x\<lparr>ip_rest := drop 1 s, ip_stack := stack,
                          ip_depth := saturating_sub (ip_depth x) 1\<rparr>)
                    in if local_name name = ''service'' then finish_service x else Inr x)))"

definition igd_skip_comment :: "igd_parser \<Rightarrow> igd_refusal + igd_parser" where
  "igd_skip_comment x =
     (case find_sub ''-->'' (ip_rest x) of
        None \<Rightarrow> Inl IgdMalformed
      | Some finish \<Rightarrow>
          guard (\<not> (finish < 4 \<or> contains_str (take (finish - 4) (drop 4 (ip_rest x))) ''--'')) IgdMalformed
            (Inr (x\<lparr>ip_rest := drop (finish + 3) (ip_rest x)\<rparr>)))"

definition igd_text :: "igd_parser \<Rightarrow> igd_refusal + igd_parser" where
  "igd_text x =
     (let raw = takeWhile (\<lambda>c. c \<noteq> CHR ''<'') (ip_rest x);
          x = x\<lparr>ip_rest := dropWhile (\<lambda>c. c \<noteq> CHR ''<'') (ip_rest x)\<rparr>
      in res_bind (map_err refusal_of (decode_text raw)) (\<lambda>t.
           if ip_target x = TargetIgnore then Inr x
           else guard (length (ip_buffer x @ t) \<le> CONTROL_LOCATION_MAX_BYTES) IgdBounded
                  (Inr (x\<lparr>ip_buffer := ip_buffer x @ t\<rparr>))))"

definition igd_markup :: "igd_parser \<Rightarrow> igd_refusal + igd_parser" where
  "igd_markup x =
     (if starts_with (ip_rest x) ''<!--'' then igd_skip_comment x
      else if starts_with (ip_rest x) ''<!['' then Inl IgdMalformed
      else if starts_with (ip_rest x) ''<!'' then Inl IgdEntity
      else if starts_with (ip_rest x) ''<?'' then Inl IgdMalformed
      else if starts_with (ip_rest x) ''</'' then igd_end_tag x
      else igd_start_tag x)"

definition igd_step :: "igd_parser \<Rightarrow> igd_refusal + igd_parser" where
  "igd_step x = (if starts_with (ip_rest x) ''<'' then igd_markup x else igd_text x)"

lemma igd_attribute_value_shorter:
  assumes "igd_attribute_value s = Inr r"
  shows "length r < length s"
proof -
  obtain q t where s: "s = q # t" using assms by (cases s) (auto simp: igd_attribute_value_def)
  let ?raw = "takeWhile (\<lambda>c. c \<noteq> q \<and> c \<noteq> CHR ''<'') t"
  obtain e r' where d: "drop (length ?raw) t = e # r'"
    using assms by (cases "drop (length ?raw) t") (auto simp: s igd_attribute_value_def Let_def split: if_splits)
  have "r = r'" using assms
    by (auto simp: s d igd_attribute_value_def Let_def res_bind_eq_Inr split: if_splits)
  moreover have "length (drop (length ?raw) t) \<le> length t" by simp
  ultimately show ?thesis using s d by simp
qed

lemma igd_attributes_shorter: "igd_attributes k s = Inr (b, r) \<Longrightarrow> length r \<le> length s"
proof (induction k arbitrary: s)
  case 0
  then show ?case using skip_whitespace_length [of s]
    by (subst (asm) igd_attributes.simps) (auto simp: Let_def split: if_splits)
next
  case (Suc k)
  let ?t = "skip_whitespace s"
  show ?case
  proof (cases "starts_with ?t ''/>'' \<or> starts_with ?t ''>'' \<or> ?t = []")
    case True
    then show ?thesis using Suc.prems skip_whitespace_length [of s]
      by (subst (asm) igd_attributes.simps) (auto simp: Let_def split: if_splits)
  next
    case False
    then obtain name t u where "read_name ?t = Inr (name, t)"
      and u: "igd_attribute_value (skip_whitespace (drop 1 (skip_whitespace t))) = Inr u"
      and "igd_attributes k u = Inr (b, r)"
      using Suc.prems
      by (subst (asm) igd_attributes.simps) (auto simp: Let_def guard_eq_Inr res_bind_eq_Inr map_err_eq_Inr)
    then have "length r \<le> length u" "length t < length ?t" using Suc.IH read_name_shorter by blast+
    moreover note igd_attribute_value_shorter [OF u] skip_whitespace_length [of s] skip_whitespace_length [of t]
      skip_whitespace_length [of "drop 1 (skip_whitespace t)"]
    ultimately show ?thesis by simp
  qed
qed

lemma finish_service_rest: "finish_service x = Inr y \<Longrightarrow> ip_rest y = ip_rest x"
  by (auto simp: finish_service_def Let_def guard_eq_Inr split: option.splits)

lemma igd_store_rest [simp]: "ip_rest (igd_store target x) = ip_rest x"
  by (cases target) (simp_all add: igd_store_def Let_def)

lemma igd_open_rest: "igd_open name x = Inr y \<Longrightarrow> ip_rest y = ip_rest x"
  by (auto simp: igd_open_def Let_def guard_eq_Inr res_bind_eq_Inr split: if_splits)

lemma igd_start_tag_shorter:
  assumes "igd_start_tag x = Inr y" "ip_rest x \<noteq> []"
  shows "length (ip_rest y) < length (ip_rest x)"
proof -
  obtain name s b t where n: "read_name (drop 1 (ip_rest x)) = Inr (name, s)"
    and a: "igd_attributes 16 s = Inr (b, t)" and y: "ip_rest y = t"
    using assms(1)
    by (auto simp: igd_start_tag_def Let_def guard_eq_Inr res_bind_eq_Inr map_err_eq_Inr
        dest: igd_open_rest split: if_splits)
  then show ?thesis using read_name_shorter [OF n] igd_attributes_shorter [OF a] by simp
qed

lemma igd_end_tag_shorter:
  assumes "igd_end_tag x = Inr y"
  shows "length (ip_rest y) < length (ip_rest x)"
proof -
  obtain name s where n: "read_name (drop 2 (ip_rest x)) = Inr (name, s)"
    using assms by (auto simp: igd_end_tag_def res_bind_eq_Inr map_err_eq_Inr)
  obtain target stack where st: "ip_stack x = (name, target) # stack"
    using assms n by (cases "ip_stack x") (auto simp: igd_end_tag_def Let_def guard_eq_Inr)
  define z where "z = igd_store target (x\<lparr>ip_rest := drop 1 (skip_whitespace s), ip_stack := stack,
    ip_depth := saturating_sub (ip_depth x) 1\<rparr>)"
  have "(if local_name name = ''service'' then finish_service z else Inr z) = Inr y"
    using assms by (auto simp: igd_end_tag_def Let_def guard_eq_Inr n st z_def split: if_splits)
  then have "ip_rest y = ip_rest z" using finish_service_rest by (auto split: if_splits)
  then show ?thesis using read_name_shorter [OF n] skip_whitespace_length [of s] by (simp add: z_def)
qed

lemma igd_skip_comment_shorter:
  "igd_skip_comment x = Inr y \<Longrightarrow> ip_rest x \<noteq> [] \<Longrightarrow> length (ip_rest y) < length (ip_rest x)"
  by (auto simp: igd_skip_comment_def guard_eq_Inr split: option.splits)

lemma igd_text_shorter:
  assumes "igd_text x = Inr y" "\<not> starts_with (ip_rest x) ''<''" "ip_rest x \<noteq> []"
  shows "length (ip_rest y) < length (ip_rest x)"
proof -
  obtain c r where x: "ip_rest x = c # r" "c \<noteq> CHR ''<''"
    using assms(2,3) by (cases "ip_rest x") (auto simp: starts_with_def split: if_splits)
  have "ip_rest y = dropWhile (\<lambda>c. c \<noteq> CHR ''<'') r"
    using assms(1) x by (auto simp: igd_text_def Let_def guard_eq_Inr res_bind_eq_Inr split: if_splits)
  then show ?thesis using x length_dropWhile_le [of "\<lambda>c. c \<noteq> CHR ''<''" r] by simp
qed

lemma igd_step_shorter:
  "igd_step x = Inr y \<Longrightarrow> ip_rest x \<noteq> [] \<Longrightarrow> length (ip_rest y) < length (ip_rest x)"
  by (auto simp: igd_step_def igd_markup_def split: if_splits
      dest: igd_start_tag_shorter igd_end_tag_shorter igd_skip_comment_shorter igd_text_shorter)

function igd_loop :: "igd_parser \<Rightarrow> igd_refusal + igd_parser" where
  "igd_loop x = (if ip_rest x = [] then Inr x else (case igd_step x of Inl e \<Rightarrow> Inl e | Inr y \<Rightarrow> igd_loop y))"
  by pat_completeness auto
termination
  by (relation "measure (\<lambda>x. length (ip_rest x))") (auto dest: igd_step_shorter)

declare igd_loop.simps [simp del]

definition igd_parser_new :: "string \<Rightarrow> igd_parser" where
  "igd_parser_new s = \<lparr>ip_rest = s, ip_depth = 0, ip_stack = [], ip_target = TargetIgnore, ip_buffer = [],
     ip_in_service = False, ip_service_type = None, ip_control_url = None, ip_candidates = []\<rparr>"

definition igd_parse :: "string \<Rightarrow> igd_refusal + igd_parser" where
  "igd_parse input =
     (let s = skip_whitespace (case strip_prefix BOM input of None \<Rightarrow> input | Some r \<Rightarrow> r)
      in res_bind
           (if starts_with s ''<?'' then res_bind (map_err refusal_of (skip_declaration s)) (\<lambda>r. Inr (skip_whitespace r))
            else Inr s)
           (\<lambda>s. res_bind (igd_loop (igd_parser_new s)) (\<lambda>x.
              guard (ip_stack x = [] \<and> \<not> ip_in_service x) IgdMalformed (Inr x))))"

definition parse_device_xml :: "bytes \<Rightarrow> igd_refusal + service_candidate list" where
  "parse_device_xml body =
     guard (length body \<le> IGD_XML_MAX_BYTES) IgdBounded
       (guard (0 \<notin> set body) IgdMalformed
         (res_bind (ok_or (from_utf8 body) IgdMalformed) (\<lambda>t.
            res_bind (igd_parse t) (\<lambda>x. Inr (ip_candidates x)))))"

section \<open>Search replies\<close>

definition ssdp_target_is_igd :: "string \<Rightarrow> bool" where
  "ssdp_target_is_igd v \<longleftrightarrow> contains_str v ''urn:schemas-upnp-org:device:InternetGatewayDevice''
     \<or> contains_str v WAN_IP_V1 \<or> contains_str v WAN_IP_V2 \<or> contains_str v WAN_PPP_V1 \<or> contains_str v WAN_PPP_V2"

fun ssdp_headers ::
  "nat \<Rightarrow> string option \<Rightarrow> string option \<Rightarrow> string list \<Rightarrow> igd_refusal + (string option \<times> string option)" where
  "ssdp_headers headers location target [] = Inr (location, target)"
| "ssdp_headers headers location target (line # ls) =
     (if starts_with line '' '' \<or> starts_with line [CHR 0x09] then Inl IgdMalformed
      else if headers + 1 > 32 then Inl IgdBounded
      else (case split_once '':'' line of
          None \<Rightarrow> Inl IgdMalformed
        | Some (name, v) \<Rightarrow>
            let v = trim v
            in if eq_ignore_ascii_case name ''LOCATION''
               then (if (case location of None \<Rightarrow> False | Some current \<Rightarrow> current \<noteq> v) then Inl IgdMalformed
                     else ssdp_headers (headers + 1) (Some v) target ls)
               else if eq_ignore_ascii_case name ''ST'' then ssdp_headers (headers + 1) location (Some v) ls
               else ssdp_headers (headers + 1) location target ls))"

definition ssdp_location :: "crates \<Rightarrow> ipv4 \<Rightarrow> bytes \<Rightarrow> igd_refusal + resolved_location" where
  "ssdp_location cr gateway reply =
     guard (0 \<notin> set reply) IgdMalformed
       (res_bind (ok_or (from_utf8 reply) IgdMalformed) (\<lambda>t.
          case filter (\<lambda>l. l \<noteq> []) (split_any (\<lambda>c. c = CHR 0x0D \<or> c = CHR 0x0A) t) of
            [] \<Rightarrow> Inl IgdMalformed
          | status # ls \<Rightarrow>
              guard (starts_with status ''HTTP/1.1 200'' \<or> starts_with status ''HTTP/1.0 200'') IgdMalformed
                (res_bind (ssdp_headers 0 None None ls) (\<lambda>(location, target).
                 res_bind (ok_or location IgdMalformed) (\<lambda>location.
                 res_bind (ok_or target IgdMalformed) (\<lambda>target.
                   guard (ssdp_target_is_igd target) IgdMalformed
                     (validate_gateway_url cr gateway location)))))))"

section \<open>Discovery\<close>

record igd_seen =
  sn_wrong_target :: bool
  sn_bad_port :: bool
  sn_malformed :: bool
  sn_fetches :: nat

definition seen_new :: igd_seen where
  "seen_new = \<lparr>sn_wrong_target = False, sn_bad_port = False, sn_malformed = False, sn_fetches = 0\<rparr>"

text \<open>The injected effects: the search, the document fetch, cancellation and the caller's deadline.\<close>

record 'w igd_host =
  ih_search :: "ipv4 \<Rightarrow> socket_addr \<Rightarrow> bytes \<Rightarrow> 'w \<Rightarrow> (igd_io_error + bytes list) \<times> 'w"
  ih_get :: "string \<Rightarrow> socket_addr \<Rightarrow> 'w \<Rightarrow> (igd_io_error + bytes) \<times> 'w"
  ih_cancelled :: "'w \<Rightarrow> bool \<times> 'w"
  ih_deadline_exceeded :: "'w \<Rightarrow> bool \<times> 'w"

text \<open>What a fetched document contributes: a final answer or what has been seen so far.\<close>

definition discover_document ::
  "crates \<Rightarrow> ipv4 \<Rightarrow> string \<Rightarrow> igd_io_error + bytes \<Rightarrow> igd_seen \<Rightarrow> igd_discovery + igd_seen" where
  "discover_document cr gateway base fetched seen =
     (case fetched of
        Inl IoMalformed \<Rightarrow> Inr (seen\<lparr>sn_malformed := True\<rparr>)
      | Inl e \<Rightarrow> Inl (io_discovery e)
      | Inr body \<Rightarrow>
          if length body > IGD_XML_MAX_BYTES then Inl (IgdRefused IgdBounded)
          else (case parse_device_xml body of
              Inl IgdMalformed \<Rightarrow> Inr (seen\<lparr>sn_malformed := True\<rparr>)
            | Inl refusal \<Rightarrow> Inl (IgdRefused refusal)
            | Inr candidates \<Rightarrow>
                (case select_control cr gateway base candidates of
                   Inr (Some descriptor) \<Rightarrow> Inl (IgdFound descriptor)
                 | Inr None \<Rightarrow> Inr seen
                 | Inl IgdWrongTarget \<Rightarrow> Inr (seen\<lparr>sn_wrong_target := True\<rparr>)
                 | Inl IgdMalformedPort \<Rightarrow> Inr (seen\<lparr>sn_bad_port := True\<rparr>)
                 | Inl refusal \<Rightarrow> Inl (IgdRefused refusal))))"

definition discover_reply ::
  "crates \<Rightarrow> ipv4 \<Rightarrow> 'w igd_host \<Rightarrow> bytes \<Rightarrow> igd_seen \<Rightarrow> 'w \<Rightarrow> (igd_discovery + igd_seen) \<times> 'w" where
  "discover_reply cr gateway h reply seen w =
     (let (stop, w) = ih_cancelled h w
      in if stop then (Inl (IgdRefused IgdCancelled), w)
         else let (late, w) = ih_deadline_exceeded h w
         in if late then (Inl (IgdRefused IgdDeadline), w)
            else if length reply > IGD_SSDP_MAX_BYTES then (Inl (IgdRefused IgdBounded), w)
            else (case ssdp_location cr gateway reply of
                Inl IgdWrongTarget \<Rightarrow> (Inr (seen\<lparr>sn_wrong_target := True\<rparr>), w)
              | Inl IgdMalformed \<Rightarrow> (Inr (seen\<lparr>sn_malformed := True\<rparr>), w)
              | Inl refusal \<Rightarrow> (Inl (IgdRefused refusal), w)
              | Inr location \<Rightarrow>
                  if sn_fetches seen = IGD_MAX_DOCUMENT_FETCHES then (Inl (IgdRefused IgdBounded), w)
                  else let (fetched, w) = ih_get h (rl_url location) (rl_socket location) w
                  in (discover_document cr gateway (rl_url location) fetched
                        (seen\<lparr>sn_fetches := sn_fetches seen + 1\<rparr>), w)))"

fun discover_replies ::
  "crates \<Rightarrow> ipv4 \<Rightarrow> 'w igd_host \<Rightarrow> bytes list \<Rightarrow> igd_seen \<Rightarrow> 'w \<Rightarrow> igd_discovery \<times> 'w" where
  "discover_replies cr gateway h [] seen w =
     (if sn_wrong_target seen then IgdRefused IgdWrongTarget
      else if sn_bad_port seen then IgdRefused IgdMalformedPort
      else if sn_malformed seen then IgdRefused IgdMalformed
      else IgdNotAdvertised, w)"
| "discover_replies cr gateway h (reply # replies) seen w =
     (case discover_reply cr gateway h reply seen w of
        (Inl result, w) \<Rightarrow> (result, w)
      | (Inr seen, w) \<Rightarrow> discover_replies cr gateway h replies seen w)"

definition discover_igd :: "crates \<Rightarrow> selected_gateway \<Rightarrow> 'w igd_host \<Rightarrow> 'w \<Rightarrow> igd_discovery \<times> 'w" where
  "discover_igd cr gateway h w =
     (let (stop, w) = ih_cancelled h w
      in if stop then (IgdRefused IgdCancelled, w)
         else let (late, w) = ih_deadline_exceeded h w
         in if late then (IgdRefused IgdDeadline, w)
            else (case ih_search h (sg_gateway gateway) (IGD_SSDP_ADDRESS, IGD_SSDP_PORT) (as_bytes SSDP_MSEARCH) w of
                (Inl e, w) \<Rightarrow> (io_discovery e, w)
              | (Inr replies, w) \<Rightarrow>
                  if length replies > IGD_SSDP_MAX_REPLIES then (IgdRefused IgdBounded, w)
                  else discover_replies cr (sg_gateway gateway) h replies seen_new w))"

definition discover_igd_from_routes ::
  "crates \<Rightarrow> route_record list \<Rightarrow> 'w igd_host \<Rightarrow> 'w \<Rightarrow> igd_discovery \<times> 'w" where
  "discover_igd_from_routes cr routes h w =
     (case discover_loaded routes (ih_cancelled h) w of
        (Selected gateway, w) \<Rightarrow> discover_igd cr gateway h w
      | (Unsupported, w) \<Rightarrow> (IgdUnsupported, w)
      | (InvalidGateway, w) \<Rightarrow> (IgdRefused IgdWrongTarget, w)
      | (DiscoveryCancelled, w) \<Rightarrow> (IgdRefused IgdCancelled, w)
      | (DiscoveryBounded, w) \<Rightarrow> (IgdRefused IgdBounded, w))"

section \<open>The host transports\<close>

text \<open>
  A UDP socket: binding, the multicast interface, the read timeout, sending and receiving. A datagram
  longer than the buffer is cut off by the system. Time is in nanoseconds.
\<close>

datatype recv_result = Received bytes ipv4 | RecvTimeout | RecvInterrupted | RecvFailed

record 'w ssdp_host =
  sh_bind :: "'w \<Rightarrow> bool \<times> 'w"
  sh_interface :: "nat \<Rightarrow> 'w \<Rightarrow> bool \<times> 'w"
  sh_set_read_timeout :: "duration \<Rightarrow> 'w \<Rightarrow> bool \<times> 'w"
  sh_send_to :: "bytes \<Rightarrow> socket_addr \<Rightarrow> 'w \<Rightarrow> bool \<times> 'w"
  sh_recv_from :: "'w \<Rightarrow> recv_result \<times> 'w"
  sh_now :: "'w \<Rightarrow> nat \<times> 'w"
  sh_cancelled :: "'w \<Rightarrow> bool \<times> 'w"
  sh_deadline_exceeded :: "'w \<Rightarrow> bool \<times> 'w"

definition bind_multicast_interface :: "'w ssdp_host \<Rightarrow> u32 \<Rightarrow> 'w \<Rightarrow> bool \<times> 'w" where
  "bind_multicast_interface h interface_index w =
     (if unat interface_index \<ge> 2 ^ 31 then (False, w) else sh_interface h (unat interface_index) w)"

text \<open>\<open>None\<close> when the fuel ends before the loop does.\<close>

fun ssdp_receive ::
  "nat \<Rightarrow> 'w ssdp_host \<Rightarrow> ipv4 \<Rightarrow> duration \<Rightarrow> nat \<Rightarrow> bytes list \<Rightarrow> 'w \<Rightarrow> ((igd_io_error + bytes list) \<times> 'w) option" where
  "ssdp_receive 0 h gateway budget started replies w = None"
| "ssdp_receive (Suc fuel) h gateway budget started replies w =
     (let (now, w) = sh_now h w
      in if \<not> (saturating_sub now started < budget \<and> length replies < IGD_SSDP_MAX_REPLIES)
         then Some (Inr replies, w)
         else let (stop, w) = sh_cancelled h w
         in if stop then Some (Inl IoCancelled, w)
            else let (late, w) = sh_deadline_exceeded h w
            in if late then Some (Inl IoDeadline, w)
               else let (r, w) = sh_recv_from h w
               in case r of
                    Received datagram source \<Rightarrow>
                      let received = take (IGD_SSDP_MAX_BYTES + 1) datagram
                      in if source \<noteq> gateway then ssdp_receive fuel h gateway budget started replies w
                         else if received = [] then ssdp_receive fuel h gateway budget started replies w
                         else if length received > IGD_SSDP_MAX_BYTES then Some (Inl IoBounded, w)
                         else ssdp_receive fuel h gateway budget started (replies @ [received]) w
                  | RecvTimeout \<Rightarrow>
                      if replies \<noteq> [] then Some (Inr replies, w)
                      else ssdp_receive fuel h gateway budget started replies w
                  | RecvInterrupted \<Rightarrow> ssdp_receive fuel h gateway budget started replies w
                  | RecvFailed \<Rightarrow> Some (Inl IoUnavailable, w))"

definition ssdp_open ::
  "'w ssdp_host \<Rightarrow> socket_addr \<Rightarrow> u32 \<Rightarrow> bytes \<Rightarrow> 'w \<Rightarrow> bool \<times> 'w" where
  "ssdp_open h destination interface_index request w =
     (let (bound, w) = sh_bind h w
      in if \<not> bound then (False, w)
         else let (ok, w) = (if is_multicast (fst destination) \<and> interface_index \<noteq> 0
                             then bind_multicast_interface h interface_index w else (True, w))
         in if \<not> ok then (False, w)
            else let (ok, w) = sh_set_read_timeout h (from_millis 50) w
            in if \<not> ok then (False, w) else sh_send_to h request destination w)"

definition exchange_ssdp ::
  "nat \<Rightarrow> 'w ssdp_host \<Rightarrow> ipv4 \<Rightarrow> socket_addr \<Rightarrow> u32 \<Rightarrow> bytes \<Rightarrow> duration \<Rightarrow> 'w
     \<Rightarrow> ((igd_io_error + bytes list) \<times> 'w) option" where
  "exchange_ssdp fuel h gateway destination interface_index request budget w =
     (let (stop, w) = sh_cancelled h w
      in if stop then Some (Inl IoCancelled, w)
         else let (late, w) = sh_deadline_exceeded h w
         in if late then Some (Inl IoDeadline, w)
            else if request = [] \<or> length request > IGD_SSDP_MAX_BYTES then Some (Inl IoBounded, w)
            else let (ok, w) = ssdp_open h destination interface_index request w
            in if \<not> ok then Some (Inl IoUnavailable, w)
               else let (started, w) = sh_now h w
               in ssdp_receive fuel h gateway budget started [] w)"

text \<open>A TCP stream: connecting, its timeouts, writing and reading, each with the failures the code tells apart.\<close>

datatype stream_error = StreamTimeout | StreamInterrupted | StreamFailed

record 'w http_host =
  hh_connect :: "socket_addr \<Rightarrow> duration \<Rightarrow> 'w \<Rightarrow> (stream_error + unit) \<times> 'w"
  hh_set_read_timeout :: "duration \<Rightarrow> 'w \<Rightarrow> bool \<times> 'w"
  hh_set_write_timeout :: "duration \<Rightarrow> 'w \<Rightarrow> bool \<times> 'w"
  hh_write_all :: "bytes \<Rightarrow> 'w \<Rightarrow> (stream_error + unit) \<times> 'w"
  hh_read :: "'w \<Rightarrow> (stream_error + bytes) \<times> 'w"
  hh_now :: "'w \<Rightarrow> nat \<times> 'w"
  hh_cancelled :: "'w \<Rightarrow> bool \<times> 'w"
  hh_deadline_exceeded :: "'w \<Rightarrow> bool \<times> 'w"

definition budget_left :: "'w http_host \<Rightarrow> nat \<Rightarrow> 'w \<Rightarrow> (igd_io_error + duration) \<times> 'w" where
  "budget_left h started w =
     (let (now, w) = hh_now h w; elapsed = saturating_sub now started
      in (if elapsed < IGD_HTTP_BUDGET then Inr (IGD_HTTP_BUDGET - elapsed) else Inl IoDeadline, w))"

fun http_response_headers :: "nat \<Rightarrow> nat option \<Rightarrow> string list \<Rightarrow> igd_io_error + nat option" where
  "http_response_headers headers content_length [] = Inr content_length"
| "http_response_headers headers content_length (line # ls) =
     (if headers + 1 > 32 \<or> starts_with line '' '' \<or> starts_with line [CHR 0x09] then Inl IoMalformed
      else (case split_once '':'' line of
          None \<Rightarrow> Inl IoMalformed
        | Some (name, v) \<Rightarrow>
            if eq_ignore_ascii_case name ''Transfer-Encoding'' \<and> \<not> eq_ignore_ascii_case (trim v) ''identity''
            then Inl IoMalformed
            else if eq_ignore_ascii_case name ''Content-Length''
            then (case from_str_radix u64_max 10 (trim v) of
                None \<Rightarrow> Inl IoMalformed
              | Some n \<Rightarrow> http_response_headers (headers + 1) (Some n) ls)
            else http_response_headers (headers + 1) content_length ls))"

definition parse_http_response :: "bytes \<Rightarrow> igd_io_error + bytes" where
  "parse_http_response raw =
     res_bind (ok_or (from_utf8 raw) IoMalformed) (\<lambda>t.
     res_bind (ok_or (split_once (CRLF @ CRLF) t) IoMalformed) (\<lambda>(head, body).
       case split_str CRLF head of
         [] \<Rightarrow> Inl IoMalformed
       | status # ls \<Rightarrow>
           res_bind (ok_or (nth_opt (split_whitespace status) 1) IoMalformed) (\<lambda>number.
             guard (number \<notin> {''301'', ''302'', ''303'', ''307'', ''308''}) IoRedirect
            (guard (number = ''200'') IoMalformed
            (res_bind (http_response_headers 0 None ls) (\<lambda>content_length.
               guard (\<not> ((case content_length of None \<Rightarrow> False | Some l \<Rightarrow> l > IGD_XML_MAX_BYTES)
                        \<or> length body > IGD_XML_MAX_BYTES)) IoBounded
              (guard (case content_length of None \<Rightarrow> True | Some l \<Rightarrow> length body = l) IoMalformed
                (Inr (as_bytes body)))))))))"

definition HTTP_LIMIT :: nat where "HTTP_LIMIT = 8 * 1024 + IGD_XML_MAX_BYTES"

fun http_receive :: "nat \<Rightarrow> 'w http_host \<Rightarrow> nat \<Rightarrow> bytes \<Rightarrow> 'w \<Rightarrow> ((igd_io_error + bytes) \<times> 'w) option" where
  "http_receive 0 h started raw w = None"
| "http_receive (Suc fuel) h started raw w =
     (let (stop, w) = hh_cancelled h w
      in if stop then Some (Inl IoCancelled, w)
         else let (late, w) = hh_deadline_exceeded h w
         in if late then Some (Inl IoDeadline, w)
            else (case budget_left h started w of
                (Inl e, w) \<Rightarrow> Some (Inl e, w)
              | (Inr left, w) \<Rightarrow>
                  let (ok, w) = hh_set_read_timeout h left w
                  in if \<not> ok then Some (Inl IoUnavailable, w)
                     else (case hh_read h w of
                         (Inr chunk, w) \<Rightarrow>
                           let chunk = take 1024 chunk
                           in if chunk = [] then Some (Inr raw, w)
                              else if length raw + length chunk > HTTP_LIMIT then Some (Inl IoBounded, w)
                              else http_receive fuel h started (raw @ chunk) w
                       | (Inl StreamInterrupted, w) \<Rightarrow> http_receive fuel h started raw w
                       | (Inl StreamTimeout, w) \<Rightarrow> Some (Inl IoDeadline, w)
                       | (Inl StreamFailed, w) \<Rightarrow> Some (Inl IoUnavailable, w))))"

definition http_request :: "string \<Rightarrow> string \<Rightarrow> string" where
  "http_request host path_and_query =
     ''GET '' @ path_and_query @ '' HTTP/1.0'' @ CRLF @ ''Host: '' @ host @ CRLF @ ''Connection: close'' @ CRLF @ CRLF"

text \<open>Connecting, the timeouts and the request, in one budget.\<close>

definition http_open ::
  "'w http_host \<Rightarrow> socket_addr \<Rightarrow> bytes \<Rightarrow> nat \<Rightarrow> 'w \<Rightarrow> (igd_io_error + unit) \<times> 'w" where
  "http_open h socket request started w =
     (case budget_left h started w of
        (Inl e, w) \<Rightarrow> (Inl e, w)
      | (Inr left, w) \<Rightarrow>
     (case hh_connect h socket left w of
        (Inl StreamTimeout, w) \<Rightarrow> (Inl IoDeadline, w)
      | (Inl _, w) \<Rightarrow> (Inl IoUnavailable, w)
      | (Inr _, w) \<Rightarrow>
     (case budget_left h started w of
        (Inl e, w) \<Rightarrow> (Inl e, w)
      | (Inr left, w) \<Rightarrow>
          let (ok, w) = hh_set_read_timeout h left w
          in if \<not> ok then (Inl IoUnavailable, w)
             else let (ok, w) = hh_set_write_timeout h left w
             in if \<not> ok then (Inl IoUnavailable, w)
                else if length request > CONTROL_MAX_BYTES then (Inl IoBounded, w)
                else (case hh_write_all h request w of
                    (Inl StreamTimeout, w) \<Rightarrow> (Inl IoDeadline, w)
                  | (Inl _, w) \<Rightarrow> (Inl IoUnavailable, w)
                  | (Inr _, w) \<Rightarrow> (Inr (), w)))))"

definition bounded_http_get ::
  "nat \<Rightarrow> 'w http_host \<Rightarrow> socket_addr \<Rightarrow> string \<Rightarrow> string \<Rightarrow> 'w \<Rightarrow> ((igd_io_error + bytes) \<times> 'w) option" where
  "bounded_http_get fuel h socket host path_and_query w =
     (let (stop, w) = hh_cancelled h w
      in if stop then Some (Inl IoCancelled, w)
         else let (late, w) = hh_deadline_exceeded h w
         in if late then Some (Inl IoDeadline, w)
            else if \<not> starts_with path_and_query ''/'' \<or> \<not> plain_text path_and_query \<or> \<not> plain_text host
            then Some (Inl IoMalformed, w)
            else let (started, w) = hh_now h w
            in (case http_open h socket (as_bytes (http_request host path_and_query)) started w of
                  (Inl e, w) \<Rightarrow> Some (Inl e, w)
                | (Inr _, w) \<Rightarrow>
                    map_option (\<lambda>(r, w). (res_bind r parse_http_response, w)) (http_receive fuel h started [] w)))"

definition host_documents_get ::
  "nat \<Rightarrow> 'w http_host \<Rightarrow> string \<Rightarrow> socket_addr \<Rightarrow> 'w \<Rightarrow> ((igd_io_error + bytes) \<times> 'w) option" where
  "host_documents_get fuel h u socket w =
     (case url_rest u of
        None \<Rightarrow> Some (Inl IoMalformed, w)
      | Some path \<Rightarrow>
          bounded_http_get fuel h socket (show_ipv4 (fst socket) @ '':'' @ show_nat (snd socket)) path w)"

end
