(* ===== verification/IgdProofs.thy ===== *)
theory IgdProofs
  imports Igd Upnp
begin

text \<open>
  Discovery of a UPnP gateway stays with the selected gateway: what is fetched, what is found, and that
  the mapping dialogue can address it. Documented behaviour of the URL crate is stated as \<open>url_laws\<close>.
\<close>

section \<open>Addresses at the gateway\<close>

text \<open>
  The URL crate: the path of an \<open>http\<close> URL starts with a slash and its port has sixteen bits; a text made
  of an address, a port and such a path is parsed into these parts.
\<close>

definition url_laws :: "crates \<Rightarrow> bool" where
  "url_laws cr \<longleftrightarrow>
     (\<forall>t u. url_parse cr t = Some u \<longrightarrow> url_scheme u = ''http'' \<longrightarrow> starts_with (url_path u) ''/''
        \<and> (\<forall>p. url_port_or_default u = Some p \<longrightarrow> p \<le> u16_max))
     \<and> (\<forall>a p r. 0 < p \<longrightarrow> p \<le> u16_max \<longrightarrow> starts_with r ''/'' \<longrightarrow>
        (\<exists>u. url_parse cr (''http://'' @ show_ipv4 a @ '':'' @ show_nat p @ r) = Some u \<and> url_scheme u = ''http''
           \<and> url_username u = [] \<and> url_password u = None \<and> url_host_ipv4 u = Some a \<and> url_port_or_default u = Some p))"

definition gateway_url :: "ipv4 \<Rightarrow> nat \<Rightarrow> string \<Rightarrow> string" where
  "gateway_url gateway port path = ''http://'' @ show_ipv4 gateway @ '':'' @ show_nat port @ path"

definition url_at_gateway :: "ipv4 \<Rightarrow> nat \<Rightarrow> string \<Rightarrow> bool" where
  "url_at_gateway gateway port path \<longleftrightarrow> 0 < port \<and> port \<le> u16_max \<and> starts_with path ''/''
     \<and> length (gateway_url gateway port path) \<le> CONTROL_LOCATION_MAX_BYTES"

lemma starts_with_iff: "starts_with s p \<longleftrightarrow> (\<exists>r. s = p @ r)"
  by (auto simp: starts_with_def strip_prefix_Some not_None_eq)

lemma validate_gateway_url_Inr:
  assumes "url_laws cr" "validate_gateway_url cr gateway raw = Inr loc"
  obtains port path where "url_at_gateway gateway port path" "rl_url loc = gateway_url gateway port path"
    "rl_socket loc = (gateway, port)"
proof -
  obtain u where u: "url_parse cr raw = Some u" "gateway_url_parts gateway u = Inr loc"
    using assms(2) unfolding validate_gateway_url_def guard_eq_Inr by (auto split: option.splits)
  define q where "q = (case url_query u of None \<Rightarrow> [] | Some query \<Rightarrow> ''?'' @ query)"
  obtain port where p: "url_scheme u = ''http''" "url_port_or_default u = Some port" "port \<noteq> 0"
      "rl_url loc = gateway_url gateway port (url_path u @ q)" "rl_socket loc = (gateway, port)"
      "length (gateway_url gateway port (url_path u @ q)) \<le> CONTROL_LOCATION_MAX_BYTES"
    using u(2) unfolding gateway_url_parts_def Let_def guard_eq_Inr res_bind_eq_Inr ok_or_eq_Inr
    by (auto simp: q_def gateway_url_def guard_eq_Inr split: option.splits)
  have "starts_with (url_path u) ''/''" "port \<le> u16_max"
    using assms(1) u(1) p(1,2) unfolding url_laws_def by blast+
  then have "url_at_gateway gateway port (url_path u @ q)" using p by (auto simp: url_at_gateway_def starts_with_iff)
  then show thesis using that p by blast
qed

lemma find_sub_char: "d \<notin> set p \<Longrightarrow> find_sub [d] (p @ d # s) = Some (length p)"
  by (induction p) auto

lemma url_rest_gateway:
  assumes "starts_with path ''/''"
  shows "url_rest (gateway_url gateway port path) = Some path"
proof -
  obtain r where r: "path = CHR ''/'' # r" using assms by (auto simp: starts_with_iff)
  let ?a = "show_ipv4 gateway @ '':'' @ show_nat port"
  have "split_once ''://'' (gateway_url gateway port path) = Some (''http'', ?a @ path)"
    by (simp add: split_once_def gateway_url_def)
  moreover have "CHR ''/'' \<notin> set ?a"
    using show_ipv4_chars [of "CHR ''/''" gateway] show_nat_chars [of "CHR ''/''" port] by (auto simp: is_ascii_digit_def)
  then have "find_sub ''/'' (?a @ path) = Some (length ?a)" using find_sub_char unfolding r by blast
  ultimately show ?thesis by (simp add: url_rest_def)
qed

lemma resolve_control_Inr:
  assumes "url_laws cr" "resolve_control cr gateway base control = Inr target"
  shows "url_at_gateway gateway (unat (vt_port target)) (vt_path_and_query target)"
proof -
  obtain joined loc p where v: "validate_gateway_url cr gateway joined = Inr loc" and p: "url_rest (rl_url loc) = Some p"
    and t: "target = \<lparr>vt_port = of_nat (snd (rl_socket loc)), vt_path_and_query = p\<rparr>"
    using assms(2) by (auto simp: resolve_control_def res_bind_eq_Inr ok_or_eq_Inr split: option.splits)
  obtain port path where g: "url_at_gateway gateway port path" "rl_url loc = gateway_url gateway port path"
      "rl_socket loc = (gateway, port)" using validate_gateway_url_Inr [OF assms(1) v] .
  have "p = path" using url_rest_gateway [of path gateway port] g p by (simp add: url_at_gateway_def)
  moreover have "unat (of_nat port :: u16) = port"
    using g(1) by (simp add: url_at_gateway_def u16_max_def unat_of_nat take_bit_eq_mod)
  ultimately show ?thesis using g t by simp
qed

definition choice_ok :: "ipv4 \<Rightarrow> control_choice \<Rightarrow> bool" where
  "choice_ok gateway c \<longleftrightarrow> (\<forall>t. cc_ip c = Some t \<or> cc_ppp c = Some t \<longrightarrow>
     url_at_gateway gateway (unat (vt_port t)) (vt_path_and_query t))"

lemma choose_control_ok:
  assumes "url_laws cr" "choice_ok gateway c" "choose_control cr gateway base xs c = Inr c'"
  shows "choice_ok gateway c'"
  using assms(2,3)
proof (induction xs arbitrary: c)
  case (Cons x xs)
  show ?case
  proof (cases "cc_ip c")
    case None
    show ?thesis
    proof (cases "resolve_control cr gateway base (sc_control_url x)")
      case (Inl e)
      have "choice_ok gateway (c\<lparr>cc_wrong_target := True\<rparr>)" "choice_ok gateway (c\<lparr>cc_bad_port := True\<rparr>)"
        using Cons.prems(1) by (simp_all add: choice_ok_def)
      then show ?thesis using Cons.IH Cons.prems(2) None Inl by (cases e) auto
    next
      case (Inr target)
      let ?c = "case sc_service x of WanIpConnection \<Rightarrow> c\<lparr>cc_ip := Some target\<rparr>
        | WanPppConnection \<Rightarrow> if cc_ppp c = None then c\<lparr>cc_ppp := Some target\<rparr> else c"
      have "choice_ok gateway ?c" using Cons.prems(1) resolve_control_Inr [OF assms(1) Inr]
        by (auto simp: choice_ok_def split: igd_service_kind.split)
      moreover have "choose_control cr gateway base xs ?c = Inr c'" using Cons.prems(2) None Inr by simp
      ultimately show ?thesis by (rule Cons.IH)
    qed
  qed (use Cons.prems in auto)
qed simp

lemma select_control_ok:
  assumes "url_laws cr" "select_control cr gateway base candidates = Inr (Some d)"
  shows "igd_gateway d = gateway" "url_at_gateway gateway (unat (igd_port d)) (igd_path_and_query d)"
proof -
  obtain c where c: "choose_control cr gateway base candidates
      \<lparr>cc_ip = None, cc_ppp = None, cc_wrong_target = False, cc_bad_port = False\<rparr> = Inr c"
    and s: "(case cc_ip c of
         Some target \<Rightarrow> Inr (Some (descriptor_from WanIpConnection gateway target))
       | None \<Rightarrow> (case cc_ppp c of
              Some target \<Rightarrow> Inr (Some (descriptor_from WanPppConnection gateway target))
            | None \<Rightarrow> if cc_wrong_target c then Inl IgdWrongTarget
                      else if cc_bad_port c then Inl IgdMalformedPort else Inr None)) = Inr (Some d)"
    using assms(2) unfolding select_control_def res_bind_eq_Inr by blast
  have "choice_ok gateway c" using choose_control_ok [OF assms(1) _ c] by (simp add: choice_ok_def)
  moreover obtain service t where "d = descriptor_from service gateway t" "cc_ip c = Some t \<or> cc_ppp c = Some t"
    using s by (cases "cc_ip c"; cases "cc_ppp c"; simp split: if_splits) metis+
  ultimately show "igd_gateway d = gateway" "url_at_gateway gateway (unat (igd_port d)) (igd_path_and_query d)"
    unfolding choice_ok_def by (auto simp: descriptor_from_def)
qed

section \<open>The observed discovery\<close>

datatype igd_event = EvSearch socket_addr bytes | EvGet string socket_addr

definition observed_igd :: "'w igd_host \<Rightarrow> ('w \<times> igd_event list) igd_host" where
  "observed_igd h =
     \<lparr>ih_search = (\<lambda>g d q (w, log). let (r, w') = ih_search h g d q w in (r, w', log @ [EvSearch d q])),
      ih_get = (\<lambda>u d (w, log). let (r, w') = ih_get h u d w in (r, w', log @ [EvGet u d])),
      ih_cancelled = (\<lambda>(w, log). let (b, w') = ih_cancelled h w in (b, w', log)),
      ih_deadline_exceeded = (\<lambda>(w, log). let (b, w') = ih_deadline_exceeded h w in (b, w', log))\<rparr>"

definition found_ok :: "ipv4 \<Rightarrow> igd_discovery \<Rightarrow> bool" where
  "found_ok gateway r \<longleftrightarrow> (case r of
     IgdFound d \<Rightarrow> igd_gateway d = gateway \<and> url_at_gateway gateway (unat (igd_port d)) (igd_path_and_query d)
   | _ \<Rightarrow> True)"

lemma found_ok_simps [simp]:
  "found_ok gateway IgdUnsupported" "found_ok gateway IgdNotAdvertised" "found_ok gateway (IgdRefused e)"
  "found_ok gateway (io_discovery x)"
  by (simp_all add: found_ok_def) (cases x; simp)

definition fetch_ok :: "ipv4 \<Rightarrow> igd_event \<Rightarrow> bool" where
  "fetch_ok gateway e \<longleftrightarrow> (case e of
     EvSearch _ _ \<Rightarrow> False
   | EvGet u d \<Rightarrow> \<exists>port path. url_at_gateway gateway port path \<and> u = gateway_url gateway port path \<and> d = (gateway, port))"

lemma discover_document_cases:
  fixes cr gateway base fetched seen
  defines "r \<equiv> discover_document cr gateway base fetched seen"
  obtains (seen) seen' where "r = Inr seen'" "sn_fetches seen' = sn_fetches seen"
    | (found) candidates d where "select_control cr gateway base candidates = Inr (Some d)" "r = Inl (IgdFound d)"
    | (stopped) e where "r = Inl (IgdRefused e)" | (io) e where "r = Inl (io_discovery e)"
proof (cases fetched)
  case (Inl e)
  then have "r = (if e = IoMalformed then Inr (seen\<lparr>sn_malformed := True\<rparr>) else Inl (io_discovery e))"
    unfolding r_def discover_document_def by (cases e) simp_all
  then show thesis using seen io by (cases "e = IoMalformed") simp_all
next
  case fetched: (Inr body)
  show thesis
  proof (cases "length body > IGD_XML_MAX_BYTES")
    case False
    show thesis
    proof (cases "parse_device_xml body")
      case (Inl e)
      then show thesis using fetched False seen stopped by (cases e) (simp_all add: r_def discover_document_def)
    next
      case parsed: (Inr candidates)
      show thesis
      proof (cases "select_control cr gateway base candidates")
        case (Inl e)
        then show thesis using fetched False parsed seen stopped by (cases e) (simp_all add: r_def discover_document_def)
      next
        case (Inr choice)
        then show thesis using fetched False parsed seen found
          by (cases choice) (simp_all add: r_def discover_document_def)
      qed
    qed
  qed (use fetched stopped in \<open>simp add: r_def discover_document_def\<close>)
qed

lemma discover_document_ok:
  assumes "url_laws cr"
  shows "case discover_document cr gateway base fetched seen of
    Inl result \<Rightarrow> found_ok gateway result | Inr seen' \<Rightarrow> sn_fetches seen' = sn_fetches seen"
proof (cases rule: discover_document_cases [of cr gateway base fetched seen])
  case (found candidates d)
  then show ?thesis using select_control_ok [OF assms found(1)] by (simp add: found_ok_def)
qed simp_all

lemma ssdp_location_Inr:
  assumes "ssdp_location cr gateway reply = Inr loc"
  obtains raw where "validate_gateway_url cr gateway raw = Inr loc"
proof -
  obtain t where t: "from_utf8 reply = Some t"
    using assms by (auto simp: ssdp_location_def guard_eq_Inr res_bind_eq_Inr ok_or_eq_Inr)
  let ?ls = "filter (\<lambda>l. l \<noteq> []) (split_any (\<lambda>c. c = CHR 0x0D \<or> c = CHR 0x0A) t)"
  show thesis
    using assms that unfolding ssdp_location_def t ok_or_simps res_bind_simps
    by (cases ?ls) (auto simp: guard_eq_Inr res_bind_eq_Inr ok_or_eq_Inr)
qed

text \<open>The interface of discovery to its host: a log of the searches and of the fetched documents.\<close>

locale igd_link =
  fixes h :: "'w igd_host" and log :: "'w \<Rightarrow> igd_event list"
  assumes log_search: "log (snd (ih_search h g d q w)) = log w @ [EvSearch d q]"
    and log_get: "log (snd (ih_get h u d w)) = log w @ [EvGet u d]"
    and log_cancelled: "log (snd (ih_cancelled h w)) = log w"
    and log_deadline: "log (snd (ih_deadline_exceeded h w)) = log w"
begin

lemma discover_reply_log:
  assumes laws: "url_laws cr" and le: "sn_fetches seen \<le> IGD_MAX_DOCUMENT_FETCHES"
    and run: "discover_reply cr gateway h reply seen w = (r, w')"
  shows "\<exists>es. log w' = log w @ es \<and> list_all (fetch_ok gateway) es
    \<and> sn_fetches seen + length es \<le> IGD_MAX_DOCUMENT_FETCHES
    \<and> (case r of Inl result \<Rightarrow> found_ok gateway result | Inr seen' \<Rightarrow> sn_fetches seen' = sn_fetches seen + length es)"
proof -
  obtain stop w1 where c: "ih_cancelled h w = (stop, w1)" by (metis surj_pair)
  obtain late w2 where l: "ih_deadline_exceeded h w1 = (late, w2)" by (metis surj_pair)
  have log2: "log w1 = log w" "log w2 = log w"
    using log_cancelled [of w] c log_deadline [of w1] l by simp_all
  note run = run [unfolded discover_reply_def Let_def c l prod.case]
  have quiet: ?thesis if "w' = w1 \<or> w' = w2"
      "case r of Inl result \<Rightarrow> found_ok gateway result | Inr seen' \<Rightarrow> sn_fetches seen' = sn_fetches seen"
    using that log2 le by (cases r) (auto intro!: exI [of _ "[]"])
  show ?thesis
  proof (cases "stop \<or> late \<or> length reply > IGD_SSDP_MAX_BYTES")
    case True
    then show ?thesis using run by (intro quiet) (auto split: if_splits)
  next
    case go: False
    show ?thesis
    proof (cases "ssdp_location cr gateway reply")
      case (Inl e)
      have "w' = w2" using run go Inl by (cases e) simp_all
      moreover have "case r of Inl result \<Rightarrow> found_ok gateway result | Inr seen' \<Rightarrow> sn_fetches seen' = sn_fetches seen"
        using run go Inl by (cases e) auto
      ultimately show ?thesis by (intro quiet) simp_all
    next
      case loc: (Inr loc)
      obtain raw where raw: "validate_gateway_url cr gateway raw = Inr loc" using ssdp_location_Inr [OF loc] .
      obtain port path where "url_at_gateway gateway port path" "rl_url loc = gateway_url gateway port path"
        "rl_socket loc = (gateway, port)" using validate_gateway_url_Inr [OF laws raw] .
      then have ok: "fetch_ok gateway (EvGet (rl_url loc) (rl_socket loc))" by (auto simp: fetch_ok_def)
      obtain fetched w3 where g: "ih_get h (rl_url loc) (rl_socket loc) w2 = (fetched, w3)" by (metis surj_pair)
      have l3: "log w3 = log w @ [EvGet (rl_url loc) (rl_socket loc)]"
        using log_get [of "rl_url loc" "rl_socket loc" w2] g log2 by simp
      show ?thesis
      proof (cases "sn_fetches seen = IGD_MAX_DOCUMENT_FETCHES")
        case True
        then show ?thesis using run go loc by (intro quiet) auto
      next
        case False
        then have res: "r = discover_document cr gateway (rl_url loc) fetched (seen\<lparr>sn_fetches := sn_fetches seen + 1\<rparr>)"
            "w' = w3"
          using run go loc g by auto
        show ?thesis
          using discover_document_ok [OF laws, where gateway = gateway and base = "rl_url loc" and fetched = fetched
              and seen = "seen\<lparr>sn_fetches := sn_fetches seen + 1\<rparr>"]
            ok l3 False le
          unfolding res(1) [symmetric] res(2)
          by (intro exI [of _ "[EvGet (rl_url loc) (rl_socket loc)]"]) (cases r; simp)
      qed
    qed
  qed
qed

lemma discover_replies_log:
  assumes "url_laws cr" "sn_fetches seen \<le> IGD_MAX_DOCUMENT_FETCHES"
    "discover_replies cr gateway h replies seen w = (result, w')"
  shows "\<exists>es. log w' = log w @ es \<and> list_all (fetch_ok gateway) es
    \<and> sn_fetches seen + length es \<le> IGD_MAX_DOCUMENT_FETCHES \<and> found_ok gateway result"
  using assms(2,3)
proof (induction replies arbitrary: seen w)
  case Nil
  then show ?case by (intro exI [of _ "[]"]) (auto split: if_splits)
next
  case (Cons reply replies)
  obtain r w1 where r: "discover_reply cr gateway h reply seen w = (r, w1)" by (metis surj_pair)
  obtain es where es: "log w1 = log w @ es" "list_all (fetch_ok gateway) es"
      "sn_fetches seen + length es \<le> IGD_MAX_DOCUMENT_FETCHES"
      "case r of Inl result \<Rightarrow> found_ok gateway result | Inr seen' \<Rightarrow> sn_fetches seen' = sn_fetches seen + length es"
    using discover_reply_log [OF assms(1) Cons.prems(1) r] by blast
  show ?case
  proof (cases r)
    case (Inl x)
    then show ?thesis using es Cons.prems(2) r by (intro exI [of _ es]) auto
  next
    case (Inr seen')
    then obtain es' where "log w' = log w1 @ es'" "list_all (fetch_ok gateway) es'"
        "sn_fetches seen' + length es' \<le> IGD_MAX_DOCUMENT_FETCHES" "found_ok gateway result"
      using Cons.IH [of seen' w1] Cons.prems(2) es r by auto
    then show ?thesis using es Inr by (intro exI [of _ "es @ es'"]) auto
  qed
qed

lemma discover_igd_log:
  assumes "url_laws cr" "discover_igd cr gateway h w = (result, w')"
  shows "found_ok (sg_gateway gateway) result \<and> (\<exists>es. list_all (fetch_ok (sg_gateway gateway)) es
    \<and> length es \<le> IGD_MAX_DOCUMENT_FETCHES
    \<and> (log w' = log w \<or> log w' = log w @ EvSearch (IGD_SSDP_ADDRESS, IGD_SSDP_PORT) (as_bytes SSDP_MSEARCH) # es))"
proof -
  obtain stop w1 where c: "ih_cancelled h w = (stop, w1)" by (metis surj_pair)
  obtain late w2 where l: "ih_deadline_exceeded h w1 = (late, w2)" by (metis surj_pair)
  let ?d = "(IGD_SSDP_ADDRESS, IGD_SSDP_PORT)" and ?q = "as_bytes SSDP_MSEARCH"
  obtain s w3 where s: "ih_search h (sg_gateway gateway) ?d ?q w2 = (s, w3)" by (metis surj_pair)
  have logs: "log w1 = log w" "log w2 = log w" "log w3 = log w @ [EvSearch ?d ?q]"
    using log_cancelled [of w] c log_deadline [of w1] l log_search [of "sg_gateway gateway" ?d ?q w2] s by simp_all
  note run = assms(2) [unfolded discover_igd_def Let_def c l s prod.case]
  show ?thesis
  proof (cases "\<exists>replies. \<not> stop \<and> \<not> late \<and> s = Inr replies \<and> length replies \<le> IGD_SSDP_MAX_REPLIES")
    case False
    then have "w' \<in> {w1, w2, w3}" "found_ok (sg_gateway gateway) result" using run by (auto split: if_splits sum.splits)
    then show ?thesis using logs by (intro conjI exI [of _ "[]"]) auto
  next
    case True
    then obtain replies where "discover_replies cr (sg_gateway gateway) h replies seen_new w3 = (result, w')"
      using run by auto
    moreover have "sn_fetches seen_new = 0" by (simp add: seen_new_def)
    ultimately show ?thesis
      using discover_replies_log [OF assms(1), of seen_new "sg_gateway gateway" replies w3 result w'] logs(3) by auto
  qed
qed

end

interpretation igd_watched: igd_link "observed_igd h" snd
  for h :: "'w igd_host"
  by unfold_locales (simp_all add: observed_igd_def case_prod_beta Let_def)

section \<open>Properties\<close>

text \<open>
  C39. Discovery asks once, with the fixed search datagram at the multicast address, and fetches at most
  two documents, each by a bounded URL at the selected gateway. A descriptor it finds names the selected
  gateway and a bounded absolute path, and the mapping dialogue accepts its control address: it resolves to
  the socket of the descriptor.
\<close>

theorem igd_discovery_stays_at_gateway:
  assumes "url_laws cr"
  shows "case discover_igd cr gateway (observed_igd h) (w, []) of (result, _, log) \<Rightarrow>
    (log = [] \<or> (\<exists>es. log = EvSearch (IGD_SSDP_ADDRESS, IGD_SSDP_PORT) (as_bytes SSDP_MSEARCH) # es
        \<and> length es \<le> 2 \<and> list_all (fetch_ok (sg_gateway gateway)) es))
    \<and> (case result of
         IgdFound d \<Rightarrow> igd_gateway d = sg_gateway gateway \<and> starts_with (igd_path_and_query d) ''/''
           \<and> control_destination cr gateway RouterUpnpIgd (Some (control_target d)) = Inr (igd_socket d)
       | _ \<Rightarrow> True)"
proof -
  obtain result w' log where run: "discover_igd cr gateway (observed_igd h) (w, []) = (result, w', log)"
    by (metis surj_pair)
  have ok: "found_ok (sg_gateway gateway) result" and log: "\<exists>es. list_all (fetch_ok (sg_gateway gateway)) es \<and> length es \<le> 2
      \<and> (log = [] \<or> log = EvSearch (IGD_SSDP_ADDRESS, IGD_SSDP_PORT) (as_bytes SSDP_MSEARCH) # es)"
    using igd_watched.discover_igd_log [OF assms run] by (simp_all add: IGD_MAX_DOCUMENT_FETCHES_def)
  have "control_destination cr gateway RouterUpnpIgd (Some (control_target d)) = Inr (igd_socket d)"
    if d: "result = IgdFound d" for d
  proof -
    have g: "igd_gateway d = sg_gateway gateway"
        "url_at_gateway (sg_gateway gateway) (unat (igd_port d)) (igd_path_and_query d)"
      using ok d by (simp_all add: found_ok_def)
    have t: "control_target d = gateway_url (sg_gateway gateway) (unat (igd_port d)) (igd_path_and_query d)"
      by (simp add: control_target_def gateway_url_def g(1))
    obtain u where "url_parse cr (control_target d) = Some u" "url_scheme u = ''http''" "url_username u = []"
        "url_password u = None" "url_host_ipv4 u = Some (sg_gateway gateway)" "url_port_or_default u = Some (unat (igd_port d))"
      using assms g(2) unfolding url_laws_def url_at_gateway_def t gateway_url_def by blast
    then show ?thesis using g(2) by (simp add: upnp_location_def igd_socket_def g(1) url_at_gateway_def t [symmetric])
  qed
  then show ?thesis using run ok log by (auto simp: found_ok_def url_at_gateway_def split: igd_discovery.split)
qed

section \<open>Reading a device description\<close>

text \<open>A printed field: visible ASCII text without markup, of bounded length.\<close>

definition visible_field :: "string \<Rightarrow> bool" where
  "visible_field t \<longleftrightarrow> t \<noteq> [] \<and> length t \<le> CONTROL_LOCATION_MAX_BYTES
     \<and> list_all (\<lambda>c. 33 \<le> code c \<and> code c < 128 \<and> c \<noteq> CHR ''<'' \<and> c \<noteq> CHR ''&'') t"

lemma visible_not_space: "33 \<le> code c \<Longrightarrow> \<not> is_ascii_whitespace c"
  by (auto simp: is_ascii_whitespace_def)

lemma trim_ascii_visible: "visible_field t \<Longrightarrow> trim_ascii t = t"
proof -
  assume v: "visible_field t"
  then have "\<not> is_ascii_whitespace (hd t)" "\<not> is_ascii_whitespace (hd (rev t))"
    by (auto simp: visible_field_def list_all_iff visible_not_space hd_rev)
  then have "dropWhile is_ascii_whitespace t = t" "dropWhile is_ascii_whitespace (rev t) = rev t"
    by (simp_all add: dropWhile_eq_self_iff)
  then show ?thesis by (simp add: trim_ascii_def)
qed

lemma igd_attributes_gt: "igd_attributes k (CHR ''>'' # r) = Inr (False, r)"
  by (subst igd_attributes.simps) (simp add: starts_with_gt)

lemma igd_step_open:
  assumes "tag_ok n" "ip_rest x = CHR ''<'' # n @ CHR ''>'' # r"
  shows "igd_step x = igd_start_tag x"
proof -
  obtain c m where n: "n = c # m" using assms(1) by (cases n) (auto simp: tag_ok_def)
  then have "c \<noteq> CHR ''!'' \<and> c \<noteq> CHR ''?'' \<and> c \<noteq> CHR ''/''" using assms(1) alphabetic_markup by (simp add: tag_ok_def)
  then show ?thesis using assms(2) n by (auto simp: igd_step_def igd_markup_def starts_with_def)
qed

lemma igd_step_close:
  assumes "tag_ok n" "ip_rest x = CHR ''<'' # CHR ''/'' # n @ CHR ''>'' # r" "ip_stack x = (n, target) # st"
  shows "igd_step x =
    (let y = igd_store target (x\<lparr>ip_rest := r, ip_stack := st, ip_depth := saturating_sub (ip_depth x) 1\<rparr>)
     in if local_name n = ''service'' then finish_service y else Inr y)"
  using assms by (simp add: igd_step_def igd_markup_def starts_with_def igd_end_tag_def read_name_tag guard_def)

text \<open>What the reader has gathered between two elements.\<close>

record igd_view =
  iv_in_service :: bool
  iv_service_type :: "string option"
  iv_control_url :: "string option"
  iv_candidates :: "service_candidate list"

definition igd_parser_in :: "(string \<times> text_target) list \<Rightarrow> igd_view \<Rightarrow> string \<Rightarrow> igd_parser" where
  "igd_parser_in st v r = \<lparr>ip_rest = r, ip_depth = length st, ip_stack = st, ip_target = TargetIgnore, ip_buffer = [],
     ip_in_service = iv_in_service v, ip_service_type = iv_service_type v, ip_control_url = iv_control_url v,
     ip_candidates = iv_candidates v\<rparr>"

definition igd_reads :: "(string \<times> text_target) list \<Rightarrow> string \<Rightarrow> igd_view \<Rightarrow> igd_view \<Rightarrow> bool" where
  "igd_reads st s v v' \<longleftrightarrow> (\<forall>tail. igd_loop (igd_parser_in st v (s @ tail)) = igd_loop (igd_parser_in st v' tail))"

lemma igd_reads_Nil: "igd_reads st [] v v"
  by (simp add: igd_reads_def)

lemma igd_reads_append: "igd_reads st s v v' \<Longrightarrow> igd_reads st t v' v'' \<Longrightarrow> igd_reads st (s @ t) v v''"
  by (simp add: igd_reads_def)

lemma igd_loop_step: "ip_rest x \<noteq> [] \<Longrightarrow> igd_step x = Inr y \<Longrightarrow> igd_loop x = igd_loop y"
  by (subst igd_loop.simps) simp

lemma igd_loop_opens:
  assumes "tag_ok n" "length st < 16" "text_target_of (local_name n) = TargetIgnore"
  shows "igd_loop (igd_parser_in st v (CHR ''<'' # n @ CHR ''>'' # r)) =
    (if local_name n = ''service''
     then if iv_in_service v then Inl IgdMalformed
          else igd_loop (igd_parser_in ((n, TargetIgnore) # st)
            (v\<lparr>iv_in_service := True, iv_service_type := None, iv_control_url := None\<rparr>) r)
     else igd_loop (igd_parser_in ((n, TargetIgnore) # st) v r))"
proof -
  let ?x = "igd_parser_in st v (CHR ''<'' # n @ CHR ''>'' # r)"
  have "igd_step ?x = igd_start_tag ?x" by (rule igd_step_open [OF assms(1)]) (simp add: igd_parser_in_def)
  also have "\<dots> = (if local_name n = ''service''
     then if iv_in_service v then Inl IgdMalformed
          else Inr (igd_parser_in ((n, TargetIgnore) # st)
            (v\<lparr>iv_in_service := True, iv_service_type := None, iv_control_url := None\<rparr>) r)
     else Inr (igd_parser_in ((n, TargetIgnore) # st) v r))"
    using assms
    by (simp add: igd_start_tag_def igd_parser_in_def read_name_tag igd_attributes_gt igd_open_def IGD_XML_MAX_DEPTH_def
        guard_def del: text_target_of.simps)
  finally show ?thesis by (subst igd_loop.simps) (simp add: igd_parser_in_def)
qed

definition service_finish :: "igd_view \<Rightarrow> igd_view" where
  "service_finish v = (let u = v\<lparr>iv_in_service := False, iv_service_type := None, iv_control_url := None\<rparr>
     in case (iv_service_type v, iv_control_url v) of
          (Some t, Some c) \<Rightarrow>
            (case service_kind t of
               None \<Rightarrow> u
             | Some k \<Rightarrow> u\<lparr>iv_candidates := iv_candidates v @ [\<lparr>sc_service = k, sc_control_url = c\<rparr>]\<rparr>)
        | _ \<Rightarrow> u)"

lemma igd_loop_closes:
  assumes "tag_ok n" "length (iv_candidates v) < 4"
  shows "igd_loop (igd_parser_in ((n, TargetIgnore) # st) v (CHR ''<'' # CHR ''/'' # n @ CHR ''>'' # r)) =
    igd_loop (igd_parser_in st (if local_name n = ''service'' then service_finish v else v) r)"
proof (rule igd_loop_step)
  show "igd_step (igd_parser_in ((n, TargetIgnore) # st) v (CHR ''<'' # CHR ''/'' # n @ CHR ''>'' # r)) =
    Inr (igd_parser_in st (if local_name n = ''service'' then service_finish v else v) r)"
    using assms(2)
    by (subst igd_step_close [OF assms(1), where r = r and st = st and target = TargetIgnore])
      (auto simp: igd_parser_in_def igd_store_def saturating_sub_def finish_service_def service_finish_def Let_def
        IGD_MAX_SERVICE_CANDIDATES_def guard_def split: option.splits)
qed (simp add: igd_parser_in_def)

lemma igd_reads_element:
  assumes n: "tag_ok n" "length st < 16" "text_target_of (local_name n) = TargetIgnore" "local_name n \<noteq> ''service''"
    and inner: "igd_reads ((n, TargetIgnore) # st) inner v v'" "length (iv_candidates v') \<le> 4"
  shows "igd_reads st (element n inner) v v'"
  unfolding igd_reads_def
proof
  fix tail
  let ?close = "CHR ''<'' # CHR ''/'' # n @ CHR ''>'' # tail"
  have "igd_loop (igd_parser_in st v (element n inner @ tail)) = igd_loop (igd_parser_in ((n, TargetIgnore) # st) v (inner @ ?close))"
    using igd_loop_opens [OF n(1-3), of v "inner @ ?close"] n(4) by (simp add: element_def)
  also have "\<dots> = igd_loop (igd_parser_in ((n, TargetIgnore) # st) v' ?close)"
    using inner(1) by (simp add: igd_reads_def)
  also have "\<dots> = igd_loop (igd_parser_in st v' tail)"
  proof (rule igd_loop_step)
    show "igd_step (igd_parser_in ((n, TargetIgnore) # st) v' ?close) = Inr (igd_parser_in st v' tail)"
      using n(4)
      by (subst igd_step_close [OF n(1), where r = tail and st = st and target = TargetIgnore])
        (simp_all add: igd_parser_in_def igd_store_def saturating_sub_def)
  qed (simp add: igd_parser_in_def)
  finally show "igd_loop (igd_parser_in st v (element n inner @ tail)) = igd_loop (igd_parser_in st v' tail)" .
qed

text \<open>A field of a service, from its opening tag to its closing tag.\<close>

lemma igd_reads_field:
  assumes f: "tag_ok f" "length st < 16" "local_name f = f" "text_target_of f = target" "target \<noteq> TargetIgnore"
    and t: "visible_field t"
  shows "igd_reads st (element f t) v
    (if target = TargetServiceType then v\<lparr>iv_service_type := Some t\<rparr> else v\<lparr>iv_control_url := Some t\<rparr>)"
  unfolding igd_reads_def
proof
  fix tail
  let ?close = "CHR ''<'' # CHR ''/'' # f @ CHR ''>'' # tail"
  let ?x = "igd_parser_in st v (element f t @ tail)"
  let ?v = "if target = TargetServiceType then v\<lparr>iv_service_type := Some t\<rparr> else v\<lparr>iv_control_url := Some t\<rparr>"
  define y where "y = ?x\<lparr>ip_rest := t @ ?close, ip_depth := length st + 1, ip_target := target,
    ip_stack := (f, target) # st\<rparr>"
  have ns: "f \<noteq> ''service''" using f(4,5) by auto
  have all: "\<forall>a \<in> set t. a \<noteq> CHR ''<''" "list_all (\<lambda>a. a \<noteq> CHR ''&'') t"
    using t by (auto simp: visible_field_def list_all_iff)
  have "igd_step ?x = igd_start_tag ?x"
    by (rule igd_step_open [OF f(1), of _ "t @ ?close"]) (simp add: igd_parser_in_def element_def)
  also have "\<dots> = Inr y" using f ns
    by (simp add: igd_start_tag_def igd_parser_in_def element_def read_name_tag igd_attributes_gt igd_open_def
        IGD_XML_MAX_DEPTH_def guard_def y_def del: text_target_of.simps)
  finally have "igd_loop ?x = igd_loop y" by (intro igd_loop_step) (simp_all add: igd_parser_in_def element_def)
  also have "\<dots> = igd_loop (y\<lparr>ip_rest := ?close, ip_buffer := t\<rparr>)"
  proof (rule igd_loop_step)
    obtain c u where c: "t = c # u" using t by (cases t) (auto simp: visible_field_def)
    have "takeWhile (\<lambda>a. a \<noteq> CHR ''<'') (t @ ?close) = t" "dropWhile (\<lambda>a. a \<noteq> CHR ''<'') (t @ ?close) = ?close"
      using all(1) by (simp_all add: takeWhile_append dropWhile_append)
    moreover have "\<not> starts_with (t @ ?close) ''<''" using all(1) c by (auto simp: starts_with_def)
    ultimately show "igd_step y = Inr (y\<lparr>ip_rest := ?close, ip_buffer := t\<rparr>)"
      using t f(5) decode_plain [OF all(2)]
      by (simp add: igd_step_def igd_text_def Let_def y_def guard_def visible_field_def igd_parser_in_def)
    show "ip_rest y \<noteq> []" by (simp add: y_def c)
  qed
  also have "\<dots> = igd_loop (igd_parser_in st ?v tail)"
  proof (rule igd_loop_step)
    show "igd_step (y\<lparr>ip_rest := ?close, ip_buffer := t\<rparr>) = Inr (igd_parser_in st ?v tail)"
      using trim_ascii_visible [OF t] t f(3,5) ns
      by (subst igd_step_close [OF f(1), where r = tail and st = st and target = target])
        (cases target; simp add: y_def igd_parser_in_def igd_store_def saturating_sub_def visible_field_def)+
  qed (simp add: y_def)
  finally show "igd_loop ?x = igd_loop (igd_parser_in st ?v tail)" .
qed

definition service_xml :: "service_candidate \<Rightarrow> string" where
  "service_xml c = element ''service''
     (element ''serviceType'' (service_urn (sc_service c)) @ element ''controlURL'' (sc_control_url c))"

definition device_xml :: "service_candidate list \<Rightarrow> string" where
  "device_xml cs = element ''root'' (element ''device'' (element ''serviceList'' (concat (map service_xml cs))))"

definition igd_gathered :: "service_candidate list \<Rightarrow> igd_view" where
  "igd_gathered cs = \<lparr>iv_in_service = False, iv_service_type = None, iv_control_url = None, iv_candidates = cs\<rparr>"

lemma visible_service_urn: "visible_field (service_urn k)"
  by (cases k) (simp_all add: visible_field_def CONTROL_LOCATION_MAX_BYTES_def)

lemma service_kind_urn: "service_kind (service_urn k) = Some k"
  by (cases k) (simp_all add: service_kind_def WAN_IP_V1_def WAN_IP_V2_def WAN_PPP_V1_def WAN_PPP_V2_def)

lemma igd_reads_service:
  assumes "visible_field (sc_control_url c)" "length cs < 4" "length st < 15"
  shows "igd_reads st (service_xml c) (igd_gathered cs) (igd_gathered (cs @ [c]))"
  unfolding igd_reads_def
proof
  fix tail
  let ?st = "(''service'', TargetIgnore) # st"
  let ?v = "(igd_gathered cs)\<lparr>iv_in_service := True, iv_service_type := Some (service_urn (sc_service c)),
      iv_control_url := Some (sc_control_url c)\<rparr>"
  let ?inner = "element ''serviceType'' (service_urn (sc_service c)) @ element ''controlURL'' (sc_control_url c)"
  let ?close = "CHR ''<'' # CHR ''/'' # ''service'' @ CHR ''>'' # tail"
  have tags: "tag_ok ''service''" "tag_ok ''serviceType''" "tag_ok ''controlURL''" "local_name ''service'' = ''service''"
      "local_name ''serviceType'' = ''serviceType''" "local_name ''controlURL'' = ''controlURL''"
    by (simp_all add: tag_simps)
  have "igd_reads ?st ?inner ((igd_gathered cs)\<lparr>iv_in_service := True\<rparr>) ?v"
    using igd_reads_append [OF
        igd_reads_field [OF tags(2) _ tags(5), of ?st TargetServiceType "service_urn (sc_service c)" "(igd_gathered cs)\<lparr>iv_in_service := True\<rparr>"]
        igd_reads_field [OF tags(3) _ tags(6), of ?st TargetControlUrl "sc_control_url c"]]
      visible_service_urn assms(1,3) by simp
  then have inner: "igd_loop (igd_parser_in ?st ((igd_gathered cs)\<lparr>iv_in_service := True\<rparr>) (?inner @ ?close))
      = igd_loop (igd_parser_in ?st ?v ?close)" by (simp only: igd_reads_def)
  have "igd_loop (igd_parser_in st (igd_gathered cs) (service_xml c @ tail))
      = igd_loop (igd_parser_in ?st ((igd_gathered cs)\<lparr>iv_in_service := True\<rparr>) (?inner @ ?close))"
    using igd_loop_opens [OF tags(1), of st "igd_gathered cs" "?inner @ ?close"] assms(3) tags(4)
    by (simp add: service_xml_def element_def igd_gathered_def)
  also note inner
  also have "igd_loop (igd_parser_in ?st ?v ?close) = igd_loop (igd_parser_in st (igd_gathered (cs @ [c])) tail)"
  proof -
    have "service_finish ?v = igd_gathered (cs @ [c])"
      by (simp add: igd_gathered_def service_finish_def service_kind_urn service_candidate.defs)
    moreover have "length (iv_candidates ?v) < 4" using assms(2) by (simp add: igd_gathered_def)
    ultimately show ?thesis using igd_loop_closes [OF tags(1), of ?v st tail] tags(4) by simp
  qed
  finally show "igd_loop (igd_parser_in st (igd_gathered cs) (service_xml c @ tail))
      = igd_loop (igd_parser_in st (igd_gathered (cs @ [c])) tail)" .
qed

lemma igd_reads_services:
  assumes "list_all (\<lambda>c. visible_field (sc_control_url c)) cs" "length (ds @ cs) \<le> 4" "length st < 15"
  shows "igd_reads st (concat (map service_xml cs)) (igd_gathered ds) (igd_gathered (ds @ cs))"
  using assms(1,2)
proof (induction cs arbitrary: ds)
  case (Cons c cs)
  then have "igd_reads st (service_xml c) (igd_gathered ds) (igd_gathered (ds @ [c]))"
      "igd_reads st (concat (map service_xml cs)) (igd_gathered (ds @ [c])) (igd_gathered (ds @ [c] @ cs))"
    using igd_reads_service assms(3) Cons.IH [of "ds @ [c]"] by simp_all
  then show ?case using igd_reads_append by fastforce
qed (simp add: igd_reads_Nil)

lemma igd_parse_device:
  assumes "list_all (\<lambda>c. visible_field (sc_control_url c)) cs" "length cs \<le> 4"
  shows "\<exists>x. igd_parse (device_xml cs) = Inr x \<and> ip_candidates x = cs"
proof -
  have "igd_reads [] (device_xml cs) (igd_gathered []) (igd_gathered cs)"
    unfolding device_xml_def
    by (intro igd_reads_element igd_reads_services [of cs "[]", simplified])
      (use assms in \<open>simp_all add: tag_simps igd_gathered_def\<close>)
  then have "igd_loop (igd_parser_new (device_xml cs)) = igd_loop (igd_parser_in [] (igd_gathered cs) [])"
    unfolding igd_reads_def by (auto simp: igd_parser_in_def igd_parser_new_def igd_gathered_def dest: spec [of _ "[]"])
  moreover have "igd_loop (igd_parser_in [] (igd_gathered cs) []) = Inr (igd_parser_in [] (igd_gathered cs) [])"
    by (subst igd_loop.simps) (simp add: igd_parser_in_def)
  moreover have "strip_prefix BOM (device_xml cs) = None" "\<not> starts_with (device_xml cs) ''<?''"
      "skip_whitespace (device_xml cs) = device_xml cs"
    by (simp_all add: device_xml_def element_def BOM_def starts_with_def skip_whitespace_def is_ascii_whitespace_def)
  ultimately show ?thesis by (simp add: igd_parse_def guard_def igd_parser_in_def igd_gathered_def)
qed

lemma ascii_visible: "visible_field t \<Longrightarrow> ascii_text t"
proof -
  assume v: "visible_field t"
  have "32 \<le> code c \<and> code c < 128" if "c \<in> set t" for c
  proof -
    have "33 \<le> code c" "code c < 128" using v that unfolding visible_field_def list_all_iff by blast+
    then show ?thesis by linarith
  qed
  then show ?thesis unfolding ascii_text_def list_all_iff by blast
qed

lemma service_xml_text:
  assumes "visible_field (sc_control_url c)"
  shows "ascii_text (service_xml c)" "length (service_xml c) \<le> 700"
proof -
  have u: "length (sc_control_url c) \<le> 512" "ascii_text (sc_control_url c)" "ascii_text (service_urn (sc_service c))"
    using assms ascii_visible visible_service_urn by (simp_all add: visible_field_def CONTROL_LOCATION_MAX_BYTES_def)
  show "length (service_xml c) \<le> 700"
    using u(1) length_service_urn [of "sc_service c"] by (simp add: service_xml_def element_def)
  have "ascii_text ''<service><serviceType>''" "ascii_text ''</serviceType><controlURL>''" "ascii_text ''</controlURL></service>''"
    by (simp_all add: ascii_text_def)
  then have "ascii_text (''<service><serviceType>'' @ service_urn (sc_service c) @ ''</serviceType><controlURL>''
      @ sc_control_url c @ ''</controlURL></service>'')" using u(2,3) by (simp only: ascii_text_append)
  then show "ascii_text (service_xml c)" by (simp add: service_xml_def element_def)
qed

lemma device_xml_text:
  assumes "list_all (\<lambda>c. visible_field (sc_control_url c)) cs" "length cs \<le> 4"
  shows "ascii_text (device_xml cs)" "length (device_xml cs) \<le> IGD_XML_MAX_BYTES"
proof -
  have "ascii_text (concat (map service_xml cs))"
    using assms(1) by (induction cs) (simp_all add: service_xml_text(1), simp add: ascii_text_def)
  moreover have "ascii_text ''<root><device><serviceList>''" "ascii_text ''</serviceList></device></root>''"
    by (simp_all add: ascii_text_def)
  ultimately have "ascii_text (''<root><device><serviceList>'' @ concat (map service_xml cs) @ ''</serviceList></device></root>'')"
    by (simp only: ascii_text_append)
  then show "ascii_text (device_xml cs)" by (simp add: device_xml_def element_def)
  have "length (concat (map service_xml cs)) \<le> 700 * length cs"
    using assms(1) service_xml_text(2) by (induction cs) (auto dest!: service_xml_text(2))
  then show "length (device_xml cs) \<le> IGD_XML_MAX_BYTES"
    using assms(2) by (simp add: device_xml_def element_def IGD_XML_MAX_BYTES_def)
qed

lemma length_as_bytes: "length (as_bytes s) = length s"
  by (simp add: as_bytes_def)

section \<open>Properties of the reader\<close>

text \<open>
  C40. A printed device description with at most four services, whose control addresses are bounded visible
  text, is read back as exactly these services in their order.
\<close>

theorem device_description_roundtrip:
  assumes "list_all (\<lambda>c. visible_field (sc_control_url c)) cs" "length cs \<le> 4"
  shows "parse_device_xml (as_bytes (device_xml cs)) = Inr cs"
proof -
  obtain x where "igd_parse (device_xml cs) = Inr x" "ip_candidates x = cs" using igd_parse_device [OF assms] by blast
  moreover have codes: "list_all (\<lambda>c. 0 < code c \<and> code c < 128) (device_xml cs)"
    using device_xml_text(1) [OF assms] unfolding ascii_text_def by (rule list.pred_mono_strong) linarith
  moreover note from_utf8_as_bytes [OF codes] device_xml_text(2) [OF assms]
  ultimately show ?thesis by (simp add: parse_device_xml_def guard_def length_as_bytes)
qed

section \<open>Witnesses\<close>

text \<open>A reader of the URLs \<open>http://a.b.c.d:port/...\<close>.\<close>

definition plain_url_parse :: "string \<Rightarrow> url option" where
  "plain_url_parse t =
     (case strip_prefix ''http://'' t of
        None \<Rightarrow> None
      | Some rest \<Rightarrow>
          let host = takeWhile (\<lambda>c. c \<noteq> CHR '':'') rest; rest = drop (length host + 1) rest;
              port = takeWhile (\<lambda>c. c \<noteq> CHR ''/'') rest; path = drop (length port) rest
          in (case (parse_ipv4 host, from_str_radix u16_max 10 port) of
                (Some a, Some p) \<Rightarrow>
                  if starts_with path ''/''
                  then Some \<lparr>url_text = t, url_scheme = ''http'', url_host_str = Some host, url_host_ipv4 = Some a,
                         url_username = [], url_password = None, url_query = None, url_fragment = None, url_path = path,
                         url_port_or_default = Some p\<rparr>
                  else None
              | _ \<Rightarrow> None))"

definition igd_crates :: crates where
  "igd_crates = sample_crates\<lparr>url_parse := plain_url_parse\<rparr>"

lemma takeWhile_until: "d \<notin> set p \<Longrightarrow> takeWhile (\<lambda>c. c \<noteq> d) (p @ d # s) = p"
  by (induction p) auto

lemma from_str_radix_le: "from_str_radix bound 10 s = Some n \<Longrightarrow> n \<le> bound"
  by (auto simp: from_str_radix_def Let_def split: if_splits option.splits)

lemma igd_crates_laws: "url_laws igd_crates"
  unfolding url_laws_def
proof (intro conjI allI impI)
  fix t u assume "url_parse igd_crates t = Some u" "url_scheme u = ''http''"
  then show "starts_with (url_path u) ''/''" "\<And>p. url_port_or_default u = Some p \<Longrightarrow> p \<le> u16_max"
    by (auto simp: igd_crates_def plain_url_parse_def Let_def from_str_radix_le split: option.splits if_splits)
next
  fix a p r assume p: "0 < p" "p \<le> u16_max" and r: "starts_with r ''/''"
  obtain q where q: "r = CHR ''/'' # q" using r by (auto simp: starts_with_iff)
  have "CHR '':'' \<notin> set (show_ipv4 a)" "CHR ''/'' \<notin> set (show_nat p)"
    using show_ipv4_chars [of "CHR '':''" a] show_nat_chars [of "CHR ''/''" p] by (auto simp: is_ascii_digit_def)
  then have "takeWhile (\<lambda>c. c \<noteq> CHR '':'') (show_ipv4 a @ CHR '':'' # show_nat p @ r) = show_ipv4 a"
      "takeWhile (\<lambda>c. c \<noteq> CHR ''/'') (show_nat p @ r) = show_nat p"
    using takeWhile_until [of "CHR '':''" "show_ipv4 a"] takeWhile_until [of "CHR ''/''" "show_nat p" q] by (simp_all add: q)
  then show "\<exists>u. url_parse igd_crates (''http://'' @ show_ipv4 a @ '':'' @ show_nat p @ r) = Some u \<and> url_scheme u = ''http''
      \<and> url_username u = [] \<and> url_password u = None \<and> url_host_ipv4 u = Some a \<and> url_port_or_default u = Some p"
    using p r by (simp add: igd_crates_def plain_url_parse_def Let_def)
qed

definition sample_service :: service_candidate where
  "sample_service = \<lparr>sc_service = WanIpConnection, sc_control_url = ''/ctl''\<rparr>"

definition sample_igd_host :: "unit igd_host" where
  "sample_igd_host = \<lparr>ih_search = (\<lambda>_ _ _ w. (Inr [as_bytes (''HTTP/1.1 200 OK'' @ CRLF
       @ ''LOCATION: http://10.0.0.1:5000/d.xml'' @ CRLF @ ''ST: '' @ WAN_IP_V1 @ CRLF @ CRLF)], w)),
     ih_get = (\<lambda>_ _ w. (Inr (as_bytes (device_xml [sample_service])), w)),
     ih_cancelled = (\<lambda>w. (False, w)), ih_deadline_exceeded = (\<lambda>w. (False, w))\<rparr>"

theorem igd_discovery_stays_at_gateway_witness:
  "url_laws igd_crates
   \<and> (case discover_igd igd_crates sample_gateway (observed_igd sample_igd_host) ((), []) of (result, _, log) \<Rightarrow>
        case result of IgdFound d \<Rightarrow> igd_gateway d = sg_gateway sample_gateway | _ \<Rightarrow> True)"
  using igd_discovery_stays_at_gateway [OF igd_crates_laws, of sample_gateway sample_igd_host "()"] igd_crates_laws
  by (auto split: igd_discovery.split)

theorem device_description_roundtrip_witness:
  "visible_field (sc_control_url sample_service)
   \<and> parse_device_xml (as_bytes (device_xml [sample_service, sample_service])) = Inr [sample_service, sample_service]"
proof -
  have "visible_field (sc_control_url sample_service)"
    by (simp add: sample_service_def visible_field_def CONTROL_LOCATION_MAX_BYTES_def)
  then show ?thesis using device_description_roundtrip [of "[sample_service, sample_service]"] by simp
qed

end
