(* ===== verification/FileSecrets.thy ===== *)
theory FileSecrets
  imports Soap
begin

text \<open>
  Installation of secret files before the customer command starts (\<open>src/file_secrets.rs\<close>), on an abstract
  file system: a map from paths, as lists of names, to nodes. A directory descriptor is the path of its
  directory; no other process works on these directories meanwhile. Every system call may fail: the state
  counts the calls, and a fault plan says which of them fail and how much a failed write leaves behind.
\<close>

section \<open>The file system\<close>

datatype node = Directory | Regular bytes | OtherNode

type_synonym fpath = "string list"

record fsys =
  fs_nodes :: "fpath \<Rightarrow> node option"
  fs_calls :: nat

record faults =
  fp_fails :: "nat \<Rightarrow> bool"
  fp_written :: "nat \<Rightarrow> nat"

datatype file_secret_error = InvalidPath | InstallFailed | RollbackFailed

type_synonym 'a fs_run = "fsys \<Rightarrow> (file_secret_error + 'a) \<times> fsys"

definition fs_return :: "'a \<Rightarrow> 'a fs_run" where "fs_return x s = (Inr x, s)"
definition fs_fail :: "file_secret_error \<Rightarrow> 'a fs_run" where "fs_fail e s = (Inl e, s)"

definition fs_bind :: "'a fs_run \<Rightarrow> ('a \<Rightarrow> 'b fs_run) \<Rightarrow> 'b fs_run" where
  "fs_bind m f s = (case m s of (Inl e, s1) \<Rightarrow> (Inl e, s1) | (Inr x, s1) \<Rightarrow> f x s1)"

text \<open>One system call: whether it fails for a reason outside the file system, and the next state.\<close>

definition syscall :: "faults \<Rightarrow> fsys \<Rightarrow> bool \<times> fsys" where
  "syscall fp s = (fp_fails fp (fs_calls s), s\<lparr>fs_calls := fs_calls s + 1\<rparr>)"

definition set_node :: "fpath \<Rightarrow> node option \<Rightarrow> fsys \<Rightarrow> fsys" where
  "set_node p n s = s\<lparr>fs_nodes := (fs_nodes s)(p := n)\<rparr>"

section \<open>Operations on a directory\<close>

definition c_name :: "string \<Rightarrow> file_secret_error + string" where
  "c_name name = (if CHR 0x00 \<in> set name then Inl InvalidPath else Inr name)"

definition directory :: "faults \<Rightarrow> fpath \<Rightarrow> string \<Rightarrow> fpath fs_run" where
  "directory fp parent name s =
     (let p = parent @ [name]; (failed, s) = syscall fp s
      in if failed then (Inl InvalidPath, s)
         else (case fs_nodes s p of
             Some Directory \<Rightarrow> (Inr p, s)
           | Some _ \<Rightarrow> (Inl InvalidPath, s)
           | None \<Rightarrow>
               let (failed, s) = syscall fp s
               in if failed then (Inl InstallFailed, s)
                  else let s = set_node p (Some Directory) s; (failed, s) = syscall fp s
                  in if failed then (Inl InvalidPath, s) else (Inr p, s)))"

definition regular_file :: "faults \<Rightarrow> fpath \<Rightarrow> string \<Rightarrow> bool fs_run" where
  "regular_file fp parent name s =
     (let (failed, s) = syscall fp s
      in if failed then (Inl InstallFailed, s)
         else (case fs_nodes s (parent @ [name]) of
             None \<Rightarrow> (Inr False, s)
           | Some (Regular _) \<Rightarrow> (Inr True, s)
           | Some _ \<Rightarrow> (Inl InvalidPath, s)))"

text \<open>The code renames only names that it has found or made to be regular files.\<close>

definition rename :: "faults \<Rightarrow> fpath \<Rightarrow> string \<Rightarrow> string \<Rightarrow> bool \<Rightarrow> unit fs_run" where
  "rename fp parent source target no_replace s =
     (let from = parent @ [source]; to = parent @ [target]; (failed, s) = syscall fp s
      in if failed then (Inl InstallFailed, s)
         else (case fs_nodes s from of
             Some (Regular c) \<Rightarrow>
               if (no_replace \<and> fs_nodes s to \<noteq> None) \<or> fs_nodes s to = Some Directory then (Inl InstallFailed, s)
               else (Inr (), set_node to (Some (Regular c)) (set_node from None s))
           | _ \<Rightarrow> (Inl InstallFailed, s)))"

definition unlink :: "faults \<Rightarrow> fpath \<Rightarrow> string \<Rightarrow> unit fs_run" where
  "unlink fp parent name s =
     (let p = parent @ [name]; (failed, s) = syscall fp s
      in if failed then (Inl InstallFailed, s)
         else (case fs_nodes s p of
             None \<Rightarrow> (Inr (), s)
           | Some Directory \<Rightarrow> (Inl InstallFailed, s)
           | Some _ \<Rightarrow> (Inr (), set_node p None s)))"

definition sync_all :: "faults \<Rightarrow> file_secret_error \<Rightarrow> unit fs_run" where
  "sync_all fp e s = (let (failed, s) = syscall fp s in if failed then (Inl e, s) else (Inr (), s))"

section \<open>One file\<close>

record prepared_file =
  pf_parent :: fpath
  pf_destination :: string
  pf_staging :: string
  pf_backup :: string
  pf_staged :: bool
  pf_backed_up :: bool
  pf_committed :: bool

text \<open>
  \<open>Path::components\<close> of an absolute path, after its root: empty components and the components \<open>.\<close> are
  skipped.
\<close>

definition path_components :: "string \<Rightarrow> string list" where
  "path_components path = filter (\<lambda>c. c \<noteq> [] \<and> c \<noteq> ''.'') (split_char (CHR ''/'') path)"

definition private_prefix :: string where "private_prefix = ''.liskov-secret-''"

definition staging_name :: "crates \<Rightarrow> string \<Rightarrow> string" where
  "staging_name cr path = private_prefix @ hex_encode cr (sha256_digest cr (as_bytes path)) @ ''.pending''"

definition backup_name :: "crates \<Rightarrow> string \<Rightarrow> string" where
  "backup_name cr path = private_prefix @ hex_encode cr (sha256_digest cr (as_bytes path)) @ ''.previous''"

fun open_parents :: "faults \<Rightarrow> string list \<Rightarrow> fpath \<Rightarrow> fpath fs_run" where
  "open_parents fp [] parent s = (Inr parent, s)"
| "open_parents fp (c # cs) parent s =
     (case c_name c of
        Inl e \<Rightarrow> (Inl e, s)
      | Inr name \<Rightarrow> fs_bind (directory fp parent name) (open_parents fp cs) s)"

definition recover :: "faults \<Rightarrow> prepared_file \<Rightarrow> prepared_file fs_run" where
  "recover fp f =
     fs_bind (regular_file fp (pf_parent f) (pf_destination f)) (\<lambda>_.
     fs_bind (regular_file fp (pf_parent f) (pf_backup f)) (\<lambda>backup.
     fs_bind (if backup then rename fp (pf_parent f) (pf_backup f) (pf_destination f) False else fs_return ()) (\<lambda>_.
     fs_bind (regular_file fp (pf_parent f) (pf_staging f)) (\<lambda>staging.
     fs_bind (if staging then unlink fp (pf_parent f) (pf_staging f) else fs_return ()) (\<lambda>_.
       fs_return f)))))"

definition prepare :: "crates \<Rightarrow> faults \<Rightarrow> string \<Rightarrow> prepared_file fs_run" where
  "prepare cr fp path s =
     (let components = path_components path
      in if \<not> starts_with path ''/'' \<or> ends_with path ''/'' \<or> length path > 4096 then (Inl InvalidPath, s)
         else if components = [] \<or> ''..'' \<in> set components then (Inl InvalidPath, s)
         else let (failed, s) = syscall fp s
         in if failed then (Inl InstallFailed, s)
            else fs_bind (open_parents fp (butlast components) []) (\<lambda>parent s.
              case c_name (last components) of
                Inl e \<Rightarrow> (Inl e, s)
              | Inr destination \<Rightarrow>
                  if starts_with destination private_prefix then (Inl InvalidPath, s)
                  else recover fp \<lparr>pf_parent = parent, pf_destination = destination,
                    pf_staging = staging_name cr path, pf_backup = backup_name cr path,
                    pf_staged = False, pf_backed_up = False, pf_committed = False\<rparr> s) s)"

text \<open>The operations below also return the file, whose flags they have updated, when they fail.\<close>

type_synonym file_step = "prepared_file \<Rightarrow> fsys \<Rightarrow> (file_secret_error + unit) \<times> prepared_file \<times> fsys"

definition write_file :: "faults \<Rightarrow> bytes \<Rightarrow> file_step" where
  "write_file fp v f s =
     (let p = pf_parent f @ [pf_staging f]; (failed, s) = syscall fp s
      in if failed \<or> fs_nodes s p \<noteq> None then (Inl InstallFailed, f, s)
         else let f = f\<lparr>pf_staged := True\<rparr>; call = fs_calls s; (failed, s) = syscall fp s
         in if failed then (Inl InstallFailed, f, set_node p (Some (Regular (take (fp_written fp call) v))) s)
            else (case sync_all fp InstallFailed (set_node p (Some (Regular v)) s) of (r, s) \<Rightarrow> (r, f, s)))"

text \<open>The second half of \<open>commit\<close>, after the backup.\<close>

definition move_in :: "faults \<Rightarrow> file_step" where
  "move_in fp f s =
     (case rename fp (pf_parent f) (pf_staging f) (pf_destination f) False s of
        (Inl e, s) \<Rightarrow> (Inl e, f, s)
      | (Inr _, s) \<Rightarrow>
          (case sync_all fp InstallFailed s of (r, s) \<Rightarrow> (r, f\<lparr>pf_staged := False, pf_committed := True\<rparr>, s)))"

definition commit :: "faults \<Rightarrow> file_step" where
  "commit fp f s =
     (case regular_file fp (pf_parent f) (pf_destination f) s of
        (Inl e, s) \<Rightarrow> (Inl e, f, s)
      | (Inr False, s) \<Rightarrow> move_in fp f s
      | (Inr True, s) \<Rightarrow>
          (case rename fp (pf_parent f) (pf_destination f) (pf_backup f) True s of
             (Inl e, s) \<Rightarrow> (Inl e, f, s)
           | (Inr _, s) \<Rightarrow> move_in fp (f\<lparr>pf_backed_up := True\<rparr>) s))"

definition rollback :: "faults \<Rightarrow> prepared_file \<Rightarrow> unit fs_run" where
  "rollback fp f =
     fs_bind (if pf_committed f then unlink fp (pf_parent f) (pf_destination f) else fs_return ()) (\<lambda>_.
     fs_bind (if pf_backed_up f then rename fp (pf_parent f) (pf_backup f) (pf_destination f) False else fs_return ()) (\<lambda>_.
     fs_bind (if pf_staged f then unlink fp (pf_parent f) (pf_staging f) else fs_return ()) (\<lambda>_.
       sync_all fp RollbackFailed)))"

section \<open>The group\<close>

text \<open>Both loops return the files as their flags stand, the failed one included.\<close>

fun prepare_all ::
  "crates \<Rightarrow> faults \<Rightarrow> (string \<times> string) list \<Rightarrow> prepared_file list \<Rightarrow> fsys
     \<Rightarrow> (file_secret_error + unit) \<times> prepared_file list \<times> fsys" where
  "prepare_all cr fp [] prepared s = (Inr (), prepared, s)"
| "prepare_all cr fp ((path, v) # files) prepared s =
     (case prepare cr fp path s of
        (Inl e, s) \<Rightarrow> (Inl e, prepared, s)
      | (Inr f, s) \<Rightarrow>
          (case write_file fp (as_bytes v) f s of
             (Inl e, f, s) \<Rightarrow> (Inl e, prepared @ [f], s)
           | (Inr _, f, s) \<Rightarrow> prepare_all cr fp files (prepared @ [f]) s))"

fun commit_all ::
  "faults \<Rightarrow> (nat \<Rightarrow> file_secret_error + unit) \<Rightarrow> nat \<Rightarrow> prepared_file list \<Rightarrow> fsys
     \<Rightarrow> (file_secret_error + unit) \<times> prepared_file list \<times> fsys" where
  "commit_all fp before_commit i [] s = (Inr (), [], s)"
| "commit_all fp before_commit i (f # files) s =
     (case before_commit i of
        Inl e \<Rightarrow> (Inl e, f # files, s)
      | Inr _ \<Rightarrow>
          (case commit fp f s of
             (Inl e, f, s) \<Rightarrow> (Inl e, f # files, s)
           | (Inr _, f, s) \<Rightarrow>
               (case commit_all fp before_commit (i + 1) files s of (r, files, s) \<Rightarrow> (r, f # files, s))))"

fun rollback_all :: "faults \<Rightarrow> prepared_file list \<Rightarrow> bool \<Rightarrow> fsys \<Rightarrow> bool \<times> fsys" where
  "rollback_all fp [] rollback_failed s = (rollback_failed, s)"
| "rollback_all fp (f # files) rollback_failed s =
     (case rollback fp f s of (r, s) \<Rightarrow> rollback_all fp files (rollback_failed \<or> \<not> is_ok r) s)"

fun discard_backups :: "faults \<Rightarrow> prepared_file list \<Rightarrow> unit fs_run" where
  "discard_backups fp [] s = (Inr (), s)"
| "discard_backups fp (f # files) s =
     fs_bind (if pf_backed_up f then unlink fp (pf_parent f) (pf_backup f) else fs_return ()) (\<lambda>_.
     fs_bind (sync_all fp InstallFailed) (\<lambda>_. discard_backups fp files)) s"

definition install_at ::
  "crates \<Rightarrow> faults \<Rightarrow> (string \<times> string) list \<Rightarrow> (nat \<Rightarrow> file_secret_error + unit) \<Rightarrow> unit fs_run" where
  "install_at cr fp files before_commit s =
     (case (case prepare_all cr fp files [] s of
              (Inl e, prepared, s) \<Rightarrow> (Inl e, prepared, s)
            | (Inr _, prepared, s) \<Rightarrow> commit_all fp before_commit 0 prepared s) of
        (Inl e, prepared, s) \<Rightarrow>
          let (rollback_failed, s) = rollback_all fp (rev prepared) False s
          in (Inl (if rollback_failed then RollbackFailed else e), s)
      | (Inr _, prepared, s) \<Rightarrow> discard_backups fp prepared s)"

definition install_secret_files :: "crates \<Rightarrow> faults \<Rightarrow> (string \<times> string) list \<Rightarrow> unit fs_run" where
  "install_secret_files cr fp files = install_at cr fp files (\<lambda>_. Inr ())"

end
