(* ===== verification/FileSecretsProofs.thy ===== *)
theory FileSecretsProofs
  imports FileSecrets
begin

text \<open>
  What the operations of \<open>FileSecrets\<close> do to the file system. \<open>consistent b f n\<close> says that the flags of a
  prepared file describe how the file system \<open>n\<close> differs at its three names from the file system \<open>b\<close> to
  restore; a rollback of a consistent file restores it, and preparing, writing and committing keep it, so a group
  of files with separate names is restored as a whole.
\<close>

section \<open>What each operation changes\<close>

lemma syscall_nodes [simp]: "fs_nodes (snd (syscall fp s)) = fs_nodes s"
  by (simp add: syscall_def)

lemma fs_nodes_calls [simp]: "fs_nodes (s\<lparr>fs_calls := k\<rparr>) = fs_nodes s"
  by simp

lemma set_node_nodes [simp]: "fs_nodes (set_node p n s) = (fs_nodes s)(p := n)"
  by (simp add: set_node_def)

definition dest_path :: "prepared_file \<Rightarrow> fpath" where "dest_path f = pf_parent f @ [pf_destination f]"
definition stage_path :: "prepared_file \<Rightarrow> fpath" where "stage_path f = pf_parent f @ [pf_staging f]"
definition back_path :: "prepared_file \<Rightarrow> fpath" where "back_path f = pf_parent f @ [pf_backup f]"

definition paths_of :: "prepared_file \<Rightarrow> fpath set" where "paths_of f = {dest_path f, stage_path f, back_path f}"

definition apart :: "prepared_file \<Rightarrow> bool" where
  "apart f \<longleftrightarrow> dest_path f \<noteq> stage_path f \<and> dest_path f \<noteq> back_path f \<and> stage_path f \<noteq> back_path f"

lemmas file_paths = dest_path_def stage_path_def back_path_def

lemma regular_file_run:
  assumes "regular_file fp d x s = (r, s')"
  shows "fs_nodes s' = fs_nodes s"
    and "r = Inr True \<Longrightarrow> \<exists>c. fs_nodes s (d @ [x]) = Some (Regular c)"
    and "r = Inr False \<Longrightarrow> fs_nodes s (d @ [x]) = None"
  using assms
  by (auto simp: regular_file_def syscall_def Let_def split: if_splits option.splits node.splits)

lemma rename_run:
  assumes "rename fp d x y strict s = (r, s')"
  shows "r = Inl e \<Longrightarrow> fs_nodes s' = fs_nodes s"
    and "r = Inr () \<Longrightarrow> \<exists>c. fs_nodes s (d @ [x]) = Some (Regular c)
          \<and> fs_nodes s' = (fs_nodes s)(d @ [x] := None, d @ [y] := Some (Regular c))
          \<and> (strict \<longrightarrow> fs_nodes s (d @ [y]) = None)"
  using assms
  by (auto simp: rename_def syscall_def Let_def split: if_splits option.splits node.splits)

lemma unlink_run:
  assumes "unlink fp d x s = (r, s')"
  shows "r = Inl e \<Longrightarrow> fs_nodes s' = fs_nodes s"
    and "r = Inr () \<Longrightarrow> fs_nodes s' = (fs_nodes s)(d @ [x] := None)"
  using assms
  by (auto simp: unlink_def syscall_def Let_def fun_eq_iff split: if_splits option.splits node.splits)

lemma sync_all_run: "sync_all fp e s = (r, s') \<Longrightarrow> fs_nodes s' = fs_nodes s"
  by (auto simp: sync_all_def syscall_def Let_def split: if_splits)

lemma sync_all_error: "sync_all fp e s = (Inl x, s') \<Longrightarrow> x = e"
  by (auto simp: sync_all_def syscall_def Let_def split: if_splits)

lemma fs_bind_Inr: "fs_bind m f s = (Inr y, s') \<longleftrightarrow> (\<exists>x s1. m s = (Inr x, s1) \<and> f x s1 = (Inr y, s'))"
  by (auto simp: fs_bind_def split: prod.splits sum.splits)

lemma fs_bind_Inl: "fs_bind m f s = (Inl e, s') \<longleftrightarrow> m s = (Inl e, s') \<or> (\<exists>x s1. m s = (Inr x, s1) \<and> f x s1 = (Inl e, s'))"
  by (auto simp: fs_bind_def split: prod.splits sum.splits)

section \<open>One file\<close>

text \<open>
  A file under installation agrees with its flags, over the nodes \<open>b\<close> that were there before: the old
  content is in place or in the backup, and whatever was not there before is recorded.
\<close>

definition consistent :: "(fpath \<Rightarrow> node option) \<Rightarrow> prepared_file \<Rightarrow> (fpath \<Rightarrow> node option) \<Rightarrow> bool" where
  "consistent b f n \<longleftrightarrow> apart f \<and> b (stage_path f) = None
     \<and> (if pf_staged f then \<exists>c. n (stage_path f) = Some (Regular c) else n (stage_path f) = None)
     \<and> (pf_committed f \<longrightarrow> (\<exists>c. n (dest_path f) = Some (Regular c)))
     \<and> (if pf_backed_up f
        then (\<exists>c. b (dest_path f) = Some (Regular c)) \<and> n (back_path f) = b (dest_path f) \<and> b (back_path f) = None
          \<and> (\<not> pf_committed f \<longrightarrow> n (dest_path f) = None)
        else n (back_path f) = b (back_path f) \<and> (if pf_committed f then b (dest_path f) = None else n (dest_path f) = b (dest_path f)))"

lemma rollback_restores:
  assumes c: "consistent b f (fs_nodes s)" and run: "rollback fp f s = (Inr (), s')"
  shows "fs_nodes s' = (fs_nodes s)(dest_path f := b (dest_path f), stage_path f := b (stage_path f), back_path f := b (back_path f))"
proof -
  obtain s1 where 1: "(if pf_committed f then unlink fp (pf_parent f) (pf_destination f) else fs_return ()) s = (Inr (), s1)"
    and "fs_bind (if pf_backed_up f then rename fp (pf_parent f) (pf_backup f) (pf_destination f) False else fs_return ()) (\<lambda>_.
     fs_bind (if pf_staged f then unlink fp (pf_parent f) (pf_staging f) else fs_return ()) (\<lambda>_.
       sync_all fp RollbackFailed)) s1 = (Inr (), s')"
    using run unfolding rollback_def fs_bind_Inr by auto
  then obtain s2 where 2: "(if pf_backed_up f then rename fp (pf_parent f) (pf_backup f) (pf_destination f) False else fs_return ()) s1
      = (Inr (), s2)"
    and "fs_bind (if pf_staged f then unlink fp (pf_parent f) (pf_staging f) else fs_return ()) (\<lambda>_.
       sync_all fp RollbackFailed) s2 = (Inr (), s')"
    unfolding fs_bind_Inr by auto
  then obtain s3 where 3: "(if pf_staged f then unlink fp (pf_parent f) (pf_staging f) else fs_return ()) s2 = (Inr (), s3)"
    and s': "fs_nodes s' = fs_nodes s3"
    unfolding fs_bind_Inr by (auto dest: sync_all_run)
  have n1: "fs_nodes s1 = (if pf_committed f then (fs_nodes s)(dest_path f := None) else fs_nodes s)"
    using 1 unlink_run(2) [of fp "pf_parent f" "pf_destination f" s _ s1] by (auto simp: fs_return_def dest_path_def split: if_splits)
  have n2: "fs_nodes s2 = (if pf_backed_up f then (fs_nodes s1)(back_path f := None, dest_path f := fs_nodes s1 (back_path f)) else fs_nodes s1)"
    using 2 rename_run(2) [of fp "pf_parent f" "pf_backup f" "pf_destination f" False s1 _ s2]
    by (auto simp: fs_return_def dest_path_def back_path_def split: if_splits)
  have n3: "fs_nodes s3 = (if pf_staged f then (fs_nodes s2)(stage_path f := None) else fs_nodes s2)"
    using 3 unlink_run(2) [of fp "pf_parent f" "pf_staging f" s2 _ s3] by (auto simp: fs_return_def stage_path_def split: if_splits)
  have "fs_nodes s3 p = ((fs_nodes s)(dest_path f := b (dest_path f), stage_path f := b (stage_path f), back_path f := b (back_path f))) p" for p
    using c unfolding n3 n2 n1 consistent_def apart_def by (auto split: if_splits)
  then show ?thesis unfolding s' by blast
qed

lemma rollback_frame:
  assumes "rollback fp f s = (r, s')" "p \<notin> paths_of f"
  shows "fs_nodes s' p = fs_nodes s p"
proof -
  obtain r1 s1 where 1: "(if pf_committed f then unlink fp (pf_parent f) (pf_destination f) else fs_return ()) s = (r1, s1)"
    by (metis surj_pair)
  obtain r2 s2 where 2: "(if pf_backed_up f then rename fp (pf_parent f) (pf_backup f) (pf_destination f) False else fs_return ()) s1
      = (r2, s2)" by (metis surj_pair)
  obtain r3 s3 where 3: "(if pf_staged f then unlink fp (pf_parent f) (pf_staging f) else fs_return ()) s2 = (r3, s3)"
    by (metis surj_pair)
  obtain r4 s4 where 4: "sync_all fp RollbackFailed s3 = (r4, s4)" by (metis surj_pair)
  have p: "p \<noteq> pf_parent f @ [pf_destination f]" "p \<noteq> pf_parent f @ [pf_backup f]" "p \<noteq> pf_parent f @ [pf_staging f]"
    using assms(2) by (auto simp: paths_of_def file_paths)
  have ul: "fs_nodes t' p = fs_nodes t p" if "unlink fp (pf_parent f) x t = (q, t')" "p \<noteq> pf_parent f @ [x]" for x t q t'
    using unlink_run [OF that(1)] that(2) by (cases q) auto
  have "fs_nodes s1 p = fs_nodes s p" using 1 ul p by (auto simp: fs_return_def split: if_splits)
  moreover have "fs_nodes s2 p = fs_nodes s1 p"
    using 2 rename_run [of fp "pf_parent f" "pf_backup f" "pf_destination f" False s1 r2 s2] p
    by (cases r2) (auto simp: fs_return_def split: if_splits)
  moreover have "fs_nodes s3 p = fs_nodes s2 p" using 3 ul p by (auto simp: fs_return_def split: if_splits)
  moreover have "s' \<in> {s1, s2, s3, s4}"
    using assms(1) 1 2 3 4 by (auto simp: rollback_def fs_bind_def split: sum.splits)
  moreover have "fs_nodes s4 p = fs_nodes s3 p" using sync_all_run [OF 4] by simp
  ultimately show ?thesis by auto
qed

lemma consistent_cong:
  "(\<And>p. p \<in> paths_of f \<Longrightarrow> n' p = n p) \<Longrightarrow> consistent b f n \<Longrightarrow> consistent b f n'"
  by (simp add: consistent_def paths_of_def)

definition same_paths :: "prepared_file \<Rightarrow> prepared_file \<Rightarrow> bool" where
  "same_paths f f' \<longleftrightarrow> dest_path f' = dest_path f \<and> stage_path f' = stage_path f \<and> back_path f' = back_path f"

lemma same_paths_of: "same_paths f f' \<Longrightarrow> paths_of f' = paths_of f"
  by (simp add: same_paths_def paths_of_def)

definition ready :: "prepared_file \<Rightarrow> bool" where
  "ready f \<longleftrightarrow> pf_staged f \<and> \<not> pf_backed_up f \<and> \<not> pf_committed f"

definition step_ok ::
  "(fpath \<Rightarrow> node option) \<Rightarrow> prepared_file \<Rightarrow> (fpath \<Rightarrow> node option) \<Rightarrow> file_secret_error + unit \<Rightarrow> prepared_file
     \<Rightarrow> (fpath \<Rightarrow> node option) \<Rightarrow> bool" where
  "step_ok b f n r f' n' \<longleftrightarrow> consistent b f' n' \<and> same_paths f f' \<and> (\<forall>p. p \<notin> paths_of f \<longrightarrow> n' p = n p)
     \<and> (r = Inr () \<longrightarrow> pf_committed f' \<and> \<not> pf_staged f' \<and> n' (dest_path f) = n (stage_path f))"

lemma move_in_run:
  assumes c: "consistent b f (fs_nodes s)" "pf_staged f" "\<not> pf_committed f" "fs_nodes s (dest_path f) = None"
    and run: "move_in fp f s = (r, f', s')"
  shows "step_ok b f (fs_nodes s) r f' (fs_nodes s')"
proof -
  let ?d = "dest_path f" and ?t = "stage_path f"
  obtain q s1 where 1: "rename fp (pf_parent f) (pf_staging f) (pf_destination f) False s = (q, s1)" by (metis surj_pair)
  show ?thesis
  proof (cases q)
    case (Inl e)
    then show ?thesis using run 1 rename_run(1) [OF 1] c(1) by (auto simp: move_in_def step_ok_def same_paths_def)
  next
    case (Inr u)
    obtain q2 s2 where 2: "sync_all fp InstallFailed s1 = (q2, s2)" by (metis surj_pair)
    have n: "fs_nodes s2 = (fs_nodes s)(?t := None, ?d := fs_nodes s ?t)"
      using rename_run(2) [OF 1] Inr sync_all_run [OF 2] by (auto simp: file_paths)
    define h where "h = f\<lparr>pf_staged := False, pf_committed := True\<rparr>"
    have h: "same_paths f h" "pf_backed_up h = pf_backed_up f" "pf_committed h" "\<not> pf_staged h"
      by (simp_all add: h_def same_paths_def file_paths)
    have "r = q2" "f' = h" "s' = s2" using run 1 2 Inr by (simp_all add: move_in_def h_def)
    moreover have "consistent b h (fs_nodes s2)"
      using c h unfolding n by (auto simp: consistent_def same_paths_def apart_def split: if_splits)
    ultimately show ?thesis using h(1,3,4) c(1)
      by (auto simp: step_ok_def n paths_of_def consistent_def apart_def)
  qed
qed

lemma commit_run:
  assumes c: "consistent b f (fs_nodes s)" "ready f" and run: "commit fp f s = (r, f', s')"
  shows "step_ok b f (fs_nodes s) r f' (fs_nodes s')"
proof -
  let ?n = "fs_nodes s" and ?d = "dest_path f" and ?b = "back_path f"
  obtain q s1 where 1: "regular_file fp (pf_parent f) (pf_destination f) s = (q, s1)" by (metis surj_pair)
  have n1: "fs_nodes s1 = ?n" using regular_file_run(1) [OF 1] .
  have stay: "step_ok b f ?n (Inl e) f ?n" for e using c(1) by (simp add: step_ok_def same_paths_def)
  consider (fail) e where "q = Inl e" | (absent) "q = Inr False" | (present) "q = Inr True" by (cases q) auto
  then show ?thesis
  proof cases
    case fail
    then show ?thesis using run 1 n1 stay by (auto simp: commit_def)
  next
    case absent
    then show ?thesis
      using run 1 n1 regular_file_run(3) [OF 1] c move_in_run [of b f s1 fp r f' s']
      by (simp add: commit_def ready_def dest_path_def)
  next
    case present
    obtain q2 s2 where 2: "rename fp (pf_parent f) (pf_destination f) (pf_backup f) True s1 = (q2, s2)" by (metis surj_pair)
    show ?thesis
    proof (cases q2)
      case (Inl e)
      then show ?thesis using run 1 2 present rename_run(1) [OF 2] n1 stay by (auto simp: commit_def)
    next
      case (Inr u)
      define g where "g = f\<lparr>pf_backed_up := True\<rparr>"
      have g: "same_paths f g" "pf_staged g" "\<not> pf_committed g" "pf_backed_up g"
        using c(2) by (simp_all add: g_def same_paths_def file_paths ready_def)
      obtain x where x: "?n ?d = Some (Regular x)" "?n ?b = None" "fs_nodes s2 = ?n(?d := None, ?b := ?n ?d)"
        using rename_run(2) [OF 2] Inr n1 by (auto simp: file_paths)
      have "b ?d = Some (Regular x)" "b ?b = None" using c x(1,2) by (auto simp: consistent_def ready_def)
      then have "consistent b g (fs_nodes s2)"
        using c g unfolding x(3) by (auto simp: consistent_def same_paths_def apart_def ready_def x(1,2))
      moreover have "move_in fp g s2 = (r, f', s')" using run 1 2 present Inr by (simp add: commit_def g_def)
      moreover have "fs_nodes s2 (dest_path g) = None" using g(1) c(1) by (auto simp: same_paths_def x(3) consistent_def apart_def)
      ultimately have "step_ok b g (fs_nodes s2) r f' (fs_nodes s')" using move_in_run g by blast
      moreover have "fs_nodes s2 (stage_path f) = ?n (stage_path f)" using c(1) by (auto simp: x(3) consistent_def apart_def)
      ultimately show ?thesis using g(1) same_paths_of [OF g(1)]
        by (auto simp: step_ok_def same_paths_def x(3) paths_of_def)
    qed
  qed
qed

section \<open>The group\<close>

definition separate :: "prepared_file list \<Rightarrow> bool" where
  "separate fs \<longleftrightarrow> sorted_wrt (\<lambda>f g. paths_of f \<inter> paths_of g = {}) fs"

lemma separate_Cons: "separate (f # fs) \<longleftrightarrow> (\<forall>g \<in> set fs. paths_of f \<inter> paths_of g = {}) \<and> separate fs"
  by (auto simp: separate_def)

lemma separate_disjoint:
  "separate fs \<Longrightarrow> f \<in> set fs \<Longrightarrow> g \<in> set fs \<Longrightarrow> f \<noteq> g \<Longrightarrow> paths_of f \<inter> paths_of g = {}"
proof (induction fs)
  case (Cons h fs)
  then show ?case by (auto simp: separate_Cons Int_commute)
qed simp

lemma separate_rev: "separate (rev fs) \<longleftrightarrow> separate fs"
  by (simp add: separate_def sorted_wrt_rev Int_commute)

lemma rollback_all_failed: "rollback_all fp fs True s = (r, s') \<Longrightarrow> r"
  by (induction fs arbitrary: s) (auto split: prod.splits)

lemma rollback_all_restores:
  assumes "separate fs" "\<forall>f \<in> set fs. consistent b f (fs_nodes s)" "rollback_all fp fs False s = (False, s')"
  shows "fs_nodes s' p = (if \<exists>f \<in> set fs. p \<in> paths_of f then b p else fs_nodes s p)"
  using assms
proof (induction fs arbitrary: s)
  case (Cons f fs)
  obtain r s1 where r: "rollback fp f s = (r, s1)" by (metis surj_pair)
  have "r = Inr ()"
  proof (cases r)
    case (Inl e)
    then have "rollback_all fp fs True s1 = (False, s')" using Cons.prems(3) r by simp
    then show ?thesis using rollback_all_failed by blast
  qed simp
  then have rest: "rollback_all fp fs False s1 = (False, s')" using Cons.prems(3) r by simp
  have f: "fs_nodes s1 = (fs_nodes s)(dest_path f := b (dest_path f), stage_path f := b (stage_path f), back_path f := b (back_path f))"
    using rollback_restores Cons.prems(2) r \<open>r = Inr ()\<close> by simp
  have "consistent b g (fs_nodes s1)" if "g \<in> set fs" for g
  proof (rule consistent_cong)
    show "consistent b g (fs_nodes s)" using Cons.prems(2) that by simp
    show "fs_nodes s1 p = fs_nodes s p" if "p \<in> paths_of g" for p
      using rollback_frame [OF r] Cons.prems(1) \<open>g \<in> set fs\<close> that by (auto simp: separate_Cons)
  qed
  then have "fs_nodes s' p = (if \<exists>f \<in> set fs. p \<in> paths_of f then b p else fs_nodes s1 p)"
    using Cons.IH rest Cons.prems(1) by (simp add: separate_Cons)
  then show ?case by (auto simp: f paths_of_def)
qed simp

lemma commit_all_run:
  assumes "separate fs" "\<forall>f \<in> set fs. consistent b f (fs_nodes s) \<and> ready f"
    "commit_all fp before_commit i fs s = (r, fs', s')"
  shows "list_all2 same_paths fs fs' \<and> (\<forall>f \<in> set fs'. consistent b f (fs_nodes s'))
    \<and> (\<forall>p. (\<forall>f \<in> set fs. p \<notin> paths_of f) \<longrightarrow> fs_nodes s' p = fs_nodes s p)
    \<and> (r = Inr () \<longrightarrow> (\<forall>f \<in> set fs'. pf_committed f \<and> \<not> pf_staged f)
        \<and> (\<forall>f \<in> set fs. fs_nodes s' (dest_path f) = fs_nodes s (stage_path f)))"
  using assms
proof (induction fs arbitrary: i s fs')
  case (Cons f fs)
  have refl: "list_all2 same_paths xs xs" for xs by (rule list_all2_refl) (simp add: same_paths_def)
  show ?case
  proof (cases "before_commit i")
    case (Inl e)
    then show ?thesis using Cons.prems refl [of "f # fs"] by auto
  next
    case (Inr u)
    obtain q g s1 where g: "commit fp f s = (q, g, s1)" by (metis surj_pair)
    have step: "step_ok b f (fs_nodes s) q g (fs_nodes s1)" using commit_run [OF _ _ g] Cons.prems(2) by simp
    have frame: "fs_nodes s1 p = fs_nodes s p" if "h \<in> set fs" "p \<in> paths_of h" for h p
      using step that Cons.prems(1) by (auto simp: step_ok_def separate_Cons)
    have later: "consistent b h (fs_nodes s1)" if "h \<in> set fs" for h
      using Cons.prems(2) frame that by (intro consistent_cong [of h "fs_nodes s1" "fs_nodes s"]) auto
    show ?thesis
    proof (cases q)
      case (Inl e)
      then show ?thesis using Cons.prems(3) Inr g step later refl [of fs] by (auto simp: step_ok_def)
    next
      case ok: (Inr u')
      obtain gs where gs: "commit_all fp before_commit (i + 1) fs s1 = (r, gs, s')" "fs' = g # gs"
        using Cons.prems(3) Inr g ok by (auto split: prod.splits)
      have IH: "list_all2 same_paths fs gs \<and> (\<forall>f \<in> set gs. consistent b f (fs_nodes s'))
        \<and> (\<forall>p. (\<forall>f \<in> set fs. p \<notin> paths_of f) \<longrightarrow> fs_nodes s' p = fs_nodes s1 p)
        \<and> (r = Inr () \<longrightarrow> (\<forall>f \<in> set gs. pf_committed f \<and> \<not> pf_staged f)
            \<and> (\<forall>f \<in> set fs. fs_nodes s' (dest_path f) = fs_nodes s1 (stage_path f)))"
        using Cons.IH [OF _ _ gs(1)] Cons.prems(1,2) later by (simp add: separate_Cons)
      have own: "fs_nodes s' p = fs_nodes s1 p" if "p \<in> paths_of f" for p
      proof -
        have "\<forall>h \<in> set fs. p \<notin> paths_of h" using that Cons.prems(1) unfolding separate_Cons by blast
        then show ?thesis using IH by blast
      qed
      have "consistent b g (fs_nodes s')"
        using step own same_paths_of [of f g] by (intro consistent_cong [of g "fs_nodes s'" "fs_nodes s1"]) (auto simp: step_ok_def)
      moreover have "fs_nodes s' (dest_path f) = fs_nodes s (stage_path f)" if "r = Inr ()"
        using own [of "dest_path f"] step ok by (simp add: step_ok_def paths_of_def)
      moreover have "fs_nodes s1 (stage_path h) = fs_nodes s (stage_path h)" if "h \<in> set fs" for h
        using frame [OF that] by (simp add: paths_of_def)
      ultimately show ?thesis using IH step gs(2) ok by (auto simp: step_ok_def)
    qed
  qed
qed simp

lemma discard_backups_run:
  assumes "discard_backups fp fs s = (r, s')"
  shows "fs_nodes s' p = fs_nodes s p \<or> (fs_nodes s' p = None \<and> (\<exists>f \<in> set fs. pf_backed_up f \<and> p = back_path f))"
    "r = Inr () \<Longrightarrow> f \<in> set fs \<Longrightarrow> pf_backed_up f \<Longrightarrow> fs_nodes s' (back_path f) = None"
    "r = Inl e \<Longrightarrow> e = InstallFailed"
proof -
  have "(\<forall>p. fs_nodes s' p = fs_nodes s p \<or> (fs_nodes s' p = None \<and> (\<exists>f \<in> set fs. pf_backed_up f \<and> p = back_path f)))
    \<and> (r = Inr () \<longrightarrow> (\<forall>f \<in> set fs. pf_backed_up f \<longrightarrow> fs_nodes s' (back_path f) = None))
    \<and> (\<forall>e. r = Inl e \<longrightarrow> e = InstallFailed)"
    using assms
  proof (induction fs arbitrary: s)
    case (Cons f fs)
    obtain q s1 where 1: "(if pf_backed_up f then unlink fp (pf_parent f) (pf_backup f) else fs_return ()) s = (q, s1)"
      by (metis surj_pair)
    have n1: "fs_nodes s1 = (if pf_backed_up f \<and> q = Inr () then (fs_nodes s)(back_path f := None) else fs_nodes s)"
        "q = Inl e \<Longrightarrow> e = InstallFailed" for e
      using 1 unlink_run [of fp "pf_parent f" "pf_backup f" s q s1]
      by (cases q; auto simp: fs_return_def back_path_def unlink_def Let_def syscall_def split: if_splits option.splits node.splits)+
    obtain q2 s2 where 2: "sync_all fp InstallFailed s1 = (q2, s2)" by (metis surj_pair)
    note n2 = sync_all_run [OF 2]
    show ?case
    proof (cases "q = Inr () \<and> q2 = Inr ()")
      case True
      then have "discard_backups fp fs s2 = (r, s')" using Cons.prems 1 2 by (simp add: fs_bind_def)
      from Cons.IH [OF this] show ?thesis using n1(1) n2 True by (auto split: if_splits)
    next
      case False
      then have "(r, s') = (q, s1) \<and> (\<exists>e. q = Inl e) \<or> (r, s') = (q2, s2) \<and> (\<exists>e. q2 = Inl e)"
        using Cons.prems 1 2 by (cases q; cases q2) (auto simp: fs_bind_def)
      then show ?thesis using n1 n2 sync_all_error 2 by (auto split: if_splits)
    qed
  qed auto
  then show "fs_nodes s' p = fs_nodes s p \<or> (fs_nodes s' p = None \<and> (\<exists>f \<in> set fs. pf_backed_up f \<and> p = back_path f))"
    "r = Inr () \<Longrightarrow> f \<in> set fs \<Longrightarrow> pf_backed_up f \<Longrightarrow> fs_nodes s' (back_path f) = None"
    "r = Inl e \<Longrightarrow> e = InstallFailed" by blast+
qed

section \<open>Preparation\<close>

text \<open>Preparing only adds directories.\<close>

definition grows :: "(fpath \<Rightarrow> node option) \<Rightarrow> (fpath \<Rightarrow> node option) \<Rightarrow> bool" where
  "grows n n' \<longleftrightarrow> (\<forall>p. n' p = n p \<or> (n p = None \<and> n' p = Some Directory))"

lemma grows_refl [simp, intro]: "grows n n"
  by (simp add: grows_def)

lemma grows_trans: "grows n n' \<Longrightarrow> grows n' n'' \<Longrightarrow> grows n n''"
  unfolding grows_def by metis

lemma directory_run:
  assumes "directory fp parent name s = (r, s')"
  shows "grows (fs_nodes s) (fs_nodes s')" "r = Inr p \<Longrightarrow> p = parent @ [name]"
  using assms
  by (auto simp: directory_def syscall_def Let_def grows_def split: if_splits option.splits node.splits)

lemma open_parents_run:
  assumes "open_parents fp cs parent s = (r, s')"
  shows "grows (fs_nodes s) (fs_nodes s') \<and> (\<forall>p. r = Inr p \<longrightarrow> p = parent @ cs)"
  using assms
proof (induction cs arbitrary: parent s)
  case (Cons c cs)
  show ?case
  proof (cases "c_name c")
    case (Inl e)
    then show ?thesis using Cons.prems by auto
  next
    case (Inr name)
    then have name: "name = c" by (auto simp: c_name_def split: if_splits)
    obtain q s1 where 1: "directory fp parent name s = (q, s1)" by (metis surj_pair)
    show ?thesis
    proof (cases q)
      case (Inl e)
      then show ?thesis using Cons.prems Inr 1 directory_run(1) [OF 1] by (auto simp: fs_bind_def)
    next
      case ok: (Inr d)
      then have "open_parents fp cs d s1 = (r, s')" "d = parent @ [c]"
        using Cons.prems Inr 1 directory_run(2) [OF 1] name by (auto simp: fs_bind_def)
      then show ?thesis using Cons.IH [of d s1] directory_run(1) [OF 1] grows_trans by auto
    qed
  qed
qed auto

text \<open>Without a leftover of an earlier installation, recovery finds nothing to do.\<close>

lemma recover_run:
  assumes run: "recover fp f s = (r, s')"
    and clean: "\<And>c. fs_nodes s (back_path f) \<noteq> Some (Regular c)" "\<And>c. fs_nodes s (stage_path f) \<noteq> Some (Regular c)"
  shows "fs_nodes s' = fs_nodes s"
    "r = Inr f' \<Longrightarrow> f' = f \<and> fs_nodes s (stage_path f) = None"
proof -
  obtain q1 s1 where 1: "regular_file fp (pf_parent f) (pf_destination f) s = (q1, s1)" by (metis surj_pair)
  obtain q2 s2 where 2: "regular_file fp (pf_parent f) (pf_backup f) s1 = (q2, s2)" by (metis surj_pair)
  obtain q3 s3 where 3: "regular_file fp (pf_parent f) (pf_staging f) s2 = (q3, s3)" by (metis surj_pair)
  have n: "fs_nodes s1 = fs_nodes s" "fs_nodes s2 = fs_nodes s" "fs_nodes s3 = fs_nodes s"
    using regular_file_run(1) [OF 1] regular_file_run(1) [OF 2] regular_file_run(1) [OF 3] by simp_all
  have q: "q2 \<noteq> Inr True" "q3 \<noteq> Inr True"
    using regular_file_run(2) [OF 2] regular_file_run(2) [OF 3] clean n by (auto simp: file_paths)
  have "q3 = Inr False \<Longrightarrow> fs_nodes s (stage_path f) = None"
    using regular_file_run(3) [OF 3] n by (simp add: stage_path_def)
  moreover have "s' \<in> {s1, s2, s3} \<and> (\<forall>f'. r = Inr f' \<longrightarrow> f' = f \<and> q3 = Inr False)"
    using run 1 2 3 q by (auto simp: recover_def fs_bind_def fs_return_def split: sum.splits if_splits)
  ultimately show "fs_nodes s' = fs_nodes s" "r = Inr f' \<Longrightarrow> f' = f \<and> fs_nodes s (stage_path f) = None"
    using n by auto
qed

definition prepared_for :: "crates \<Rightarrow> string \<Rightarrow> prepared_file \<Rightarrow> bool" where
  "prepared_for cr path f \<longleftrightarrow> dest_path f = path_components path
     \<and> stage_path f = butlast (path_components path) @ [staging_name cr path]
     \<and> back_path f = butlast (path_components path) @ [backup_name cr path]
     \<and> \<not> starts_with (pf_destination f) private_prefix"

definition unprepared :: "crates \<Rightarrow> string \<Rightarrow> prepared_file" where
  "unprepared cr path = \<lparr>pf_parent = butlast (path_components path), pf_destination = last (path_components path),
     pf_staging = staging_name cr path, pf_backup = backup_name cr path, pf_staged = False, pf_backed_up = False,
     pf_committed = False\<rparr>"

lemma prepare_cases:
  assumes run: "prepare cr fp path s = (r, s')"
  obtains (early) e where "r = Inl e" "grows (fs_nodes s) (fs_nodes s')"
    | (late) s2 where "recover fp (unprepared cr path) s2 = (r, s')" "grows (fs_nodes s) (fs_nodes s2)"
        "path_components path \<noteq> []" "\<not> starts_with (last (path_components path)) private_prefix"
proof -
  let ?cs = "path_components path"
  define bad where "bad \<longleftrightarrow> \<not> starts_with path ''/'' \<or> ends_with path ''/'' \<or> length path > 4096"
  define bad2 where "bad2 \<longleftrightarrow> ?cs = [] \<or> ''..'' \<in> set ?cs"
  obtain q s1 where 1: "syscall fp s = (q, s1)" by (metis surj_pair)
  obtain q2 s2 where 2: "open_parents fp (butlast ?cs) [] s1 = (q2, s2)" by (metis surj_pair)
  have n1: "fs_nodes s1 = fs_nodes s" using 1 by (auto simp: syscall_def)
  have g: "grows (fs_nodes s) (fs_nodes s2)" "\<And>p. q2 = Inr p \<Longrightarrow> p = butlast ?cs"
    using open_parents_run [OF 2] n1 by simp_all
  note run = run [unfolded prepare_def Let_def bad_def [symmetric] bad2_def [symmetric] 1 prod.case fs_bind_def 2]
  show thesis
  proof (cases "bad \<or> bad2 \<or> q")
    case True
    then have "(\<exists>e. r = Inl e) \<and> fs_nodes s' = fs_nodes s" using run n1 by (cases bad; cases bad2) auto
    then show thesis using early by auto
  next
    case go: False
    show thesis
    proof (cases q2)
      case (Inl e)
      then show thesis using run go early g(1) by auto
    next
      case (Inr parent)
      show thesis
      proof (cases "c_name (last ?cs)")
        case fail: (Inl e)
        then show thesis using run go Inr early g(1) by auto
      next
        case ok: (Inr d)
        have d: "d = last ?cs" using ok by (simp add: c_name_def split: if_splits)
        show thesis
        proof (cases "starts_with d private_prefix")
          case True
          then show thesis using run go Inr ok early g(1) by auto
        next
          case False
          then have "recover fp (unprepared cr path) s2 = (r, s')"
            using run go Inr ok g(2) d by (simp add: unprepared_def)
          moreover have "?cs \<noteq> []" using go by (simp add: bad2_def)
          ultimately show thesis using late g(1) False d by simp
        qed
      qed
    qed
  qed
qed

lemma prepare_run:
  assumes run: "prepare cr fp path s = (r, s')"
    and clean: "\<And>n' c d. grows (fs_nodes s) n' \<Longrightarrow> n' (d @ [backup_name cr path]) \<noteq> Some (Regular c)
      \<and> n' (d @ [staging_name cr path]) \<noteq> Some (Regular c)"
  shows "grows (fs_nodes s) (fs_nodes s') \<and> (\<forall>f. r = Inr f \<longrightarrow> prepared_for cr path f \<and> fs_nodes s' (stage_path f) = None
      \<and> \<not> pf_staged f \<and> \<not> pf_backed_up f \<and> \<not> pf_committed f)"
proof (cases rule: prepare_cases [OF run])
  case (2 s2)
  let ?u = "unprepared cr path"
  have paths: "back_path ?u = butlast (path_components path) @ [backup_name cr path]"
      "stage_path ?u = butlast (path_components path) @ [staging_name cr path]"
      "dest_path ?u = path_components path" "pf_destination ?u = last (path_components path)"
    using 2(3) by (simp_all add: file_paths unprepared_def)
  have clean: "fs_nodes s2 (back_path ?u) \<noteq> Some (Regular c)" "fs_nodes s2 (stage_path ?u) \<noteq> Some (Regular c)" for c
    unfolding paths using clean [OF 2(2)] by blast+
  note rec = recover_run [OF 2(1) clean]
  have "prepared_for cr path ?u" unfolding prepared_for_def paths using 2(4) by simp
  moreover have "\<not> pf_staged ?u \<and> \<not> pf_backed_up ?u \<and> \<not> pf_committed ?u" by (simp add: unprepared_def)
  ultimately show ?thesis using rec 2(2) by metis
qed simp

lemma write_file_run:
  assumes run: "write_file fp v f s = (r, f', s')" and f: "\<not> pf_staged f" "fs_nodes s (stage_path f) = None"
  shows "same_paths f f'" "pf_destination f' = pf_destination f" "pf_backed_up f' = pf_backed_up f"
    "pf_committed f' = pf_committed f" "p \<noteq> stage_path f \<Longrightarrow> fs_nodes s' p = fs_nodes s p"
    "if pf_staged f' then \<exists>c. fs_nodes s' (stage_path f) = Some (Regular c) else fs_nodes s' (stage_path f) = None"
    "r = Inr () \<Longrightarrow> pf_staged f' \<and> fs_nodes s' (stage_path f) = Some (Regular v)"
  using assms
  by (auto simp: write_file_def syscall_def sync_all_def Let_def same_paths_def file_paths split: if_splits)

section \<open>Names\<close>

lemma private_names:
  "starts_with (staging_name cr path) private_prefix" "starts_with (backup_name cr path) private_prefix"
  "staging_name cr path \<noteq> backup_name cr path'"
proof -
  show "starts_with (staging_name cr path) private_prefix" "starts_with (backup_name cr path) private_prefix"
    by (auto simp: starts_with_def staging_name_def backup_name_def strip_prefix_Some)
  have "last (staging_name cr path) \<noteq> last (backup_name cr path')" by (simp add: staging_name_def backup_name_def)
  then show "staging_name cr path \<noteq> backup_name cr path'" by metis
qed

definition path_identity :: "crates \<Rightarrow> string \<Rightarrow> string" where
  "path_identity cr path = hex_encode cr (sha256_digest cr (as_bytes path))"

lemma private_names_inject:
  "staging_name cr path = staging_name cr path' \<longleftrightarrow> path_identity cr path = path_identity cr path'"
  "backup_name cr path = backup_name cr path' \<longleftrightarrow> path_identity cr path = path_identity cr path'"
  by (simp_all add: staging_name_def backup_name_def path_identity_def)

lemma snoc_neq: "last xs \<noteq> z \<Longrightarrow> xs \<noteq> ys @ [z]"
  by auto

lemma prepared_names:
  assumes "prepared_for cr path f"
  shows "last (path_components path) \<noteq> staging_name cr x" "last (path_components path) \<noteq> backup_name cr x"
proof -
  have "last (path_components path) = pf_destination f" using assms by (metis prepared_for_def dest_path_def last_snoc)
  then show "last (path_components path) \<noteq> staging_name cr x" "last (path_components path) \<noteq> backup_name cr x"
    using assms private_names(1,2) [of cr x] unfolding prepared_for_def by metis+
qed

lemma prepared_apart:
  assumes "prepared_for cr path f"
  shows "apart f"
proof -
  have "path_components path \<noteq> ys @ [staging_name cr path]" "path_components path \<noteq> ys @ [backup_name cr path]" for ys
    by (rule snoc_neq [OF prepared_names(1) [OF assms]], rule snoc_neq [OF prepared_names(2) [OF assms]])
  then show ?thesis using assms private_names(3) [of cr path path] unfolding apart_def prepared_for_def by simp
qed

lemma prepared_separate:
  assumes f: "prepared_for cr path f" "prepared_for cr path' f'" and p: "path_components path \<noteq> path_components path'"
    "path_identity cr path \<noteq> path_identity cr path'"
  shows "paths_of f \<inter> paths_of f' = {}"
proof -
  have "path_components path \<noteq> ys @ [staging_name cr path']" "path_components path \<noteq> ys @ [backup_name cr path']"
    "ys @ [staging_name cr path] \<noteq> path_components path'" "ys @ [backup_name cr path] \<noteq> path_components path'" for ys
    by (rule snoc_neq [OF prepared_names(1) [OF f(1)]], rule snoc_neq [OF prepared_names(2) [OF f(1)]],
        rule snoc_neq [OF prepared_names(1) [OF f(2)], THEN not_sym], rule snoc_neq [OF prepared_names(2) [OF f(2)], THEN not_sym])
  moreover have "staging_name cr path \<noteq> staging_name cr path'" "backup_name cr path \<noteq> backup_name cr path'"
    using p(2) by (simp_all add: private_names_inject)
  ultimately have "\<forall>x \<in> paths_of f. \<forall>y \<in> paths_of f'. x \<noteq> y"
    using f p(1) private_names(3) [of cr path path'] private_names(3) [of cr path' path, THEN not_sym]
    unfolding paths_of_def prepared_for_def by simp
  then show ?thesis by blast
qed

definition same_file :: "crates \<Rightarrow> string \<times> string \<Rightarrow> string \<times> string \<Rightarrow> bool" where
  "same_file cr x y \<longleftrightarrow> path_components (fst x) = path_components (fst y) \<or> path_identity cr (fst x) = path_identity cr (fst y)"

definition unrelated :: "crates \<Rightarrow> (string \<times> string) list \<Rightarrow> bool" where
  "unrelated cr files \<longleftrightarrow> sorted_wrt (\<lambda>x y. \<not> same_file cr x y) files"

section \<open>The prepared group\<close>

definition base :: "prepared_file list \<Rightarrow> (fpath \<Rightarrow> node option) \<Rightarrow> fpath \<Rightarrow> node option" where
  "base prepared n = (\<lambda>p. if \<exists>f \<in> set prepared. pf_staged f \<and> p = stage_path f then None else n p)"

definition staged_ok :: "prepared_file \<Rightarrow> (fpath \<Rightarrow> node option) \<Rightarrow> bool" where
  "staged_ok f n \<longleftrightarrow> apart f \<and> \<not> pf_backed_up f \<and> \<not> pf_committed f
     \<and> (if pf_staged f then \<exists>c. n (stage_path f) = Some (Regular c) else n (stage_path f) = None)"

definition group_ok :: "(fpath \<Rightarrow> node option) \<Rightarrow> prepared_file list \<Rightarrow> (fpath \<Rightarrow> node option) \<Rightarrow> bool" where
  "group_ok n0 prepared n \<longleftrightarrow> separate prepared \<and> (\<forall>f \<in> set prepared. staged_ok f n) \<and> grows n0 (base prepared n)"

lemma group_consistent:
  assumes "group_ok n0 prepared n" "f \<in> set prepared"
  shows "consistent (base prepared n) f n"
proof -
  have f: "apart f" "staged_ok f n" using assms by (auto simp: group_ok_def staged_ok_def)
  have other: "p \<noteq> stage_path g" if "g \<in> set prepared" "p \<in> {dest_path f, back_path f}" for g p
  proof (cases "g = f")
    case True
    then show ?thesis using f(1) that(2) by (auto simp: apart_def)
  next
    case False
    then have "paths_of f \<inter> paths_of g = {}"
      using assms that(1) separate_disjoint [of prepared f g] by (simp add: group_ok_def)
    then show ?thesis using that(2) by (auto simp: paths_of_def)
  qed
  have "base prepared n (dest_path f) = n (dest_path f)" "base prepared n (back_path f) = n (back_path f)"
    using other by (auto simp: base_def)
  moreover have "base prepared n (stage_path f) = None" using f(2) assms(2) by (auto simp: base_def staged_ok_def)
  ultimately show ?thesis using f by (simp add: consistent_def staged_ok_def)
qed

lemma group_rollback:
  assumes g: "group_ok n0 prepared (fs_nodes s)" and run: "rollback_all fp (rev prepared) False s = (False, s')"
  shows "grows n0 (fs_nodes s')"
proof -
  have "fs_nodes s' p = base prepared (fs_nodes s) p" for p
    using rollback_all_restores [of "rev prepared" "base prepared (fs_nodes s)" s fp s' p] run g group_consistent [OF g]
    by (auto simp: group_ok_def separate_rev base_def paths_of_def)
  then have "fs_nodes s' = base prepared (fs_nodes s)" by blast
  then show ?thesis using g by (simp add: group_ok_def)
qed

definition no_leftovers :: "(fpath \<Rightarrow> node option) \<Rightarrow> bool" where
  "no_leftovers n \<longleftrightarrow> (\<forall>d x. starts_with x private_prefix \<longrightarrow> n (d @ [x]) = None)"

definition staged_for :: "crates \<Rightarrow> (fpath \<Rightarrow> node option) \<Rightarrow> string \<times> string \<Rightarrow> prepared_file \<Rightarrow> bool" where
  "staged_for cr n x f \<longleftrightarrow> prepared_for cr (fst x) f \<and> ready f \<and> n (stage_path f) = Some (Regular (as_bytes (snd x)))"

lemma leftovers_not_regular:
  assumes "no_leftovers n0" "group_ok n0 prepared n" "starts_with x private_prefix"
    "\<And>g. g \<in> set prepared \<Longrightarrow> d @ [x] \<noteq> stage_path g" "grows n n'"
  shows "n' (d @ [x]) \<noteq> Some (Regular c)"
proof -
  have "base prepared n (d @ [x]) = n (d @ [x])" using assms(4) by (auto simp: base_def)
  then have "n (d @ [x]) = None \<or> n (d @ [x]) = Some Directory"
    using assms(1-3) unfolding group_ok_def grows_def no_leftovers_def by metis
  then show ?thesis using assms(5) unfolding grows_def by (metis node.distinct(1) option.inject option.distinct(1))
qed

lemma group_grow:
  assumes g: "group_ok n0 prepared n" "\<forall>h \<in> set prepared. ready h" and gr: "grows n n1"
  shows "group_ok n0 prepared n1"
proof -
  have st: "n1 (stage_path h) = n (stage_path h)" if h: "h \<in> set prepared" for h
  proof -
    obtain c where "n (stage_path h) = Some (Regular c)" using g h by (auto simp: group_ok_def staged_ok_def ready_def)
    then show ?thesis using gr unfolding grows_def by (metis option.distinct(1))
  qed
  then have "staged_ok h n1" if "h \<in> set prepared" for h using g(1) that by (auto simp: group_ok_def staged_ok_def)
  moreover have "grows (base prepared n) (base prepared n1)" using gr by (auto simp: grows_def base_def)
  ultimately show ?thesis using g(1) grows_trans unfolding group_ok_def by blast
qed

lemma group_extend:
  assumes n0: "no_leftovers n0" and g: "group_ok n0 prepared n" "\<forall>h \<in> set prepared. ready h"
    and gr: "grows n n1" and f: "prepared_for cr path f" "same_paths f f'" "\<not> pf_backed_up f'" "\<not> pf_committed f'"
    and sep: "\<forall>h \<in> set prepared. paths_of h \<inter> paths_of f = {}"
    and n2: "\<And>p. p \<noteq> stage_path f \<Longrightarrow> n2 p = n1 p"
      "if pf_staged f' then \<exists>c. n2 (stage_path f) = Some (Regular c) else n2 (stage_path f) = None"
  shows "group_ok n0 (prepared @ [f']) n2"
    "\<And>h. h \<in> set prepared \<Longrightarrow> n2 (stage_path h) = n (stage_path h)"
proof -
  have st: "n2 (stage_path h) = n (stage_path h) \<and> (\<exists>c. n (stage_path h) = Some (Regular c))" if h: "h \<in> set prepared" for h
  proof -
    obtain c where c: "n (stage_path h) = Some (Regular c)" using g h by (auto simp: group_ok_def staged_ok_def ready_def)
    have "stage_path h \<noteq> stage_path f" using sep h by (auto simp: paths_of_def)
    then have "n2 (stage_path h) = n1 (stage_path h)" by (rule n2(1))
    also have "\<dots> = n (stage_path h)" using gr c unfolding grows_def by (metis option.distinct(1))
    finally show ?thesis using c by simp
  qed
  then show "\<And>h. h \<in> set prepared \<Longrightarrow> n2 (stage_path h) = n (stage_path h)" by blast
  have "separate (prepared @ [f'])"
    using g(1) sep same_paths_of [OF f(2)] by (simp add: group_ok_def separate_def sorted_wrt_append)
  moreover have "staged_ok h n2" if "h \<in> set prepared" for h
    using g that st [OF that] by (auto simp: group_ok_def staged_ok_def ready_def)
  moreover have "staged_ok f' n2"
    using prepared_apart [OF f(1)] f(2-4) n2(2) by (simp add: staged_ok_def apart_def same_paths_def)
  moreover have "grows n0 (base (prepared @ [f']) n2)"
    unfolding grows_def
  proof
    fix p
    have stage_f: "n0 (stage_path f) = None"
      using n0 f(1) private_names(1) unfolding no_leftovers_def prepared_for_def by metis
    have sf: "stage_path f' = stage_path f" using f(2) by (simp add: same_paths_def)
    have old: "base prepared n p = n0 p \<or> (n0 p = None \<and> base prepared n p = Some Directory)"
      using g(1) unfolding group_ok_def grows_def by blast
    show "base (prepared @ [f']) n2 p = n0 p \<or> (n0 p = None \<and> base (prepared @ [f']) n2 p = Some Directory)"
    proof (cases "p = stage_path f \<or> (\<exists>h \<in> set prepared. p = stage_path h)")
      case True
      then have "base (prepared @ [f']) n2 p = None"
        using n2(2) sf g(2) by (auto simp: base_def ready_def split: if_splits)
      moreover have "n0 p = None" using True stage_f old g(2) by (auto simp: base_def ready_def split: if_splits)
      ultimately show ?thesis by simp
    next
      case False
      then have "base (prepared @ [f']) n2 p = n1 p" "base prepared n p = n p" using n2(1) sf by (auto simp: base_def)
      then show ?thesis using old gr unfolding grows_def by metis
    qed
  qed
  ultimately show "group_ok n0 (prepared @ [f']) n2" unfolding group_ok_def by auto
qed

lemma prepare_all_run:
  assumes n0: "no_leftovers n0" and u: "unrelated cr (past @ files)"
    and g: "group_ok n0 prepared (fs_nodes s)" and st: "list_all2 (staged_for cr (fs_nodes s)) past prepared"
    and run: "prepare_all cr fp files prepared s = (r, prepared', s')"
  shows "group_ok n0 prepared' (fs_nodes s')
    \<and> (r = Inr () \<longrightarrow> list_all2 (staged_for cr (fs_nodes s')) (past @ files) prepared')"
  using u g st run
proof (induction files arbitrary: past prepared s)
  case Nil
  then show ?case by simp
next
  case (Cons x files)
  obtain path v where x: "x = (path, v)" by (cases x)
  have rdy: "\<forall>h \<in> set prepared. ready h"
    using Cons.prems(3) by (auto simp: list_all2_conv_all_nth staged_for_def in_set_conv_nth)
  have earlier: "\<exists>y \<in> set past. prepared_for cr (fst y) h \<and> \<not> same_file cr y x" if h: "h \<in> set prepared" for h
  proof -
    obtain i where i: "i < length prepared" "h = prepared ! i" using h by (auto simp: in_set_conv_nth)
    then have "i < length past" "prepared_for cr (fst (past ! i)) h"
      using Cons.prems(3) by (auto simp: list_all2_conv_all_nth staged_for_def)
    then show ?thesis using Cons.prems(1) by (auto simp: unrelated_def sorted_wrt_append)
  qed
  obtain q s1 where 1: "prepare cr fp path s = (q, s1)" by (metis surj_pair)
  have "d @ [backup_name cr path] \<noteq> stage_path h" "d @ [staging_name cr path] \<noteq> stage_path h" if "h \<in> set prepared" for h d
    using earlier [OF that] private_names(3) [of cr _ path, THEN not_sym] private_names_inject(1) [of cr path]
    by (auto simp: prepared_for_def same_file_def x)
  then have "n' (d @ [backup_name cr path]) \<noteq> Some (Regular c) \<and> n' (d @ [staging_name cr path]) \<noteq> Some (Regular c)"
    if "grows (fs_nodes s) n'" for n' c d
    using leftovers_not_regular [OF n0 Cons.prems(2) _ _ that] private_names(1,2) by blast
  then have clean: "\<And>n' c d. grows (fs_nodes s) n' \<Longrightarrow> n' (d @ [backup_name cr path]) \<noteq> Some (Regular c) \<and> n' (d @ [staging_name cr path]) \<noteq> Some (Regular c)"
    by blast
  have p: "grows (fs_nodes s) (fs_nodes s1) \<and> (\<forall>f. q = Inr f \<longrightarrow> prepared_for cr path f \<and> fs_nodes s1 (stage_path f) = None
      \<and> \<not> pf_staged f \<and> \<not> pf_backed_up f \<and> \<not> pf_committed f)"
    using prepare_run [OF 1] clean by blast
  show ?case
  proof (cases q)
    case (Inl e)
    then have "r = Inl e" "prepared' = prepared" "s' = s1" using Cons.prems(4) 1 x by auto
    moreover have "group_ok n0 prepared (fs_nodes s1)"
      using group_grow [OF Cons.prems(2) rdy] p by blast
    ultimately show ?thesis by simp
  next
    case (Inr f)
    note f = p [THEN conjunct2, rule_format, OF Inr]
    obtain q2 f' s2 where 2: "write_file fp (as_bytes v) f s1 = (q2, f', s2)" by (metis surj_pair)
    note w = write_file_run [OF 2]
    have sep: "\<forall>h \<in> set prepared. paths_of h \<inter> paths_of f = {}"
      using earlier prepared_separate f x unfolding same_file_def by (metis fst_conv)
    have ext: "group_ok n0 (prepared @ [f']) (fs_nodes s2)"
        "\<And>h. h \<in> set prepared \<Longrightarrow> fs_nodes s2 (stage_path h) = fs_nodes s (stage_path h)"
      using group_extend [OF n0 Cons.prems(2) rdy p [THEN conjunct1], of cr path f f' "fs_nodes s2"] f w sep by auto
    show ?thesis
    proof (cases q2)
      case fail: (Inl e)
      then show ?thesis using Cons.prems(4) 1 2 x Inr ext(1) by auto
    next
      case ok: (Inr a)
      have "list_all2 (staged_for cr (fs_nodes s2)) past prepared"
        using Cons.prems(3) ext(2) by (auto simp: list_all2_conv_all_nth staged_for_def)
      moreover have "staged_for cr (fs_nodes s2) x f'"
        using f w ok by (auto simp: staged_for_def ready_def prepared_for_def same_paths_def x)
      ultimately have "list_all2 (staged_for cr (fs_nodes s2)) (past @ [x]) (prepared @ [f'])"
        by (simp add: list_all2_appendI)
      then show ?thesis using Cons.IH [of "past @ [x]" "prepared @ [f']" s2] Cons.prems(1,4) 1 2 x Inr ok ext(1) by simp
    qed
  qed
qed

section \<open>The whole installation\<close>

lemma same_group:
  assumes "list_all2 same_paths fs fs'"
  shows "separate fs' = separate fs" "(\<exists>f \<in> set fs'. p \<in> paths_of f) \<longleftrightarrow> (\<exists>f \<in> set fs. p \<in> paths_of f)"
proof -
  have m: "map paths_of fs' = map paths_of fs"
    using assms by (induction rule: list_all2_induct) (auto simp: same_paths_of)
  have "separate xs = sorted_wrt (\<lambda>a b. a \<inter> b = {}) (map paths_of xs)" for xs
    by (simp add: separate_def sorted_wrt_map)
  then show "separate fs' = separate fs" using m by simp
  have "(\<exists>f \<in> set xs. p \<in> paths_of f) \<longleftrightarrow> (\<exists>q \<in> set (map paths_of xs). p \<in> q)" for xs by simp
  then show "(\<exists>f \<in> set fs'. p \<in> paths_of f) \<longleftrightarrow> (\<exists>f \<in> set fs. p \<in> paths_of f)" using m by metis
qed

lemma rollback_after_commit:
  assumes g: "group_ok n0 prepared (fs_nodes s)" "\<forall>h \<in> set prepared. ready h"
    and c: "commit_all fp before_commit i prepared s = (r, prepared', s1)"
    and run: "rollback_all fp (rev prepared') False s1 = (False, s')"
  shows "grows n0 (fs_nodes s')"
proof -
  let ?b = "base prepared (fs_nodes s)"
  have sep: "separate prepared" using g(1) by (simp add: group_ok_def)
  note k = commit_all_run [OF sep _ c, of ?b]
  have k: "list_all2 same_paths prepared prepared'" "\<forall>f \<in> set prepared'. consistent ?b f (fs_nodes s1)"
      "\<And>p. \<forall>f \<in> set prepared. p \<notin> paths_of f \<Longrightarrow> fs_nodes s1 p = fs_nodes s p"
    using k group_consistent [OF g(1)] g(2) by blast+
  have "fs_nodes s' p = ?b p" for p
    using rollback_all_restores [of "rev prepared'" ?b s1 fp s' p] run k sep same_group [OF k(1)]
    by (auto simp: separate_rev base_def paths_of_def)
  then have "fs_nodes s' = ?b" by blast
  then show ?thesis using g(1) by (simp add: group_ok_def)
qed

definition has_contents :: "(string \<times> string) list \<Rightarrow> (fpath \<Rightarrow> node option) \<Rightarrow> bool" where
  "has_contents files n \<longleftrightarrow> (\<forall>(path, v) \<in> set files. n (path_components path) = Some (Regular (as_bytes v)))"

definition only_files :: "(string \<times> string) list \<Rightarrow> (fpath \<Rightarrow> node option) \<Rightarrow> (fpath \<Rightarrow> node option) \<Rightarrow> bool" where
  "only_files files n n' \<longleftrightarrow>
     (\<forall>p. p \<notin> (path_components \<circ> fst) ` set files \<longrightarrow> n' p = n p \<or> (n p = None \<and> n' p = Some Directory))"

lemma list_all2_chain:
  assumes "list_all2 P xs ys" "list_all2 Q ys zs"
  shows "x \<in> set xs \<Longrightarrow> \<exists>y \<in> set ys. \<exists>z \<in> set zs. P x y \<and> Q y z"
    "z \<in> set zs \<Longrightarrow> \<exists>x \<in> set xs. \<exists>y \<in> set ys. P x y \<and> Q y z"
proof -
  have "(x \<in> set xs \<longrightarrow> (\<exists>y \<in> set ys. \<exists>z \<in> set zs. P x y \<and> Q y z))
    \<and> (z \<in> set zs \<longrightarrow> (\<exists>x \<in> set xs. \<exists>y \<in> set ys. P x y \<and> Q y z))"
    using assms
  proof (induction xs ys arbitrary: zs rule: list_all2_induct)
    case (Cons a xs b ys)
    obtain c zs' where zs: "zs = c # zs'" "Q b c" "list_all2 Q ys zs'" using Cons.prems by (auto simp: list_all2_Cons1)
    show ?case using Cons.IH [OF zs(3)] Cons.hyps(1) zs(1,2) by auto
  qed simp
  then show "x \<in> set xs \<Longrightarrow> \<exists>y \<in> set ys. \<exists>z \<in> set zs. P x y \<and> Q y z"
    "z \<in> set zs \<Longrightarrow> \<exists>x \<in> set xs. \<exists>y \<in> set ys. P x y \<and> Q y z" by blast+
qed

lemma committed_group:
  assumes g: "group_ok n0 prepared (fs_nodes s)" and st: "list_all2 (staged_for cr (fs_nodes s)) files prepared"
    and c: "commit_all fp before_commit i prepared s = (Inr (), prepared', s1)"
  shows "list_all2 same_paths prepared prepared'" "separate prepared'"
    "\<And>f. f \<in> set prepared' \<Longrightarrow> consistent (base prepared (fs_nodes s)) f (fs_nodes s1) \<and> pf_committed f \<and> \<not> pf_staged f"
    "\<And>p. \<forall>f \<in> set prepared'. p \<notin> paths_of f \<Longrightarrow> fs_nodes s1 p = base prepared (fs_nodes s) p"
    "\<And>f. f \<in> set prepared \<Longrightarrow> fs_nodes s1 (dest_path f) = fs_nodes s (stage_path f)"
proof -
  let ?b = "base prepared (fs_nodes s)"
  have sep: "separate prepared" using g by (simp add: group_ok_def)
  have rdy: "\<forall>h \<in> set prepared. ready h"
    using st by (auto simp: list_all2_conv_all_nth staged_for_def in_set_conv_nth)
  have k: "list_all2 same_paths prepared prepared'" "\<forall>f \<in> set prepared'. consistent ?b f (fs_nodes s1)"
      "\<And>p. \<forall>f \<in> set prepared. p \<notin> paths_of f \<Longrightarrow> fs_nodes s1 p = fs_nodes s p"
      "\<And>f. f \<in> set prepared' \<Longrightarrow> pf_committed f \<and> \<not> pf_staged f"
      "\<And>f. f \<in> set prepared \<Longrightarrow> fs_nodes s1 (dest_path f) = fs_nodes s (stage_path f)"
    using commit_all_run [OF sep _ c, of ?b] group_consistent [OF g] rdy by blast+
  show "list_all2 same_paths prepared prepared'" "separate prepared'" using k(1) sep same_group [OF k(1)] by simp_all
  show "\<And>f. f \<in> set prepared' \<Longrightarrow> consistent ?b f (fs_nodes s1) \<and> pf_committed f \<and> \<not> pf_staged f" using k(2,4) by blast
  show "\<And>f. f \<in> set prepared \<Longrightarrow> fs_nodes s1 (dest_path f) = fs_nodes s (stage_path f)" by (rule k(5))
  show "fs_nodes s1 p = ?b p" if "\<forall>f \<in> set prepared'. p \<notin> paths_of f" for p
    using that k(3) [of p] same_group(2) [OF k(1), of p] by (auto simp: base_def paths_of_def)
qed

lemma committed_contents:
  assumes g: "group_ok n0 prepared (fs_nodes s)" and st: "list_all2 (staged_for cr (fs_nodes s)) files prepared"
    and c: "commit_all fp before_commit i prepared s = (Inr (), prepared', s1)"
    and run: "discard_backups fp prepared' s1 = (r, s')"
  shows "has_contents files (fs_nodes s')"
  unfolding has_contents_def
proof (clarify)
  note k = committed_group [OF g st c]
  fix path v
  assume "(path, v) \<in> set files"
  then obtain f f' where f: "f \<in> set prepared" "f' \<in> set prepared'" "same_paths f f'" "staged_for cr (fs_nodes s) (path, v) f"
    using list_all2_chain(1) [OF st k(1)] by blast
  have "dest_path f' \<noteq> back_path h" if "h \<in> set prepared'" for h
  proof (cases "f' = h")
    case True
    then show ?thesis using k(3) [OF that] by (auto simp: consistent_def apart_def)
  next
    case False
    then have "paths_of f' \<inter> paths_of h = {}" using separate_disjoint [OF k(2) f(2) that] by simp
    then show ?thesis by (auto simp: paths_of_def)
  qed
  then have "fs_nodes s' (dest_path f') = fs_nodes s1 (dest_path f')"
    using discard_backups_run(1) [OF run, of "dest_path f'"] by blast
  then show "fs_nodes s' (path_components path) = Some (Regular (as_bytes v))"
    using f k(5) [OF f(1)] by (auto simp: staged_for_def prepared_for_def same_paths_def)
qed

lemma committed_only:
  assumes g: "group_ok n0 prepared (fs_nodes s)" and st: "list_all2 (staged_for cr (fs_nodes s)) files prepared"
    and c: "commit_all fp before_commit i prepared s = (Inr (), prepared', s1)"
    and run: "discard_backups fp prepared' s1 = (Inr (), s')"
  shows "only_files files n0 (fs_nodes s')"
  unfolding only_files_def
proof (intro allI impI)
  let ?b = "base prepared (fs_nodes s)"
  note k = committed_group [OF g st c]
  fix p
  assume p: "p \<notin> (path_components \<circ> fst) ` set files"
  have nd: "p \<noteq> dest_path f'" if "f' \<in> set prepared'" for f'
    using list_all2_chain(2) [OF st k(1) that] p by (force simp: staged_for_def prepared_for_def same_paths_def)
  have "fs_nodes s' p = ?b p"
  proof (cases "\<exists>f \<in> set prepared'. p \<in> paths_of f")
    case True
    then obtain f where f: "f \<in> set prepared'" "p = stage_path f \<or> p = back_path f" using nd by (auto simp: paths_of_def)
    have "?b (back_path h) = None" if "h \<in> set prepared'" "pf_backed_up h" for h
      using k(3) [OF that(1)] that(2) by (simp add: consistent_def)
    then show ?thesis
      using f(2) k(3) [OF f(1)] discard_backups_run(1) [OF run, of p] discard_backups_run(2) [OF run refl f(1)]
      by (auto simp: consistent_def split: if_splits) metis
  next
    case False
    then show ?thesis using discard_backups_run(1) [OF run, of p] k(4) [of p] by (auto simp: paths_of_def)
  qed
  then show "fs_nodes s' p = n0 p \<or> (n0 p = None \<and> fs_nodes s' p = Some Directory)"
    using g by (simp add: grows_def group_ok_def)
qed

text \<open>
  C8.  Installing a group of secret files is all or nothing, at every pattern of failing system calls: on success
  every declared destination holds its value and no other entry of the file system differs, new parent directories
  apart (no staging file and no backup is left); on an error other than a failed rollback either the file system is
  as it was, new parent directories apart, or every destination already holds its value and only the removal of the
  backups failed.  The paths name distinct files with distinct digests, and no private name is left from an
  interrupted run.\<close>

theorem install_all_or_nothing:
  assumes n0: "no_leftovers (fs_nodes s)" and u: "unrelated cr files"
    and run: "install_secret_files cr fp files s = (r, s')"
  shows "case r of
      Inr _ \<Rightarrow> has_contents files (fs_nodes s') \<and> only_files files (fs_nodes s) (fs_nodes s')
    | Inl e \<Rightarrow> e = RollbackFailed \<or> grows (fs_nodes s) (fs_nodes s') \<or> (e = InstallFailed \<and> has_contents files (fs_nodes s'))"
proof -
  obtain q prepared s1 where 1: "prepare_all cr fp files [] s = (q, prepared, s1)" by (metis surj_pair)
  have p: "group_ok (fs_nodes s) prepared (fs_nodes s1)"
      "q = Inr () \<Longrightarrow> list_all2 (staged_for cr (fs_nodes s1)) files prepared"
    using prepare_all_run [OF n0 _ _ _ 1, of "[]"] u by (simp_all add: group_ok_def separate_def base_def)
  note run = run [unfolded install_secret_files_def install_at_def 1 prod.case]
  show ?thesis
  proof (cases q)
    case (Inl e)
    obtain bad s2 where 2: "rollback_all fp (rev prepared) False s1 = (bad, s2)" by (metis surj_pair)
    show ?thesis using run Inl 2 group_rollback [OF p(1), of fp s2] by (cases bad) auto
  next
    case ok: (Inr u)
    obtain q2 prepared' s2 where 2: "commit_all fp (\<lambda>_. Inr ()) 0 prepared s1 = (q2, prepared', s2)" by (metis surj_pair)
    have st: "list_all2 (staged_for cr (fs_nodes s1)) files prepared" using p(2) ok by simp
    show ?thesis
    proof (cases q2)
      case (Inl e)
      obtain bad s3 where 3: "rollback_all fp (rev prepared') False s2 = (bad, s3)" by (metis surj_pair)
      have "\<forall>h \<in> set prepared. ready h"
        using st by (auto simp: list_all2_conv_all_nth staged_for_def in_set_conv_nth)
      then show ?thesis using run ok Inl 2 3 rollback_after_commit [OF p(1) _ 2, of s3] by (cases bad) auto
    next
      case (Inr u2)
      then have c: "commit_all fp (\<lambda>_. Inr ()) 0 prepared s1 = (Inr (), prepared', s2)" using 2 by simp
      have d: "discard_backups fp prepared' s2 = (r, s')" using run ok c by simp
      show ?thesis
        using committed_contents [OF p(1) st c d] committed_only [OF p(1) st c, of s'] d discard_backups_run(3) [OF d]
        by (cases r) auto
    qed
  qed
qed

definition sample_fs :: fsys where
  "sample_fs = \<lparr>fs_nodes = [[''k''] \<mapsto> Regular [1]], fs_calls = 0\<rparr>"

definition no_faults :: faults where
  "no_faults = \<lparr>fp_fails = (\<lambda>_. False), fp_written = (\<lambda>_. 0)\<rparr>"

theorem install_all_or_nothing_witness:
  "\<exists>s'. install_secret_files sample_crates no_faults [(''/k'', ''v'')] sample_fs = (Inr (), s')
     \<and> has_contents [(''/k'', ''v'')] (fs_nodes s') \<and> only_files [(''/k'', ''v'')] (fs_nodes sample_fs) (fs_nodes s')"
proof -
  have "no_leftovers (fs_nodes sample_fs)"
    by (auto simp: no_leftovers_def sample_fs_def private_prefix_def starts_with_def)
  moreover have "unrelated sample_crates [(''/k'', ''v'')]" by (simp add: unrelated_def)
  moreover have "\<exists>s'. install_secret_files sample_crates no_faults [(''/k'', ''v'')] sample_fs = (Inr (), s')"
    by (simp add: install_secret_files_def install_at_def prepare_def path_components_def starts_with_def ends_with_def
        syscall_def no_faults_def c_name_def private_prefix_def recover_def fs_bind_def fs_return_def regular_file_def
        sample_fs_def backup_name_def staging_name_def sample_crates_def rename_def unlink_def write_file_def
        sync_all_def set_node_def commit_def move_in_def Let_def)
  ultimately show ?thesis
    using install_all_or_nothing [of sample_fs sample_crates "[(''/k'', ''v'')]" no_faults "Inr ()"] by auto
qed

text \<open>
  When the removal of a backup fails after every file is committed, the installation reports an error, leaves the
  new file and the backup in place and rolls nothing back.
\<close>

lemma failed_discard_keeps_new_file:
  "\<exists>s'. install_secret_files sample_crates (no_faults\<lparr>fp_fails := \<lambda>k. k = 11\<rparr>) [(''/k'', ''v'')] sample_fs
        = (Inl InstallFailed, s')
     \<and> fs_nodes s' [''k''] = Some (Regular (as_bytes ''v'')) \<and> fs_nodes s' [backup_name sample_crates ''/k''] = Some (Regular [1])"
  by (simp add: install_secret_files_def install_at_def prepare_def path_components_def starts_with_def ends_with_def
      syscall_def no_faults_def c_name_def private_prefix_def recover_def fs_bind_def fs_return_def regular_file_def
      sample_fs_def backup_name_def staging_name_def sample_crates_def rename_def unlink_def write_file_def
      sync_all_def set_node_def commit_def move_in_def Let_def)

end
