(* ===== verification/Connector.thy ===== *)
theory Connector
  imports Soap
begin

text \<open>
  The supervised \<open>cloudflared\<close> connector (\<open>src/access/cloudflared.rs\<close>): the command it starts with, the
  classifier of its log lines, the drain of its process group (\<open>terminate_child_within\<close> of
  \<open>src/access.rs\<close>) and the supervision state machine, as an inductive run relation over its four inputs.
  Instants are nanoseconds of one monotonic clock.
\<close>

section \<open>The launch\<close>

definition TOKEN_ENVIRONMENT_VARIABLE :: string where "TOKEN_ENVIRONMENT_VARIABLE = ''TUNNEL_TOKEN''"
definition DRAIN_GRACE :: duration where "DRAIN_GRACE = from_secs 10"
definition REREGISTRATION_WINDOW :: duration where "REREGISTRATION_WINDOW = from_secs 30"
definition MAX_TOKEN_BYTES :: nat where "MAX_TOKEN_BYTES = 4096"
definition MAX_LOCATION_BYTES :: nat where "MAX_LOCATION_BYTES = 16"
definition MAX_SIDECAR_RESPAWNS :: nat where "MAX_SIDECAR_RESPAWNS = 3"

definition REGISTERED_CODE :: string where "REGISTERED_CODE = ''ingress_connector_registered''"
definition UNREGISTERED_CODE :: string where "UNREGISTERED_CODE = ''ingress_connector_unregistered''"
definition EXITED_CODE :: string where "EXITED_CODE = ''ingress_connector_exited''"
definition RESPAWN_BUDGET_SPENT_CODE :: string where
  "RESPAWN_BUDGET_SPENT_CODE = ''ingress_connector_respawn_budget_spent''"
definition METRICS_LISTENER_FAILED_CODE :: string where
  "METRICS_LISTENER_FAILED_CODE = ''ingress_connector_metrics_listener_failed''"
definition METRICS_ADDRESS_REFUSED_CODE :: string where
  "METRICS_ADDRESS_REFUSED_CODE = ''ingress_connector_metrics_address_refused''"
definition TOKEN_INVALID_CODE :: string where "TOKEN_INVALID_CODE = ''ingress_connector_token_invalid''"

lemmas connector_codes =
  REGISTERED_CODE_def UNREGISTERED_CODE_def EXITED_CODE_def RESPAWN_BUDGET_SPENT_CODE_def METRICS_LISTENER_FAILED_CODE_def

datatype tunnel_protocol = Quic | Http2

fun tunnel_protocol_as_str :: "tunnel_protocol \<Rightarrow> string" where
  "tunnel_protocol_as_str Quic = ''quic''"
| "tunnel_protocol_as_str Http2 = ''http2''"

definition tunnel_protocol_parse :: "string \<Rightarrow> tunnel_protocol option" where
  "tunnel_protocol_parse s = (if s = ''quic'' then Some Quic else if s = ''http2'' then Some Http2 else None)"

definition LOCALHOST :: ipv4 where "LOCALHOST = ipv4_new 127 0 0 1"

definition cloudflared_arguments :: "u16 \<Rightarrow> tunnel_protocol \<Rightarrow> string list" where
  "cloudflared_arguments metrics_port protocol =
     [''tunnel'', ''--no-autoupdate'', ''--metrics'', show_ipv4 LOCALHOST @ '':'' @ show_nat (unat metrics_port),
      ''--protocol'', tunnel_protocol_as_str protocol, ''run'']"

datatype ip_addr = V4 ipv4 | V6 bytes

record launch_plan =
  lp_metrics_port :: u16
  lp_token :: string

definition launch_plan_new :: "ip_addr \<Rightarrow> u16 \<Rightarrow> string \<Rightarrow> string + launch_plan" where
  "launch_plan_new ip port token =
     (if ip \<noteq> V4 LOCALHOST then Inl METRICS_ADDRESS_REFUSED_CODE
      else if port = 0 then Inl METRICS_ADDRESS_REFUSED_CODE
      else if token = [] \<or> length token > MAX_TOKEN_BYTES \<or> \<not> list_all is_ascii_graphic token then Inl TOKEN_INVALID_CODE
      else Inr \<lparr>lp_metrics_port = port, lp_token = token\<rparr>)"

definition launch_arguments :: "launch_plan \<Rightarrow> tunnel_protocol \<Rightarrow> string list" where
  "launch_arguments p = cloudflared_arguments (lp_metrics_port p)"

definition launch_environment :: "launch_plan \<Rightarrow> (string \<times> string) list" where
  "launch_environment p = [(TOKEN_ENVIRONMENT_VARIABLE, lp_token p)]"

datatype stdio = StdioNull | StdioPiped

record launch_command =
  lc_program :: string
  lc_args :: "string list"
  lc_envs :: "(string \<times> string) list"
  lc_stdin :: stdio
  lc_stdout :: stdio
  lc_stderr :: stdio
  lc_process_group :: int

definition connector_command :: "launch_plan \<Rightarrow> string \<Rightarrow> tunnel_protocol \<Rightarrow> launch_command" where
  "connector_command p program protocol =
     \<lparr>lc_program = program, lc_args = launch_arguments p protocol, lc_envs = launch_environment p,
      lc_stdin = StdioNull, lc_stdout = StdioNull, lc_stderr = StdioPiped, lc_process_group = 0\<rparr>"

section \<open>Log lines\<close>

datatype connector_event =
    MetricsListening u16
  | EvRegistering nat tunnel_protocol
  | EvRegistered (ev_index: nat) (ev_connection: string) (ev_location: string) (ev_protocol: tunnel_protocol)
  | EvUnregistered nat
  | EvRetrying
  | EvMetricsListenerFailed
  | EvExited
  | EvBenign string
  | EvUnclassified

definition LOG_LEVELS :: "string list" where "LOG_LEVELS = [''DBG'', ''INF'', ''WRN'', ''ERR'', ''FTL'']"

definition BENIGN_MESSAGES :: "(string \<times> string) list" where
  "BENIGN_MESSAGES =
     [(''Failed to determine the IPv4 for this machine'', ''ipv4_undetermined''),
      (''open /proc/sys/net/ipv4/ping_group_range: permission denied'', ''icmp_ping_group_denied''),
      (''failed to create ICMPv4 proxy, only ICMPv6 proxy is created'', ''icmpv4_proxy_unavailable''),
      (''Failed to initialize DNS local resolver'', ''dns_local_resolver_unavailable''),
      (''QUIC MTU updated'', ''quic_mtu_updated''),
      (''Connection terminated'', ''connection_terminated'')]"

definition is_timestamp :: "string \<Rightarrow> bool" where
  "is_timestamp token \<longleftrightarrow> length token \<ge> 20 \<and> list_all is_ascii_digit (take 4 token) \<and> token ! 4 = CHR ''-'' \<and> token ! 10 = CHR ''T''"

definition log_message :: "string \<Rightarrow> string" where
  "log_message line =
     (let rest = trim line;
          rest = (case split_once '' '' rest of
              Some (first, tail) \<Rightarrow> if is_timestamp first then trim_start tail else rest | None \<Rightarrow> rest)
      in (case split_once '' '' rest of
            Some (first, tail) \<Rightarrow> if first \<in> set LOG_LEVELS then trim_start tail else rest | None \<Rightarrow> rest))"

definition log_field :: "string \<Rightarrow> string \<Rightarrow> string option" where
  "log_field fs key = map_option snd (find (\<lambda>(name, _). name = key) (List.map_filter (split_once ''='') (split_whitespace fs)))"

text \<open>
  The version 4 case of \<open>SocketAddr::from_str\<close>: an address, a colon and decimal digits without a sign. A
  version 6 address is refused by the caller, like one that does not parse.
\<close>

definition parse_socket_v4 :: "string \<Rightarrow> (ipv4 \<times> nat) option" where
  "parse_socket_v4 s =
     (case split_char (CHR '':'') s of
        [a, p] \<Rightarrow>
          (case (parse_ipv4 a, if p = [] then None else digits_value 10 0 p) of
             (Some ip, Some port) \<Rightarrow> if port \<le> u16_max then Some (ip, port) else None
           | _ \<Rightarrow> None)
      | _ \<Rightarrow> None)"

definition strip_suffix :: "string \<Rightarrow> string \<Rightarrow> string option" where
  "strip_suffix suf s = (if ends_with s suf then Some (take (length s - length suf) s) else None)"

definition metrics_listening :: "string \<Rightarrow> connector_event option" where
  "metrics_listening address =
     Option.bind (strip_suffix ''/metrics'' (trim_end address)) (\<lambda>text.
     Option.bind (parse_socket_v4 text) (\<lambda>(ip, port).
       if ip \<noteq> LOCALHOST \<or> port = 0 then None else Some (MetricsListening (of_nat port))))"

definition registering :: "string \<Rightarrow> connector_event option" where
  "registering fs =
     Option.bind (Option.bind (log_field fs ''connIndex'') (from_str_radix 255 10)) (\<lambda>conn_index.
     Option.bind (Option.bind (log_field fs ''protocol'') tunnel_protocol_parse) (\<lambda>protocol.
       Some (EvRegistering conn_index protocol)))"

definition is_uuid :: "string \<Rightarrow> bool" where
  "is_uuid v \<longleftrightarrow> length v = 36
     \<and> list_all (\<lambda>(index, c). if index \<in> {8, 13, 18, 23} then c = CHR ''-'' else is_ascii_hexdigit c) (enumerate 0 v)"

definition location_ok :: "string \<Rightarrow> bool" where
  "location_ok l \<longleftrightarrow> l \<noteq> [] \<and> length l \<le> MAX_LOCATION_BYTES \<and> list_all is_ascii_alphanumeric l"

definition option_filter :: "('a \<Rightarrow> bool) \<Rightarrow> 'a option \<Rightarrow> 'a option" where
  "option_filter p x = (case x of Some v \<Rightarrow> if p v then Some v else None | None \<Rightarrow> None)"

definition registered_line :: "string \<Rightarrow> connector_event option" where
  "registered_line fs =
     Option.bind (option_filter is_uuid (log_field fs ''connection'')) (\<lambda>connection_id.
     Option.bind (option_filter location_ok (log_field fs ''location'')) (\<lambda>location.
     Option.bind (Option.bind (log_field fs ''connIndex'') (from_str_radix 255 10)) (\<lambda>conn_index.
     Option.bind (Option.bind (log_field fs ''protocol'') tunnel_protocol_parse) (\<lambda>protocol.
       Some (EvRegistered conn_index connection_id location protocol)))))"

definition unwrap_or :: "'a \<Rightarrow> 'a option \<Rightarrow> 'a" where
  "unwrap_or d x = (case x of Some v \<Rightarrow> v | None \<Rightarrow> d)"

definition contains_text :: "string \<Rightarrow> string \<Rightarrow> bool" where
  "contains_text s pat \<longleftrightarrow> find_sub pat s \<noteq> None"

definition has_prefix :: "string \<Rightarrow> string \<Rightarrow> bool" where
  "has_prefix s p \<longleftrightarrow> strip_prefix p s \<noteq> None"

definition connector_classify :: "string \<Rightarrow> connector_event" where
  "connector_classify line =
     (let message = log_message line in
      case strip_prefix ''Starting metrics server on '' message of
        Some address \<Rightarrow> unwrap_or EvUnclassified (metrics_listening address)
      | None \<Rightarrow>
     (case strip_prefix ''Registering tunnel connection '' message of
        Some fs \<Rightarrow> unwrap_or EvUnclassified (registering fs)
      | None \<Rightarrow>
     (case strip_prefix ''Registered tunnel connection '' message of
        Some fs \<Rightarrow> unwrap_or EvUnclassified (registered_line fs)
      | None \<Rightarrow>
     (case strip_prefix ''Unregistered tunnel connection '' message of
        Some fs \<Rightarrow> unwrap_or EvUnclassified
          (map_option EvUnregistered (Option.bind (log_field fs ''connIndex'') (from_str_radix 255 10)))
      | None \<Rightarrow>
          if has_prefix message ''Retrying connection in '' then EvRetrying
          else if has_prefix message ''Error opening metrics server listener'' then EvMetricsListenerFailed
          else if has_prefix message ''no more connections active and exiting'' then EvExited
          else if has_prefix message ''dial udp '' \<and> contains_text message '':53: '' then EvBenign ''lan_dns_unreachable''
          else unwrap_or EvUnclassified
            (map_option (EvBenign \<circ> snd) (find (\<lambda>(prefix, _). has_prefix message prefix) BENIGN_MESSAGES))))))"

section \<open>The state machine\<close>

datatype connector_state =
    CnStarting tunnel_protocol
  | CnRegistered tunnel_protocol string string (cn_connections: "nat set") (cn_orphaned: "nat option")
  | CnDraining
  | CnDown nat tunnel_protocol
  | CnTerminal "string option"

datatype directive =
    DNone
  | DReport string
  | DReportAndStop string
  | DDrain
  | DRespawn tunnel_protocol

record connector_supervision =
  cs_state :: connector_state
  cs_respawns_used :: nat

definition supervision_new :: connector_supervision where
  "supervision_new = \<lparr>cs_state = CnStarting Quic, cs_respawns_used = 0\<rparr>"

text \<open>The backoff before a respawn; \<open>jitter\<close> is what \<open>getrandom::fill\<close> delivered, if anything.\<close>

definition connector_reconnect_delay :: "u16 option \<Rightarrow> nat \<Rightarrow> duration" where
  "connector_reconnect_delay jitter attempt =
     (let exponent = min attempt 5;
          base_ms = min (min (250 * 2 ^ exponent) u64_max) 8000;
          jitter_ms = (case jitter of Some j \<Rightarrow> unat j mod 251 | None \<Rightarrow> 0)
      in from_millis (saturating_add_u64 base_ms jitter_ms))"

text \<open>\<open>plan_respawn\<close>; the argument \<open>delay\<close> is the function stored in \<open>respawn_delay\<close>.\<close>

definition plan_respawn :: "(nat \<Rightarrow> duration) \<Rightarrow> nat \<Rightarrow> string \<Rightarrow> connector_supervision \<Rightarrow> string \<times> connector_supervision" where
  "plan_respawn delay now c s =
     (if cs_respawns_used s > MAX_SIDECAR_RESPAWNS
      then (RESPAWN_BUDGET_SPENT_CODE, s\<lparr>cs_state := CnTerminal (Some RESPAWN_BUDGET_SPENT_CODE)\<rparr>)
      else (c, s\<lparr>cs_state := CnDown (now + delay (cs_respawns_used s))
                  (if cs_respawns_used s < MAX_SIDECAR_RESPAWNS then Quic else Http2)\<rparr>))"

definition on_registered :: "nat \<Rightarrow> string \<Rightarrow> string \<Rightarrow> tunnel_protocol \<Rightarrow> connector_supervision \<Rightarrow> directive \<times> connector_supervision" where
  "on_registered conn_index connection_id location protocol s =
     (case cs_state s of
        CnRegistered p i l connections orphaned_since \<Rightarrow>
          (if connections = {} then DReport REGISTERED_CODE else DNone,
           s\<lparr>cs_state := CnRegistered p i l (insert conn_index connections) None\<rparr>)
      | _ \<Rightarrow> (DReport REGISTERED_CODE, s\<lparr>cs_state := CnRegistered protocol connection_id location {conn_index} None\<rparr>))"

definition on_unregistered :: "nat \<Rightarrow> nat \<Rightarrow> connector_supervision \<Rightarrow> connector_supervision" where
  "on_unregistered now conn_index s =
     (case cs_state s of
        CnRegistered p i l connections orphaned_since \<Rightarrow>
          (let rest = connections - {conn_index}
           in s\<lparr>cs_state := CnRegistered p i l rest
                (if conn_index \<in> connections \<and> rest = {} then Some now else orphaned_since)\<rparr>)
      | _ \<Rightarrow> s)"

definition child_exited :: "(nat \<Rightarrow> duration) \<Rightarrow> nat \<Rightarrow> connector_supervision \<Rightarrow> directive \<times> connector_supervision" where
  "child_exited delay now s =
     (case cs_state s of
        CnStarting _ \<Rightarrow> (let (c, s) = plan_respawn delay now EXITED_CODE s in (DReport c, s))
      | CnRegistered _ _ _ _ _ \<Rightarrow> (let (c, s) = plan_respawn delay now EXITED_CODE s in (DReport c, s))
      | CnDraining \<Rightarrow> (DNone, s\<lparr>cs_state := CnTerminal None\<rparr>)
      | _ \<Rightarrow> (DNone, s))"

definition observe_live :: "(nat \<Rightarrow> duration) \<Rightarrow> connector_event \<Rightarrow> nat \<Rightarrow> connector_supervision \<Rightarrow> directive \<times> connector_supervision" where
  "observe_live delay event now s =
     (case event of
        EvMetricsListenerFailed \<Rightarrow>
          (DReport METRICS_LISTENER_FAILED_CODE, s\<lparr>cs_state := CnTerminal (Some METRICS_LISTENER_FAILED_CODE)\<rparr>)
      | EvExited \<Rightarrow> child_exited delay now s
      | EvRegistered conn_index connection_id location protocol \<Rightarrow> on_registered conn_index connection_id location protocol s
      | EvUnregistered conn_index \<Rightarrow> (DNone, on_unregistered now conn_index s)
      | _ \<Rightarrow> (DNone, s))"

definition observe :: "(nat \<Rightarrow> duration) \<Rightarrow> connector_event \<Rightarrow> nat \<Rightarrow> connector_supervision \<Rightarrow> directive \<times> connector_supervision" where
  "observe delay event now s =
     (case cs_state s of
        CnTerminal _ \<Rightarrow> (DNone, s)
      | CnDown _ _ \<Rightarrow> (DNone, s)
      | CnDraining \<Rightarrow> (DNone, if event = EvExited then s\<lparr>cs_state := CnTerminal None\<rparr> else s)
      | _ \<Rightarrow> observe_live delay event now s)"

definition connector_tick :: "(nat \<Rightarrow> duration) \<Rightarrow> nat \<Rightarrow> connector_supervision \<Rightarrow> directive \<times> connector_supervision" where
  "connector_tick delay now s =
     (case cs_state s of
        CnRegistered _ _ _ _ (Some since) \<Rightarrow>
          if now - since \<ge> REREGISTRATION_WINDOW
          then (let (c, s) = plan_respawn delay now UNREGISTERED_CODE s in (DReportAndStop c, s)) else (DNone, s)
      | CnDown retry_at protocol \<Rightarrow>
          if now \<ge> retry_at
          then (DRespawn protocol, s\<lparr>cs_state := CnStarting protocol, cs_respawns_used := cs_respawns_used s + 1\<rparr>)
          else (DNone, s)
      | _ \<Rightarrow> (DNone, s))"

definition connector_stop :: "connector_supervision \<Rightarrow> directive \<times> connector_supervision" where
  "connector_stop s =
     (case cs_state s of
        CnStarting _ \<Rightarrow> (DDrain, s\<lparr>cs_state := CnDraining\<rparr>)
      | CnRegistered _ _ _ _ _ \<Rightarrow> (DDrain, s\<lparr>cs_state := CnDraining\<rparr>)
      | CnDown _ _ \<Rightarrow> (DNone, s\<lparr>cs_state := CnTerminal None\<rparr>)
      | _ \<Rightarrow> (DNone, s))"

text \<open>The inputs the supervisor feeds the machine with, each at an instant.\<close>

datatype connector_input = Observe connector_event | ChildExited | Tick | Stop

fun connector_step :: "(nat \<Rightarrow> duration) \<Rightarrow> nat \<Rightarrow> connector_input \<Rightarrow> connector_supervision \<Rightarrow> directive \<times> connector_supervision" where
  "connector_step delay now (Observe event) s = observe delay event now s"
| "connector_step delay now ChildExited s = child_exited delay now s"
| "connector_step delay now Tick s = connector_tick delay now s"
| "connector_step delay now Stop s = connector_stop s"

type_synonym connector_trace = "(nat \<times> connector_input \<times> directive) list"

inductive connector_run :: "connector_trace \<Rightarrow> connector_supervision \<Rightarrow> bool" where
  connector_start: "connector_run [] supervision_new"
| connector_next: "connector_run tr s \<Longrightarrow> \<forall>e \<in> set tr. fst e \<le> now
    \<Longrightarrow> connector_step (connector_reconnect_delay jitter) now input s = (d, s')
    \<Longrightarrow> connector_run (tr @ [(now, input, d)]) s'"

section \<open>Draining the process group\<close>

record 'w child_host =
  ch_try_wait :: "'w \<Rightarrow> (unit + bool) \<times> 'w"
  ch_id :: "'w \<Rightarrow> nat"
  ch_kill :: "int \<Rightarrow> int \<Rightarrow> 'w \<Rightarrow> 'w"
  ch_now :: "'w \<Rightarrow> nat \<times> 'w"
  ch_sleep :: "duration \<Rightarrow> 'w \<Rightarrow> 'w"
  ch_wait :: "'w \<Rightarrow> (unit + unit) \<times> 'w"

definition ACCESS_CLEANUP_FAILED :: string where "ACCESS_CLEANUP_FAILED = ''access_cleanup_failed''"
definition ACCESS_POLL_INTERVAL :: duration where "ACCESS_POLL_INTERVAL = from_millis 50"
definition TERM_SIGNAL :: int where "TERM_SIGNAL = 15"
definition KILL_SIGNAL :: int where "KILL_SIGNAL = 9"
definition I32_MAX :: nat where "I32_MAX = 2147483647"

text \<open>
  The wait for the child until the deadline: \<open>Some (Inr True)\<close> when it has exited, \<open>Some (Inr False)\<close> when
  the deadline has passed and \<open>None\<close> when the fuel ran out.
\<close>

fun await_child :: "nat \<Rightarrow> 'w child_host \<Rightarrow> nat \<Rightarrow> 'w \<Rightarrow> (string + bool) option \<times> 'w" where
  "await_child 0 h deadline w = (None, w)"
| "await_child (Suc n) h deadline w =
     (let (t, w) = ch_now h w
      in if t < deadline
         then (case ch_try_wait h w of
             (Inl _, w) \<Rightarrow> (Some (Inl ACCESS_CLEANUP_FAILED), w)
           | (Inr True, w) \<Rightarrow> (Some (Inr True), w)
           | (Inr False, w) \<Rightarrow> await_child n h deadline (ch_sleep h ACCESS_POLL_INTERVAL w))
         else (Some (Inr False), w))"

definition terminate_child_within :: "nat \<Rightarrow> 'w child_host \<Rightarrow> duration \<Rightarrow> 'w \<Rightarrow> (string + unit) option \<times> 'w" where
  "terminate_child_within fuel h grace w =
     (case ch_try_wait h w of
        (Inl _, w) \<Rightarrow> (Some (Inl ACCESS_CLEANUP_FAILED), w)
      | (Inr True, w) \<Rightarrow> (Some (Inr ()), w)
      | (Inr False, w) \<Rightarrow>
          if ch_id h w > I32_MAX then (Some (Inl ACCESS_CLEANUP_FAILED), w)
          else (let pg = int (ch_id h w); w = ch_kill h (- pg) TERM_SIGNAL w; (t, w) = ch_now h w
            in case await_child fuel h (t + grace) w of
                 (None, w) \<Rightarrow> (None, w)
               | (Some (Inl e), w) \<Rightarrow> (Some (Inl e), w)
               | (Some (Inr True), w) \<Rightarrow> (Some (Inr ()), w)
               | (Some (Inr False), w) \<Rightarrow>
                   (case ch_wait h (ch_kill h (- pg) KILL_SIGNAL w) of
                      (Inl _, w) \<Rightarrow> (Some (Inl ACCESS_CLEANUP_FAILED), w)
                    | (Inr _, w) \<Rightarrow> (Some (Inr ()), w))))"

definition drain_connector :: "nat \<Rightarrow> 'w child_host \<Rightarrow> 'w \<Rightarrow> (string + unit) option \<times> 'w" where
  "drain_connector fuel h w = terminate_child_within fuel h DRAIN_GRACE w"

end
