(* ===== verification/ConnectorProofs.thy ===== *)
theory ConnectorProofs
  imports Connector
begin

text \<open>
  Correctness of the connector supervision: invariants of \<open>connector_run\<close> by rule induction (the respawn budget,
  the connections held by the log), the round trip of a registration line through the classifier and the end of a
  drain.
\<close>

section \<open>Runs of the supervision\<close>

definition respawns :: "connector_trace \<Rightarrow> tunnel_protocol list" where
  "respawns tr = List.map_filter (\<lambda>(_, _, d). case d of DRespawn p \<Rightarrow> Some p | _ \<Rightarrow> None) tr"

definition lost_connector :: "directive \<Rightarrow> bool" where
  "lost_connector d \<longleftrightarrow> d \<in> {DReport EXITED_CODE, DReport RESPAWN_BUDGET_SPENT_CODE} \<or> (\<exists>c. d = DReportAndStop c)"

definition losses :: "connector_trace \<Rightarrow> nat" where
  "losses tr = length (filter (\<lambda>(_, _, d). lost_connector d) tr)"

definition respawn_schedule :: "tunnel_protocol list" where
  "respawn_schedule = replicate MAX_SIDECAR_RESPAWNS Quic @ [Http2]"

lemma respawn_schedule_nth:
  "n \<le> MAX_SIDECAR_RESPAWNS \<Longrightarrow>
     take (Suc n) respawn_schedule = take n respawn_schedule @ [if n < MAX_SIDECAR_RESPAWNS then Quic else Http2]"
  by (simp add: respawn_schedule_def take_Suc_conv_app_nth nth_append replicate_append_same)

lemma respawns_snoc: "respawns (tr @ [(now, i, d)]) = respawns tr @ (case d of DRespawn p \<Rightarrow> [p] | _ \<Rightarrow> [])"
  by (simp add: respawns_def map_filter_def split: directive.split)

lemma losses_snoc: "losses (tr @ [(now, i, d)]) = losses tr + (if lost_connector d then 1 else 0)"
  by (simp add: losses_def)

lemma lost_connector_simps [simp]:
  "\<not> lost_connector DNone" "\<not> lost_connector DDrain" "\<not> lost_connector (DRespawn p)" "lost_connector (DReportAndStop c)" "lost_connector (DReport EXITED_CODE)"
  "lost_connector (DReport RESPAWN_BUDGET_SPENT_CODE)" "\<not> lost_connector (DReport REGISTERED_CODE)" "\<not> lost_connector (DReport METRICS_LISTENER_FAILED_CODE)"
  by (simp_all add: lost_connector_def connector_codes)

definition connector_inv :: "connector_trace \<Rightarrow> connector_supervision \<Rightarrow> bool" where
  "connector_inv tr s \<longleftrightarrow> cs_respawns_used s \<le> Suc MAX_SIDECAR_RESPAWNS
     \<and> respawns tr = take (cs_respawns_used s) respawn_schedule
     \<and> (case cs_state s of
          CnDown _ p \<Rightarrow> losses tr = Suc (cs_respawns_used s) \<and> cs_respawns_used s \<le> MAX_SIDECAR_RESPAWNS
            \<and> p = (if cs_respawns_used s < MAX_SIDECAR_RESPAWNS then Quic else Http2)
        | CnTerminal _ \<Rightarrow> cs_respawns_used s \<le> losses tr \<and> losses tr \<le> Suc (cs_respawns_used s)
        | _ \<Rightarrow> losses tr = cs_respawns_used s)"

lemma connector_inv_plan:
  assumes "connector_inv tr s" "losses tr = cs_respawns_used s" "plan_respawn delay now c s = (c', s')"
    "respawns (tr @ [e]) = respawns tr" "losses (tr @ [e]) = Suc (losses tr)"
  shows "connector_inv (tr @ [e]) s'"
  using assms by (auto simp: connector_inv_def plan_respawn_def split: if_splits)

lemma plan_code: "plan_respawn delay now c s = (c', s') \<Longrightarrow> c' = c \<or> c' = RESPAWN_BUDGET_SPENT_CODE"
  by (auto simp: plan_respawn_def split: if_splits)

lemma connector_inv_exited:
  assumes i: "connector_inv tr s" and run: "child_exited delay now s = (d, s')"
  shows "connector_inv (tr @ [(now, input, d)]) s'"
proof (cases "\<exists>p a l c r. cs_state s = CnStarting p \<or> cs_state s = CnRegistered p a l c r")
  case True
  obtain c s1 where p: "plan_respawn delay now EXITED_CODE s = (c, s1)" by (metis surj_pair)
  then have d: "d = DReport c" "s' = s1" "losses tr = cs_respawns_used s"
    using True run i by (auto simp: child_exited_def connector_inv_def)
  have "lost_connector d" using plan_code [OF p] d(1) by auto
  then show ?thesis
    using connector_inv_plan [OF i d(3) p] d by (simp add: respawns_snoc losses_snoc)
next
  case False
  then show ?thesis using run i
    by (cases "cs_state s") (auto simp: child_exited_def connector_inv_def respawns_snoc losses_snoc)
qed

lemma connector_inv_tick:
  assumes i: "connector_inv tr s" and run: "connector_tick delay now s = (d, s')"
  shows "connector_inv (tr @ [(now, input, d)]) s'"
proof (cases "cs_state s")
  case (CnRegistered p a l c r)
  obtain c1 s1 where p: "plan_respawn delay now UNREGISTERED_CODE s = (c1, s1)" by (metis surj_pair)
  have n: "losses tr = cs_respawns_used s" using CnRegistered i by (simp add: connector_inv_def)
  show ?thesis
  proof (cases "\<exists>t. r = Some t \<and> now - t \<ge> REREGISTRATION_WINDOW")
    case True
    then have "d = DReportAndStop c1" "s' = s1" using run CnRegistered p by (auto simp: connector_tick_def)
    then show ?thesis using connector_inv_plan [OF i n p] by (simp add: respawns_snoc losses_snoc)
  next
    case False
    then have "d = DNone" "s' = s" using run CnRegistered by (auto simp: connector_tick_def split: option.splits)
    then show ?thesis using i CnRegistered by (simp add: respawns_snoc losses_snoc connector_inv_def)
  qed
next
  case (CnDown t p)
  then show ?thesis using run i
    by (auto simp: connector_tick_def connector_inv_def respawns_snoc losses_snoc respawn_schedule_nth split: if_splits)
qed (use run i in \<open>auto simp: connector_tick_def connector_inv_def respawns_snoc losses_snoc\<close>)

lemma connector_inv_observe:
  assumes i: "connector_inv tr s" and run: "observe delay event now s = (d, s')"
  shows "connector_inv (tr @ [(now, input, d)]) s'"
proof (cases "\<exists>p a l c r. cs_state s = CnStarting p \<or> cs_state s = CnRegistered p a l c r")
  case True
  then have live: "observe_live delay event now s = (d, s')" using run by (auto simp: observe_def)
  then show ?thesis
  proof (cases event)
    case EvExited
    then show ?thesis using live connector_inv_exited [OF i] by (simp add: observe_live_def)
  qed (use live i True in \<open>auto simp: observe_live_def on_registered_def on_unregistered_def connector_inv_def
        respawns_snoc losses_snoc Let_def\<close>)
next
  case False
  then show ?thesis using run i
    by (cases "cs_state s") (auto simp: observe_def connector_inv_def respawns_snoc losses_snoc)
qed

lemma connector_run_inv: "connector_run tr s \<Longrightarrow> connector_inv tr s"
proof (induction rule: connector_run.induct)
  case connector_start
  show ?case by (simp add: connector_inv_def supervision_new_def respawns_def losses_def map_filter_def)
next
  case (connector_next tr s now jitter input d s')
  note i = connector_next.IH
  show ?case
  proof (cases input)
    case Stop
    then show ?thesis using connector_next.hyps(3) i
      by (auto simp: connector_stop_def connector_inv_def respawns_snoc losses_snoc split: connector_state.splits)
  qed (use connector_next.hyps(3) connector_inv_observe [OF i] connector_inv_exited [OF i] connector_inv_tick [OF i] in auto)
qed

text \<open>A requested stop is final.\<close>

lemma stop_is_final:
  assumes "connector_run tr s" "tr = tr1 @ (t, Stop, d) # tr2"
  shows "(\<forall>e \<in> set tr2. snd (snd e) = DNone) \<and> (cs_state s = CnDraining \<or> (\<exists>c. cs_state s = CnTerminal c))"
  using assms
proof (induction arbitrary: tr2 rule: connector_run.induct)
  case (connector_next tr s now jitter input d' s')
  show ?case
  proof (cases tr2 rule: rev_cases)
    case Nil
    then have "input = Stop" using connector_next.prems by simp
    then show ?thesis using Nil connector_next.hyps(3)
      by (auto simp: connector_stop_def split: connector_state.splits)
  next
    case (snoc rest e)
    then have tr: "tr = tr1 @ (t, Stop, d) # rest" and e: "e = (now, input, d')" using connector_next.prems by auto
    have "cs_state s = CnDraining \<or> (\<exists>c. cs_state s = CnTerminal c)" using connector_next.IH [OF tr] by blast
    then have "d' = DNone \<and> (cs_state s' = CnDraining \<or> (\<exists>c. cs_state s' = CnTerminal c))"
      using connector_next.hyps(3)
      by (cases input) (auto simp: observe_def child_exited_def connector_tick_def connector_stop_def split: if_splits)
    then show ?thesis using connector_next.IH [OF tr] snoc e by simp
  qed
qed simp

text \<open>
  C9.  Whatever the connector logs and whenever it dies, its supervision respawns it at most four times, three times
  on QUIC and then once on HTTP/2, never before a loss of the running connector was reported, so no two
  connectors are alive by its account; and after a requested stop it gives no directive at all.
\<close>

theorem connector_respawn_budget:
  assumes "connector_run tr s"
  shows "respawns tr = take (cs_respawns_used s) [Quic, Quic, Quic, Http2]
    \<and> cs_respawns_used s \<le> 4
    \<and> length (respawns tr) \<le> losses tr \<and> losses tr \<le> length (respawns tr) + 1
    \<and> (\<forall>tr1 t d tr2. tr = tr1 @ (t, Stop, d) # tr2 \<longrightarrow> (\<forall>e \<in> set tr2. snd (snd e) = DNone))"
proof -
  have i: "connector_inv tr s" using connector_run_inv [OF assms] .
  have sched: "respawn_schedule = [Quic, Quic, Quic, Http2]"
    by (simp add: respawn_schedule_def MAX_SIDECAR_RESPAWNS_def numeral_3_eq_3)
  have used: "cs_respawns_used s \<le> 4" and r: "respawns tr = take (cs_respawns_used s) [Quic, Quic, Quic, Http2]"
    using i by (simp_all add: connector_inv_def sched MAX_SIDECAR_RESPAWNS_def)
  have "length (respawns tr) = cs_respawns_used s" using used r by simp
  moreover have "cs_respawns_used s \<le> losses tr" "losses tr \<le> cs_respawns_used s + 1"
    using i by (auto simp: connector_inv_def split: connector_state.splits)
  ultimately show ?thesis using used r stop_is_final [OF assms] by auto
qed

section \<open>Orphaned connectors\<close>

text \<open>The connections the connector holds since its last launch, by its log.\<close>

definition held_step :: "nat set \<Rightarrow> nat \<times> connector_input \<times> directive \<Rightarrow> nat set" where
  "held_step h e = (case e of
      (_, _, DRespawn _) \<Rightarrow> {}
    | (_, Observe (EvRegistered k _ _ _), _) \<Rightarrow> insert k h
    | (_, Observe (EvUnregistered k), _) \<Rightarrow> h - {k}
    | _ \<Rightarrow> h)"

definition held :: "connector_trace \<Rightarrow> nat set" where
  "held tr = foldl held_step {} tr"

fun orphaned_at :: "connector_trace \<Rightarrow> nat \<Rightarrow> bool" where
  "orphaned_at tr t = (\<exists>tr1 k d tr2. tr = tr1 @ (t, Observe (EvUnregistered k), d) # tr2
     \<and> (\<forall>m \<le> length tr2. held (tr1 @ (t, Observe (EvUnregistered k), d) # take m tr2) = {}))"

definition orphan_inv :: "connector_trace \<Rightarrow> connector_supervision \<Rightarrow> bool" where
  "orphan_inv tr s \<longleftrightarrow> (case cs_state s of
      CnStarting _ \<Rightarrow> held tr = {}
    | CnRegistered _ _ _ c r \<Rightarrow> c = held tr \<and> (case r of None \<Rightarrow> True | Some t \<Rightarrow> c = {} \<and> orphaned_at tr t)
    | _ \<Rightarrow> True)"

lemma held_snoc: "held (tr @ [e]) = held_step (held tr) e"
  by (simp add: held_def)

lemma orphaned_at_snoc:
  assumes "orphaned_at tr t" "held (tr @ [e]) = {}"
  shows "orphaned_at (tr @ [e]) t"
proof -
  obtain tr1 k d tr2 where tr: "tr = tr1 @ (t, Observe (EvUnregistered k), d) # tr2"
    and h: "\<forall>m \<le> length tr2. held (tr1 @ (t, Observe (EvUnregistered k), d) # take m tr2) = {}"
    using assms(1) by auto
  have "held (tr1 @ (t, Observe (EvUnregistered k), d) # take m (tr2 @ [e])) = {}" if "m \<le> length (tr2 @ [e])" for m
    using that h assms(2) tr by (cases "m = Suc (length tr2)") auto
  then show ?thesis
    unfolding orphaned_at.simps
    by (intro exI [of _ tr1] exI [of _ k] exI [of _ d] exI [of _ "tr2 @ [e]"]) (use tr in simp)
qed

lemma orphaned_now:
  assumes "held (tr @ [(t, Observe (EvUnregistered k), d)]) = {}"
  shows "orphaned_at (tr @ [(t, Observe (EvUnregistered k), d)]) t"
  unfolding orphaned_at.simps
  by (intro exI [of _ tr] exI [of _ k] exI [of _ d] exI [of _ "[]"]) (use assms in simp)

declare orphaned_at.simps [simp del]

lemma orphan_inv_same:
  assumes "orphan_inv tr s" "held (tr @ [e]) = held tr"
  shows "orphan_inv (tr @ [e]) s"
  using assms orphaned_at_snoc [of tr _ e] by (auto simp: orphan_inv_def split: connector_state.splits option.splits)

lemma held_none: "\<forall>k a l p. i \<noteq> Observe (EvRegistered k a l p) \<Longrightarrow> \<forall>k. i \<noteq> Observe (EvUnregistered k)
    \<Longrightarrow> \<forall>p. d \<noteq> DRespawn p \<Longrightarrow> held (tr @ [(now, i, d)]) = held tr"
  by (auto simp: held_snoc held_step_def split: directive.splits connector_input.splits connector_event.splits)

lemma plan_orphan: "plan_respawn delay now c s = (c', s') \<Longrightarrow> orphan_inv tr s'"
  by (auto simp: plan_respawn_def orphan_inv_def split: if_splits)

lemma exited_orphan:
  assumes i: "orphan_inv tr s" and run: "child_exited delay now s = (d, s')" and input: "input = ChildExited \<or> input = Observe EvExited"
  shows "orphan_inv (tr @ [(now, input, d)]) s'"
proof -
  have "\<forall>p. d \<noteq> DRespawn p" using run by (auto simp: child_exited_def split: connector_state.splits prod.splits)
  then have "held (tr @ [(now, input, d)]) = held tr" using input by (intro held_none) auto
  then have "orphan_inv (tr @ [(now, input, d)]) s" using orphan_inv_same [OF i] by blast
  then show ?thesis using run plan_orphan [of delay now EXITED_CODE s]
    by (auto simp: child_exited_def split: connector_state.splits prod.splits) (auto simp: orphan_inv_def)
qed

lemma live_orphan:
  assumes i: "orphan_inv tr s" and run: "observe_live delay event now s = (d, s')"
    and live: "\<exists>p a l c r. cs_state s = CnStarting p \<or> cs_state s = CnRegistered p a l c r"
  shows "orphan_inv (tr @ [(now, Observe event, d)]) s'"
proof (cases event)
  case (EvRegistered k a l p)
  then have "\<forall>q. d \<noteq> DRespawn q"
    using run by (auto simp: observe_live_def on_registered_def split: connector_state.splits if_splits)
  then have "held (tr @ [(now, Observe event, d)]) = insert k (held tr)"
    using EvRegistered by (auto simp: held_snoc held_step_def split: directive.splits)
  then show ?thesis using EvRegistered run i live
    by (auto simp: observe_live_def on_registered_def orphan_inv_def)
next
  case (EvUnregistered k)
  have d: "d = DNone" and s': "s' = on_unregistered now k s" using run EvUnregistered by (auto simp: observe_live_def)
  let ?e = "(now, Observe (EvUnregistered k), d)"
  have h: "held (tr @ [?e]) = held tr - {k}" by (simp add: held_snoc held_step_def d)
  have "orphaned_at (tr @ [?e]) t" if "orphaned_at tr t" "held tr = {}" for t
    using orphaned_at_snoc [OF that(1), of ?e] h that(2) by simp
  moreover have "orphaned_at (tr @ [?e]) now" if "held tr - {k} = {}" using orphaned_now [of tr now k d] h that by simp
  ultimately show ?thesis
    using i live unfolding s' EvUnregistered by (auto simp: on_unregistered_def orphan_inv_def h Let_def split: option.splits)
next
  case EvExited
  then show ?thesis using run exited_orphan [OF i, of delay now d s' "Observe event"] by (simp add: observe_live_def)
next
  case EvMetricsListenerFailed
  then show ?thesis using run by (auto simp: observe_live_def orphan_inv_def)
qed (use run i in \<open>simp_all add: observe_live_def orphan_inv_same held_none\<close>)

lemma tick_orphan:
  assumes i: "orphan_inv tr s" and run: "connector_tick delay now s = (d, s')"
  shows "orphan_inv (tr @ [(now, Tick, d)]) s'"
proof (cases "d = DNone")
  case True
  then have "s' = s" using run by (auto simp: connector_tick_def Let_def split: connector_state.splits option.splits if_splits prod.splits)
  then show ?thesis using i True by (simp add: orphan_inv_same held_none)
next
  case False
  then show ?thesis using run plan_orphan
    by (auto simp: connector_tick_def orphan_inv_def [of _ "_\<lparr>cs_state := _, cs_respawns_used := _\<rparr>"] held_snoc held_step_def
        split: connector_state.splits option.splits if_splits prod.splits)
qed

lemma connector_run_orphan: "connector_run tr s \<Longrightarrow> orphan_inv tr s"
proof (induction rule: connector_run.induct)
  case connector_start
  show ?case by (simp add: orphan_inv_def supervision_new_def held_def)
next
  case (connector_next tr s now jitter input d s')
  note i = connector_next.IH and run = connector_next.hyps(3)
  show ?case
  proof (cases input)
    case (Observe event)
    show ?thesis
    proof (cases "\<exists>p a l c r. cs_state s = CnStarting p \<or> cs_state s = CnRegistered p a l c r")
      case True
      then have "observe_live (connector_reconnect_delay jitter) event now s = (d, s')"
        using run Observe by (auto simp: observe_def)
      then show ?thesis using live_orphan [OF i _ True] Observe by simp
    next
      case False
      then show ?thesis using run Observe by (cases "cs_state s") (auto simp: observe_def orphan_inv_def)
    qed
  next
    case ChildExited
    then show ?thesis using run exited_orphan [OF i, of _ now d s' input] by simp
  next
    case Tick
    then show ?thesis using run tick_orphan [OF i] by simp
  next
    case Stop
    then show ?thesis using run i
      by (auto simp: connector_stop_def orphan_inv_def held_none split: connector_state.splits)
  qed
qed

text \<open>
  C10.  The supervision stops a running connector only after its log has shown no registered connection for the
  whole re-registration window: the last connection was unregistered at least 30 seconds before, and no point of
  the log since then shows one.
\<close>

theorem connector_stopped_only_when_orphaned:
  assumes run: "connector_run (tr @ [(now, input, DReportAndStop c)]) s"
  shows "\<exists>tr1 t k d tr2. tr = tr1 @ (t, Observe (EvUnregistered k), d) # tr2 \<and> t + from_secs 30 \<le> now
    \<and> (\<forall>m \<le> length tr2. held (tr1 @ (t, Observe (EvUnregistered k), d) # take m tr2) = {})"
proof -
  obtain s0 jitter where prev: "connector_run tr s0"
    and step: "connector_step (connector_reconnect_delay jitter) now input s0 = (DReportAndStop c, s)"
    using run by (auto elim: connector_run.cases)
  have i: "orphan_inv tr s0" using connector_run_orphan [OF prev] .
  obtain p a l cs t where st: "cs_state s0 = CnRegistered p a l cs (Some t)" and late: "now - t \<ge> REREGISTRATION_WINDOW"
    using step by (cases input)
      (auto simp: observe_def observe_live_def child_exited_def on_registered_def on_unregistered_def connector_tick_def
        connector_stop_def Let_def split: connector_state.splits connector_event.splits option.splits if_splits prod.splits)
  have "orphaned_at tr t" using i st by (simp add: orphan_inv_def)
  moreover have "t + from_secs 30 \<le> now" using late by (simp add: REREGISTRATION_WINDOW_def from_secs_def)
  ultimately show ?thesis unfolding orphaned_at.simps by blast
qed

section \<open>Log lines\<close>

text \<open>ASCII words separated by single spaces are read back as they were printed.\<close>

definition log_word :: "string \<Rightarrow> bool" where
  "log_word w \<longleftrightarrow> w \<noteq> [] \<and> list_all is_ascii_graphic w"

fun unwords :: "string list \<Rightarrow> string" where
  "unwords [] = []"
| "unwords [w] = w"
| "unwords (w # ws) = w @ '' '' @ unwords ws"

lemma graphic_ws [simp]: "is_ascii_graphic c \<Longrightarrow> ws_width (c # s) = 0" "ws_width (CHR '' '' # s) = 1"
  by (auto simp: ws_width_def is_ascii_graphic_def split: list.splits)

lemma graphic_no_space: "log_word w \<Longrightarrow> CHR '' '' \<notin> set w"
  by (auto simp: log_word_def list_all_iff is_ascii_graphic_def)

lemma split_ws_word: "list_all is_ascii_graphic w \<Longrightarrow> split_ws cur (w @ s) = split_ws (cur @ w) s"
  by (induction w arbitrary: cur) auto

lemma split_unwords: "list_all log_word ws \<Longrightarrow> split_whitespace (unwords ws) = ws"
proof (induction ws rule: unwords.induct)
  case (2 w)
  then show ?case using split_ws_word [of w "[]" "[]"] by (auto simp: split_whitespace_def log_word_def)
next
  case (3 w v ws)
  then show ?case using split_ws_word [of w "[]" "CHR '' '' # unwords (v # ws)"]
    by (auto simp: split_whitespace_def log_word_def)
qed (simp add: split_whitespace_def)

lemma split_once_char: "d \<notin> set a \<Longrightarrow> split_once [d] (a @ d # s) = Some (a, s)"
  using find_sub_skip [of d a "[]" "d # s"] find_sub_here [of d "[]" s] by (simp add: split_once_def)

definition log_pair :: "string \<times> string \<Rightarrow> string" where
  "log_pair kv = fst kv @ ''='' @ snd kv"

lemma log_field_pairs:
  assumes "\<forall>(k, v) \<in> set kvs. CHR ''='' \<notin> set k \<and> log_word (k @ ''='' @ v)"
  shows "log_field (unwords (map log_pair kvs)) key = map_of kvs key"
proof -
  have w: "list_all log_word (map log_pair kvs)" using assms by (auto simp: list_all_iff log_pair_def)
  have "List.map_filter (split_once ''='') (map log_pair kvs) = kvs"
    using assms by (induction kvs) (auto simp: log_pair_def split_once_char map_filter_def)
  moreover have "map_option snd (find (\<lambda>(name, _). name = key) kvs) = map_of kvs key" by (induction kvs) auto
  ultimately show ?thesis by (simp add: log_field_def split_unwords [OF w])
qed

lemma trim_start_graphic: "is_ascii_graphic c \<Longrightarrow> trim_start (c # s) = c # s"
  by (subst trim_start.simps) simp

lemma trim_start_ends: "list_all (\<lambda>c. is_ascii_graphic c \<or> c = CHR '' '') s \<Longrightarrow> is_ascii_graphic x \<Longrightarrow> trim_start (s @ [x]) \<noteq> []"
proof (induction s)
  case (Cons c s)
  then show ?case by (cases "is_ascii_graphic c") (auto simp: trim_start_graphic trim_start.simps [of "CHR '' '' # _"])
qed (simp add: trim_start_graphic)

lemma trim_end_graphic:
  "list_all (\<lambda>c. is_ascii_graphic c \<or> c = CHR '' '') s \<Longrightarrow> is_ascii_graphic x \<Longrightarrow> trim_end (s @ [x]) = s @ [x]"
proof (induction s)
  case (Cons c s)
  then show ?case using trim_start_ends [of "c # s" x] by simp
qed (simp add: trim_start_graphic)

lemma unwords_chars: "list_all log_word ws \<Longrightarrow> list_all (\<lambda>c. is_ascii_graphic c \<or> c = CHR '' '') (unwords ws)"
  by (induction ws rule: unwords.induct) (auto simp: log_word_def list_all_iff)

lemma unwords_ends: "list_all log_word ws \<Longrightarrow> ws \<noteq> [] \<Longrightarrow> \<exists>s x. unwords ws = s @ [x] \<and> is_ascii_graphic x"
proof (induction ws rule: unwords.induct)
  case (2 w)
  then show ?case by (cases w rule: rev_cases) (auto simp: log_word_def)
next
  case (3 w v ws)
  then obtain s x where "unwords (v # ws) = s @ [x]" "is_ascii_graphic x" by auto
  then show ?case by (intro exI [of _ "w @ '' '' @ s"] exI [of _ x]) simp
qed simp

lemma unwords_starts: "log_word w \<Longrightarrow> trim_start (unwords (w # ws)) = unwords (w # ws)"
  by (cases w; cases ws) (auto simp: log_word_def trim_start_graphic)

lemma trim_unwords: "list_all log_word ws \<Longrightarrow> ws \<noteq> [] \<Longrightarrow> trim (unwords ws) = unwords ws"
proof -
  assume ws: "list_all log_word ws" "ws \<noteq> []"
  obtain s x where e: "unwords ws = s @ [x]" "is_ascii_graphic x" using unwords_ends [OF ws] by blast
  have "list_all (\<lambda>c. is_ascii_graphic c \<or> c = CHR '' '') s" using unwords_chars [OF ws(1)] e(1) by simp
  then have "trim_end (unwords ws) = unwords ws" using trim_end_graphic e by simp
  moreover have "trim_start (unwords ws) = unwords ws" using ws unwords_starts by (cases ws) auto
  ultimately show ?thesis by (simp add: trim_def)
qed

lemma log_message_words:
  assumes "is_timestamp ts" "level \<in> set LOG_LEVELS" "list_all log_word (ts # level # w # ws)"
  shows "log_message (unwords (ts # level # w # ws)) = unwords (w # ws)"
proof -
  have w: "log_word ts" "log_word level" "log_word w" using assms(3) by auto
  have "split_once '' '' (unwords (ts # level # w # ws)) = Some (ts, unwords (level # w # ws))"
    using split_once_char [OF graphic_no_space [OF w(1)], of "unwords (level # w # ws)"] by simp
  moreover have "split_once '' '' (unwords (level # w # ws)) = Some (level, unwords (w # ws))"
    using split_once_char [OF graphic_no_space [OF w(2)], of "unwords (w # ws)"] by simp
  ultimately show ?thesis
    using assms(1,2) trim_unwords [OF assms(3)] unwords_starts [OF w(2), of "w # ws"] unwords_starts [OF w(3), of ws]
    by (simp add: log_message_def Let_def del: unwords.simps)
qed

definition registered_log :: "string \<Rightarrow> string \<Rightarrow> (string \<times> string) list \<Rightarrow> string" where
  "registered_log ts level kvs = unwords ([ts, level, ''Registered'', ''tunnel'', ''connection''] @ map log_pair kvs)"

text \<open>
  C11.  The classifier reads back what the connector logs when it registers a connection: a line of a time stamp, a
  level, the message and any fields in any order is the registration of exactly the index, connection, location and
  protocol its fields name, provided these are well formed.
\<close>

theorem registered_line_roundtrip:
  assumes "is_timestamp ts" "log_word ts" "level \<in> set LOG_LEVELS"
    and kvs: "kvs \<noteq> []" "\<forall>(k, v) \<in> set kvs. CHR ''='' \<notin> set k \<and> log_word (k @ ''='' @ v)"
    and fs: "map_of kvs ''connection'' = Some connection" "is_uuid connection"
      "map_of kvs ''location'' = Some location" "location_ok location"
      "map_of kvs ''connIndex'' = Some (show_nat index)" "index \<le> 255"
      "map_of kvs ''protocol'' = Some (tunnel_protocol_as_str protocol)"
  shows "connector_classify (registered_log ts level kvs) = EvRegistered index connection location protocol"
proof -
  have lw: "log_word level" using assms(3) by (auto simp: LOG_LEVELS_def log_word_def is_ascii_graphic_def)
  have "list_all log_word ([ts, level, ''Registered'', ''tunnel'', ''connection''] @ map log_pair kvs)"
    using assms(2) lw kvs(2) by (auto simp: list_all_iff log_pair_def log_word_def is_ascii_graphic_def)
  then have m: "log_message (registered_log ts level kvs) = unwords ([''Registered'', ''tunnel'', ''connection''] @ map log_pair kvs)"
    using log_message_words [OF assms(1,3), of "''Registered''" "[''tunnel'', ''connection''] @ map log_pair kvs"]
    by (simp add: registered_log_def del: unwords.simps)
  obtain kv rest where "map log_pair kvs = kv # rest" using kvs(1) by (cases kvs) auto
  then have "unwords ([''Registered'', ''tunnel'', ''connection''] @ map log_pair kvs)
      = ''Registered tunnel connection '' @ unwords (map log_pair kvs)" by simp
  note m = m [unfolded this]
  have p: "tunnel_protocol_parse (tunnel_protocol_as_str protocol) = Some protocol"
    by (cases protocol) (simp_all add: tunnel_protocol_parse_def)
  have "registered_line (unwords (map log_pair kvs)) = Some (EvRegistered index connection location protocol)"
    using fs p by (simp add: registered_line_def log_field_pairs [OF kvs(2)] option_filter_def)
  then show ?thesis by (simp add: connector_classify_def m unwrap_or_def)
qed

section \<open>The drain ends\<close>

definition child_clock :: "'w child_host \<Rightarrow> ('w \<Rightarrow> nat) \<Rightarrow> bool" where
  "child_clock h clock \<longleftrightarrow> (\<forall>w. fst (ch_now h w) = clock w \<and> clock (snd (ch_now h w)) = clock w
     \<and> clock (snd (ch_try_wait h w)) = clock w \<and> (\<forall>d. clock w + d \<le> clock (ch_sleep h d w)))"

lemma await_child_returns:
  assumes "child_clock h clock" "deadline \<le> clock w + n * ACCESS_POLL_INTERVAL"
  shows "fst (await_child (Suc n) h deadline w) \<noteq> None"
  using assms(2)
proof (induction n arbitrary: w)
  case 0
  then show ?case using assms(1) by (auto simp: child_clock_def Let_def case_prod_beta)
next
  case (Suc n)
  obtain t w1 where 1: "ch_now h w = (t, w1)" by (metis surj_pair)
  obtain r w2 where 2: "ch_try_wait h w1 = (r, w2)" by (metis surj_pair)
  have "clock w2 = clock w" using assms(1) 1 2 unfolding child_clock_def by (metis fst_conv snd_conv)
  then have "clock w + ACCESS_POLL_INTERVAL \<le> clock (ch_sleep h ACCESS_POLL_INTERVAL w2)"
    using assms(1) unfolding child_clock_def by metis
  then have "fst (await_child (Suc n) h deadline (ch_sleep h ACCESS_POLL_INTERVAL w2)) \<noteq> None"
    using Suc.prems by (intro Suc.IH) simp
  then show ?case by (simp add: 1 2 Let_def split: sum.split bool.split del: await_child.simps(2) add: await_child.simps(2) [of "Suc n"])
qed

text \<open>A drain needs at most 201 polls of the child when the clock advances with the sleeps.\<close>

lemma drain_connector_returns:
  assumes c: "child_clock h clock"
  shows "fst (drain_connector 201 h w) \<noteq> None"
proof -
  obtain r w1 where 1: "ch_try_wait h w = (r, w1)" by (metis surj_pair)
  let ?w = "ch_kill h (- int (ch_id h w1)) TERM_SIGNAL w1"
  obtain t w2 where 2: "ch_now h ?w = (t, w2)" by (metis surj_pair)
  have "clock w2 = t" using c 2 unfolding child_clock_def by (metis fst_conv snd_conv)
  then have "t + DRAIN_GRACE \<le> clock w2 + 200 * ACCESS_POLL_INTERVAL"
    by (simp add: DRAIN_GRACE_def ACCESS_POLL_INTERVAL_def from_secs_def from_millis_def)
  then have "fst (await_child (Suc 200) h (t + DRAIN_GRACE) w2) \<noteq> None" by (rule await_child_returns [OF c])
  then obtain a w3 where 3: "await_child 201 h (t + DRAIN_GRACE) w2 = (Some a, w3)"
    by (cases "await_child 201 h (t + DRAIN_GRACE) w2") auto
  show ?thesis
    by (simp add: drain_connector_def terminate_child_within_def 1 2 3 Let_def
        split: sum.split bool.split prod.split del: await_child.simps)
qed

section \<open>Witnesses\<close>

definition sample_respawn :: connector_trace where
  "sample_respawn = [(0, ChildExited, DReport EXITED_CODE), (250000000, Tick, DRespawn Quic)]"

lemma sample_respawn_run:
  "connector_run sample_respawn \<lparr>cs_state = CnStarting Quic, cs_respawns_used = 1\<rparr>"
proof -
  have "connector_run ([] @ [(0, ChildExited, DReport EXITED_CODE)]) \<lparr>cs_state = CnDown 250000000 Quic, cs_respawns_used = 0\<rparr>"
    by (rule connector_next [OF connector_start, where jitter = None])
      (simp_all add: child_exited_def supervision_new_def plan_respawn_def connector_reconnect_delay_def
        MAX_SIDECAR_RESPAWNS_def u64_max_def saturating_add_u64_def from_millis_def Let_def)
  from connector_next [OF this, where jitter = None and now = 250000000 and input = Tick]
  show ?thesis by (simp add: sample_respawn_def connector_tick_def)
qed

theorem connector_respawn_budget_witness:
  "connector_run sample_respawn \<lparr>cs_state = CnStarting Quic, cs_respawns_used = 1\<rparr>
   \<and> respawns sample_respawn = [Quic] \<and> 1 \<le> losses sample_respawn"
  using connector_respawn_budget [OF sample_respawn_run] sample_respawn_run by auto

definition sample_orphan :: connector_trace where
  "sample_orphan = [(0, Observe (EvRegistered 0 ''c'' ''l'' Quic), DReport REGISTERED_CODE), (1, Observe (EvUnregistered 0), DNone)]"

lemma sample_orphan_run:
  "connector_run (sample_orphan @ [(30000000001, Tick, DReportAndStop UNREGISTERED_CODE)])
     \<lparr>cs_state = CnDown 30250000001 Quic, cs_respawns_used = 0\<rparr>"
proof -
  have "connector_run ([] @ [(0, Observe (EvRegistered 0 ''c'' ''l'' Quic), DReport REGISTERED_CODE)])
      \<lparr>cs_state = CnRegistered Quic ''c'' ''l'' {0} None, cs_respawns_used = 0\<rparr>"
    by (rule connector_next [OF connector_start, where jitter = None])
      (simp_all add: observe_def observe_live_def on_registered_def supervision_new_def)
  from connector_next [OF this, where jitter = None and now = 1 and input = "Observe (EvUnregistered 0)"]
  have "connector_run sample_orphan \<lparr>cs_state = CnRegistered Quic ''c'' ''l'' {} (Some 1), cs_respawns_used = 0\<rparr>"
    by (simp add: sample_orphan_def observe_def observe_live_def on_unregistered_def)
  from connector_next [OF this, where jitter = None and now = 30000000001 and input = Tick]
  show ?thesis
    by (simp add: sample_orphan_def connector_tick_def plan_respawn_def connector_reconnect_delay_def
        REREGISTRATION_WINDOW_def MAX_SIDECAR_RESPAWNS_def u64_max_def saturating_add_u64_def from_millis_def from_secs_def Let_def)
qed

theorem connector_stopped_only_when_orphaned_witness:
  "connector_run (sample_orphan @ [(30000000001, Tick, DReportAndStop UNREGISTERED_CODE)])
     \<lparr>cs_state = CnDown 30250000001 Quic, cs_respawns_used = 0\<rparr>
   \<and> (\<exists>tr1 t k d tr2. sample_orphan = tr1 @ (t, Observe (EvUnregistered k), d) # tr2 \<and> t + from_secs 30 \<le> 30000000001)"
  using connector_stopped_only_when_orphaned [OF sample_orphan_run] sample_orphan_run by blast

definition sample_uuid :: string where "sample_uuid = ''01234567-0123-0123-0123-0123456789ab''"

theorem registered_line_roundtrip_witness:
  "connector_classify (registered_log ''2026-08-06T10:00:00Z'' ''INF''
     [(''connIndex'', show_nat 2), (''connection'', sample_uuid), (''location'', ''fra08''), (''protocol'', ''quic'')])
   = EvRegistered 2 sample_uuid ''fra08'' Quic"
proof (rule registered_line_roundtrip, goal_cases)
  case 5
  have "list_all is_ascii_graphic (show_nat 2)" by (simp add: show_nat.simps is_ascii_graphic_def)
  then show ?case by (simp add: log_word_def sample_uuid_def is_ascii_graphic_def)
qed (simp_all add: is_timestamp_def is_ascii_digit_def log_word_def is_ascii_graphic_def LOG_LEVELS_def sample_uuid_def
    is_uuid_def is_ascii_hexdigit_def is_lower_hex_digit_def location_ok_def MAX_LOCATION_BYTES_def
    is_ascii_alphanumeric_def is_ascii_lower_def is_ascii_upper_def)

end
