(* ===== verification/Health.thy ===== *)
theory Health
  imports Gateway
begin

text \<open>
  The device and workload summaries of the health reports: temperatures from sysfs (\<open>src/thermal.rs\<close>) and
  memory from procfs (\<open>src/memory.rs\<close>), with the sampler that both use. The file system and the clock are a
  record of functions on an arbitrary world; the sampler is a step relation of the caller and the reading thread
  over their two bounded channels.
\<close>

section \<open>Files\<close>

datatype read_error = NotFound | NoSuchProcess | OtherReadError

text \<open>A directory entry that cannot be read is \<open>None\<close>; one whose name is no UTF-8 has the name \<open>None\<close>.\<close>

record 'w files_host =
  fh_read :: "string \<Rightarrow> 'w \<Rightarrow> (read_error + bytes) \<times> 'w"
  fh_list :: "string \<Rightarrow> 'w \<Rightarrow> string option option list option \<times> 'w"
  fh_now :: "'w \<Rightarrow> nat \<times> 'w"

definition path_join :: "string \<Rightarrow> string \<Rightarrow> string" where
  "path_join dir name = dir @ ''/'' @ name"

definition read_bounded :: "'w files_host \<Rightarrow> string \<Rightarrow> nat \<Rightarrow> 'w \<Rightarrow> (read_error + string) \<times> 'w" where
  "read_bounded h path limit w =
     (case fh_read h path w of
        (Inl e, w) \<Rightarrow> (Inl e, w)
      | (Inr bs, w) \<Rightarrow> (ok_or (from_utf8 (take limit bs)) OtherReadError, w))"

definition i32_min :: int where "i32_min = - 2147483648"
definition i32_max :: int where "i32_max = 2147483647"

text \<open>\<open>i32::from_str\<close>: an optional sign, then at least one digit; a value out of range is an error.\<close>

definition parse_i32 :: "string \<Rightarrow> int option" where
  "parse_i32 s =
     (let (negative, digits) = (case s of
          [] \<Rightarrow> (False, [])
        | c # r \<Rightarrow> if c = CHR ''-'' then (True, r) else if c = CHR ''+'' then (False, r) else (False, s))
      in if digits = [] then None
         else (case digits_value 10 0 digits of
             None \<Rightarrow> None
           | Some n \<Rightarrow> let v = (if negative then - int n else int n)
               in if i32_min \<le> v \<and> v \<le> i32_max then Some v else None))"

definition json_i32 :: "int option \<Rightarrow> json" where
  "json_i32 v = (case v of
      None \<Rightarrow> JNull | Some n \<Rightarrow> JNum (if n < 0 then NegInt n else PosInt (nat n)))"

definition write_all_attrs :: "string list \<Rightarrow> json list \<Rightarrow> (string \<rightharpoonup> json) \<Rightarrow> (string \<rightharpoonup> json)" where
  "write_all_attrs keys values attrs = fold (\<lambda>(k, v) m. m(k \<mapsto> v)) (zip keys values) attrs"

section \<open>Temperatures\<close>

definition MAX_ZONES :: nat where "MAX_ZONES = 256"
definition MAX_ZONE_FILE_BYTES :: nat where "MAX_ZONE_FILE_BYTES = 64"
definition SENSOR_SENTINEL_CEILING :: int where "SENSOR_SENTINEL_CEILING = - 30000"
definition THERMAL_READ_BUDGET :: duration where "THERMAL_READ_BUDGET = from_millis 200"

definition THERMAL_SUMMARY_ATTRS :: "string list" where
  "THERMAL_SUMMARY_ATTRS =
     [''thermalCpuMaxMillic'', ''thermalGpuMaxMillic'', ''thermalBatteryMillic'', ''thermalSkinMaxMillic'',
      ''thermalPackageMillic'', ''thermalDdrMillic'', ''thermalChargerMillic'', ''thermalZoneCount'', ''thermalDeniedCount'']"

record thermal_summary =
  ts_cpu :: "int option"
  ts_gpu :: "int option"
  ts_battery :: "int option"
  ts_skin :: "int option"
  ts_package :: "int option"
  ts_ddr :: "int option"
  ts_charger :: "int option"
  ts_zone_count :: nat
  ts_denied_count :: nat

definition thermal_default :: thermal_summary where
  "thermal_default = \<lparr>ts_cpu = None, ts_gpu = None, ts_battery = None, ts_skin = None, ts_package = None, ts_ddr = None,
     ts_charger = None, ts_zone_count = 0, ts_denied_count = 0\<rparr>"

definition thermal_write_attrs :: "thermal_summary \<Rightarrow> (string \<rightharpoonup> json) \<Rightarrow> (string \<rightharpoonup> json)" where
  "thermal_write_attrs s = write_all_attrs THERMAL_SUMMARY_ATTRS
     [json_i32 (ts_cpu s), json_i32 (ts_gpu s), json_i32 (ts_battery s), json_i32 (ts_skin s), json_i32 (ts_package s),
      json_i32 (ts_ddr s), json_i32 (ts_charger s), json_u64 (ts_zone_count s), json_u64 (ts_denied_count s)]"

datatype zone = ZoneReadable string int | ZoneUnreadable | ZoneUnparsed

datatype thermal_group = Cpu | Gpu | Battery | QcomBattery | Skin | Package | Ddr | Charger

definition has_infix :: "string \<Rightarrow> string \<Rightarrow> bool" where
  "has_infix s pat \<longleftrightarrow> (\<exists>i \<in> set [0..<Suc (length s)]. take (length pat) (drop i s) = pat)"

definition begins :: "string \<Rightarrow> string \<Rightarrow> bool" where
  "begins s p \<longleftrightarrow> strip_prefix p s \<noteq> None"

definition thermal_group_of :: "string \<Rightarrow> thermal_group option" where
  "thermal_group_of kind =
     (if kind = ''vbat'' \<or> has_infix kind ''ibat'' \<or> has_infix kind ''bcl'' then None
      else if begins kind ''cpu-'' \<and> ends_with kind ''-usr'' then Some Cpu
      else if begins kind ''gpuss-'' \<and> ends_with kind ''-usr'' then Some Gpu
      else if kind = ''battery'' then Some Battery
      else if kind = ''qcom_battery'' then Some QcomBattery
      else if kind \<in> {''front_temp'', ''back_temp'', ''quiet_therm''} then Some Skin
      else if kind = ''msm_therm'' then Some Package
      else if kind = ''ddr-usr'' then Some Ddr
      else if kind = ''chg_therm'' then Some Charger
      else None)"

definition raise :: "int option \<Rightarrow> int \<Rightarrow> int option" where
  "raise slot millic = Some (case slot of None \<Rightarrow> millic | Some current \<Rightarrow> max current millic)"

fun raise_group :: "thermal_group \<Rightarrow> int \<Rightarrow> thermal_summary \<times> int option \<Rightarrow> thermal_summary \<times> int option" where
  "raise_group Cpu m (s, q) = (s\<lparr>ts_cpu := raise (ts_cpu s) m\<rparr>, q)"
| "raise_group Gpu m (s, q) = (s\<lparr>ts_gpu := raise (ts_gpu s) m\<rparr>, q)"
| "raise_group Battery m (s, q) = (s\<lparr>ts_battery := raise (ts_battery s) m\<rparr>, q)"
| "raise_group QcomBattery m (s, q) = (s, raise q m)"
| "raise_group Skin m (s, q) = (s\<lparr>ts_skin := raise (ts_skin s) m\<rparr>, q)"
| "raise_group Package m (s, q) = (s\<lparr>ts_package := raise (ts_package s) m\<rparr>, q)"
| "raise_group Ddr m (s, q) = (s\<lparr>ts_ddr := raise (ts_ddr s) m\<rparr>, q)"
| "raise_group Charger m (s, q) = (s\<lparr>ts_charger := raise (ts_charger s) m\<rparr>, q)"

fun summarize_zone :: "zone \<Rightarrow> thermal_summary \<times> int option \<Rightarrow> thermal_summary \<times> int option" where
  "summarize_zone ZoneUnreadable (s, q) = (s\<lparr>ts_denied_count := saturating_add_u32 (ts_denied_count s) 1\<rparr>, q)"
| "summarize_zone ZoneUnparsed (s, q) = (s, q)"
| "summarize_zone (ZoneReadable kind millic) (s, q) =
     (let s = s\<lparr>ts_zone_count := saturating_add_u32 (ts_zone_count s) 1\<rparr>
      in if millic \<le> SENSOR_SENTINEL_CEILING then (s, q)
         else (case thermal_group_of kind of Some g \<Rightarrow> raise_group g millic (s, q) | None \<Rightarrow> (s, q)))"

definition summarize :: "zone list \<Rightarrow> thermal_summary" where
  "summarize zones =
     (let (s, qcom_battery) = fold summarize_zone zones (thermal_default, None)
      in s\<lparr>ts_battery := (case ts_battery s of None \<Rightarrow> qcom_battery | Some v \<Rightarrow> Some v)\<rparr>)"

definition read_zone :: "'w files_host \<Rightarrow> string \<Rightarrow> 'w \<Rightarrow> zone \<times> 'w" where
  "read_zone h dir w =
     (let (kind, w) = read_bounded h (path_join dir ''type'') MAX_ZONE_FILE_BYTES w;
          (temp, w) = read_bounded h (path_join dir ''temp'') MAX_ZONE_FILE_BYTES w
      in (case (kind, temp) of
            (Inr kind, Inr temp) \<Rightarrow>
              (case parse_i32 (trim temp) of Some millic \<Rightarrow> ZoneReadable (trim kind) millic | None \<Rightarrow> ZoneUnparsed)
          | _ \<Rightarrow> ZoneUnreadable, w))"

fun read_zones :: "'w files_host \<Rightarrow> string list \<Rightarrow> 'w \<Rightarrow> zone list \<times> 'w" where
  "read_zones h [] w = ([], w)"
| "read_zones h (d # ds) w =
     (let (z, w) = read_zone h d w; (zs, w) = read_zones h ds w in (z # zs, w))"

text \<open>The walk over the entries of the class: the zone directories and how many entries could not be listed.\<close>

fun list_zones :: "string \<Rightarrow> string option option list \<Rightarrow> string list \<Rightarrow> nat \<Rightarrow> string list \<times> nat" where
  "list_zones root [] zones unlisted = (zones, unlisted)"
| "list_zones root (e # es) zones unlisted =
     (if length zones \<ge> MAX_ZONES then (zones, unlisted)
      else (case e of
          None \<Rightarrow> list_zones root es zones (saturating_add_u32 unlisted 1)
        | Some (Some name) \<Rightarrow>
            list_zones root es (if begins name ''thermal_zone'' then zones @ [path_join root name] else zones) unlisted
        | Some None \<Rightarrow> list_zones root es zones unlisted))"

definition thermal_read_summary :: "'w files_host \<Rightarrow> string \<Rightarrow> 'w \<Rightarrow> thermal_summary option \<times> 'w" where
  "thermal_read_summary h root w =
     (case fh_list h root w of
        (None, w) \<Rightarrow> (None, w)
      | (Some entries, w) \<Rightarrow>
          let (dirs, unlisted) = list_zones root entries [] 0;
              (zones, w) = read_zones h dirs w;
              s = summarize zones
          in (Some (s\<lparr>ts_denied_count := saturating_add_u32 (ts_denied_count s) unlisted\<rparr>), w))"

section \<open>Memory\<close>

definition MEMORY_READ_BUDGET :: duration where "MEMORY_READ_BUDGET = from_millis 50"
definition WALK_BUDGET :: duration where "WALK_BUDGET = from_millis 40"
definition MAX_PROCESSES :: nat where "MAX_PROCESSES = 256"
definition MAX_MEMINFO_BYTES :: nat where "MAX_MEMINFO_BYTES = 16 * 1024"
definition MAX_STATUS_BYTES :: nat where "MAX_STATUS_BYTES = 4 * 1024"

definition MEMORY_SUMMARY_ATTRS :: "string list" where
  "MEMORY_SUMMARY_ATTRS =
     [''memTotalKib'', ''memAvailableKib'', ''swapTotalKib'', ''swapFreeKib'', ''workloadRssKib'', ''workloadRssPeakKib'',
      ''memDeniedCount'']"

record memory_summary =
  ms_mem_total :: "int option"
  ms_mem_available :: "int option"
  ms_swap_total :: "int option"
  ms_swap_free :: "int option"
  ms_workload_rss :: "int option"
  ms_workload_rss_peak :: "int option"
  ms_denied_count :: nat

definition memory_default :: memory_summary where
  "memory_default = \<lparr>ms_mem_total = None, ms_mem_available = None, ms_swap_total = None, ms_swap_free = None,
     ms_workload_rss = None, ms_workload_rss_peak = None, ms_denied_count = 0\<rparr>"

definition memory_unread :: memory_summary where
  "memory_unread = memory_default\<lparr>ms_denied_count := 1\<rparr>"

definition memory_write_attrs :: "memory_summary \<Rightarrow> (string \<rightharpoonup> json) \<Rightarrow> (string \<rightharpoonup> json)" where
  "memory_write_attrs s = write_all_attrs MEMORY_SUMMARY_ATTRS
     [json_i32 (ms_mem_total s), json_i32 (ms_mem_available s), json_i32 (ms_swap_total s), json_i32 (ms_swap_free s),
      json_i32 (ms_workload_rss s), json_i32 (ms_workload_rss_peak s), json_u64 (ms_denied_count s)]"

definition deny :: "memory_summary \<Rightarrow> memory_summary" where
  "deny s = s\<lparr>ms_denied_count := saturating_add_u32 (ms_denied_count s) 1\<rparr>"

record workload =
  wl_root :: nat
  wl_supervisor :: nat

definition find_line :: "string \<Rightarrow> string \<Rightarrow> string option" where
  "find_line contents name =
     (case List.map_filter (\<lambda>l. strip_prefix (name @ '':'') l) (lines contents) of [] \<Rightarrow> None | l # _ \<Rightarrow> Some l)"

definition kib_line :: "string \<Rightarrow> string \<Rightarrow> nat option" where
  "kib_line contents name =
     (case find_line contents name of
        None \<Rightarrow> None
      | Some l \<Rightarrow>
          (case split_whitespace l of
             [] \<Rightarrow> None
           | v # rest \<Rightarrow>
               (case from_str_radix u64_max 10 v of
                  None \<Rightarrow> None | Some n \<Rightarrow> if rest = [''kB''] then Some n else None)))"

definition int_line :: "string \<Rightarrow> string \<Rightarrow> nat option" where
  "int_line contents name =
     (case find_line contents name of
        None \<Rightarrow> None
      | Some l \<Rightarrow> (case split_whitespace l of [] \<Rightarrow> None | v # _ \<Rightarrow> from_str_radix u32_max 10 v))"

definition wire_kib :: "nat option \<Rightarrow> memory_summary \<Rightarrow> int option \<times> memory_summary" where
  "wire_kib value s =
     (case value of
        Some n \<Rightarrow> if int n \<le> i32_max then (Some (int n), s) else (None, deny s)
      | None \<Rightarrow> (None, deny s))"

definition read_device :: "'w files_host \<Rightarrow> string \<Rightarrow> memory_summary \<Rightarrow> 'w \<Rightarrow> memory_summary \<times> 'w" where
  "read_device h proc_root s w =
     (case read_bounded h (path_join proc_root ''meminfo'') MAX_MEMINFO_BYTES w of
        (Inl _, w) \<Rightarrow> (deny s, w)
      | (Inr meminfo, w) \<Rightarrow>
          let (v, s) = wire_kib (kib_line meminfo ''MemTotal'') s; s = s\<lparr>ms_mem_total := v\<rparr>;
              (v, s) = wire_kib (kib_line meminfo ''MemAvailable'') s; s = s\<lparr>ms_mem_available := v\<rparr>;
              (v, s) = wire_kib (kib_line meminfo ''SwapTotal'') s; s = s\<lparr>ms_swap_total := v\<rparr>;
              (v, s) = wire_kib (kib_line meminfo ''SwapFree'') s; s = s\<lparr>ms_swap_free := v\<rparr>
          in (s, w))"

record process =
  pr_parent :: "nat option"
  pr_group :: "nat option"
  pr_rss :: "nat option"
  pr_peak :: "nat option"

datatype status_read = StatusRead process | StatusGone | StatusDenied

definition read_status :: "'w files_host \<Rightarrow> string \<Rightarrow> 'w \<Rightarrow> status_read \<times> 'w" where
  "read_status h dir w =
     (case read_bounded h (path_join dir ''status'') MAX_STATUS_BYTES w of
        (Inr status, w) \<Rightarrow>
          (StatusRead \<lparr>pr_parent = int_line status ''PPid'', pr_group = int_line status ''NSpgid'',
             pr_rss = kib_line status ''VmRSS'', pr_peak = kib_line status ''VmHWM''\<rparr>, w)
      | (Inl e, w) \<Rightarrow> (if e = NotFound \<or> e = NoSuchProcess then StatusGone else StatusDenied, w))"

text \<open>A \<open>BTreeMap\<close> from process numbers to processes is an association list in increasing order of its keys.\<close>

type_synonym processes = "(nat \<times> process) list"

datatype walk = WalkProcesses processes | WalkOverBudget | WalkUnlisted

text \<open>The numeric entries of the directory but the supervisor; \<open>None\<close> when there are too many.\<close>

fun list_pids ::
  "nat \<Rightarrow> string option option list \<Rightarrow> nat list \<Rightarrow> memory_summary \<Rightarrow> nat list option \<times> memory_summary" where
  "list_pids supervisor [] pids s = (Some pids, s)"
| "list_pids supervisor (e # es) pids s =
     (case e of
        None \<Rightarrow> list_pids supervisor es pids (deny s)
      | Some name \<Rightarrow>
          (case Option.bind name (from_str_radix u32_max 10) of
             None \<Rightarrow> list_pids supervisor es pids s
           | Some pid \<Rightarrow>
               if pid = supervisor then list_pids supervisor es pids s
               else if length pids = MAX_PROCESSES then (None, s)
               else list_pids supervisor es (pids @ [pid]) s))"

fun digits_of :: "nat \<Rightarrow> nat \<Rightarrow> string" where
  "digits_of 0 n = []"
| "digits_of (Suc k) n = (if n < 10 then [char_of (48 + n)] else digits_of k (n div 10) @ [char_of (48 + n mod 10)])"

text \<open>\<open>u32::to_string\<close>: at most ten digits.\<close>

definition pid_text :: "nat \<Rightarrow> string" where "pid_text n = digits_of 10 n"

definition insert_process :: "nat \<Rightarrow> process \<Rightarrow> processes \<Rightarrow> processes" where
  "insert_process pid p ps = insort_key fst (pid, p) (filter (\<lambda>(q, _). q \<noteq> pid) ps)"

fun read_pids ::
  "'w files_host \<Rightarrow> string \<Rightarrow> nat \<Rightarrow> nat list \<Rightarrow> processes \<Rightarrow> memory_summary \<Rightarrow> 'w \<Rightarrow> walk \<times> memory_summary \<times> 'w" where
  "read_pids h proc_root deadline [] ps s w = (WalkProcesses ps, s, w)"
| "read_pids h proc_root deadline (pid # pids) ps s w =
     (let (t, w) = fh_now h w
      in if t \<ge> deadline then (WalkOverBudget, s, w)
         else (case read_status h (path_join proc_root (pid_text pid)) w of
             (StatusRead p, w) \<Rightarrow> read_pids h proc_root deadline pids (insert_process pid p ps) s w
           | (StatusGone, w) \<Rightarrow> read_pids h proc_root deadline pids ps s w
           | (StatusDenied, w) \<Rightarrow> read_pids h proc_root deadline pids ps (deny s) w))"

definition walk_processes ::
  "'w files_host \<Rightarrow> string \<Rightarrow> nat \<Rightarrow> nat \<Rightarrow> memory_summary \<Rightarrow> 'w \<Rightarrow> walk \<times> memory_summary \<times> 'w" where
  "walk_processes h proc_root supervisor deadline s w =
     (case fh_list h proc_root w of
        (None, w) \<Rightarrow> (WalkUnlisted, s, w)
      | (Some entries, w) \<Rightarrow>
          (case list_pids supervisor entries [] s of
             (None, s) \<Rightarrow> (WalkOverBudget, s, w)
           | (Some pids, s) \<Rightarrow> read_pids h proc_root deadline pids [] s w))"

definition tree_seed :: "processes \<Rightarrow> nat \<Rightarrow> nat set" where
  "tree_seed ps root = set (map fst (filter (\<lambda>(pid, p). pid = root \<or> pr_group p = Some root) ps))"

definition tree_descendants :: "processes \<Rightarrow> nat set \<Rightarrow> nat list" where
  "tree_descendants ps members = map fst (filter (\<lambda>(pid, p). pid \<notin> members
     \<and> (case pr_parent p of None \<Rightarrow> False | Some ppid \<Rightarrow> ppid \<in> members)) ps)"

lemma tree_descendants_fresh:
  assumes "card (members \<union> set (tree_descendants ps members)) \<noteq> card members"
  shows "length (filter (\<lambda>(pid, _). pid \<notin> members \<union> set (tree_descendants ps members)) ps)
    < length (filter (\<lambda>(pid, _). pid \<notin> members) ps)"
proof -
  have "set (tree_descendants ps members) \<noteq> {}" using assms by (metis Un_empty_right)
  then obtain pid where d: "pid \<in> set (tree_descendants ps members)" by (metis all_not_in_conv)
  then obtain p where p: "(pid, p) \<in> set ps" and "pid \<notin> members" unfolding tree_descendants_def by auto
  have mono: "length (filter Q xs) \<le> length (filter R xs)" if "\<And>x. Q x \<Longrightarrow> R x" for Q R and xs :: processes
    using that by (induction xs) (auto simp: le_SucI)
  have "length (filter Q ps) < length (filter R ps)" if "\<And>x. Q x \<Longrightarrow> R x" "\<not> Q (pid, p)" "R (pid, p)" for Q R
    using that p
  proof (induction ps)
    case (Cons x xs)
    then show ?case using mono [of Q R xs] by (auto simp: less_Suc_eq_le le_SucI)
  qed simp
  from this [of "\<lambda>(pid, _). pid \<notin> members \<union> set (tree_descendants ps members)" "\<lambda>(pid, _). pid \<notin> members"]
  show ?thesis using d \<open>pid \<notin> members\<close> by auto
qed

function tree_loop :: "processes \<Rightarrow> nat set \<Rightarrow> nat set" where
  "tree_loop ps members =
     (let members' = members \<union> set (tree_descendants ps members)
      in if card members' = card members then members' else tree_loop ps members')"
  by pat_completeness auto
termination
  by (relation "measure (\<lambda>(ps, members). length (filter (\<lambda>(pid, _). pid \<notin> members) ps))")
    (use tree_descendants_fresh in auto)

declare tree_loop.simps [simp del]

definition tree :: "processes \<Rightarrow> nat \<Rightarrow> nat set" where
  "tree ps root = tree_loop ps (tree_seed ps root)"

text \<open>The sum and the maximum over the members, taken in increasing order.\<close>

definition sum_members :: "processes \<Rightarrow> nat set \<Rightarrow> nat \<times> nat option" where
  "sum_members ps members = fold (\<lambda>(pid, p) (rss, peak).
       (saturating_add_u64 rss (case pr_rss p of None \<Rightarrow> 0 | Some n \<Rightarrow> n),
        case pr_peak p of
          None \<Rightarrow> peak
        | Some hwm \<Rightarrow> Some (case peak of None \<Rightarrow> hwm | Some current \<Rightarrow> max current hwm)))
     (filter (\<lambda>(pid, _). pid \<in> members) ps) (0, None)"

definition read_workload :: "'w files_host \<Rightarrow> string \<Rightarrow> workload \<Rightarrow> nat \<Rightarrow> memory_summary \<Rightarrow> 'w \<Rightarrow> memory_summary \<times> 'w" where
  "read_workload h proc_root wl deadline s w =
     (case walk_processes h proc_root (wl_supervisor wl) deadline s w of
        (WalkProcesses ps, s, w) \<Rightarrow>
          (case map_of ps (wl_root wl) of
             None \<Rightarrow> (s, w)
           | Some root \<Rightarrow>
               if pr_rss root = None then (s, w)
               else let (rss, peak) = sum_members ps (tree ps (wl_root wl));
                        (v, s) = wire_kib (Some rss) s; s = s\<lparr>ms_workload_rss := v\<rparr>;
                        (v, s) = wire_kib peak s; s = s\<lparr>ms_workload_rss_peak := v\<rparr>
                    in (s, w))
      | (_, s, w) \<Rightarrow> (deny s, w))"

definition read_summary_by :: "'w files_host \<Rightarrow> string \<Rightarrow> workload option \<Rightarrow> nat \<Rightarrow> 'w \<Rightarrow> memory_summary \<times> 'w" where
  "read_summary_by h proc_root wl deadline w =
     (let (s, w) = read_device h proc_root memory_default w
      in case wl of None \<Rightarrow> (s, w) | Some wl \<Rightarrow> read_workload h proc_root wl deadline s w)"

definition memory_read_summary :: "'w files_host \<Rightarrow> string \<Rightarrow> workload option \<Rightarrow> 'w \<Rightarrow> memory_summary \<times> 'w" where
  "memory_read_summary h proc_root wl w =
     (let (t, w) = fh_now h w in read_summary_by h proc_root wl (t + WALK_BUDGET) w)"

section \<open>The sampler\<close>

text \<open>
  The caller and the reading thread share a channel of requests and one of replies, each of capacity one. The
  thread takes a request, reads, and sends the reply when there is room; it may die at any time. \<open>answers q r\<close>
  says that \<open>r\<close> is a reading made for the request \<open>q\<close>.
\<close>

record ('q, 'r) channels =
  cn_requests :: "'q list"
  cn_working :: "'q option"
  cn_replies :: "'r list"
  cn_alive :: bool

definition channels_new :: "('q, 'r) channels" where
  "channels_new = \<lparr>cn_requests = [], cn_working = None, cn_replies = [], cn_alive = True\<rparr>"

inductive thread_step :: "('q \<Rightarrow> 'r \<Rightarrow> bool) \<Rightarrow> ('q, 'r) channels \<Rightarrow> ('q, 'r) channels \<Rightarrow> bool" for answers where
  take_request: "cn_alive c \<Longrightarrow> cn_working c = None \<Longrightarrow> cn_requests c = q # qs
    \<Longrightarrow> thread_step answers c (c\<lparr>cn_requests := qs, cn_working := Some q\<rparr>)"
| send_reply: "cn_alive c \<Longrightarrow> cn_working c = Some q \<Longrightarrow> cn_replies c = [] \<Longrightarrow> answers q r
    \<Longrightarrow> thread_step answers c (c\<lparr>cn_replies := [r], cn_working := None\<rparr>)"
| thread_dies: "cn_alive c \<Longrightarrow> thread_step answers c (c\<lparr>cn_requests := [], cn_working := None, cn_alive := False\<rparr>)"

datatype 'r received = Received 'r | ChannelEmpty | ChannelDisconnected

definition try_recv :: "('q, 'r) channels \<Rightarrow> 'r received \<times> ('q, 'r) channels" where
  "try_recv c = (case cn_replies c of
      r # rs \<Rightarrow> (Received r, c\<lparr>cn_replies := rs\<rparr>)
    | [] \<Rightarrow> (if cn_alive c then ChannelEmpty else ChannelDisconnected, c))"

datatype sent = SendOk | SendFull | SendDisconnected

definition try_send :: "'q \<Rightarrow> ('q, 'r) channels \<Rightarrow> sent \<times> ('q, 'r) channels" where
  "try_send q c =
     (if \<not> cn_alive c then (SendDisconnected, c)
      else if cn_requests c \<noteq> [] then (SendFull, c)
      else (SendOk, c\<lparr>cn_requests := [q]\<rparr>))"

text \<open>
  The three parts of \<open>Worker::sample_within\<close>, between which the thread may step: dropping a late reply, sending the
  request, and the end of the wait for the reply. A part that ends the call gives its result, whether the worker
  is still usable, and the flag \<open>outstanding\<close>.
\<close>

definition sample_begin :: "bool \<Rightarrow> ('q, 'r) channels \<Rightarrow> ('r option \<times> bool \<times> bool) option \<times> ('q, 'r) channels" where
  "sample_begin outstanding c =
     (if outstanding
      then (case try_recv c of
          (Received _, c) \<Rightarrow> (None, c)
        | (ChannelEmpty, c) \<Rightarrow> (Some (None, True, True), c)
        | (ChannelDisconnected, c) \<Rightarrow> (Some (None, False, True), c))
      else (None, c))"

definition sample_request :: "'q \<Rightarrow> ('q, 'r) channels \<Rightarrow> ('r option \<times> bool \<times> bool) option \<times> ('q, 'r) channels" where
  "sample_request q c =
     (case try_send q c of
        (SendOk, c) \<Rightarrow> (None, c)
      | (SendFull, c) \<Rightarrow> (Some (None, True, False), c)
      | (SendDisconnected, c) \<Rightarrow> (Some (None, False, False), c))"

definition sample_finish :: "('q, 'r) channels \<Rightarrow> ('r option \<times> bool \<times> bool) \<times> ('q, 'r) channels" where
  "sample_finish c =
     (case try_recv c of
        (Received r, c) \<Rightarrow> ((Some r, True, False), c)
      | (ChannelEmpty, c) \<Rightarrow> ((None, True, True), c)
      | (ChannelDisconnected, c) \<Rightarrow> ((None, False, False), c))"

inductive worker_sample ::
  "('q \<Rightarrow> 'r \<Rightarrow> bool) \<Rightarrow> 'q \<Rightarrow> bool \<times> ('q, 'r) channels \<Rightarrow> 'r option \<times> bool \<Rightarrow> bool \<times> ('q, 'r) channels \<Rightarrow> bool"
  for answers q where
  not_begun: "sample_begin out c = (Some (r, usable, out'), c') \<Longrightarrow> worker_sample answers q (out, c) (r, usable) (out', c')"
| not_sent: "sample_begin out c = (None, c1) \<Longrightarrow> (thread_step answers)\<^sup>*\<^sup>* c1 c2 \<Longrightarrow> sample_request q c2 = (Some (r, usable, out'), c')
    \<Longrightarrow> worker_sample answers q (out, c) (r, usable) (out', c')"
| waited: "sample_begin out c = (None, c1) \<Longrightarrow> (thread_step answers)\<^sup>*\<^sup>* c1 c2 \<Longrightarrow> sample_request q c2 = (None, c3)
    \<Longrightarrow> (thread_step answers)\<^sup>*\<^sup>* c3 c4 \<Longrightarrow> sample_finish c4 = ((r, usable, out'), c')
    \<Longrightarrow> worker_sample answers q (out, c) (r, usable) (out', c')"

text \<open>The life of a sampler: the thread runs between the calls, and a worker that is no longer usable is dropped.\<close>

inductive sampler_reach :: "('q \<Rightarrow> 'r \<Rightarrow> bool) \<Rightarrow> (bool \<times> ('q, 'r) channels) option \<Rightarrow> bool" for answers where
  sampler_not_started: "sampler_reach answers None"
| sampler_started: "sampler_reach answers (Some (False, channels_new))"
| sampler_idle: "sampler_reach answers (Some (out, c)) \<Longrightarrow> thread_step answers c c' \<Longrightarrow> sampler_reach answers (Some (out, c'))"
| sampler_called: "sampler_reach answers (Some w) \<Longrightarrow> worker_sample answers q w (r, usable) w'
    \<Longrightarrow> sampler_reach answers (if usable then Some w' else None)"

text \<open>What \<open>ThermalSampler\<close> and \<open>MemorySampler\<close> return for the result of their worker, if they have one.\<close>

definition thermal_sampled :: "thermal_summary option option \<Rightarrow> thermal_summary option" where
  "thermal_sampled r = (case r of None \<Rightarrow> None | Some s \<Rightarrow> s)"

definition memory_sampled :: "memory_summary option \<Rightarrow> memory_summary" where
  "memory_sampled r = (case r of None \<Rightarrow> memory_unread | Some s \<Rightarrow> s)"

end
