(* ===== verification/HealthProofs.thy ===== *)
theory HealthProofs
  imports Health Soap
begin

text \<open>
  Correctness of the health summaries: the process tree is the set reached by parent links, the summaries are the
  maxima and sums of their specification, and the sampler keeps at most one reading in flight and never returns
  a late one.
\<close>

section \<open>The process tree\<close>

definition child_of :: "processes \<Rightarrow> (nat \<times> nat) set" where
  "child_of ps = {(ppid, pid). \<exists>p. (pid, p) \<in> set ps \<and> pr_parent p = Some ppid}"

lemma tree_descendants_iff:
  "pid \<in> set (tree_descendants ps m) \<longleftrightarrow> pid \<notin> m \<and> (\<exists>ppid \<in> m. (ppid, pid) \<in> child_of ps)"
  by (force simp: tree_descendants_def child_of_def split: option.splits)

lemma tree_loop_reach:
  assumes "finite m"
  shows "tree_loop ps m = (child_of ps)\<^sup>* `` m"
  using assms
proof (induction ps m rule: tree_loop.induct)
  case (1 ps m)
  let ?d = "set (tree_descendants ps m)"
  have d: "?d = (child_of ps `` m) - m" by (auto simp: tree_descendants_iff)
  show ?case
  proof (cases "card (m \<union> ?d) = card m")
    case True
    then have "m = m \<union> ?d" using 1(2) by (intro card_subset_eq) auto
    then have "?d \<subseteq> m" by blast
    then have "child_of ps `` m \<subseteq> m" using d by blast
    then have "(child_of ps)\<^sup>* `` m = m" by (rule Image_closed_trancl)
    then show ?thesis using True \<open>?d \<subseteq> m\<close> by (subst tree_loop.simps) (auto simp: Let_def)
  next
    case False
    then have "tree_loop ps m = (child_of ps)\<^sup>* `` (m \<union> ?d)" using 1 by (subst tree_loop.simps) (simp add: Let_def)
    also have "\<dots> = (child_of ps)\<^sup>* `` m" unfolding d by (auto intro: converse_rtrancl_into_rtrancl)
    finally show ?thesis .
  qed
qed

definition customer_tree :: "processes \<Rightarrow> nat \<Rightarrow> nat set" where
  "customer_tree ps root =
     {pid. \<exists>m p. (m, p) \<in> set ps \<and> (m = root \<or> pr_group p = Some root) \<and> (m, pid) \<in> (child_of ps)\<^sup>*}"

lemma tree_reach: "tree ps root = customer_tree ps root"
proof -
  have "tree_seed ps root = {m. \<exists>p. (m, p) \<in> set ps \<and> (m = root \<or> pr_group p = Some root)}"
    unfolding tree_seed_def by (auto simp: image_iff)
  moreover have "finite (tree_seed ps root)" unfolding tree_seed_def by (rule finite_set)
  ultimately show ?thesis unfolding tree_def customer_tree_def by (subst tree_loop_reach) (auto simp: Image_iff)
qed

section \<open>The sampler\<close>

definition in_flight :: "('q, 'r) channels \<Rightarrow> nat" where
  "in_flight c = length (cn_requests c) + (case cn_working c of None \<Rightarrow> 0 | Some _ \<Rightarrow> 1) + length (cn_replies c)"

text \<open>Everything in flight belongs to the request \<open>q\<close>.\<close>

definition belongs :: "('q \<Rightarrow> 'r \<Rightarrow> bool) \<Rightarrow> 'q \<Rightarrow> ('q, 'r) channels \<Rightarrow> bool" where
  "belongs answers q c \<longleftrightarrow> in_flight c \<le> 1 \<and> set (cn_requests c) \<subseteq> {q} \<and> cn_working c \<in> {None, Some q}
     \<and> (\<forall>r \<in> set (cn_replies c). answers q r)"

lemma thread_step_in_flight: "thread_step answers c c' \<Longrightarrow> in_flight c' \<le> in_flight c"
  by (induction rule: thread_step.induct) (auto simp: in_flight_def)

lemma thread_steps_in_flight: "(thread_step answers)\<^sup>*\<^sup>* c c' \<Longrightarrow> in_flight c' \<le> in_flight c"
  by (induction rule: rtranclp_induct) (auto dest: thread_step_in_flight)

lemma thread_step_belongs: "thread_step answers c c' \<Longrightarrow> belongs answers q c \<Longrightarrow> belongs answers q c'"
  by (induction rule: thread_step.induct) (auto simp: belongs_def in_flight_def)

lemma thread_steps_belong: "(thread_step answers)\<^sup>*\<^sup>* c c' \<Longrightarrow> belongs answers q c \<Longrightarrow> belongs answers q c'"
  by (induction rule: rtranclp_induct) (auto dest: thread_step_belongs)

definition worker_inv :: "bool \<times> ('q, 'r) channels \<Rightarrow> bool" where
  "worker_inv w \<longleftrightarrow> in_flight (snd w) \<le> (if fst w then 1 else 0)"

lemma sample_begin_inv:
  assumes "worker_inv (out, c)" "sample_begin out c = (k, c1)"
  shows "case k of None \<Rightarrow> in_flight c1 = 0 | Some (r, u, out') \<Rightarrow> r = None \<and> worker_inv (out', c1)"
  using assms by (auto simp: sample_begin_def worker_inv_def try_recv_def in_flight_def split: if_splits list.splits)

lemma sample_request_inv:
  assumes "in_flight c = 0" "sample_request q c = (k, c1)"
  shows "case k of None \<Rightarrow> belongs answers q c1 | Some (r, u, out') \<Rightarrow> r = None \<and> worker_inv (out', c1)"
  using assms by (auto simp: sample_request_def worker_inv_def try_send_def in_flight_def belongs_def split: if_splits option.splits)

lemma sample_finish_inv:
  assumes "belongs answers q c" "sample_finish c = ((r, u, out'), c1)"
  shows "(case r of None \<Rightarrow> True | Some v \<Rightarrow> answers q v) \<and> (u \<longrightarrow> worker_inv (out', c1))"
  using assms by (auto simp: sample_finish_def worker_inv_def try_recv_def in_flight_def belongs_def split: if_splits option.splits list.splits)

lemma worker_sample_inv:
  assumes "worker_sample answers q w (r, u) w'" "worker_inv w"
  shows "(case r of None \<Rightarrow> True | Some v \<Rightarrow> answers q v) \<and> (u \<longrightarrow> worker_inv w')"
  using assms
proof (cases rule: worker_sample.cases)
  case (not_begun out c out' c')
  then show ?thesis using sample_begin_inv [of out c "Some (r, u, out')" c'] assms(2) by auto
next
  case (not_sent out c c1 c2 out' c')
  then have "in_flight c2 = 0" using sample_begin_inv [of out c None c1] assms(2) thread_steps_in_flight [of answers c1 c2] by auto
  then show ?thesis using sample_request_inv [of c2 q "Some (r, u, out')" c' answers] not_sent by simp
next
  case (waited out c c1 c2 c3 c4 out' c')
  then have "in_flight c2 = 0" using sample_begin_inv [of out c None c1] assms(2) thread_steps_in_flight [of answers c1 c2] by auto
  then have "belongs answers q c3" using sample_request_inv [of c2 q None c3 answers] waited by simp
  then have "belongs answers q c4" using thread_steps_belong [OF waited(6)] by simp
  then show ?thesis using sample_finish_inv [of answers q c4 r u out' c'] waited by simp
qed

lemma sampler_reach_inv: "sampler_reach answers w \<Longrightarrow> w = Some v \<Longrightarrow> worker_inv v"
proof (induction arbitrary: v rule: sampler_reach.induct)
  case sampler_started
  then show ?case by (auto simp: worker_inv_def in_flight_def channels_new_def)
next
  case (sampler_idle out c c')
  then show ?case using thread_step_in_flight [OF sampler_idle.hyps(2)] sampler_idle.IH [of "(out, c)"]
    by (auto simp: worker_inv_def split: if_splits)
next
  case (sampler_called w q r usable w')
  then show ?case using worker_sample_inv [of answers q w r usable w'] by (simp split: if_splits)
qed simp

text \<open>
  C12.  The samplers behind the health reports never mix up readings: however the reading thread is scheduled, hangs
  or dies, at most one reading is in flight, and a summary a call returns is a reading made for that call's own
  request, never the late reply to an earlier one.
\<close>

theorem sample_is_fresh:
  assumes "sampler_reach answers (Some (out, c))"
  shows "in_flight c \<le> 1 \<and> (\<forall>q r u w'. worker_sample answers q (out, c) (Some r, u) w' \<longrightarrow> answers q r)"
proof -
  have i: "worker_inv (out, c)" using sampler_reach_inv [OF assms] by simp
  have "answers q r" if "worker_sample answers q (out, c) (Some r, u) w'" for q r u w'
    using worker_sample_inv [OF that i] by simp
  then show ?thesis using i by (auto simp: worker_inv_def split: if_splits)
qed

section \<open>Maxima and sums\<close>

text \<open>The largest value of a finite set, if it has one.\<close>

definition greatest :: "'a :: linorder set \<Rightarrow> 'a option" where
  "greatest A = (if A = {} then None else Some (Max A))"

lemma greatest_insert: "finite A \<Longrightarrow> greatest (insert x A) = Some (case greatest A of None \<Rightarrow> x | Some y \<Rightarrow> max y x)"
  by (auto simp: greatest_def max.commute)

lemma raise_greatest: "finite A \<Longrightarrow> raise (greatest A) x = greatest (insert x A)"
  by (simp add: raise_def greatest_insert)

section \<open>The thermal summary\<close>

fun slot :: "thermal_group \<Rightarrow> thermal_summary \<times> int option \<Rightarrow> int option" where
  "slot Cpu (s, q) = ts_cpu s"
| "slot Gpu (s, q) = ts_gpu s"
| "slot Battery (s, q) = ts_battery s"
| "slot QcomBattery (s, q) = q"
| "slot Skin (s, q) = ts_skin s"
| "slot Package (s, q) = ts_package s"
| "slot Ddr (s, q) = ts_ddr s"
| "slot Charger (s, q) = ts_charger s"

definition readings :: "thermal_group \<Rightarrow> zone list \<Rightarrow> int set" where
  "readings g zones = {m. m > SENSOR_SENTINEL_CEILING \<and> (\<exists>kind. ZoneReadable kind m \<in> set zones \<and> thermal_group_of kind = Some g)}"

lemma finite_readings [simp]: "finite (readings g zones)"
proof -
  have "readings g zones \<subseteq> (\<lambda>z. case z of ZoneReadable _ m \<Rightarrow> m | _ \<Rightarrow> 0) ` set zones" by (force simp: readings_def)
  then show ?thesis by (rule finite_subset) simp
qed

lemma slot_raise: "slot g (raise_group g' m x) = (if g = g' then raise (slot g x) m else slot g x)"
  by (cases x; cases g; cases g') simp_all

lemma slot_counts [simp]:
  "slot g (s\<lparr>ts_zone_count := n\<rparr>, q) = slot g (s, q)" "slot g (s\<lparr>ts_denied_count := n\<rparr>, q) = slot g (s, q)"
  by (cases g; simp)+

lemma raise_group_counts [simp]:
  "ts_zone_count (fst (raise_group g m (s, q))) = ts_zone_count s" "ts_denied_count (fst (raise_group g m (s, q))) = ts_denied_count s"
  by (cases g; simp)+

lemma slot_zone: "slot g (summarize_zone z x) =
    (case z of ZoneReadable kind m \<Rightarrow> if m > SENSOR_SENTINEL_CEILING \<and> thermal_group_of kind = Some g then raise (slot g x) m else slot g x
     | _ \<Rightarrow> slot g x)"
  by (cases x; cases z) (auto simp: Let_def slot_raise split: option.splits)

lemma slot_fold: "slot g (fold summarize_zone zones (thermal_default, None)) = greatest (readings g zones)"
proof (induction zones rule: rev_induct)
  case Nil
  show ?case by (cases g) (simp_all add: thermal_default_def readings_def greatest_def)
next
  case (snoc z zones)
  have "readings g (zones @ [z]) = (case z of
      ZoneReadable kind m \<Rightarrow> if m > SENSOR_SENTINEL_CEILING \<and> thermal_group_of kind = Some g then insert m (readings g zones) else readings g zones
    | _ \<Rightarrow> readings g zones)" by (auto simp: readings_def split: zone.splits)
  then show ?case using snoc by (simp add: slot_zone raise_greatest split: zone.split)
qed

lemma counts_fold:
  "ts_zone_count (fst (fold summarize_zone zones (thermal_default, None)))
     = min (length (filter (\<lambda>z. \<exists>kind m. z = ZoneReadable kind m) zones)) u32_max"
  "ts_denied_count (fst (fold summarize_zone zones (thermal_default, None)))
     = min (length (filter (\<lambda>z. z = ZoneUnreadable) zones)) u32_max"
proof -
  have "ts_zone_count (fst (summarize_zone z x)) = (if \<exists>kind m. z = ZoneReadable kind m then min (ts_zone_count (fst x) + 1) u32_max else ts_zone_count (fst x))
      \<and> ts_denied_count (fst (summarize_zone z x)) = (if z = ZoneUnreadable then min (ts_denied_count (fst x) + 1) u32_max else ts_denied_count (fst x))"
    for z x by (cases x; cases z) (auto simp: Let_def saturating_add_u32_def split: option.splits)
  then show "ts_zone_count (fst (fold summarize_zone zones (thermal_default, None)))
       = min (length (filter (\<lambda>z. \<exists>kind m. z = ZoneReadable kind m) zones)) u32_max"
    "ts_denied_count (fst (fold summarize_zone zones (thermal_default, None)))
       = min (length (filter (\<lambda>z. z = ZoneUnreadable) zones)) u32_max"
    by (induction zones rule: rev_induct) (auto simp: thermal_default_def min_def)
qed

text \<open>
  C14.  The temperature a health report carries for each group of sensors is the greatest reading of its zones, with
  sentinels of disconnected sensors left out and no value, never zero, for a group without one; the battery falls
  back on the second battery sensor; the counts are the readable and the unreadable zones.
\<close>

theorem summarize_spec:
  "summarize zones = \<lparr>ts_cpu = greatest (readings Cpu zones), ts_gpu = greatest (readings Gpu zones),
     ts_battery = (if readings Battery zones = {} then greatest (readings QcomBattery zones) else greatest (readings Battery zones)),
     ts_skin = greatest (readings Skin zones), ts_package = greatest (readings Package zones), ts_ddr = greatest (readings Ddr zones),
     ts_charger = greatest (readings Charger zones),
     ts_zone_count = min (length (filter (\<lambda>z. \<exists>kind m. z = ZoneReadable kind m) zones)) u32_max,
     ts_denied_count = min (length (filter (\<lambda>z. z = ZoneUnreadable) zones)) u32_max\<rparr>"
proof -
  obtain s q where f: "fold summarize_zone zones (thermal_default, None) = (s, q)" by (metis surj_pair)
  note sl = slot_fold [of _ zones, unfolded f]
  show ?thesis
    using sl [of Cpu] sl [of Gpu] sl [of Battery] sl [of QcomBattery] sl [of Skin] sl [of Package] sl [of Ddr] sl [of Charger]
      counts_fold [of zones, unfolded f]
    by (cases s) (simp add: summarize_def f, simp add: greatest_def)
qed

section \<open>The memory of the workload\<close>

lemma insert_process_keys:
  "distinct (map fst ps) \<Longrightarrow> distinct (map fst (insert_process pid p ps))"
proof -
  assume d: "distinct (map fst ps)"
  have "distinct (map fst (insort_key fst x xs)) \<longleftrightarrow> fst x \<notin> fst ` set xs \<and> distinct (map fst xs)" for x :: "nat \<times> process" and xs
    by (induction xs) (auto simp: set_insort_key)
  moreover have "distinct (map fst (filter (\<lambda>(q, _). q \<noteq> pid) ps))" using d by (rule distinct_map_filter)
  ultimately show ?thesis by (auto simp: insert_process_def)
qed

lemma read_pids_keys:
  "read_pids h r d pids ps s w = (WalkProcesses ps', s', w') \<Longrightarrow> distinct (map fst ps) \<Longrightarrow> distinct (map fst ps')"
proof (induction pids arbitrary: ps s w)
  case (Cons pid pids)
  then show ?case by (auto simp: Let_def insert_process_keys split: prod.splits if_splits status_read.splits)
qed simp

lemma walk_keys: "walk_processes h r super d s w = (WalkProcesses ps, s', w') \<Longrightarrow> distinct (map fst ps)"
  using read_pids_keys by (fastforce simp: walk_processes_def split: prod.splits option.splits)

definition rss_of :: "process \<Rightarrow> nat" where
  "rss_of p = (case pr_rss p of None \<Rightarrow> 0 | Some n \<Rightarrow> n)"

lemma sum_members_fold:
  "sum_members ps m = (min (\<Sum>x \<leftarrow> filter (\<lambda>(pid, _). pid \<in> m) ps. rss_of (snd x)) u64_max,
     greatest {n. \<exists>x \<in> set (filter (\<lambda>(pid, _). pid \<in> m) ps). pr_peak (snd x) = Some n})"
proof -
  have fin: "finite {n. \<exists>x \<in> set xs. pr_peak (snd x) = Some n}" for xs :: processes
    by (rule finite_subset [of _ "(\<lambda>x. the (pr_peak (snd x))) ` set xs"]) force+
  have "fold (\<lambda>(pid, p) (rss, peak).
         (saturating_add_u64 rss (case pr_rss p of None \<Rightarrow> 0 | Some n \<Rightarrow> n),
          case pr_peak p of None \<Rightarrow> peak
          | Some hwm \<Rightarrow> Some (case peak of None \<Rightarrow> hwm | Some current \<Rightarrow> max current hwm))) xs (0, None)
      = (min (\<Sum>x \<leftarrow> xs. rss_of (snd x)) u64_max, greatest {n. \<exists>x \<in> set xs. pr_peak (snd x) = Some n})" for xs :: processes
  proof (induction xs rule: rev_induct)
    case Nil
    show ?case by (simp add: greatest_def)
  next
    case (snoc x xs)
    have "{n. \<exists>y \<in> set (xs @ [x]). pr_peak (snd y) = Some n}
        = (case pr_peak (snd x) of None \<Rightarrow> {n. \<exists>y \<in> set xs. pr_peak (snd y) = Some n}
           | Some n \<Rightarrow> insert n {n. \<exists>y \<in> set xs. pr_peak (snd y) = Some n})" by (auto split: option.splits)
    then show ?case using snoc fin [of xs]
      by (cases x) (auto simp: greatest_insert saturating_add_u64_def rss_of_def split: option.splits)
  qed
  then show ?thesis unfolding sum_members_def .
qed

definition wired :: "nat option \<Rightarrow> int option" where
  "wired v = (case v of Some n \<Rightarrow> if int n \<le> i32_max then Some (int n) else None | None \<Rightarrow> None)"

lemma wire_kib_wired: "fst (wire_kib v s) = wired v"
  "snd (wire_kib v s) = (if wired v = None then deny s else s)"
  by (auto simp: wire_kib_def wired_def split: option.splits)

text \<open>
  C13.  The workload memory of a health report is that of the customer's process tree: when the walk has listed the
  processes and the customer's process is alive, the resident size is the sum over exactly the processes reached
  from it or from a member of its process group by parent links, the peak is their greatest peak, and a value that
  does not fit the wire is left out and counted, never clamped.
\<close>

theorem workload_memory_is_tree:
  assumes walk: "walk_processes h proc_root (wl_supervisor wl) deadline s w = (WalkProcesses ps, s1, w1)"
    and root: "map_of ps (wl_root wl) = Some p" "pr_rss p \<noteq> None"
  defines "members \<equiv> {x \<in> set ps. fst x \<in> customer_tree ps (wl_root wl)}"
  defines "rss \<equiv> wired (Some (\<Sum>x \<in> members. rss_of (snd x)))"
    and "peak \<equiv> wired (greatest {n. \<exists>x \<in> members. pr_peak (snd x) = Some n})"
  shows "read_workload h proc_root wl deadline s w =
    (((if peak = None then deny else id) ((if rss = None then deny else id) s1))\<lparr>ms_workload_rss := rss, ms_workload_rss_peak := peak\<rparr>, w1)"
proof -
  let ?f = "filter (\<lambda>(pid, _). pid \<in> tree ps (wl_root wl)) ps"
  have d: "distinct ?f" using walk_keys [OF walk] by (simp add: distinct_map)
  have m: "set ?f = members" by (auto simp: members_def tree_reach)
  have sum: "(\<Sum>x \<leftarrow> ?f. rss_of (snd x)) = (\<Sum>x \<in> members. rss_of (snd x))"
    using sum_list_distinct_conv_sum_set [OF d, of "\<lambda>x. rss_of (snd x)"] m by simp
  have "wired (Some (min n u64_max)) = wired (Some n)" for n by (auto simp: wired_def i32_max_def u64_max_def)
  then have r: "wired (Some (fst (sum_members ps (tree ps (wl_root wl))))) = rss"
      "wired (snd (sum_members ps (tree ps (wl_root wl)))) = peak"
    unfolding sum_members_fold sum m rss_def peak_def by simp_all
  obtain a b where ab: "sum_members ps (tree ps (wl_root wl)) = (a, b)" by (metis surj_pair)
  have c: "wire_kib (Some a) t = (rss, if rss = None then deny t else t)" "wire_kib b t = (peak, if peak = None then deny t else t)" for t
    using wire_kib_wired r ab by (simp_all add: prod_eq_iff)
  obtain n where n: "pr_rss p = Some n" using root(2) by auto
  show ?thesis
    using walk root(1) n by (simp add: read_workload_def ab c Let_def deny_def)
qed

section \<open>Witnesses\<close>

lemma sample_thread:
  "(thread_step (=))\<^sup>*\<^sup>* \<lparr>cn_requests = [1 :: nat], cn_working = None, cn_replies = [], cn_alive = True\<rparr>
     \<lparr>cn_requests = [], cn_working = None, cn_replies = [1], cn_alive = True\<rparr>"
proof -
  have "thread_step (=) \<lparr>cn_requests = [1 :: nat], cn_working = None, cn_replies = [], cn_alive = True\<rparr>
      \<lparr>cn_requests = [], cn_working = Some 1, cn_replies = [], cn_alive = True\<rparr>"
    using take_request [of "\<lparr>cn_requests = [1 :: nat], cn_working = None, cn_replies = [], cn_alive = True\<rparr>" 1 "[]" "(=)"] by simp
  moreover have "thread_step (=) \<lparr>cn_requests = [], cn_working = Some (1 :: nat), cn_replies = [], cn_alive = True\<rparr>
      \<lparr>cn_requests = [], cn_working = None, cn_replies = [1], cn_alive = True\<rparr>"
    using send_reply [of "\<lparr>cn_requests = [], cn_working = Some (1 :: nat), cn_replies = [], cn_alive = True\<rparr>" 1 "(=)" 1] by simp
  ultimately show ?thesis by (meson converse_rtranclp_into_rtranclp r_into_rtranclp)
qed

theorem sample_is_fresh_witness:
  "sampler_reach (=) (Some (False, channels_new :: (nat, nat) channels))
   \<and> worker_sample (=) (1 :: nat) (False, channels_new) (Some 1, True) (False, channels_new)
   \<and> \<not> (\<exists>u w'. worker_sample (=) (1 :: nat) (False, channels_new) (Some 2, u) w')"
proof -
  have "worker_sample (=) (1 :: nat) (False, channels_new) (Some 1, True) (False, channels_new)"
  proof (rule waited [OF _ rtranclp.rtrancl_refl _ sample_thread])
    show "sample_begin False channels_new = (None, channels_new :: (nat, nat) channels)" by (simp add: sample_begin_def)
    show "sample_request 1 (channels_new :: (nat, nat) channels)
        = (None, \<lparr>cn_requests = [1], cn_working = None, cn_replies = [], cn_alive = True\<rparr>)"
      by (simp add: sample_request_def try_send_def channels_new_def)
    show "sample_finish \<lparr>cn_requests = [], cn_working = None, cn_replies = [1], cn_alive = True\<rparr>
        = ((Some 1, True, False), channels_new :: (nat, nat) channels)"
      by (simp add: sample_finish_def try_recv_def channels_new_def)
  qed
  moreover have "False" if "worker_sample (=) (1 :: nat) (False, channels_new) (Some 2, u) w'" for u w'
    using sample_is_fresh [OF sampler_started, of "(=) :: nat \<Rightarrow> nat \<Rightarrow> bool", THEN conjunct2, rule_format, OF that] by simp
  ultimately show ?thesis using sampler_started by blast
qed

definition sample_proc :: "unit files_host" where
  "sample_proc = \<lparr>fh_read = (\<lambda>path w. (Inr (as_bytes ''VmRSS: 10 kB''), w)), fh_list = (\<lambda>path w. (Some [Some (Some ''7'')], w)),
     fh_now = (\<lambda>w. (0, w))\<rparr>"

lemma sample_contents: "from_utf8 (take MAX_STATUS_BYTES (as_bytes ''VmRSS: 10 kB'')) = Some ''VmRSS: 10 kB''"
proof -
  have "take MAX_STATUS_BYTES (as_bytes ''VmRSS: 10 kB'') = as_bytes ''VmRSS: 10 kB''"
    by (simp add: MAX_STATUS_BYTES_def as_bytes_def)
  then show ?thesis using from_utf8_as_bytes [of "''VmRSS: 10 kB''"] by simp
qed

lemma sample_lines:
  "kib_line ''VmRSS: 10 kB'' ''VmRSS'' = Some 10" "kib_line ''VmRSS: 10 kB'' ''VmHWM'' = None"
  "int_line ''VmRSS: 10 kB'' ''PPid'' = None" "int_line ''VmRSS: 10 kB'' ''NSpgid'' = None"
  by (simp_all add: int_line_def kib_line_def find_line_def lines_def map_filter_def split_whitespace_def ws_width_def
      from_str_radix_def digit_value_def is_ascii_digit_def u64_max_def)

lemma sample_walk:
  "walk_processes sample_proc ''/proc'' 1 5 memory_default ()
     = (WalkProcesses [(7, \<lparr>pr_parent = None, pr_group = None, pr_rss = Some 10, pr_peak = None\<rparr>)], memory_default, ())"
  by (simp add: walk_processes_def sample_proc_def from_str_radix_def digit_value_def is_ascii_digit_def u32_max_def MAX_PROCESSES_def
      read_status_def read_bounded_def sample_contents sample_lines ok_or_def insert_process_def)

theorem workload_memory_is_tree_witness:
  "ms_workload_rss (fst (read_workload sample_proc ''/proc'' \<lparr>wl_root = 7, wl_supervisor = 1\<rparr> 5 memory_default ())) = Some 10"
proof -
  have "{x. x = (7, \<lparr>pr_parent = None, pr_group = None, pr_rss = Some 10, pr_peak = None\<rparr>)
      \<and> fst x \<in> customer_tree [(7, \<lparr>pr_parent = None, pr_group = None, pr_rss = Some 10, pr_peak = None\<rparr>)] 7}
    = {(7, \<lparr>pr_parent = None, pr_group = None, pr_rss = Some 10, pr_peak = None\<rparr>)}"
    by (auto simp: customer_tree_def)
  then show ?thesis
    using workload_memory_is_tree [of sample_proc "''/proc''" "\<lparr>wl_root = 7, wl_supervisor = 1\<rparr>" 5 memory_default "()"] sample_walk
    by (simp add: wired_def rss_of_def i32_max_def)
qed

end
