(* ===== verification/Snapshot.thy ===== *)
theory Snapshot
  imports Externals
begin

text \<open>
  The state snapshot format (\<open>src/state_snapshot.rs\<close>): sealed chunks, the signed and hash-chained manifest, the
  writer that cuts a byte stream into chunk objects and the reader that opens and verifies them in order. The
  cryptography and the content-defined chunking are third-party crates and stand as functions in a record; the
  archive that the stream carries (the tar crate over the source directory) is a sequence of written buffers on
  the writer's side and a consumer of bytes on the reader's. Arrays of the code are byte lists, whose lengths
  \<open>manifest_typed\<close> states.
\<close>

section \<open>Errors\<close>

datatype chunk_error = ChunkTruncated nat | UnsupportedChunkVersion byte | ChunkDecrypt | ChunkIdMismatch

datatype manifest_error =
    ManifestMalformed string
  | SizeMismatch nat nat
  | SignerMismatch
  | ManifestBadSignature
  | CrossLineage string
  | SequenceNotAdvanced nat nat
  | SequenceGap nat nat
  | ManifestFork

datatype snapshot_error =
    ChunkFailed chunk_error
  | ManifestFailed manifest_error
  | SnapshotIo string
  | ObjectConflict string
  | MissingChunk string
  | ObjectLength string nat nat
  | ChunkTooLarge string
  | ArchiveInvalid
  | SignerUnavailable
  | SnapshotRandomness

section \<open>Chunks\<close>

record snapshot_crates =
  sc_crates :: crates
  sc_hkdf_32 :: "bytes \<Rightarrow> bytes \<Rightarrow> bytes \<Rightarrow> bytes"
  sc_gcm_seal :: "bytes \<Rightarrow> bytes \<Rightarrow> bytes \<Rightarrow> bytes \<Rightarrow> bytes \<times> bytes"
  sc_gcm_open :: "bytes \<Rightarrow> bytes \<Rightarrow> bytes \<Rightarrow> bytes \<Rightarrow> bytes option"
  sc_ed25519_verify :: "bytes \<Rightarrow> bytes \<Rightarrow> bytes \<Rightarrow> bool"
  sc_fastcdc_cut :: "bytes \<Rightarrow> nat"

definition CHUNK_FORMAT_VERSION :: byte where "CHUNK_FORMAT_VERSION = 1"
definition CHUNK_NONCE_LEN :: nat where "CHUNK_NONCE_LEN = 12"
definition CHUNK_TAG_LEN :: nat where "CHUNK_TAG_LEN = 16"
definition CHUNK_OVERHEAD :: nat where "CHUNK_OVERHEAD = 1 + CHUNK_NONCE_LEN + CHUNK_TAG_LEN"
definition CHUNK_MAX_BYTES :: nat where "CHUNK_MAX_BYTES = 4 * 1024 * 1024"
definition MAX_CHUNK_PLAINTEXT_BYTES :: nat where "MAX_CHUNK_PLAINTEXT_BYTES = 16 * 1024 * 1024"
definition CHUNK_KEY_INFO :: bytes where "CHUNK_KEY_INFO = as_bytes ''liskov-state-chunk-key-v1''"
definition CHUNK_ID_KEY_INFO :: bytes where "CHUNK_ID_KEY_INFO = as_bytes ''liskov-state-chunk-id-v1''"
definition CHUNK_AAD_DOMAIN :: bytes where "CHUNK_AAD_DOMAIN = as_bytes ''liskov-state-chunk-v1''"

definition derive_chunk_key :: "snapshot_crates \<Rightarrow> bytes \<Rightarrow> string \<Rightarrow> bytes" where
  "derive_chunk_key sc dek lineage_id = sc_hkdf_32 sc (as_bytes lineage_id) dek CHUNK_KEY_INFO"

definition derive_chunk_id_key :: "snapshot_crates \<Rightarrow> bytes \<Rightarrow> string \<Rightarrow> bytes" where
  "derive_chunk_id_key sc dek lineage_id = sc_hkdf_32 sc (as_bytes lineage_id) dek CHUNK_ID_KEY_INFO"

record chunk_keys =
  ck_lineage_id :: string
  ck_seal :: bytes
  ck_id :: bytes

definition chunk_keys_new :: "snapshot_crates \<Rightarrow> bytes \<Rightarrow> string \<Rightarrow> chunk_keys" where
  "chunk_keys_new sc dek lineage_id =
     \<lparr>ck_lineage_id = lineage_id, ck_seal = derive_chunk_key sc dek lineage_id, ck_id = derive_chunk_id_key sc dek lineage_id\<rparr>"

definition keys_chunk_id :: "snapshot_crates \<Rightarrow> chunk_keys \<Rightarrow> bytes \<Rightarrow> bytes" where
  "keys_chunk_id sc k plaintext = hmac_sha256 (sc_crates sc) (ck_id k) plaintext"

definition chunk_aad :: "chunk_keys \<Rightarrow> bytes \<Rightarrow> bytes" where
  "chunk_aad k i = CHUNK_AAD_DOMAIN @ as_bytes (ck_lineage_id k) @ i"

record sealed_chunk =
  sl_chunk_id :: bytes
  sl_object :: bytes

definition keys_seal :: "snapshot_crates \<Rightarrow> chunk_keys \<Rightarrow> bytes \<Rightarrow> bytes \<Rightarrow> sealed_chunk" where
  "keys_seal sc k nonce plaintext =
     (let i = keys_chunk_id sc k plaintext;
          (body, tag) = sc_gcm_seal sc (ck_seal k) nonce (chunk_aad k i) plaintext
      in \<lparr>sl_chunk_id = i, sl_object = CHUNK_FORMAT_VERSION # nonce @ body @ tag\<rparr>)"

definition keys_open :: "snapshot_crates \<Rightarrow> chunk_keys \<Rightarrow> bytes \<Rightarrow> bytes \<Rightarrow> chunk_error + bytes" where
  "keys_open sc k expected_chunk_id object =
     (if length object < CHUNK_OVERHEAD then Inl (ChunkTruncated (length object))
      else if hd object \<noteq> CHUNK_FORMAT_VERSION then Inl (UnsupportedChunkVersion (hd object))
      else (let nonce = take CHUNK_NONCE_LEN (tl object); body = drop (1 + CHUNK_NONCE_LEN) object
            in case sc_gcm_open sc (ck_seal k) nonce (chunk_aad k expected_chunk_id) body of
                 None \<Rightarrow> Inl ChunkDecrypt
               | Some plaintext \<Rightarrow>
                   if hmac_sha256 (sc_crates sc) (ck_id k) plaintext = expected_chunk_id then Inr plaintext
                   else Inl ChunkIdMismatch))"

definition chunk_id :: "snapshot_crates \<Rightarrow> bytes \<Rightarrow> string \<Rightarrow> bytes \<Rightarrow> bytes" where
  "chunk_id sc dek lineage_id plaintext = keys_chunk_id sc (chunk_keys_new sc dek lineage_id) plaintext"

definition seal_chunk :: "snapshot_crates \<Rightarrow> bytes \<Rightarrow> string \<Rightarrow> bytes \<Rightarrow> bytes \<Rightarrow> sealed_chunk" where
  "seal_chunk sc dek lineage_id nonce plaintext = keys_seal sc (chunk_keys_new sc dek lineage_id) nonce plaintext"

definition open_chunk :: "snapshot_crates \<Rightarrow> bytes \<Rightarrow> string \<Rightarrow> bytes \<Rightarrow> bytes \<Rightarrow> chunk_error + bytes" where
  "open_chunk sc dek lineage_id expected_chunk_id object =
     keys_open sc (chunk_keys_new sc dek lineage_id) expected_chunk_id object"

section \<open>The manifest\<close>

definition MANIFEST_VERSION :: nat where "MANIFEST_VERSION = 1"
definition SIGNATURE_DOMAIN :: bytes where "SIGNATURE_DOMAIN = as_bytes ''liskov-state-manifest-v1''"
definition MAX_SAFE_INTEGER :: nat where "MAX_SAFE_INTEGER = 2 ^ 53 - 1"

datatype recipient_kind = Lockbox | RecipientJob | Customer | BrokerShare

fun recipient_kind_name :: "recipient_kind \<Rightarrow> string" where
  "recipient_kind_name Lockbox = ''lockbox''"
| "recipient_kind_name RecipientJob = ''job''"
| "recipient_kind_name Customer = ''customer''"
| "recipient_kind_name BrokerShare = ''broker_share''"

record grant_payload =
  gp_version :: string
  gp_curve_name :: string
  gp_sender_public_key :: bytes
  gp_salt :: bytes
  gp_ciphertext :: bytes

record wrapped_data_key =
  wk_recipient_kind :: recipient_kind
  wk_recipient_key_id :: string
  wk_dek_version :: nat
  wk_grant :: grant_payload

record manifest_chunk =
  mc_id :: bytes
  mc_plaintext_bytes :: nat
  mc_object_bytes :: nat

record manifest_writer =
  mw_job_id :: string
  mw_processor_id :: string
  mw_generation :: nat
  mw_signer_public_key :: bytes

record manifest =
  mf_v :: nat
  mf_org :: string
  mf_application :: string
  mf_lineage :: string
  mf_sequence :: nat
  mf_previous :: "bytes option"
  mf_writer :: manifest_writer
  mf_captured_at_ms :: nat
  mf_dek_version :: nat
  mf_plaintext_bytes :: nat
  mf_chunks :: "manifest_chunk list"
  mf_recipients :: "wrapped_data_key list"

record signed_manifest =
  sm_manifest :: manifest
  sm_signature :: bytes

definition manifest_typed :: "manifest \<Rightarrow> bool" where
  "manifest_typed m \<longleftrightarrow> (\<forall>d. mf_previous m = Some d \<longrightarrow> length d = 32) \<and> length (mw_signer_public_key (mf_writer m)) = 32
     \<and> (\<forall>c \<in> set (mf_chunks m). length (mc_id c) = 32)"

definition lower_hex32 :: "crates \<Rightarrow> string \<Rightarrow> bytes option" where
  "lower_hex32 cr text =
     (if length text \<noteq> 64 \<or> \<not> list_all is_lower_hex_digit text then None
      else (case hex_decode cr text of None \<Rightarrow> None | Some bs \<Rightarrow> if length bs = 32 then Some bs else None))"

fun check_texts :: "(string \<times> string) list \<Rightarrow> manifest_error + unit" where
  "check_texts [] = Inr ()"
| "check_texts ((field, v) # r) = (if v = [] then Inl (ManifestMalformed field) else check_texts r)"

fun check_numbers :: "(string \<times> nat) list \<Rightarrow> manifest_error + unit" where
  "check_numbers [] = Inr ()"
| "check_numbers ((field, v) # r) = (if v > MAX_SAFE_INTEGER then Inl (ManifestMalformed field) else check_numbers r)"

fun check_chunks :: "nat \<Rightarrow> manifest_chunk list \<Rightarrow> manifest_error + nat" where
  "check_chunks chunk_sum [] = Inr chunk_sum"
| "check_chunks chunk_sum (c # r) =
     (if mc_plaintext_bytes c > MAX_SAFE_INTEGER then Inl (ManifestMalformed ''chunks[].plaintextBytes'')
      else if mc_object_bytes c > MAX_SAFE_INTEGER then Inl (ManifestMalformed ''chunks[].objectBytes'')
      else (case checked_add_u64 chunk_sum (mc_plaintext_bytes c) of
          None \<Rightarrow> Inl (ManifestMalformed ''chunks[].plaintextBytes'')
        | Some n \<Rightarrow> check_chunks n r))"

fun check_recipients :: "crates \<Rightarrow> nat \<Rightarrow> wrapped_data_key list \<Rightarrow> manifest_error + unit" where
  "check_recipients cr dek_version [] = Inr ()"
| "check_recipients cr dek_version (k # r) =
     (if wk_dek_version k \<noteq> dek_version then Inl (ManifestMalformed ''recipients[].dekVersion'')
      else if lower_hex32 cr (wk_recipient_key_id k) = None then Inl (ManifestMalformed ''recipients[].recipientKeyId'')
      else check_recipients cr dek_version r)"

definition check_well_formed :: "crates \<Rightarrow> manifest \<Rightarrow> manifest_error + unit" where
  "check_well_formed cr m =
     (if mf_v m \<noteq> MANIFEST_VERSION then Inl (ManifestMalformed ''v'')
      else res_bind (check_texts [(''org'', mf_org m), (''application'', mf_application m), (''lineage'', mf_lineage m),
          (''writer.jobId'', mw_job_id (mf_writer m)), (''writer.processorId'', mw_processor_id (mf_writer m))]) (\<lambda>_.
        if mf_sequence m = 0 then Inl (ManifestMalformed ''sequence'')
        else if (mf_sequence m = 1) \<noteq> (mf_previous m = None) then Inl (ManifestMalformed ''previousManifestDigest'')
        else res_bind (check_numbers [(''sequence'', mf_sequence m), (''writer.generation'', mw_generation (mf_writer m)),
            (''capturedAtMs'', mf_captured_at_ms m), (''dekVersion'', mf_dek_version m), (''plaintextBytes'', mf_plaintext_bytes m)]) (\<lambda>_.
          res_bind (check_chunks 0 (mf_chunks m)) (\<lambda>chunk_sum.
          res_bind (check_recipients cr (mf_dek_version m) (mf_recipients m)) (\<lambda>_.
            if chunk_sum \<noteq> mf_plaintext_bytes m then Inl (SizeMismatch (mf_plaintext_bytes m) chunk_sum) else Inr ())))))"

text \<open>The encoder: its parts in order, the first error ending it.\<close>

type_synonym encoded = "manifest_error + bytes"

definition enc_u64 :: "nat \<Rightarrow> encoded" where "enc_u64 v = Inr (be_bytes 8 v)"
definition enc_raw :: "bytes \<Rightarrow> encoded" where "enc_raw bs = Inr bs"

definition enc_count :: "nat \<Rightarrow> encoded" where
  "enc_count len = (if len > u32_max then Inl (ManifestMalformed ''length'') else Inr (be_bytes 4 len))"

definition enc_bytes :: "bytes \<Rightarrow> encoded" where
  "enc_bytes bs = res_bind (enc_count (length bs)) (\<lambda>c. Inr (c @ bs))"

definition enc_str :: "string \<Rightarrow> encoded" where
  "enc_str s = enc_bytes (as_bytes s)"

fun enc_all :: "encoded list \<Rightarrow> encoded" where
  "enc_all [] = Inr []"
| "enc_all (p # ps) = res_bind p (\<lambda>b. res_bind (enc_all ps) (\<lambda>r. Inr (b @ r)))"

definition enc_previous :: "bytes option \<Rightarrow> encoded" where
  "enc_previous p = (case p of None \<Rightarrow> Inr [0] | Some d \<Rightarrow> Inr (1 # d))"

definition enc_chunk :: "manifest_chunk \<Rightarrow> encoded" where
  "enc_chunk c = enc_all [enc_raw (mc_id c), enc_u64 (mc_plaintext_bytes c), enc_u64 (mc_object_bytes c)]"

definition enc_recipient :: "crates \<Rightarrow> wrapped_data_key \<Rightarrow> encoded" where
  "enc_recipient cr k = enc_all
     [enc_str (recipient_kind_name (wk_recipient_kind k)),
      ok_or (lower_hex32 cr (wk_recipient_key_id k)) (ManifestMalformed ''recipients[].recipientKeyId''),
      enc_u64 (wk_dek_version k), enc_str (gp_version (wk_grant k)), enc_str (gp_curve_name (wk_grant k)),
      enc_bytes (gp_sender_public_key (wk_grant k)), enc_bytes (gp_salt (wk_grant k)), enc_bytes (gp_ciphertext (wk_grant k))]"

definition manifest_canonical_bytes :: "crates \<Rightarrow> manifest \<Rightarrow> encoded" where
  "manifest_canonical_bytes cr m = res_bind (check_well_formed cr m) (\<lambda>_. enc_all
     ([enc_u64 (mf_v m), enc_str (mf_org m), enc_str (mf_application m), enc_str (mf_lineage m), enc_u64 (mf_sequence m),
       enc_previous (mf_previous m), enc_str (mw_job_id (mf_writer m)), enc_str (mw_processor_id (mf_writer m)),
       enc_u64 (mw_generation (mf_writer m)), enc_raw (mw_signer_public_key (mf_writer m)), enc_u64 (mf_captured_at_ms m),
       enc_u64 (mf_dek_version m), enc_u64 (mf_plaintext_bytes m), enc_count (length (mf_chunks m))]
      @ map enc_chunk (mf_chunks m) @ [enc_count (length (mf_recipients m))] @ map (enc_recipient cr) (mf_recipients m)))"

definition manifest_digest :: "crates \<Rightarrow> manifest \<Rightarrow> encoded" where
  "manifest_digest cr m = res_bind (manifest_canonical_bytes cr m) (\<lambda>b. Inr (sha256_digest cr b))"

definition signed_message :: "bytes \<Rightarrow> bytes" where
  "signed_message d = SIGNATURE_DOMAIN @ d"

definition verify_digest :: "snapshot_crates \<Rightarrow> bytes \<Rightarrow> bytes \<Rightarrow> bytes \<Rightarrow> manifest_error + unit" where
  "verify_digest sc d sig signer =
     (if sc_ed25519_verify sc signer (signed_message d) sig then Inr () else Inl ManifestBadSignature)"

record state_signer =
  ss_public_key :: bytes
  ss_sign_ed25519 :: "bytes \<Rightarrow> bytes option"

definition sign_manifest :: "snapshot_crates \<Rightarrow> manifest \<Rightarrow> state_signer \<Rightarrow> snapshot_error + bytes" where
  "sign_manifest sc m signer =
     res_bind (map_err ManifestFailed (manifest_digest (sc_crates sc) m)) (\<lambda>d.
       if ss_public_key signer \<noteq> mw_signer_public_key (mf_writer m) then Inl (ManifestFailed SignerMismatch)
       else res_bind (ok_or (ss_sign_ed25519 signer (signed_message d)) SignerUnavailable) (\<lambda>sig.
         res_bind (map_err ManifestFailed (verify_digest sc d sig (mw_signer_public_key (mf_writer m)))) (\<lambda>_. Inr sig)))"

definition verify_signature :: "snapshot_crates \<Rightarrow> manifest \<Rightarrow> bytes \<Rightarrow> bytes \<Rightarrow> manifest_error + bytes" where
  "verify_signature sc m sig trusted_signer =
     res_bind (manifest_digest (sc_crates sc) m) (\<lambda>d.
       if mw_signer_public_key (mf_writer m) \<noteq> trusted_signer then Inl SignerMismatch
       else res_bind (verify_digest sc d sig trusted_signer) (\<lambda>_. Inr d))"

fun check_lineage :: "(string \<times> string \<times> string) list \<Rightarrow> manifest_error + unit" where
  "check_lineage [] = Inr ()"
| "check_lineage ((field, was, is) # r) = (if was \<noteq> is then Inl (CrossLineage field) else check_lineage r)"

definition verify_successor :: "crates \<Rightarrow> manifest \<Rightarrow> manifest \<Rightarrow> manifest_error + unit" where
  "verify_successor cr previous following =
     res_bind (manifest_digest cr previous) (\<lambda>previous_digest.
     res_bind (check_well_formed cr following) (\<lambda>_.
     res_bind (check_lineage [(''org'', mf_org previous, mf_org following),
         (''application'', mf_application previous, mf_application following),
         (''lineage'', mf_lineage previous, mf_lineage following)]) (\<lambda>_.
       if mf_sequence following \<le> mf_sequence previous
       then Inl (SequenceNotAdvanced (mf_sequence previous) (mf_sequence following))
       else if mf_sequence following \<noteq> mf_sequence previous + 1
       then Inl (SequenceGap (mf_sequence previous) (mf_sequence following))
       else if mf_previous following \<noteq> Some previous_digest then Inl ManifestFork
       else Inr ())))"

section \<open>The object directory\<close>

datatype opened_node = OpensNothing | OpensFailing | OpensBytes bytes

datatype object_node = ObjectFile bytes | ObjectDirectory | ObjectSpecial opened_node

text \<open>
  An entry is a regular file, a directory, or a symbolic link or device with what opening it, links followed, gives.
  Every access may fail: the state counts them, and the environment says which fail and what the random source
  delivers at each.
\<close>

record object_dir =
  od_nodes :: "string \<Rightarrow> object_node option"
  od_calls :: nat

record object_env =
  oe_fails :: "nat \<Rightarrow> bool"
  oe_random :: "nat \<Rightarrow> nat \<Rightarrow> bytes option"
  oe_partial :: "nat \<Rightarrow> nat"

type_synonym 'a object_run = "object_dir \<Rightarrow> (snapshot_error + 'a) \<times> object_dir"

definition object_call :: "object_env \<Rightarrow> object_dir \<Rightarrow> bool \<times> object_dir" where
  "object_call env d = (oe_fails env (od_calls d), d\<lparr>od_calls := od_calls d + 1\<rparr>)"

definition fill_random :: "object_env \<Rightarrow> nat \<Rightarrow> bytes object_run" where
  "fill_random env n d =
     (ok_or (map_option (fill_buffer n) (oe_random env (od_calls d) n)) SnapshotRandomness, d\<lparr>od_calls := od_calls d + 1\<rparr>)"

definition set_object :: "string \<Rightarrow> object_node option \<Rightarrow> object_dir \<Rightarrow> object_dir" where
  "set_object name v d = d\<lparr>od_nodes := (od_nodes d)(name := v)\<rparr>"

definition random_suffix :: "crates \<Rightarrow> object_env \<Rightarrow> string object_run" where
  "random_suffix cr env d =
     (case fill_random env 8 d of (Inl e, d) \<Rightarrow> (Inl e, d) | (Inr bs, d) \<Rightarrow> (Inr (hex_encode cr bs), d))"

text \<open>Removing the temporary file after a failure; whether this succeeds is ignored.\<close>

definition drop_temporary :: "object_env \<Rightarrow> string \<Rightarrow> object_dir \<Rightarrow> (snapshot_error + unit) \<times> object_dir" where
  "drop_temporary env temporary d =
     (let (failed, d) = object_call env d
      in (Inl (SnapshotIo ''object write''), if failed then d else set_object temporary None d))"

definition write_object :: "crates \<Rightarrow> object_env \<Rightarrow> string \<Rightarrow> bytes \<Rightarrow> unit object_run" where
  "write_object cr env name object d =
     (case random_suffix cr env d of
        (Inl e, d) \<Rightarrow> (Inl e, d)
      | (Inr suffix, d) \<Rightarrow>
          let temporary = ''.'' @ name @ ''.'' @ suffix @ ''.tmp''; (failed, d) = object_call env d
          in if failed \<or> od_nodes d temporary \<noteq> None then drop_temporary env temporary d
             else let k = od_calls d; (failed, d) = object_call env d
             in if failed then drop_temporary env temporary (set_object temporary (Some (ObjectFile (take (oe_partial env k) object))) d)
             else let d = set_object temporary (Some (ObjectFile object)) d; (failed, d) = object_call env d
             in if failed then drop_temporary env temporary d
             else let (failed, d) = object_call env d
             in if failed \<or> od_nodes d name = Some ObjectDirectory then drop_temporary env temporary d
                else (Inr (), set_object name (Some (ObjectFile object)) (set_object temporary None d)))"

section \<open>Writing\<close>

record write_report =
  wr_chunks_written :: nat
  wr_chunks_reused :: nat

record chunk_sink =
  sk_keys :: chunk_keys
  sk_buffer :: bytes
  sk_chunks :: "manifest_chunk list"
  sk_report :: write_report

type_synonym sink_run = "chunk_sink \<Rightarrow> object_dir \<Rightarrow> (snapshot_error + unit) \<times> chunk_sink \<times> object_dir"

definition push_chunk :: "bytes \<Rightarrow> bytes \<Rightarrow> chunk_sink \<Rightarrow> chunk_sink" where
  "push_chunk i plaintext k = k\<lparr>sk_chunks := sk_chunks k @ [\<lparr>mc_id = i, mc_plaintext_bytes = length plaintext,
     mc_object_bytes = CHUNK_OVERHEAD + length plaintext\<rparr>]\<rparr>"

definition sink_store :: "snapshot_crates \<Rightarrow> object_env \<Rightarrow> bytes \<Rightarrow> sink_run" where
  "sink_store sc env plaintext k d =
     (let i = keys_chunk_id sc (sk_keys k) plaintext;
          name = hex_encode (sc_crates sc) i;
          object_bytes = CHUNK_OVERHEAD + length plaintext;
          (failed, d) = object_call env d
      in if failed then (Inl (SnapshotIo ''object lookup''), k, d)
         else (case od_nodes d name of
             Some (ObjectFile object) \<Rightarrow>
               if length object = object_bytes
               then (Inr (), push_chunk i plaintext (k\<lparr>sk_report := (sk_report k)\<lparr>wr_chunks_reused := wr_chunks_reused (sk_report k) + 1\<rparr>\<rparr>), d)
               else (Inl (ObjectConflict name), k, d)
           | Some _ \<Rightarrow> (Inl (ObjectConflict name), k, d)
           | None \<Rightarrow>
               (case fill_random env CHUNK_NONCE_LEN d of
                  (Inl e, d) \<Rightarrow> (Inl e, k, d)
                | (Inr nonce, d) \<Rightarrow>
                    (case write_object (sc_crates sc) env name (sl_object (keys_seal sc (sk_keys k) nonce plaintext)) d of
                       (Inl e, d) \<Rightarrow> (Inl e, k, d)
                     | (Inr _, d) \<Rightarrow>
                         (Inr (), push_chunk i plaintext
                            (k\<lparr>sk_report := (sk_report k)\<lparr>wr_chunks_written := wr_chunks_written (sk_report k) + 1\<rparr>\<rparr>), d)))))"

definition sink_cut_one :: "snapshot_crates \<Rightarrow> object_env \<Rightarrow> sink_run" where
  "sink_cut_one sc env k d =
     (let cut = sc_fastcdc_cut sc (sk_buffer k)
      in sink_store sc env (take cut (sk_buffer k)) (k\<lparr>sk_buffer := drop cut (sk_buffer k)\<rparr>) d)"

text \<open>
  The two cutting loops take fuel; a cut is at least one byte of a buffer that is not empty, so the length of the
  buffer is enough.
\<close>

fun sink_cut_while :: "nat \<Rightarrow> snapshot_crates \<Rightarrow> object_env \<Rightarrow> (bytes \<Rightarrow> bool) \<Rightarrow> sink_run" where
  "sink_cut_while fuel sc env again k d =
     (if \<not> again (sk_buffer k) then (Inr (), k, d)
      else (case fuel of
          0 \<Rightarrow> (Inl ArchiveInvalid, k, d)
        | Suc n \<Rightarrow>
            (case sink_cut_one sc env k d of
               (Inl e, k, d) \<Rightarrow> (Inl e, k, d)
             | (Inr _, k, d) \<Rightarrow> sink_cut_while n sc env again k d)))"

declare sink_cut_while.simps [simp del]

definition sink_write :: "snapshot_crates \<Rightarrow> object_env \<Rightarrow> bytes \<Rightarrow> sink_run" where
  "sink_write sc env buf k d =
     (let k = k\<lparr>sk_buffer := sk_buffer k @ buf\<rparr>
      in sink_cut_while (length (sk_buffer k)) sc env (\<lambda>b. length b \<ge> CHUNK_MAX_BYTES) k d)"

definition sink_flush_all :: "snapshot_crates \<Rightarrow> object_env \<Rightarrow> sink_run" where
  "sink_flush_all sc env k d = sink_cut_while (length (sk_buffer k)) sc env (\<lambda>b. b \<noteq> []) k d"

text \<open>The archive's writes, the first failure ending them, and the flush of what is left.\<close>

fun sink_archive :: "snapshot_crates \<Rightarrow> object_env \<Rightarrow> bytes list \<Rightarrow> sink_run" where
  "sink_archive sc env [] k d = sink_flush_all sc env k d"
| "sink_archive sc env (buf # bufs) k d =
     (case sink_write sc env buf k d of
        (Inl e, k, d) \<Rightarrow> (Inl e, k, d)
      | (Inr _, k, d) \<Rightarrow> sink_archive sc env bufs k d)"

record snapshot_lineage =
  sn_org :: string
  sn_application :: string
  sn_lineage :: string
  sn_job_id :: string
  sn_processor_id :: string
  sn_generation :: nat
  sn_dek_version :: nat
  sn_captured_at_ms :: nat
  sn_recipients :: "wrapped_data_key list"

definition blank_manifest :: "snapshot_lineage \<Rightarrow> bytes \<Rightarrow> manifest" where
  "blank_manifest l signer_key =
     \<lparr>mf_v = MANIFEST_VERSION, mf_org = sn_org l, mf_application = sn_application l, mf_lineage = sn_lineage l,
      mf_sequence = 1, mf_previous = None,
      mf_writer = \<lparr>mw_job_id = sn_job_id l, mw_processor_id = sn_processor_id l, mw_generation = sn_generation l,
        mw_signer_public_key = signer_key\<rparr>,
      mf_captured_at_ms = sn_captured_at_ms l, mf_dek_version = sn_dek_version l, mf_plaintext_bytes = 0,
      mf_chunks = [], mf_recipients = sn_recipients l\<rparr>"

definition chained_manifest :: "crates \<Rightarrow> manifest option \<Rightarrow> manifest \<Rightarrow> manifest_error + manifest" where
  "chained_manifest cr previous m =
     (case previous of
        None \<Rightarrow> Inr m
      | Some p \<Rightarrow>
          res_bind (ok_or (checked_add_u64 (mf_sequence p) 1) (ManifestMalformed ''sequence'')) (\<lambda>n.
          res_bind (manifest_digest cr p) (\<lambda>d.
          let m = m\<lparr>mf_sequence := n, mf_previous := Some d\<rparr>
          in res_bind (verify_successor cr p m) (\<lambda>_. Inr m))))"

text \<open>
  \<open>write\<close>, from the manifest to the signature; \<open>bufs\<close> is what the archive of the source directory writes.
\<close>

definition snapshot_write ::
  "snapshot_crates \<Rightarrow> object_env \<Rightarrow> bytes list \<Rightarrow> bytes \<Rightarrow> snapshot_lineage \<Rightarrow> manifest option \<Rightarrow> state_signer
     \<Rightarrow> (signed_manifest \<times> write_report) object_run" where
  "snapshot_write sc env bufs dek l previous signer d =
     (case res_bind (chained_manifest (sc_crates sc) previous (blank_manifest l (ss_public_key signer))) (\<lambda>m.
           res_bind (check_well_formed (sc_crates sc) m) (\<lambda>_. Inr m)) of
        Inl e \<Rightarrow> (Inl (ManifestFailed e), d)
      | Inr m \<Rightarrow>
          (case sink_archive sc env bufs
               \<lparr>sk_keys = chunk_keys_new sc dek (sn_lineage l), sk_buffer = [], sk_chunks = [],
                sk_report = \<lparr>wr_chunks_written = 0, wr_chunks_reused = 0\<rparr>\<rparr> d of
             (Inl e, _, d) \<Rightarrow> (Inl e, d)
           | (Inr _, k, d) \<Rightarrow>
               let m = m\<lparr>mf_plaintext_bytes := sum_list (map mc_plaintext_bytes (sk_chunks k)), mf_chunks := sk_chunks k\<rparr>
               in (res_bind (sign_manifest sc m signer) (\<lambda>sig. Inr (\<lparr>sm_manifest = m, sm_signature = sig\<rparr>, sk_report k)), d)))"

section \<open>Reading\<close>

definition check_object :: "crates \<Rightarrow> object_env \<Rightarrow> manifest_chunk \<Rightarrow> unit object_run" where
  "check_object cr env c d =
     (let name = hex_encode cr (mc_id c)
      in if mc_plaintext_bytes c > MAX_CHUNK_PLAINTEXT_BYTES then (Inl (ChunkTooLarge name), d)
         else if mc_object_bytes c \<noteq> mc_plaintext_bytes c + CHUNK_OVERHEAD
         then (Inl (ManifestFailed (ManifestMalformed ''chunks[].objectBytes'')), d)
         else let (failed, d) = object_call env d
         in if failed then (Inl (SnapshotIo ''object lookup''), d)
            else (case od_nodes d name of
                Some (ObjectFile object) \<Rightarrow>
                  (if length object \<noteq> mc_object_bytes c then Inl (ObjectLength name (mc_object_bytes c) (length object)) else Inr (), d)
              | _ \<Rightarrow> (Inl (MissingChunk name), d)))"

fun check_objects :: "crates \<Rightarrow> object_env \<Rightarrow> manifest_chunk list \<Rightarrow> unit object_run" where
  "check_objects cr env [] d = (Inr (), d)"
| "check_objects cr env (c # cs) d =
     (case check_object cr env c d of (Inl e, d) \<Rightarrow> (Inl e, d) | (Inr _, d) \<Rightarrow> check_objects cr env cs d)"

fun open_node :: "object_node option \<Rightarrow> opened_node" where
  "open_node None = OpensNothing"
| "open_node (Some (ObjectFile object)) = OpensBytes object"
| "open_node (Some ObjectDirectory) = OpensFailing"
| "open_node (Some (ObjectSpecial opened)) = opened"

definition stream_load :: "snapshot_crates \<Rightarrow> object_env \<Rightarrow> chunk_keys \<Rightarrow> manifest_chunk \<Rightarrow> bytes object_run" where
  "stream_load sc env k c d =
     (let name = hex_encode (sc_crates sc) (mc_id c); (failed, d) = object_call env d
      in if failed then (Inl (SnapshotIo ''object read''), d)
         else (case open_node (od_nodes d name) of
             OpensNothing \<Rightarrow> (Inl (MissingChunk name), d)
           | OpensFailing \<Rightarrow> (Inl (SnapshotIo ''object read''), d)
           | OpensBytes object \<Rightarrow>
               let (failed, d) = object_call env d; object = take (mc_object_bytes c + 1) object
               in if failed then (Inl (SnapshotIo ''object read''), d)
                  else if length object \<noteq> mc_object_bytes c
                  then (Inl (ObjectLength name (mc_object_bytes c) (length object)), d)
                  else (map_err ChunkFailed (keys_open sc k (mc_id c) object), d)))"

record chunk_stream =
  st_keys :: chunk_keys
  st_chunks :: "manifest_chunk list"
  st_current :: bytes

text \<open>
  \<open>ChunkStream::read\<close>: \<open>st_chunks\<close> holds the chunks from \<open>next\<close> on and \<open>st_current\<close> the bytes of the current
  chunk after \<open>position\<close>.
\<close>

fun stream_refill ::
  "snapshot_crates \<Rightarrow> object_env \<Rightarrow> chunk_keys \<Rightarrow> manifest_chunk list \<Rightarrow> bytes \<Rightarrow> (manifest_chunk list \<times> bytes) object_run" where
  "stream_refill sc env k cs (b # bs) d = (Inr (cs, b # bs), d)"
| "stream_refill sc env k [] [] d = (Inr ([], []), d)"
| "stream_refill sc env k (c # cs) [] d =
     (case stream_load sc env k c d of
        (Inl e, d) \<Rightarrow> (Inl e, d)
      | (Inr plaintext, d) \<Rightarrow> stream_refill sc env k cs plaintext d)"

definition stream_read :: "snapshot_crates \<Rightarrow> object_env \<Rightarrow> nat \<Rightarrow> chunk_stream \<Rightarrow> (bytes \<times> chunk_stream) object_run" where
  "stream_read sc env n st d =
     (case stream_refill sc env (st_keys st) (st_chunks st) (st_current st) d of
        (Inl e, d) \<Rightarrow> (Inl e, d)
      | (Inr (cs, current), d) \<Rightarrow> (Inr (take n current, st\<lparr>st_chunks := cs, st_current := drop n current\<rparr>), d))"

text \<open>
  What the archive reader and the final drain see: reads of given sizes, until a read returns no byte; the sizes
  are the consumer's choice.
\<close>

fun stream_read_all :: "snapshot_crates \<Rightarrow> object_env \<Rightarrow> nat list \<Rightarrow> chunk_stream \<Rightarrow> bytes object_run" where
  "stream_read_all sc env [] st d = (Inr [], d)"
| "stream_read_all sc env (n # ns) st d =
     (case stream_read sc env n st d of
        (Inl e, d) \<Rightarrow> (Inl e, d)
      | (Inr (bs, st), d) \<Rightarrow>
          if bs = [] then (Inr [], d)
          else (case stream_read_all sc env ns st d of
              (Inl e, d) \<Rightarrow> (Inl e, d) | (Inr r, d) \<Rightarrow> (Inr (bs @ r), d)))"

record restore_trust =
  rt_signer :: bytes
  rt_previous :: "manifest option"

text \<open>\<open>restore\<close> up to the extraction: the checks before anything is staged, and the stream it extracts from.\<close>

definition restore_checks :: "snapshot_crates \<Rightarrow> object_env \<Rightarrow> signed_manifest \<Rightarrow> restore_trust \<Rightarrow> unit object_run" where
  "restore_checks sc env smf trust d =
     (let m = sm_manifest smf
      in case map_err ManifestFailed (res_bind (verify_signature sc m (sm_signature smf) (rt_signer trust)) (\<lambda>_.
             case rt_previous trust of None \<Rightarrow> Inr () | Some p \<Rightarrow> verify_successor (sc_crates sc) p m)) of
           Inl e \<Rightarrow> (Inl e, d)
         | Inr _ \<Rightarrow> check_objects (sc_crates sc) env (mf_chunks m) d)"

definition restore_stream :: "snapshot_crates \<Rightarrow> object_env \<Rightarrow> nat list \<Rightarrow> signed_manifest \<Rightarrow> bytes \<Rightarrow> restore_trust \<Rightarrow> bytes object_run" where
  "restore_stream sc env sizes smf dek trust d =
     (case restore_checks sc env smf trust d of
        (Inl e, d) \<Rightarrow> (Inl e, d)
      | (Inr _, d) \<Rightarrow>
          stream_read_all sc env sizes
            \<lparr>st_keys = chunk_keys_new sc dek (mf_lineage (sm_manifest smf)), st_chunks = mf_chunks (sm_manifest smf),
             st_current = []\<rparr> d)"

end
