(* ===== verification/SnapshotProofs.thy ===== *)
theory SnapshotProofs
  imports Transcript Snapshot
begin

text \<open>
  State snapshots (\<open>state_snapshot.rs\<close>): the signed bytes of a manifest determine the manifest, a restore delivers
  only what the manifest names, and a restore of a written snapshot is what was written.
\<close>

section \<open>The canonical encoding\<close>

text \<open>
  An encoder is self-delimiting on a set of values when the encoding of one is never a proper beginning of that of
  another.
\<close>

definition delimited :: "('a \<Rightarrow> encoded) \<Rightarrow> 'a set \<Rightarrow> bool" where
  "delimited enc A \<longleftrightarrow> (\<forall>x \<in> A. \<forall>y \<in> A. \<forall>b c r s. enc x = Inr b \<longrightarrow> enc y = Inr c \<longrightarrow> b @ r = c @ s \<longrightarrow> x = y \<and> r = s)"

lemma delimitedD:
  "delimited enc A \<Longrightarrow> enc x = Inr b \<Longrightarrow> enc y = Inr c \<Longrightarrow> b @ r = c @ s \<Longrightarrow> x \<in> A \<Longrightarrow> y \<in> A \<Longrightarrow> x = y \<and> r = s"
  unfolding delimited_def by blast

lemma enc_all_Cons: "enc_all (p # ps) = Inr b \<longleftrightarrow> (\<exists>x r. p = Inr x \<and> enc_all ps = Inr r \<and> b = x @ r)"
  by (auto simp: res_simps)

lemma enc_all_append: "enc_all (ps @ qs) = Inr b \<longleftrightarrow> (\<exists>x r. enc_all ps = Inr x \<and> enc_all qs = Inr r \<and> b = x @ r)"
  by (induction ps arbitrary: b) (auto simp: enc_all_Cons simp del: enc_all.simps(2))

lemma delimited_raw: "delimited enc_raw {bs. length bs = n}"
  by (auto simp: delimited_def enc_raw_def)

lemma delimited_u64: "delimited enc_u64 {n. n < 256 ^ 8}"
  unfolding delimited_def enc_u64_def
proof (intro ballI allI impI)
  fix x y :: nat and b c r s :: bytes
  assume "x \<in> {n. n < 256 ^ 8}" "y \<in> {n. n < 256 ^ 8}" "Inr (be_bytes 8 x) = Inr b" "Inr (be_bytes 8 y) = Inr c" "b @ r = c @ s"
  then show "x = y \<and> r = s" using be_bytes_inject [of x 8 y] by (auto simp: append_eq_append_conv)
qed

lemma enc_count_Inr: "enc_count n = Inr b \<longleftrightarrow> n \<le> u32_max \<and> b = be_bytes 4 n"
  by (auto simp: enc_count_def)

lemma delimited_count: "delimited enc_count UNIV"
  unfolding delimited_def
proof (intro ballI allI impI)
  fix x y :: nat and b c r s :: bytes
  assume "enc_count x = Inr b" "enc_count y = Inr c" "b @ r = c @ s"
  then show "x = y \<and> r = s" using be_bytes_inject [of x 4 y]
    by (auto simp: append_eq_append_conv enc_count_Inr u32_max_def)
qed

lemma delimited_bytes: "delimited enc_bytes UNIV"
  unfolding delimited_def
proof (intro ballI allI impI)
  fix x y b c r s :: bytes
  assume "enc_bytes x = Inr b" "enc_bytes y = Inr c" "b @ r = c @ s"
  then have "enc_count (length x) = Inr (be_bytes 4 (length x))" "enc_count (length y) = Inr (be_bytes 4 (length y))"
      "be_bytes 4 (length x) @ x @ r = be_bytes 4 (length y) @ y @ s"
    by (auto simp: enc_bytes_def res_simps enc_count_Inr)
  from delimitedD [OF delimited_count this] show "x = y \<and> r = s" by auto
qed

lemma as_bytes_inject [simp]: "as_bytes a = as_bytes b \<longleftrightarrow> a = b"
  by (metis as_bytes_inverse)

lemma delimited_str: "delimited enc_str UNIV"
  using delimited_bytes unfolding delimited_def enc_str_def by (metis UNIV_I as_bytes_inject)

lemma delimited_previous: "delimited enc_previous {p. \<forall>d. p = Some d \<longrightarrow> length d = 32}"
  by (auto simp: delimited_def enc_previous_def split: option.splits)

lemma delimited_chunk:
  "delimited enc_chunk {c. length (mc_id c) = 32 \<and> mc_plaintext_bytes c < 256 ^ 8 \<and> mc_object_bytes c < 256 ^ 8}"
  unfolding delimited_def
proof (intro ballI allI impI)
  fix x y :: manifest_chunk and b c r s :: bytes
  let ?A = "{c :: manifest_chunk. length (mc_id c) = 32 \<and> mc_plaintext_bytes c < 256 ^ 8 \<and> mc_object_bytes c < 256 ^ 8}"
  assume a: "x \<in> ?A" "y \<in> ?A" and e: "enc_chunk x = Inr b" "enc_chunk y = Inr c" "b @ r = c @ s"
  have "be_bytes 8 (mc_plaintext_bytes x) = be_bytes 8 (mc_plaintext_bytes y)" "be_bytes 8 (mc_object_bytes x) = be_bytes 8 (mc_object_bytes y)"
      "mc_id x = mc_id y" "r = s"
    using a e by (auto simp: enc_chunk_def enc_raw_def enc_u64_def)
  then show "x = y \<and> r = s"
    using a be_bytes_inject [of "mc_plaintext_bytes x" 8 "mc_plaintext_bytes y"] be_bytes_inject [of "mc_object_bytes x" 8 "mc_object_bytes y"]
    by (auto intro: manifest_chunk.equality)
qed

text \<open>A list that follows its length.\<close>

lemma delimited_list:
  assumes "delimited enc A" "set xs \<subseteq> A" "set ys \<subseteq> A" "length xs = length ys"
    "enc_all (map enc xs) = Inr b" "enc_all (map enc ys) = Inr c" "b @ r = c @ s"
  shows "xs = ys \<and> r = s"
  using assms(4,2,3,5-7)
proof (induction xs ys arbitrary: b c rule: list_induct2)
  case (Cons x xs y ys)
  obtain bx br where x: "enc x = Inr bx" "enc_all (map enc xs) = Inr br" "b = bx @ br"
    using Cons.prems by (auto simp: enc_all_Cons simp del: enc_all.simps(2))
  obtain cy cr where y: "enc y = Inr cy" "enc_all (map enc ys) = Inr cr" "c = cy @ cr"
    using Cons.prems by (auto simp: enc_all_Cons simp del: enc_all.simps(2))
  have "x = y \<and> br @ r = cr @ s" using delimitedD [OF assms(1) x(1) y(1)] Cons.prems x(3) y(3) by simp
  then show ?case using Cons.IH [OF _ _ x(2) y(2)] Cons.prems by auto
qed simp

text \<open>What the development assumes of the hex crate: encoding is injective and gives lower-case digits, decoding is injective.\<close>

definition hex_laws :: "crates \<Rightarrow> bool" where
  "hex_laws cr \<longleftrightarrow> inj (hex_encode cr) \<and> (\<forall>b. list_all is_lower_hex_digit (hex_encode cr b))
     \<and> (\<forall>a b v. list_all is_lower_hex_digit a \<longrightarrow> list_all is_lower_hex_digit b \<longrightarrow> hex_decode cr a = Some v \<longrightarrow> hex_decode cr b = Some v \<longrightarrow> a = b)"

lemma lower_hex32_inject:
  "hex_laws cr \<Longrightarrow> lower_hex32 cr a = Some v \<Longrightarrow> lower_hex32 cr b = Some v \<Longrightarrow> a = b \<and> length v = 32"
  unfolding hex_laws_def lower_hex32_def by (auto split: if_splits option.splits)

lemma recipient_kind_name_inject: "recipient_kind_name a = recipient_kind_name b \<Longrightarrow> a = b"
  by (cases a; cases b) simp_all

lemma delimited_recipient:
  assumes h: "hex_laws cr"
  shows "delimited (enc_recipient cr) {k. wk_dek_version k < 256 ^ 8}"
  unfolding delimited_def
proof (intro ballI allI impI)
  fix x y :: wrapped_data_key and b c r s :: bytes
  assume a: "x \<in> {k. wk_dek_version k < 256 ^ 8}" "y \<in> {k. wk_dek_version k < 256 ^ 8}"
    and e: "enc_recipient cr x = Inr b" "enc_recipient cr y = Inr c" "b @ r = c @ s"
  note str = delimitedD [OF delimited_str _ _ _ UNIV_I UNIV_I] and byt = delimitedD [OF delimited_bytes _ _ _ UNIV_I UNIV_I]
  obtain x1 x2 x3 x4 x5 x6 x7 where x: "enc_str (recipient_kind_name (wk_recipient_kind x)) = Inr x1"
      "lower_hex32 cr (wk_recipient_key_id x) = Some x2" "enc_str (gp_version (wk_grant x)) = Inr x3"
      "enc_str (gp_curve_name (wk_grant x)) = Inr x4" "enc_bytes (gp_sender_public_key (wk_grant x)) = Inr x5"
      "enc_bytes (gp_salt (wk_grant x)) = Inr x6" "enc_bytes (gp_ciphertext (wk_grant x)) = Inr x7"
      "b = x1 @ x2 @ be_bytes 8 (wk_dek_version x) @ x3 @ x4 @ x5 @ x6 @ x7"
    using e(1) by (auto simp: enc_recipient_def enc_u64_def res_simps ok_or_def split: option.splits)
  obtain y1 y2 y3 y4 y5 y6 y7 where y: "enc_str (recipient_kind_name (wk_recipient_kind y)) = Inr y1"
      "lower_hex32 cr (wk_recipient_key_id y) = Some y2" "enc_str (gp_version (wk_grant y)) = Inr y3"
      "enc_str (gp_curve_name (wk_grant y)) = Inr y4" "enc_bytes (gp_sender_public_key (wk_grant y)) = Inr y5"
      "enc_bytes (gp_salt (wk_grant y)) = Inr y6" "enc_bytes (gp_ciphertext (wk_grant y)) = Inr y7"
      "c = y1 @ y2 @ be_bytes 8 (wk_dek_version y) @ y3 @ y4 @ y5 @ y6 @ y7"
    using e(2) by (auto simp: enc_recipient_def enc_u64_def res_simps ok_or_def split: option.splits)
  have 1: "wk_recipient_kind x = wk_recipient_kind y \<and> x2 @ be_bytes 8 (wk_dek_version x) @ x3 @ x4 @ x5 @ x6 @ x7 @ r
      = y2 @ be_bytes 8 (wk_dek_version y) @ y3 @ y4 @ y5 @ y6 @ y7 @ s"
    using str [OF x(1) y(1), of "x2 @ be_bytes 8 (wk_dek_version x) @ x3 @ x4 @ x5 @ x6 @ x7 @ r"
        "y2 @ be_bytes 8 (wk_dek_version y) @ y3 @ y4 @ y5 @ y6 @ y7 @ s"] e(3) x(8) y(8) recipient_kind_name_inject by simp
  have len: "length x2 = 32" "length y2 = 32" using lower_hex32_inject [OF h x(2) x(2)] lower_hex32_inject [OF h y(2) y(2)] by auto
  then have 2: "wk_recipient_key_id x = wk_recipient_key_id y" "wk_dek_version x = wk_dek_version y"
      "x3 @ x4 @ x5 @ x6 @ x7 @ r = y3 @ y4 @ y5 @ y6 @ y7 @ s"
    using 1 lower_hex32_inject [OF h x(2), of "wk_recipient_key_id y"] y(2) a be_bytes_inject [of "wk_dek_version x" 8 "wk_dek_version y"] by auto
  have 3: "gp_version (wk_grant x) = gp_version (wk_grant y) \<and> x4 @ x5 @ x6 @ x7 @ r = y4 @ y5 @ y6 @ y7 @ s" using str [OF x(3) y(3) 2(3)] .
  have 4: "gp_curve_name (wk_grant x) = gp_curve_name (wk_grant y) \<and> x5 @ x6 @ x7 @ r = y5 @ y6 @ y7 @ s" using str [OF x(4) y(4)] 3 by blast
  have 5: "gp_sender_public_key (wk_grant x) = gp_sender_public_key (wk_grant y) \<and> x6 @ x7 @ r = y6 @ y7 @ s" using byt [OF x(5) y(5)] 4 by blast
  have 6: "gp_salt (wk_grant x) = gp_salt (wk_grant y) \<and> x7 @ r = y7 @ s" using byt [OF x(6) y(6)] 5 by blast
  have 7: "gp_ciphertext (wk_grant x) = gp_ciphertext (wk_grant y) \<and> r = s" using byt [OF x(7) y(7)] 6 by blast
  have "wk_grant x = wk_grant y" using 3 4 5 6 7 by (intro grant_payload.equality) auto
  then show "x = y \<and> r = s" using 1 2 7 by (auto intro: wrapped_data_key.equality)
qed

lemma check_numbers_Inr: "check_numbers l = Inr () \<longleftrightarrow> (\<forall>(f, v) \<in> set l. v \<le> MAX_SAFE_INTEGER)"
  by (induction l rule: check_numbers.induct) auto

lemma check_chunks_Inr:
  "check_chunks n cs = Inr t \<Longrightarrow> (\<forall>c \<in> set cs. mc_plaintext_bytes c \<le> MAX_SAFE_INTEGER \<and> mc_object_bytes c \<le> MAX_SAFE_INTEGER)
     \<and> t = n + sum_list (map mc_plaintext_bytes cs)"
  by (induction n cs rule: check_chunks.induct) (auto split: if_splits option.splits simp: sat_simps)

lemma check_recipients_Inr: "check_recipients cr v ks = Inr () \<Longrightarrow> (\<forall>k \<in> set ks. wk_dek_version k = v)"
  by (induction cr v ks rule: check_recipients.induct) (auto split: if_splits)

lemma well_formed_bounds:
  assumes "check_well_formed cr m = Inr ()"
  shows "mf_v m = 1" "mf_sequence m \<le> MAX_SAFE_INTEGER" "mw_generation (mf_writer m) \<le> MAX_SAFE_INTEGER"
    "mf_captured_at_ms m \<le> MAX_SAFE_INTEGER" "mf_dek_version m \<le> MAX_SAFE_INTEGER" "mf_plaintext_bytes m \<le> MAX_SAFE_INTEGER"
    "\<forall>c \<in> set (mf_chunks m). mc_plaintext_bytes c \<le> MAX_SAFE_INTEGER \<and> mc_object_bytes c \<le> MAX_SAFE_INTEGER"
    "\<forall>k \<in> set (mf_recipients m). wk_dek_version k = mf_dek_version m"
    "mf_plaintext_bytes m = sum_list (map mc_plaintext_bytes (mf_chunks m))"
proof -
  obtain t where c: "mf_v m = 1" "check_numbers [(''sequence'', mf_sequence m), (''writer.generation'', mw_generation (mf_writer m)),
      (''capturedAtMs'', mf_captured_at_ms m), (''dekVersion'', mf_dek_version m), (''plaintextBytes'', mf_plaintext_bytes m)] = Inr ()"
      "check_chunks 0 (mf_chunks m) = Inr t" "check_recipients cr (mf_dek_version m) (mf_recipients m) = Inr ()" "t = mf_plaintext_bytes m"
    using assms by (auto simp: check_well_formed_def res_simps MANIFEST_VERSION_def split: if_splits)
  show "mf_v m = 1" by (rule c(1))
  show "mf_sequence m \<le> MAX_SAFE_INTEGER" "mw_generation (mf_writer m) \<le> MAX_SAFE_INTEGER"
    "mf_captured_at_ms m \<le> MAX_SAFE_INTEGER" "mf_dek_version m \<le> MAX_SAFE_INTEGER" "mf_plaintext_bytes m \<le> MAX_SAFE_INTEGER"
    using c(2) unfolding check_numbers_Inr by auto
  show "\<forall>c \<in> set (mf_chunks m). mc_plaintext_bytes c \<le> MAX_SAFE_INTEGER \<and> mc_object_bytes c \<le> MAX_SAFE_INTEGER"
    "mf_plaintext_bytes m = sum_list (map mc_plaintext_bytes (mf_chunks m))" using check_chunks_Inr [OF c(3)] c(5) by auto
  show "\<forall>k \<in> set (mf_recipients m). wk_dek_version k = mf_dek_version m" by (rule check_recipients_Inr [OF c(4)])
qed

lemma delimited_iff:
  assumes "delimited enc A" "enc x = Inr b" "enc y = Inr c" "x \<in> A" "y \<in> A"
  shows "b @ r = c @ s \<longleftrightarrow> x = y \<and> r = s"
proof
  assume "b @ r = c @ s"
  then show "x = y \<and> r = s" using delimitedD [OF assms(1-3) _ assms(4,5)] by simp
next
  assume "x = y \<and> r = s"
  then show "b @ r = c @ s" using assms(2,3) by simp
qed

lemma safe_integer: "n \<le> MAX_SAFE_INTEGER \<Longrightarrow> n < 256 ^ 8"
  by (simp add: MAX_SAFE_INTEGER_def)

lemma chunks_encodable:
  assumes "check_well_formed cr m = Inr ()" "manifest_typed m"
  shows "set (mf_chunks m) \<subseteq> {c. length (mc_id c) = 32 \<and> mc_plaintext_bytes c < 256 ^ 8 \<and> mc_object_bytes c < 256 ^ 8}"
proof
  fix c
  assume "c \<in> set (mf_chunks m)"
  then show "c \<in> {c. length (mc_id c) = 32 \<and> mc_plaintext_bytes c < 256 ^ 8 \<and> mc_object_bytes c < 256 ^ 8}"
    using well_formed_bounds(7) [OF assms(1)] assms(2) safe_integer [of "mc_plaintext_bytes c"] safe_integer [of "mc_object_bytes c"]
    by (auto simp: manifest_typed_def)
qed

lemma recipients_encodable:
  assumes "check_well_formed cr m = Inr ()"
  shows "set (mf_recipients m) \<subseteq> {k. wk_dek_version k < 256 ^ 8}"
  using well_formed_bounds(5,8) [OF assms] safe_integer [of "mf_dek_version m"] by auto

lemma canonical_parts:
  assumes "manifest_canonical_bytes cr m = Inr b"
  obtains x1 x2 x3 x4 x5 x6 x7 x8 x9 x10 where "check_well_formed cr m = Inr ()" "enc_str (mf_org m) = Inr x1" "enc_str (mf_application m) = Inr x2"
    "enc_str (mf_lineage m) = Inr x3" "enc_previous (mf_previous m) = Inr x4" "enc_str (mw_job_id (mf_writer m)) = Inr x5"
    "enc_str (mw_processor_id (mf_writer m)) = Inr x6" "enc_count (length (mf_chunks m)) = Inr x7"
    "enc_all (map enc_chunk (mf_chunks m)) = Inr x8" "enc_count (length (mf_recipients m)) = Inr x9"
    "enc_all (map (enc_recipient cr) (mf_recipients m)) = Inr x10"
    "b = be_bytes 8 (mf_v m) @ x1 @ x2 @ x3 @ be_bytes 8 (mf_sequence m) @ x4 @ x5 @ x6 @ be_bytes 8 (mw_generation (mf_writer m))
        @ mw_signer_public_key (mf_writer m) @ be_bytes 8 (mf_captured_at_ms m) @ be_bytes 8 (mf_dek_version m)
        @ be_bytes 8 (mf_plaintext_bytes m) @ x7 @ x8 @ x9 @ x10"
proof -
  have "check_well_formed cr m = Inr ()" using assms by (auto simp: manifest_canonical_bytes_def res_simps)
  note e = assms [unfolded manifest_canonical_bytes_def this res_bind_simps]
  obtain h t where p: "enc_all (
      [enc_u64 (mf_v m), enc_str (mf_org m), enc_str (mf_application m), enc_str (mf_lineage m), enc_u64 (mf_sequence m),
       enc_previous (mf_previous m), enc_str (mw_job_id (mf_writer m)), enc_str (mw_processor_id (mf_writer m)),
       enc_u64 (mw_generation (mf_writer m)), enc_raw (mw_signer_public_key (mf_writer m)), enc_u64 (mf_captured_at_ms m),
       enc_u64 (mf_dek_version m), enc_u64 (mf_plaintext_bytes m), enc_count (length (mf_chunks m))]) = Inr h"
      "enc_all (map enc_chunk (mf_chunks m) @ [enc_count (length (mf_recipients m))] @ map (enc_recipient cr) (mf_recipients m)) = Inr t"
      "b = h @ t"
    using iffD1 [OF enc_all_append e] by (elim exE conjE)
  obtain x8 x9 x10 where q: "t = x8 @ x9 @ x10" "enc_all (map enc_chunk (mf_chunks m)) = Inr x8" "enc_count (length (mf_recipients m)) = Inr x9"
      "enc_all (map (enc_recipient cr) (mf_recipients m)) = Inr x10"
    using p(2) unfolding enc_all_append by (auto simp: res_simps)
  obtain x1 x2 x3 x4 x5 x6 x7 where r: "enc_str (mf_org m) = Inr x1" "enc_str (mf_application m) = Inr x2"
      "enc_str (mf_lineage m) = Inr x3" "enc_previous (mf_previous m) = Inr x4" "enc_str (mw_job_id (mf_writer m)) = Inr x5"
      "enc_str (mw_processor_id (mf_writer m)) = Inr x6" "enc_count (length (mf_chunks m)) = Inr x7"
      "h = be_bytes 8 (mf_v m) @ x1 @ x2 @ x3 @ be_bytes 8 (mf_sequence m) @ x4 @ x5 @ x6 @ be_bytes 8 (mw_generation (mf_writer m))
        @ mw_signer_public_key (mf_writer m) @ be_bytes 8 (mf_captured_at_ms m) @ be_bytes 8 (mf_dek_version m)
        @ be_bytes 8 (mf_plaintext_bytes m) @ x7"
    using p(1) by (auto simp: res_simps enc_u64_def enc_raw_def)
  show thesis
    by (rule that [OF \<open>check_well_formed cr m = Inr ()\<close> r(1-7) q(2-4)]) (simp add: p(3) q(1) r(8))
qed

text \<open>Equal canonical bytes have equal fields before the lists, and equal encodings of the lists.\<close>

lemma canonical_fields:
  assumes t: "manifest_typed m" "manifest_typed n"
    and e: "manifest_canonical_bytes cr m = Inr b" "manifest_canonical_bytes cr n = Inr b"
  obtains x8 x9 x10 y8 y9 y10 where
      "mf_org m = mf_org n" "mf_application m = mf_application n" "mf_lineage m = mf_lineage n" "mf_sequence m = mf_sequence n"
      "mf_previous m = mf_previous n" "mf_writer m = mf_writer n" "mf_captured_at_ms m = mf_captured_at_ms n"
      "mf_dek_version m = mf_dek_version n" "mf_plaintext_bytes m = mf_plaintext_bytes n" "length (mf_chunks m) = length (mf_chunks n)"
      "x8 @ x9 @ x10 = y8 @ y9 @ y10"
      "enc_all (map enc_chunk (mf_chunks m)) = Inr x8" "enc_all (map enc_chunk (mf_chunks n)) = Inr y8"
      "enc_count (length (mf_recipients m)) = Inr x9" "enc_count (length (mf_recipients n)) = Inr y9"
      "enc_all (map (enc_recipient cr) (mf_recipients m)) = Inr x10" "enc_all (map (enc_recipient cr) (mf_recipients n)) = Inr y10"
proof -
  obtain x1 x2 x3 x4 x5 x6 x7 x8 x9 x10 where x: "check_well_formed cr m = Inr ()" "enc_str (mf_org m) = Inr x1" "enc_str (mf_application m) = Inr x2"
    "enc_str (mf_lineage m) = Inr x3" "enc_previous (mf_previous m) = Inr x4" "enc_str (mw_job_id (mf_writer m)) = Inr x5"
    "enc_str (mw_processor_id (mf_writer m)) = Inr x6" "enc_count (length (mf_chunks m)) = Inr x7"
    "enc_all (map enc_chunk (mf_chunks m)) = Inr x8" "enc_count (length (mf_recipients m)) = Inr x9"
    "enc_all (map (enc_recipient cr) (mf_recipients m)) = Inr x10"
    "b = be_bytes 8 (mf_v m) @ x1 @ x2 @ x3 @ be_bytes 8 (mf_sequence m) @ x4 @ x5 @ x6 @ be_bytes 8 (mw_generation (mf_writer m))
        @ mw_signer_public_key (mf_writer m) @ be_bytes 8 (mf_captured_at_ms m) @ be_bytes 8 (mf_dek_version m)
        @ be_bytes 8 (mf_plaintext_bytes m) @ x7 @ x8 @ x9 @ x10"
    by (rule canonical_parts [OF e(1)])
  obtain y1 y2 y3 y4 y5 y6 y7 y8 y9 y10 where y: "check_well_formed cr n = Inr ()" "enc_str (mf_org n) = Inr y1" "enc_str (mf_application n) = Inr y2"
    "enc_str (mf_lineage n) = Inr y3" "enc_previous (mf_previous n) = Inr y4" "enc_str (mw_job_id (mf_writer n)) = Inr y5"
    "enc_str (mw_processor_id (mf_writer n)) = Inr y6" "enc_count (length (mf_chunks n)) = Inr y7"
    "enc_all (map enc_chunk (mf_chunks n)) = Inr y8" "enc_count (length (mf_recipients n)) = Inr y9"
    "enc_all (map (enc_recipient cr) (mf_recipients n)) = Inr y10"
    "b = be_bytes 8 (mf_v n) @ y1 @ y2 @ y3 @ be_bytes 8 (mf_sequence n) @ y4 @ y5 @ y6 @ be_bytes 8 (mw_generation (mf_writer n))
        @ mw_signer_public_key (mf_writer n) @ be_bytes 8 (mf_captured_at_ms n) @ be_bytes 8 (mf_dek_version n)
        @ be_bytes 8 (mf_plaintext_bytes n) @ y7 @ y8 @ y9 @ y10"
    by (rule canonical_parts [OF e(2)])
  note wm = well_formed_bounds [OF x(1)] and wn = well_formed_bounds [OF y(1)]
  note str = delimited_iff [OF delimited_str _ _ UNIV_I UNIV_I] and cnt = delimited_iff [OF delimited_count _ _ UNIV_I UNIV_I]
  have u: "be_bytes 8 a @ r = be_bytes 8 c @ s \<longleftrightarrow> a = c \<and> r = s" if "a \<le> MAX_SAFE_INTEGER" "c \<le> MAX_SAFE_INTEGER" for a c r s
    using be_bytes_inject [OF safe_integer [OF that(1)] safe_integer [OF that(2)]] by simp
  have v: "be_bytes 8 a = be_bytes 8 c \<longleftrightarrow> a = c" if "a \<le> MAX_SAFE_INTEGER" "c \<le> MAX_SAFE_INTEGER" for a c
    by (rule be_bytes_inject [OF safe_integer [OF that(1)] safe_integer [OF that(2)]])
  have prev: "x4 @ r = y4 @ s \<longleftrightarrow> mf_previous m = mf_previous n \<and> r = s" for r s
    using t by (intro delimited_iff [OF delimited_previous x(5) y(5)]) (auto simp: manifest_typed_def)
  have pk: "mw_signer_public_key (mf_writer m) @ r = mw_signer_public_key (mf_writer n) @ s
      \<longleftrightarrow> mw_signer_public_key (mf_writer m) = mw_signer_public_key (mf_writer n) \<and> r = s" for r s
    using t by (auto simp: manifest_typed_def)
  have 1: "mf_org m = mf_org n" "mf_application m = mf_application n" "mf_lineage m = mf_lineage n" "mf_sequence m = mf_sequence n"
      "mf_previous m = mf_previous n" "mw_job_id (mf_writer m) = mw_job_id (mf_writer n)"
      "mw_processor_id (mf_writer m) = mw_processor_id (mf_writer n)" "mw_generation (mf_writer m) = mw_generation (mf_writer n)"
      "mw_signer_public_key (mf_writer m) = mw_signer_public_key (mf_writer n)" "mf_captured_at_ms m = mf_captured_at_ms n"
      "mf_dek_version m = mf_dek_version n" "mf_plaintext_bytes m = mf_plaintext_bytes n" "length (mf_chunks m) = length (mf_chunks n)"
      "x8 @ x9 @ x10 = y8 @ y9 @ y10"
    using trans [OF x(12) [symmetric] y(12)] wm(1-6) wn(1-6)
    by (simp_all add: str [OF x(2) y(2)] str [OF x(3) y(3)] str [OF x(4) y(4)] str [OF x(6) y(6)] str [OF x(7) y(7)] cnt [OF x(8) y(8)] u v prev pk)
  moreover have "mf_writer m = mf_writer n" using 1 by (intro manifest_writer.equality) auto
  ultimately show thesis using that [of x8 x9 x10 y8 y9 y10] x(9-11) y(9-11) by simp
qed

text \<open>
  C17.  A signature over a manifest binds all of it: the canonical encoding is injective, so two well-formed
  manifests with the same canonical bytes are the same manifest, with the same chunks in the same order, the same
  wrapped keys, writer and place in the chain.
\<close>

theorem canonical_bytes_inject:
  assumes h: "hex_laws cr" and t: "manifest_typed m" "manifest_typed n"
    and e: "manifest_canonical_bytes cr m = Inr b" "manifest_canonical_bytes cr n = Inr b"
  shows "m = n"
proof -
  obtain x8 x9 x10 y8 y9 y10 where 1:
      "mf_org m = mf_org n" "mf_application m = mf_application n" "mf_lineage m = mf_lineage n" "mf_sequence m = mf_sequence n"
      "mf_previous m = mf_previous n" "mf_writer m = mf_writer n" "mf_captured_at_ms m = mf_captured_at_ms n"
      "mf_dek_version m = mf_dek_version n" "mf_plaintext_bytes m = mf_plaintext_bytes n" "length (mf_chunks m) = length (mf_chunks n)"
      "x8 @ x9 @ x10 = y8 @ y9 @ y10"
      "enc_all (map enc_chunk (mf_chunks m)) = Inr x8" "enc_all (map enc_chunk (mf_chunks n)) = Inr y8"
      "enc_count (length (mf_recipients m)) = Inr x9" "enc_count (length (mf_recipients n)) = Inr y9"
      "enc_all (map (enc_recipient cr) (mf_recipients m)) = Inr x10" "enc_all (map (enc_recipient cr) (mf_recipients n)) = Inr y10"
    by (rule canonical_fields [OF t e])
  have w: "check_well_formed cr m = Inr ()" "check_well_formed cr n = Inr ()" using e by (auto simp: manifest_canonical_bytes_def res_simps)
  have 2: "mf_chunks m = mf_chunks n \<and> x9 @ x10 = y9 @ y10"
    by (rule delimited_list [OF delimited_chunk chunks_encodable [OF w(1) t(1)] chunks_encodable [OF w(2) t(2)] 1(10) 1(12) 1(13) 1(11)])
  then have 3: "length (mf_recipients m) = length (mf_recipients n)" "x10 @ [] = y10 @ []"
    using delimited_iff [OF delimited_count 1(14) 1(15) UNIV_I UNIV_I] by auto
  have "mf_recipients m = mf_recipients n"
    using delimited_list [OF delimited_recipient [OF h] recipients_encodable [OF w(1)] recipients_encodable [OF w(2)] 3(1) 1(16) 1(17) 3(2)]
    by simp
  then show "m = n" using 1 2 well_formed_bounds(1) [OF w(1)] well_formed_bounds(1) [OF w(2)] by (intro manifest.equality) auto
qed

section \<open>Chunks\<close>

text \<open>What the development assumes of the authenticated encryption: sealing keeps the length, its tag has 16 bytes, and opening undoes it.\<close>

definition aead_laws :: "snapshot_crates \<Rightarrow> bool" where
  "aead_laws sc \<longleftrightarrow> (\<forall>key nonce aad p body tag. sc_gcm_seal sc key nonce aad p = (body, tag) \<longrightarrow>
     length body = length p \<and> length tag = CHUNK_TAG_LEN \<and> sc_gcm_open sc key nonce aad (body @ tag) = Some p)"

lemma keys_open_seal:
  assumes "aead_laws sc" "length nonce = CHUNK_NONCE_LEN"
  shows "keys_open sc k (keys_chunk_id sc k p) (sl_object (keys_seal sc k nonce p)) = Inr p"
    "length (sl_object (keys_seal sc k nonce p)) = CHUNK_OVERHEAD + length p"
proof -
  obtain body tag where b: "sc_gcm_seal sc (ck_seal k) nonce (chunk_aad k (keys_chunk_id sc k p)) p = (body, tag)" by (metis surj_pair)
  then have l: "length body = length p" "length tag = CHUNK_TAG_LEN" "sc_gcm_open sc (ck_seal k) nonce (chunk_aad k (keys_chunk_id sc k p)) (body @ tag) = Some p"
    using assms(1) unfolding aead_laws_def by blast+
  have o: "sl_object (keys_seal sc k nonce p) = CHUNK_FORMAT_VERSION # nonce @ body @ tag" by (simp add: keys_seal_def b Let_def)
  show "length (sl_object (keys_seal sc k nonce p)) = CHUNK_OVERHEAD + length p" using o l assms(2) by (simp add: CHUNK_OVERHEAD_def)
  then show "keys_open sc k (keys_chunk_id sc k p) (sl_object (keys_seal sc k nonce p)) = Inr p"
    using o l(3) assms(2) by (simp add: keys_open_def Let_def keys_chunk_id_def)
qed

lemma keys_open_id: "keys_open sc k i object = Inr p \<Longrightarrow> keys_chunk_id sc k p = i"
  by (auto simp: keys_open_def keys_chunk_id_def Let_def split: if_splits option.splits)

section \<open>Cutting\<close>

text \<open>
  What the development assumes of the chunker: a cut of a buffer that is not empty takes at least one byte, at most
  the buffer and at most the largest chunk, and depends only on that many first bytes.
\<close>

definition cdc_laws :: "snapshot_crates \<Rightarrow> bool" where
  "cdc_laws sc \<longleftrightarrow> (\<forall>b. b \<noteq> [] \<longrightarrow> 0 < sc_fastcdc_cut sc b \<and> sc_fastcdc_cut sc b \<le> min (length b) CHUNK_MAX_BYTES
     \<and> (\<forall>r. length b \<ge> CHUNK_MAX_BYTES \<longrightarrow> sc_fastcdc_cut sc (b @ r) = sc_fastcdc_cut sc b))"

text \<open>The chunks of a whole stream.\<close>

function stream_cuts :: "snapshot_crates \<Rightarrow> bytes \<Rightarrow> bytes list" where
  "stream_cuts sc s =
     (if s = [] \<or> sc_fastcdc_cut sc s = 0 then [] else take (sc_fastcdc_cut sc s) s # stream_cuts sc (drop (sc_fastcdc_cut sc s) s))"
  by pat_completeness auto
termination
  by (relation "measure (\<lambda>(sc, s). length s)") auto

declare stream_cuts.simps [simp del]

lemma stream_cuts_step:
  assumes "cdc_laws sc" "b \<noteq> []"
  shows "stream_cuts sc b = take (sc_fastcdc_cut sc b) b # stream_cuts sc (drop (sc_fastcdc_cut sc b) b)"
  using assms by (subst stream_cuts.simps) (auto simp: cdc_laws_def)

lemma concat_stream_cuts: "cdc_laws sc \<Longrightarrow> concat (stream_cuts sc s) = s"
proof (induction "length s" arbitrary: s rule: less_induct)
  case less
  show ?case
  proof (cases "s = []")
    case False
    let ?c = "sc_fastcdc_cut sc s"
    have "0 < ?c" using less.prems False by (auto simp: cdc_laws_def)
    then have "concat (stream_cuts sc (drop ?c s)) = drop ?c s" using less.hyps [of "drop ?c s"] less.prems False by simp
    then show ?thesis by (simp add: stream_cuts_step [OF less.prems False])
  qed (simp add: stream_cuts.simps)
qed

definition chunk_entry :: "snapshot_crates \<Rightarrow> chunk_keys \<Rightarrow> bytes \<Rightarrow> manifest_chunk" where
  "chunk_entry sc k p = \<lparr>mc_id = keys_chunk_id sc k p, mc_plaintext_bytes = length p, mc_object_bytes = CHUNK_OVERHEAD + length p\<rparr>"

text \<open>The object of a plaintext is in the directory.\<close>

definition stored :: "snapshot_crates \<Rightarrow> chunk_keys \<Rightarrow> object_dir \<Rightarrow> bytes \<Rightarrow> bool" where
  "stored sc k d p \<longleftrightarrow> (\<exists>object. od_nodes d (hex_encode (sc_crates sc) (keys_chunk_id sc k p)) = Some (ObjectFile object)
     \<and> length object = CHUNK_OVERHEAD + length p \<and> keys_open sc k (keys_chunk_id sc k p) object = Inr p)"

text \<open>An object that stands under the name of a plaintext of \<open>P\<close> and has its length is its object.\<close>

definition dir_sound :: "snapshot_crates \<Rightarrow> chunk_keys \<Rightarrow> bytes set \<Rightarrow> object_dir \<Rightarrow> bool" where
  "dir_sound sc k P d \<longleftrightarrow> (\<forall>p \<in> P. \<forall>object. od_nodes d (hex_encode (sc_crates sc) (keys_chunk_id sc k p)) = Some (ObjectFile object)
     \<longrightarrow> length object = CHUNK_OVERHEAD + length p \<longrightarrow> keys_open sc k (keys_chunk_id sc k p) object = Inr p)"

lemma object_call_nodes: "object_call env d = (f, d') \<Longrightarrow> od_nodes d' = od_nodes d"
  by (auto simp: object_call_def)

lemma fill_random_run:
  "fill_random env n d = (r, d') \<Longrightarrow> od_nodes d' = od_nodes d \<and> (\<forall>bs. r = Inr bs \<longrightarrow> length bs = n)"
  by (auto simp: fill_random_def ok_or_def split: option.splits)

lemma random_suffix_nodes: "random_suffix cr env d = (r, d') \<Longrightarrow> od_nodes d' = od_nodes d"
  using fill_random_run [of env 8 d] by (auto simp: random_suffix_def split: prod.splits sum.splits)

lemma drop_temporary_run:
  "drop_temporary env t d = (r, d') \<Longrightarrow> (\<exists>e. r = Inl e) \<and> (\<forall>n. n \<noteq> t \<longrightarrow> od_nodes d' n = od_nodes d n)"
  by (auto simp: drop_temporary_def set_object_def object_call_def Let_def)

text \<open>Writing an object changes its own name, if it succeeds, and no other name without a leading dot.\<close>

lemma write_object_run:
  assumes "write_object cr env name object d = (r, d')"
  shows "\<And>n. n \<noteq> name \<Longrightarrow> \<not> (\<exists>m. n = CHR ''.'' # m) \<Longrightarrow> od_nodes d' n = od_nodes d n"
    "r = Inr () \<Longrightarrow> od_nodes d' name = Some (ObjectFile object)"
proof -
  obtain q d1 where 1: "random_suffix cr env d = (q, d1)" by (metis surj_pair)
  note n1 = random_suffix_nodes [OF 1]
  have "(\<forall>n. n \<noteq> name \<longrightarrow> \<not> (\<exists>m. n = CHR ''.'' # m) \<longrightarrow> od_nodes d' n = od_nodes d n) \<and> (r = Inr () \<longrightarrow> od_nodes d' name = Some (ObjectFile object))"
  proof (cases q)
    case (Inl e)
    then show ?thesis using assms 1 n1 by (auto simp: write_object_def)
  next
    case (Inr suffix)
    let ?t = "''.'' @ name @ ''.'' @ suffix @ ''.tmp''"
    have drop: "(\<forall>n. n \<noteq> name \<longrightarrow> \<not> (\<exists>m. n = CHR ''.'' # m) \<longrightarrow> od_nodes d' n = od_nodes d n) \<and> (r = Inr () \<longrightarrow> od_nodes d' name = Some (ObjectFile object))"
      if "drop_temporary env ?t d2 = (r, d')" "\<And>n. n \<noteq> ?t \<Longrightarrow> od_nodes d2 n = od_nodes d n" for d2
      using drop_temporary_run [OF that(1)] that(2) by auto
    obtain f2 d2 f3 d3 where 2: "object_call env d1 = (f2, d2)" and 3: "object_call env d2 = (f3, d3)" by (metis surj_pair)
    let ?d4 = "set_object ?t (Some (ObjectFile object)) d3"
    obtain f5 d5 f6 d6 where 5: "object_call env ?d4 = (f5, d5)" and 6: "object_call env d5 = (f6, d6)" by (metis surj_pair)
    have n: "od_nodes d2 = od_nodes d" "od_nodes d3 = od_nodes d" "od_nodes d5 = (od_nodes d)(?t := Some (ObjectFile object))" "od_nodes d6 = od_nodes d5"
      using n1 object_call_nodes [OF 2] object_call_nodes [OF 3] object_call_nodes [OF 5] object_call_nodes [OF 6] by (simp_all add: set_object_def)
    note run = assms [unfolded write_object_def 1 Inr prod.case sum.case Let_def 2 3 5 6]
    consider (create) "drop_temporary env ?t d2 = (r, d')"
      | (writing) "drop_temporary env ?t (set_object ?t (Some (ObjectFile (take (oe_partial env (od_calls d2)) object))) d3) = (r, d')"
      | (sync) "drop_temporary env ?t d5 = (r, d')" | (rename) "drop_temporary env ?t d6 = (r, d')"
      | (moved) "r = Inr ()" "d' = set_object name (Some (ObjectFile object)) (set_object ?t None d6)"
      using run by (simp split: if_splits)
    then show ?thesis
    proof cases
      case create
      then show ?thesis using drop [OF create] n by simp
    next
      case writing
      then show ?thesis using drop [OF writing] n by (simp add: set_object_def)
    next
      case sync
      then show ?thesis using drop [OF sync] n by simp
    next
      case rename
      then show ?thesis using drop [OF rename] n by simp
    next
      case moved
      then show ?thesis using n by (simp add: set_object_def)
    qed
  qed
  then show "\<And>n. n \<noteq> name \<Longrightarrow> \<not> (\<exists>m. n = CHR ''.'' # m) \<Longrightarrow> od_nodes d' n = od_nodes d n"
    "r = Inr () \<Longrightarrow> od_nodes d' name = Some (ObjectFile object)" by blast+
qed

section \<open>The writer\<close>

definition sink_laws :: "snapshot_crates \<Rightarrow> chunk_keys \<Rightarrow> bytes set \<Rightarrow> bool" where
  "sink_laws sc K P \<longleftrightarrow> aead_laws sc \<and> hex_laws (sc_crates sc) \<and> cdc_laws sc \<and> inj_on (keys_chunk_id sc K) P"

text \<open>What a successful step of the writer adds: the entries and objects of the plaintexts \<open>cs\<close>.\<close>

definition sink_added ::
  "snapshot_crates \<Rightarrow> chunk_keys \<Rightarrow> bytes set \<Rightarrow> bytes list \<Rightarrow> chunk_sink \<Rightarrow> object_dir \<Rightarrow> chunk_sink \<Rightarrow> object_dir \<Rightarrow> bool" where
  "sink_added sc K P cs k d k' d' \<longleftrightarrow> sk_keys k' = K \<and> sk_chunks k' = sk_chunks k @ map (chunk_entry sc K) cs
     \<and> dir_sound sc K P d' \<and> (\<forall>q \<in> P. stored sc K d q \<longrightarrow> stored sc K d' q) \<and> (\<forall>p \<in> set cs. stored sc K d' p)"

lemma sink_added_trans:
  assumes "sink_added sc K P cs k d k1 d1" "sink_added sc K P cs' k1 d1 k2 d2" "set cs \<subseteq> P"
  shows "sink_added sc K P (cs @ cs') k d k2 d2"
  using assms unfolding sink_added_def by auto

lemma hex_name:
  assumes "hex_laws cr"
  shows "hex_encode cr a = hex_encode cr b \<longleftrightarrow> a = b" "hex_encode cr a \<noteq> CHR ''.'' # m"
proof -
  show "hex_encode cr a = hex_encode cr b \<longleftrightarrow> a = b" using assms by (auto simp: hex_laws_def inj_eq)
  have "list_all is_lower_hex_digit (hex_encode cr a)" using assms by (simp add: hex_laws_def)
  then show "hex_encode cr a \<noteq> CHR ''.'' # m" by (auto simp: is_lower_hex_digit_def is_ascii_digit_def)
qed

lemma sink_store_reuse:
  assumes "dir_sound sc K P d" "p \<in> P" "od_nodes d (hex_encode (sc_crates sc) (keys_chunk_id sc K p)) = Some (ObjectFile object)"
    "length object = CHUNK_OVERHEAD + length p"
  shows "stored sc K d p"
  using assms by (auto simp: dir_sound_def stored_def)

lemma stored_cong: "od_nodes d' (hex_encode (sc_crates sc) (keys_chunk_id sc K p)) = od_nodes d (hex_encode (sc_crates sc) (keys_chunk_id sc K p))
    \<Longrightarrow> stored sc K d' p = stored sc K d p"
  by (simp add: stored_def)

lemma sink_store_fresh:
  assumes l: "sink_laws sc K P" and p: "p \<in> P" and sound: "dir_sound sc K P d"
    and free: "od_nodes d (hex_encode (sc_crates sc) (keys_chunk_id sc K p)) = None" and nonce: "length nonce = CHUNK_NONCE_LEN"
    and run: "write_object (sc_crates sc) env (hex_encode (sc_crates sc) (keys_chunk_id sc K p)) (sl_object (keys_seal sc K nonce p)) d = (Inr (), d')"
  shows "dir_sound sc K P d' \<and> (\<forall>q \<in> P. stored sc K d q \<longrightarrow> stored sc K d' q) \<and> stored sc K d' p"
proof -
  let ?n = "\<lambda>q. hex_encode (sc_crates sc) (keys_chunk_id sc K q)"
  have hex: "hex_laws (sc_crates sc)" and aead: "aead_laws sc" and inj: "inj_on (keys_chunk_id sc K) P" using l by (simp_all add: sink_laws_def)
  note w = write_object_run [OF run]
  have other: "od_nodes d' (?n q) = od_nodes d (?n q)" if "q \<in> P" "q \<noteq> p" for q
  proof -
    have "keys_chunk_id sc K q \<noteq> keys_chunk_id sc K p" using inj that p by (auto dest: inj_onD)
    then show ?thesis using w(1) [of "?n q"] hex_name [OF hex] by simp
  qed
  note o = keys_open_seal [OF aead nonce, of K p]
  have st: "stored sc K d' p" using w(2) o by (simp add: stored_def)
  have "dir_sound sc K P d'"
    unfolding dir_sound_def
  proof (intro ballI allI impI)
    fix q object
    assume q: "q \<in> P" "od_nodes d' (?n q) = Some (ObjectFile object)" "length object = CHUNK_OVERHEAD + length q"
    show "keys_open sc K (keys_chunk_id sc K q) object = Inr q"
    proof (cases "q = p")
      case True
      then show ?thesis using q w(2) o(1) by simp
    next
      case False
      then show ?thesis using q other [OF q(1)] sound by (simp add: dir_sound_def)
    qed
  qed
  moreover have "stored sc K d' q" if "q \<in> P" "stored sc K d q" for q
    using st stored_cong [OF other [OF that(1)]] that(2) by (cases "q = p") auto
  ultimately show ?thesis using st by blast
qed

lemma dir_sound_cong: "od_nodes d' = od_nodes d \<Longrightarrow> dir_sound sc K P d' = dir_sound sc K P d"
  by (simp add: dir_sound_def)

lemma sink_store_run:
  assumes l: "sink_laws sc (sk_keys k) P" and p: "p \<in> P" and sound: "dir_sound sc (sk_keys k) P d"
    and run: "sink_store sc env p k d = (Inr (), k', d')"
  shows "sink_added sc (sk_keys k) P [p] k d k' d' \<and> sk_buffer k' = sk_buffer k"
proof -
  let ?K = "sk_keys k" and ?n = "hex_encode (sc_crates sc) (keys_chunk_id sc (sk_keys k) p)"
  obtain f d1 where 1: "object_call env d = (f, d1)" by (metis surj_pair)
  have n1: "od_nodes d1 = od_nodes d" by (rule object_call_nodes [OF 1])
  note run = run [unfolded sink_store_def Let_def 1 prod.case]
  have nf: "\<not> f" using run by auto
  show ?thesis
  proof (cases "od_nodes d1 ?n")
    case None
    obtain r nonce d2 where 2: "fill_random env CHUNK_NONCE_LEN d1 = (Inr nonce, d2)"
      using run nf None by (auto split: prod.splits sum.splits)
    obtain d3 where 3: "write_object (sc_crates sc) env ?n (sl_object (keys_seal sc ?K nonce p)) d2 = (Inr (), d3)"
      using run nf None 2 by (auto split: prod.splits sum.splits)
    have n2: "od_nodes d2 = od_nodes d" "length nonce = CHUNK_NONCE_LEN" using fill_random_run [OF 2] n1 by auto
    have "d' = d3" "sk_keys k' = ?K" "sk_chunks k' = sk_chunks k @ [chunk_entry sc ?K p]" "sk_buffer k' = sk_buffer k"
      using run nf None 2 3 by (auto simp: push_chunk_def chunk_entry_def)
    moreover have "dir_sound sc ?K P d3 \<and> (\<forall>q \<in> P. stored sc ?K d2 q \<longrightarrow> stored sc ?K d3 q) \<and> stored sc ?K d3 p"
      using sink_store_fresh [OF l p _ _ n2(2) 3] None n1 n2(1) sound dir_sound_cong [OF n2(1), of sc ?K P] by simp
    moreover have "stored sc ?K d2 q = stored sc ?K d q" for q by (rule stored_cong) (simp add: n2)
    ultimately show ?thesis by (simp add: sink_added_def)
  next
    case (Some v)
    then obtain object where v: "v = ObjectFile object" "length object = CHUNK_OVERHEAD + length p" "d' = d1"
        "sk_keys k' = ?K" "sk_chunks k' = sk_chunks k @ [chunk_entry sc ?K p]" "sk_buffer k' = sk_buffer k"
      using run nf by (cases v) (auto simp: push_chunk_def chunk_entry_def split: if_splits)
    have "stored sc ?K d1 q = stored sc ?K d q" for q by (rule stored_cong) (simp add: n1)
    moreover have "stored sc ?K d p" using sink_store_reuse [OF sound p] Some v n1 by simp
    ultimately show ?thesis using v sound dir_sound_cong [OF n1, of sc ?K P] by (simp add: sink_added_def)
  qed
qed

lemma sink_cut_while_run:
  assumes l: "sink_laws sc K P" and again: "\<And>b. again b \<Longrightarrow> b \<noteq> [] \<and> sc_fastcdc_cut sc (b @ rest) = sc_fastcdc_cut sc b"
    and "sk_keys k = K" "dir_sound sc K P d" "set (stream_cuts sc (sk_buffer k @ rest)) \<subseteq> P"
    and "sink_cut_while fuel sc env again k d = (Inr (), k', d')"
  shows "\<exists>cs. stream_cuts sc (sk_buffer k @ rest) = cs @ stream_cuts sc (sk_buffer k' @ rest) \<and> \<not> again (sk_buffer k')
    \<and> sink_added sc K P cs k d k' d'"
  using assms(3-6)
proof (induction fuel arbitrary: k d)
  case 0
  then show ?case by (auto simp: sink_cut_while.simps sink_added_def split: if_splits intro!: exI [of _ "[]"])
next
  case (Suc fuel)
  show ?case
  proof (cases "again (sk_buffer k)")
    case False
    then show ?thesis using Suc.prems by (auto simp: sink_cut_while.simps sink_added_def intro!: exI [of _ "[]"])
  next
    case True
    let ?b = "sk_buffer k" and ?c = "sc_fastcdc_cut sc (sk_buffer k)"
    have cdc: "cdc_laws sc" using l by (simp add: sink_laws_def)
    have b: "?b \<noteq> []" "sc_fastcdc_cut sc (?b @ rest) = ?c" "?c \<le> length ?b" using again [OF True] cdc by (auto simp: cdc_laws_def)
    have cuts: "stream_cuts sc (?b @ rest) = take ?c ?b # stream_cuts sc (drop ?c ?b @ rest)"
      using stream_cuts_step [OF cdc, of "?b @ rest"] b by simp
    let ?k = "k\<lparr>sk_buffer := drop ?c ?b\<rparr>"
    obtain q k1 d1 where 1: "sink_store sc env (take ?c ?b) ?k d = (q, k1, d1)" by (metis surj_pair)
    have q: "q = Inr ()" and run: "sink_cut_while fuel sc env again k1 d1 = (Inr (), k', d')"
      using Suc.prems(4) True 1 by (auto simp: sink_cut_while.simps [of "Suc fuel"] sink_cut_one_def Let_def split: sum.splits)
    have one: "sink_added sc K P [take ?c ?b] ?k d k1 d1" "sk_buffer k1 = drop ?c ?b"
      using sink_store_run [of sc ?k P "take ?c ?b" d env k1 d1] l Suc.prems 1 q cuts by auto
    then have one': "sink_added sc K P [take ?c ?b] k d k1 d1" by (simp add: sink_added_def)
    obtain cs where cs: "stream_cuts sc (sk_buffer k1 @ rest) = cs @ stream_cuts sc (sk_buffer k' @ rest)" "\<not> again (sk_buffer k')"
        "sink_added sc K P cs k1 d1 k' d'"
      using Suc.IH [OF _ _ _ run] one Suc.prems(3) cuts by (auto simp: sink_added_def)
    have "sink_added sc K P (take ?c ?b # cs) k d k' d'"
      using sink_added_trans [OF one' cs(3)] Suc.prems(3) cuts by simp
    then show ?thesis using cs cuts one(2) by (intro exI [of _ "take ?c ?b # cs"]) simp
  qed
qed

lemma sink_archive_run:
  assumes l: "sink_laws sc K P"
    and "sk_keys k = K" "dir_sound sc K P d" "set (stream_cuts sc (sk_buffer k @ concat bufs)) \<subseteq> P"
    and "sink_archive sc env bufs k d = (Inr (), k', d')"
  shows "sink_added sc K P (stream_cuts sc (sk_buffer k @ concat bufs)) k d k' d'"
  using assms(2-5)
proof (induction bufs arbitrary: k d)
  case Nil
  then obtain cs where "stream_cuts sc (sk_buffer k @ []) = cs @ stream_cuts sc (sk_buffer k' @ [])" "sk_buffer k' = []" "sink_added sc K P cs k d k' d'"
    using sink_cut_while_run [OF l, of "\<lambda>b. b \<noteq> []" "[]" k d "length (sk_buffer k)" env k' d'] by (auto simp: sink_flush_all_def)
  then show ?case by (simp add: stream_cuts.simps [of sc "[]"])
next
  case (Cons buf bufs)
  have cdc: "cdc_laws sc" using l by (simp add: sink_laws_def)
  let ?k = "k\<lparr>sk_buffer := sk_buffer k @ buf\<rparr>"
  obtain q k1 d1 where 1: "sink_write sc env buf k d = (q, k1, d1)" by (metis surj_pair)
  have q: "q = Inr ()" and run: "sink_archive sc env bufs k1 d1 = (Inr (), k', d')"
    using Cons.prems(4) 1 by (auto split: sum.splits)
  have "b \<noteq> [] \<and> sc_fastcdc_cut sc (b @ concat bufs) = sc_fastcdc_cut sc b" if "length b \<ge> CHUNK_MAX_BYTES" for b :: bytes
  proof -
    have "b \<noteq> []" using that by (auto simp: CHUNK_MAX_BYTES_def)
    then show ?thesis using cdc that by (simp add: cdc_laws_def)
  qed
  then obtain cs where cs: "stream_cuts sc (sk_buffer k @ buf @ concat bufs) = cs @ stream_cuts sc (sk_buffer k1 @ concat bufs)"
      "sink_added sc K P cs ?k d k1 d1"
    using sink_cut_while_run [OF l, of "\<lambda>b. length b \<ge> CHUNK_MAX_BYTES" "concat bufs" ?k d "length (sk_buffer k @ buf)" env k1 d1] Cons.prems 1 q
    by (auto simp: sink_write_def Let_def)
  have "sink_added sc K P (stream_cuts sc (sk_buffer k1 @ concat bufs)) k1 d1 k' d'"
    using Cons.IH [OF _ _ _ run] cs Cons.prems(3) by (auto simp: sink_added_def)
  then have "sink_added sc K P (cs @ stream_cuts sc (sk_buffer k1 @ concat bufs)) ?k d k' d'"
    using sink_added_trans [OF cs(2)] cs(1) Cons.prems(3) by simp
  then show ?case using cs(1) by (simp add: sink_added_def)
qed

section \<open>The reader\<close>

definition opened :: "snapshot_crates \<Rightarrow> chunk_keys \<Rightarrow> manifest_chunk list \<Rightarrow> bytes list \<Rightarrow> bool" where
  "opened sc K cs ps \<longleftrightarrow> list_all2 (\<lambda>c p. keys_chunk_id sc K p = mc_id c) cs ps"

lemma stream_load_id: "stream_load sc env K c d = (Inr p, d') \<Longrightarrow> keys_chunk_id sc K p = mc_id c"
  using keys_open_id [of sc K "mc_id c"]
  by (auto simp: stream_load_def Let_def map_err_def split: prod.splits if_splits opened_node.splits sum.splits)

lemma stream_refill_opened:
  assumes "stream_refill sc env K cs current d = (Inr (cs', current'), d')"
  shows "\<exists>read ps. cs = read @ cs' \<and> opened sc K read ps \<and> current' = current @ concat ps \<and> (current' = [] \<longrightarrow> cs' = [])"
  using assms
proof (induction sc env K cs current d rule: stream_refill.induct)
  case (1 sc env k cs b bs d)
  then show ?case by (intro exI [of _ "[]"]) (auto simp: opened_def)
next
  case (2 sc env k d)
  then show ?case by (intro exI [of _ "[]"]) (auto simp: opened_def)
next
  case (3 sc env k c cs d)
  obtain p d1 where 1: "stream_load sc env k c d = (Inr p, d1)" and run: "stream_refill sc env k cs p d1 = (Inr (cs', current'), d')"
    using 3(2) by (auto split: prod.splits sum.splits)
  obtain read ps where r: "cs = read @ cs'" "opened sc k read ps" "current' = p @ concat ps" "current' = [] \<longrightarrow> cs' = []"
    using 3(1) [OF 1 [symmetric] refl run] by blast
  then have "opened sc k (c # read) (p # ps)" using stream_load_id [OF 1] by (simp add: opened_def)
  then show ?case using r by (intro exI [of _ "c # read"] exI [of _ "p # ps"]) auto
qed

lemma stream_read_opened:
  assumes "stream_read sc env n st d = (Inr (bs, st'), d')" "0 < n"
  shows "\<exists>read ps. st_chunks st = read @ st_chunks st' \<and> opened sc (st_keys st) read ps \<and> st_keys st' = st_keys st
    \<and> st_current st @ concat ps = bs @ st_current st' \<and> (bs = [] \<longrightarrow> st_chunks st' = [] \<and> st_current st' = [])"
proof -
  obtain cs current where 1: "stream_refill sc env (st_keys st) (st_chunks st) (st_current st) d = (Inr (cs, current), d')"
    and st: "bs = take n current" "st' = st\<lparr>st_chunks := cs, st_current := drop n current\<rparr>"
    using assms(1) by (auto simp: stream_read_def split: prod.splits sum.splits)
  show ?thesis using stream_refill_opened [OF 1] st assms(2) by auto
qed

lemma stream_read_all_opened:
  assumes "stream_read_all sc env ns st d = (Inr bs, d')" "list_all (\<lambda>n. 0 < n) ns"
  shows "\<exists>read ps left rest. st_chunks st = read @ left \<and> opened sc (st_keys st) read ps \<and> st_current st @ concat ps = bs @ rest
    \<and> (length bs < length ns \<longrightarrow> left = [] \<and> rest = [])"
  using assms
proof (induction ns arbitrary: st d bs)
  case Nil
  then have "st_chunks st = [] @ st_chunks st \<and> opened sc (st_keys st) [] [] \<and> st_current st @ concat [] = bs @ st_current st"
    by (simp add: opened_def)
  then show ?case by (metis list.size(3) not_less_zero)
next
  case (Cons n ns)
  obtain b st1 d1 where 1: "stream_read sc env n st d = (Inr (b, st1), d1)" using Cons.prems(1) by (auto split: prod.splits sum.splits)
  obtain read ps where r: "st_chunks st = read @ st_chunks st1" "opened sc (st_keys st) read ps" "st_keys st1 = st_keys st"
      "st_current st @ concat ps = b @ st_current st1" "b = [] \<longrightarrow> st_chunks st1 = [] \<and> st_current st1 = []"
    using stream_read_opened [OF 1] Cons.prems(2) by auto
  show ?case
  proof (cases "b = []")
    case True
    then have "bs = []" using Cons.prems(1) 1 by simp
    then show ?thesis using r True by (intro exI [of _ read] exI [of _ ps] exI [of _ "[]"]) auto
  next
    case False
    obtain bs1 where 2: "stream_read_all sc env ns st1 d1 = (Inr bs1, d')" "bs = b @ bs1"
      using Cons.prems(1) 1 False by (auto split: prod.splits sum.splits)
    obtain read1 ps1 left rest where s: "st_chunks st1 = read1 @ left" "opened sc (st_keys st) read1 ps1"
        "st_current st1 @ concat ps1 = bs1 @ rest" "length bs1 < length ns \<longrightarrow> left = [] \<and> rest = []"
      using Cons.IH [OF 2(1)] Cons.prems(2) r(3) by auto
    have "opened sc (st_keys st) (read @ read1) (ps @ ps1)" using r(2) s(2) by (auto simp: opened_def intro: list_all2_appendI)
    moreover have "st_current st @ concat (ps @ ps1) = bs @ rest" using r(4) s(3) 2(2) by (metis append.assoc concat_append)
    moreover have "length bs1 < length ns" if "length bs < length (n # ns)" using that 2(2) False by (cases b) auto
    ultimately show ?thesis using r(1) s(1,4)
      by (intro exI [of _ "read @ read1"] exI [of _ "ps @ ps1"] exI [of _ left] exI [of _ rest]) auto
  qed
qed

text \<open>
  C16.  A restore delivers only authentic bytes: whatever the object directory holds and whichever accesses fail, a
  stream read to its end consists of one plaintext per chunk of the manifest, in order, each with the keyed hash
  the manifest names, and the manifest's signature by the trusted key verified.
\<close>

theorem restored_stream_authentic:
  assumes run: "restore_stream sc env sizes smf dek trust d = (Inr bs, d')"
    and sizes: "list_all (\<lambda>n. 0 < n) sizes" "length bs < length sizes"
  shows "(\<exists>ps. bs = concat ps \<and> list_all2 (\<lambda>c p. chunk_id sc dek (mf_lineage (sm_manifest smf)) p = mc_id c) (mf_chunks (sm_manifest smf)) ps)
    \<and> (\<exists>b. manifest_canonical_bytes (sc_crates sc) (sm_manifest smf) = Inr b
        \<and> sc_ed25519_verify sc (rt_signer trust) (SIGNATURE_DOMAIN @ sha256_digest (sc_crates sc) b) (sm_signature smf))"
proof -
  let ?m = "sm_manifest smf"
  let ?st = "\<lparr>st_keys = chunk_keys_new sc dek (mf_lineage ?m), st_chunks = mf_chunks ?m, st_current = []\<rparr>"
  obtain d1 where 1: "restore_checks sc env smf trust d = (Inr (), d1)" and 2: "stream_read_all sc env sizes ?st d1 = (Inr bs, d')"
    using run by (auto simp: restore_stream_def split: prod.splits sum.splits)
  obtain x where v: "verify_signature sc ?m (sm_signature smf) (rt_signer trust) = Inr x"
    using 1 by (cases "verify_signature sc ?m (sm_signature smf) (rt_signer trust)") (auto simp: restore_checks_def Let_def map_err_def)
  then have "\<exists>b. manifest_canonical_bytes (sc_crates sc) ?m = Inr b
      \<and> sc_ed25519_verify sc (rt_signer trust) (SIGNATURE_DOMAIN @ sha256_digest (sc_crates sc) b) (sm_signature smf)"
    by (auto simp: verify_signature_def manifest_digest_def res_simps verify_digest_def signed_message_def split: if_splits)
  moreover have "\<exists>ps. bs = concat ps \<and> list_all2 (\<lambda>c p. chunk_id sc dek (mf_lineage ?m) p = mc_id c) (mf_chunks ?m) ps"
    using stream_read_all_opened [OF 2 sizes(1)] sizes(2) by (auto simp: opened_def chunk_id_def)
  ultimately show ?thesis by blast
qed

section \<open>The round trip\<close>

definition faultless :: "object_env \<Rightarrow> bool" where
  "faultless env \<longleftrightarrow> (\<forall>k. \<not> oe_fails env k)"

lemma faultless_call: "faultless env \<Longrightarrow> object_call env d = (False, d\<lparr>od_calls := od_calls d + 1\<rparr>)"
  by (simp add: faultless_def object_call_def)

lemma stored_calls [simp]: "stored sc K (d\<lparr>od_calls := n\<rparr>) p = stored sc K d p"
  by (rule stored_cong) simp

lemma stream_load_stored:
  assumes "faultless env" "stored sc K d p"
  shows "\<exists>n. stream_load sc env K (chunk_entry sc K p) d = (Inr p, d\<lparr>od_calls := n\<rparr>)"
proof -
  obtain object where o: "od_nodes d (hex_encode (sc_crates sc) (keys_chunk_id sc K p)) = Some (ObjectFile object)"
      "length object = CHUNK_OVERHEAD + length p" "keys_open sc K (keys_chunk_id sc K p) object = Inr p"
    using assms(2) by (auto simp: stored_def)
  then show ?thesis
    by (intro exI [of _ "od_calls d + 2"]) (simp add: stream_load_def chunk_entry_def faultless_call [OF assms(1)] Let_def map_err_def)
qed

lemma stream_refill_stored:
  assumes "faultless env" "\<forall>p \<in> set ps. stored sc K d p"
  shows "\<exists>qs current' n. stream_refill sc env K (map (chunk_entry sc K) ps) current d = (Inr (map (chunk_entry sc K) qs, current'), d\<lparr>od_calls := n\<rparr>)
    \<and> current @ concat ps = current' @ concat qs \<and> set qs \<subseteq> set ps \<and> (current' = [] \<longrightarrow> qs = [])"
  using assms(2)
proof (induction ps arbitrary: current d)
  case Nil
  then show ?case by (cases current) (auto intro: exI [of _ "od_calls d"])
next
  case (Cons p ps)
  show ?case
  proof (cases current)
    case (Cons b bs)
    then show ?thesis by (intro exI [of _ "p # ps"] exI [of _ "b # bs"] exI [of _ "od_calls d"]) auto
  next
    case Nil
    obtain n where n: "stream_load sc env K (chunk_entry sc K p) d = (Inr p, d\<lparr>od_calls := n\<rparr>)"
      using stream_load_stored [OF assms(1), of sc K d p] Cons.prems by auto
    obtain qs c m where "stream_refill sc env K (map (chunk_entry sc K) ps) p (d\<lparr>od_calls := n\<rparr>) = (Inr (map (chunk_entry sc K) qs, c), d\<lparr>od_calls := n, od_calls := m\<rparr>)"
        "p @ concat ps = c @ concat qs" "set qs \<subseteq> set ps" "c = [] \<longrightarrow> qs = []"
      using Cons.IH [of "d\<lparr>od_calls := n\<rparr>" p] Cons.prems by auto
    then show ?thesis using Nil n by (intro exI [of _ qs] exI [of _ c] exI [of _ m]) auto
  qed
qed

lemma stream_read_all_stored:
  assumes f: "faultless env" and ns: "list_all (\<lambda>n. 0 < n) ns" "length (current @ concat ps) < length ns" and st: "\<forall>p \<in> set ps. stored sc K d p"
  shows "fst (stream_read_all sc env ns \<lparr>st_keys = K, st_chunks = map (chunk_entry sc K) ps, st_current = current\<rparr> d) = Inr (current @ concat ps)"
  using ns st
proof (induction ns arbitrary: current ps d)
  case (Cons n ns)
  obtain qs c k where r: "stream_refill sc env K (map (chunk_entry sc K) ps) current d = (Inr (map (chunk_entry sc K) qs, c), d\<lparr>od_calls := k\<rparr>)"
      "current @ concat ps = c @ concat qs" "set qs \<subseteq> set ps" "c = [] \<longrightarrow> qs = []"
    using stream_refill_stored [OF f Cons.prems(3)] by metis
  let ?st = "\<lparr>st_keys = K, st_chunks = map (chunk_entry sc K) qs, st_current = drop n c\<rparr>"
  have read: "stream_read sc env n \<lparr>st_keys = K, st_chunks = map (chunk_entry sc K) ps, st_current = current\<rparr> d = (Inr (take n c, ?st), d\<lparr>od_calls := k\<rparr>)"
    using r(1) by (simp add: stream_read_def)
  show ?case
  proof (cases "c = []")
    case True
    then show ?thesis using read r(2,4) by simp
  next
    case False
    have n: "0 < n" using Cons.prems(1) by simp
    then have "0 < length (take n c)" using False by simp
    then have len: "length (drop n c @ concat qs) < length ns"
      using Cons.prems(2) arg_cong [OF r(2), of length] n False by (cases c) auto
    have "fst (stream_read_all sc env ns ?st (d\<lparr>od_calls := k\<rparr>)) = Inr (drop n c @ concat qs)"
      using Cons.IH [OF _ len, of "d\<lparr>od_calls := k\<rparr>"] Cons.prems(1,3) r(3) by (auto simp: subset_iff)
    then obtain d2 where "stream_read_all sc env ns ?st (d\<lparr>od_calls := k\<rparr>) = (Inr (drop n c @ concat qs), d2)" by (metis fst_conv surj_pair)
    moreover have "take n c \<noteq> []" using n False by simp
    ultimately show ?thesis using read r(2) by (simp flip: append.assoc)
  qed
qed simp

lemma check_objects_stored:
  assumes "faultless env" "\<forall>p \<in> set ps. stored sc K d p \<and> length p \<le> MAX_CHUNK_PLAINTEXT_BYTES"
  shows "\<exists>n. check_objects (sc_crates sc) env (map (chunk_entry sc K) ps) d = (Inr (), d\<lparr>od_calls := n\<rparr>)"
  using assms(2)
proof (induction ps arbitrary: d)
  case Nil
  then show ?case by (auto intro: exI [of _ "od_calls d"])
next
  case (Cons p ps)
  have "check_object (sc_crates sc) env (chunk_entry sc K p) d = (Inr (), d\<lparr>od_calls := od_calls d + 1\<rparr>)"
    using Cons.prems by (auto simp: check_object_def chunk_entry_def faultless_call [OF assms(1)] stored_def Let_def)
  then show ?case using Cons.IH [of "d\<lparr>od_calls := od_calls d + 1\<rparr>"] Cons.prems by auto
qed

lemma stream_cuts_bounded: "cdc_laws sc \<Longrightarrow> p \<in> set (stream_cuts sc s) \<Longrightarrow> length p \<le> MAX_CHUNK_PLAINTEXT_BYTES"
proof (induction sc s rule: stream_cuts.induct)
  case (1 sc s)
  then show ?case
    by (subst (asm) (2) stream_cuts.simps) (auto simp: cdc_laws_def CHUNK_MAX_BYTES_def MAX_CHUNK_PLAINTEXT_BYTES_def split: if_splits)
qed

text \<open>The manifest of a snapshot differs from the one checked before the archive only in its chunks and their total.\<close>

lemma verify_successor_chunks:
  assumes "verify_successor cr p m = Inr ()" "check_well_formed cr (m\<lparr>mf_plaintext_bytes := n, mf_chunks := cs\<rparr>) = Inr ()"
  shows "verify_successor cr p (m\<lparr>mf_plaintext_bytes := n, mf_chunks := cs\<rparr>) = Inr ()"
  using assms by (auto simp: verify_successor_def res_simps split: if_splits)

lemma chained_manifest_Inr:
  "chained_manifest cr previous m = Inr m' \<Longrightarrow> mf_lineage m' = mf_lineage m \<and> mf_writer m' = mf_writer m
     \<and> (\<forall>p. previous = Some p \<longrightarrow> verify_successor cr p m' = Inr ())"
  by (auto simp: chained_manifest_def Let_def res_simps split: option.splits)

lemma sign_manifest_Inr:
  assumes "sign_manifest sc m signer = Inr sig"
  shows "check_well_formed (sc_crates sc) m = Inr ()" "\<exists>x. verify_signature sc m sig (mw_signer_public_key (mf_writer m)) = Inr x"
  using assms
  by (auto simp: sign_manifest_def verify_signature_def manifest_digest_def manifest_canonical_bytes_def map_err_def res_simps split: sum.splits if_splits)

lemma snapshot_write_cases:
  assumes "snapshot_write sc env bufs dek l previous signer d = (Inr (smf, report), d')"
  obtains m k where "chained_manifest (sc_crates sc) previous (blank_manifest l (ss_public_key signer)) = Inr m"
    "sink_archive sc env bufs \<lparr>sk_keys = chunk_keys_new sc dek (sn_lineage l), sk_buffer = [], sk_chunks = [],
       sk_report = \<lparr>wr_chunks_written = 0, wr_chunks_reused = 0\<rparr>\<rparr> d = (Inr (), k, d')"
    "sm_manifest smf = m\<lparr>mf_plaintext_bytes := sum_list (map mc_plaintext_bytes (sk_chunks k)), mf_chunks := sk_chunks k\<rparr>"
    "sign_manifest sc (sm_manifest smf) signer = Inr (sm_signature smf)"
  using assms by (auto simp: snapshot_write_def Let_def res_simps split: sum.splits prod.splits)

text \<open>
  C15.  Writing and restoring a snapshot is the identity on its stream: when a write has succeeded, whatever earlier
  snapshots share its object directory, a restore from that directory by a reader that trusts the writer's key and
  the same predecessor passes every check and delivers exactly the bytes that were archived, in whatever pieces
  they were written and are read. The chunks are those of the whole stream, independent of these pieces. Assumed
  are the laws of the crates, that no two chunks of this stream collide under the keyed hash, that an object under
  the name and with the length of one of them is its object, and that no access fails while restoring.
\<close>

theorem snapshot_roundtrip:
  fixes sc :: snapshot_crates and dek :: bytes and l :: snapshot_lineage
  defines "K \<equiv> chunk_keys_new sc dek (sn_lineage l)"
  assumes laws: "sink_laws sc K (set (stream_cuts sc (concat bufs)))" and sound: "dir_sound sc K (set (stream_cuts sc (concat bufs))) d"
    and run: "snapshot_write sc env bufs dek l previous signer d = (Inr (smf, report), d')"
    and reader: "faultless env'" "list_all (\<lambda>n. 0 < n) sizes" "length (concat bufs) < length sizes"
      "trust = \<lparr>rt_signer = ss_public_key signer, rt_previous = previous\<rparr>"
  shows "fst (restore_stream sc env' sizes smf dek trust d') = Inr (concat bufs)
    \<and> mf_chunks (sm_manifest smf) = map (chunk_entry sc K) (stream_cuts sc (concat bufs))"
proof -
  let ?m = "sm_manifest smf" and ?ps = "stream_cuts sc (concat bufs)"
  obtain m k where w: "chained_manifest (sc_crates sc) previous (blank_manifest l (ss_public_key signer)) = Inr m"
      "sink_archive sc env bufs \<lparr>sk_keys = K, sk_buffer = [], sk_chunks = [], sk_report = \<lparr>wr_chunks_written = 0, wr_chunks_reused = 0\<rparr>\<rparr> d = (Inr (), k, d')"
      "?m = m\<lparr>mf_plaintext_bytes := sum_list (map mc_plaintext_bytes (sk_chunks k)), mf_chunks := sk_chunks k\<rparr>"
      "sign_manifest sc ?m signer = Inr (sm_signature smf)"
    unfolding K_def by (rule snapshot_write_cases [OF run])
  have cdc: "cdc_laws sc" using laws by (simp add: sink_laws_def)
  have added: "mf_chunks ?m = map (chunk_entry sc K) ?ps" "\<forall>p \<in> set ?ps. stored sc K d' p"
    using sink_archive_run [OF laws _ sound _ w(2)] w(3) by (auto simp: sink_added_def)
  have c: "mf_lineage ?m = sn_lineage l" "mw_signer_public_key (mf_writer ?m) = ss_public_key signer"
      "\<forall>p. previous = Some p \<longrightarrow> verify_successor (sc_crates sc) p m = Inr ()"
    using chained_manifest_Inr [OF w(1)] w(3) by (auto simp: blank_manifest_def)
  note sig = sign_manifest_Inr [OF w(4)]
  obtain x where v: "verify_signature sc ?m (sm_signature smf) (ss_public_key signer) = Inr x" using sig(2) c(2) by auto
  have succ: "(case previous of None \<Rightarrow> Inr () | Some p \<Rightarrow> verify_successor (sc_crates sc) p ?m) = Inr ()"
    using c(3) verify_successor_chunks sig(1) w(3) by (auto split: option.split)
  obtain n where o: "check_objects (sc_crates sc) env' (mf_chunks ?m) d' = (Inr (), d'\<lparr>od_calls := n\<rparr>)"
    using check_objects_stored [OF reader(1), of ?ps sc K d'] added stream_cuts_bounded [OF cdc] by auto
  have checks: "restore_checks sc env' smf trust d' = (Inr (), d'\<lparr>od_calls := n\<rparr>)"
    using v succ o by (simp add: restore_checks_def reader(4) Let_def map_err_def)
  have "fst (stream_read_all sc env' sizes \<lparr>st_keys = K, st_chunks = map (chunk_entry sc K) ?ps, st_current = []\<rparr> (d'\<lparr>od_calls := n\<rparr>)) = Inr ([] @ concat ?ps)"
    by (rule stream_read_all_stored [OF reader(1,2)]) (use reader(3) added(2) concat_stream_cuts [OF cdc] in auto)
  then show ?thesis using checks added(1) c(1) by (simp add: restore_stream_def concat_stream_cuts [OF cdc] K_def)
qed

text \<open>The length of the buffer is enough fuel for the cutting loops: they never end for lack of it.\<close>

lemma write_object_error: "fst (write_object cr env name object d) \<noteq> Inl ArchiveInvalid"
  by (auto simp: write_object_def random_suffix_def fill_random_def drop_temporary_def ok_or_def Let_def split: prod.splits sum.splits option.splits)

lemma sink_store_error: "fst (sink_store sc env p k d) \<noteq> Inl ArchiveInvalid"
proof -
  have "fst (fill_random env n d) \<noteq> Inl ArchiveInvalid" for n d by (simp add: fill_random_def ok_or_def split: option.splits)
  moreover note write_object_error
  ultimately show ?thesis
    by (auto simp: sink_store_def Let_def split: prod.splits sum.splits option.splits object_node.splits) (metis fst_conv)+
qed

lemma sink_store_buffer: "sk_buffer (fst (snd (sink_store sc env p k d))) = sk_buffer k"
  by (auto simp: sink_store_def push_chunk_def Let_def split: prod.splits sum.splits option.splits object_node.splits)

lemma sink_cut_while_enough:
  assumes "cdc_laws sc" "\<And>b. again b \<Longrightarrow> b \<noteq> []" "length (sk_buffer k) \<le> fuel"
  shows "fst (sink_cut_while fuel sc env again k d) \<noteq> Inl ArchiveInvalid"
  using assms(3)
proof (induction fuel arbitrary: k d)
  case 0
  then show ?case using assms(2) [of "[]"] by (auto simp: sink_cut_while.simps)
next
  case (Suc n)
  obtain q k1 d1 where c: "sink_cut_one sc env k d = (q, k1, d1)" by (metis surj_pair)
  let ?cut = "sc_fastcdc_cut sc (sk_buffer k)"
  have "sk_buffer k1 = drop ?cut (sk_buffer k)" "q \<noteq> Inl ArchiveInvalid"
    using c sink_store_buffer [of sc env "take ?cut (sk_buffer k)" "k\<lparr>sk_buffer := drop ?cut (sk_buffer k)\<rparr>" d]
      sink_store_error [of sc env "take ?cut (sk_buffer k)" "k\<lparr>sk_buffer := drop ?cut (sk_buffer k)\<rparr>" d]
    by (simp_all add: sink_cut_one_def Let_def)
  moreover have "again (sk_buffer k) \<Longrightarrow> length (drop ?cut (sk_buffer k)) \<le> n"
  proof -
    assume "again (sk_buffer k)"
    then have "0 < ?cut" using assms(1,2) by (auto simp: cdc_laws_def)
    then show ?thesis using Suc.prems by simp
  qed
  ultimately show ?case using Suc.IH [of k1 d1] c by (subst sink_cut_while.simps) (auto split: sum.splits)
qed

section \<open>Witnesses\<close>

text \<open>A hexadecimal codec that satisfies the laws, and transparent stand-ins for the other crates.\<close>

lemma hex_digit_value: "is_lower_hex_digit c \<Longrightarrow> digit_value c = Some x \<Longrightarrow> x < 16 \<and> hex_digit x = c"
proof -
  assume c: "is_lower_hex_digit c" "digit_value c = Some x"
  then have "(48 \<le> code c \<and> code c \<le> 57 \<and> x = code c - 48) \<or> (97 \<le> code c \<and> code c \<le> 102 \<and> x = code c - 87)"
    by (auto simp: is_lower_hex_digit_def digit_value_def is_ascii_digit_def is_ascii_lower_def split: if_splits)
  then show ?thesis by (auto simp: hex_digit_def)
qed

lemma hex_text_hex_bytes: "list_all is_lower_hex_digit a \<Longrightarrow> hex_bytes a = Some v \<Longrightarrow> hex_text v = a"
proof (induction a arbitrary: v rule: hex_bytes.induct)
  case (3 c d s)
  obtain x y bs where v: "digit_value c = Some x" "digit_value d = Some y" "hex_bytes s = Some bs" "v = of_nat (16 * x + y) # bs"
    using "3.prems"(2) by (auto split: option.splits if_splits)
  have x: "x < 16 \<and> hex_digit x = c" "y < 16 \<and> hex_digit y = d" using hex_digit_value v "3.prems"(1) by auto
  then have "16 * x + y < 2 ^ LENGTH(8)" by simp
  then have "unat (of_nat (16 * x + y) :: byte) = 16 * x + y" by (rule of_nat_inverse [OF refl])
  then show ?case using "3.IH" [of bs] "3.prems"(1) v x by (simp add: hex_text_def)
qed (auto simp: hex_text_def)

definition plain_crates :: snapshot_crates where
  "plain_crates = \<lparr>sc_crates = evidence_crates\<lparr>hmac_sha256 := \<lambda>k m. take 32 (m @ replicate 32 0)\<rparr>, sc_hkdf_32 = (\<lambda>s k i. []),
     sc_gcm_seal = (\<lambda>key nonce aad p. (p, replicate 16 0)), sc_gcm_open = (\<lambda>key nonce aad b. Some (take (length b - 16) b)),
     sc_ed25519_verify = (\<lambda>k m s. True), sc_fastcdc_cut = (\<lambda>b. min (length b) CHUNK_MAX_BYTES)\<rparr>"

lemma plain_fields:
  "hex_encode (sc_crates plain_crates) = hex_text" "hex_decode (sc_crates plain_crates) = hex_bytes"
  "hmac_sha256 (sc_crates plain_crates) k m = take 32 (m @ replicate 32 0)" "sha256_digest (sc_crates plain_crates) b = replicate 32 0"
  by (simp_all add: plain_crates_def evidence_crates_fields)

lemma plain_hex_laws: "hex_laws (sc_crates plain_crates)"
proof -
  have "inj hex_text" by (metis hex_bytes_hex_text injI option.inject)
  moreover have "list_all is_lower_hex_digit (hex_text b)" for b using hex_text_lower [of b] by (auto simp: lower_hex_def list_all_iff)
  moreover have "a = b" if "list_all is_lower_hex_digit a" "list_all is_lower_hex_digit b" "hex_bytes a = Some v" "hex_bytes b = Some v" for a b v
    using hex_text_hex_bytes [OF that(1,3)] hex_text_hex_bytes [OF that(2,4)] by simp
  ultimately show ?thesis unfolding hex_laws_def plain_fields by blast
qed

lemma plain_laws: "aead_laws plain_crates" "cdc_laws plain_crates"
  by (auto simp: aead_laws_def cdc_laws_def plain_crates_def CHUNK_TAG_LEN_def CHUNK_MAX_BYTES_def)

definition sample_lineage :: snapshot_lineage where
  "sample_lineage = \<lparr>sn_org = ''o'', sn_application = ''a'', sn_lineage = ''l'', sn_job_id = ''j'', sn_processor_id = ''p'',
     sn_generation = 0, sn_dek_version = 0, sn_captured_at_ms = 0, sn_recipients = []\<rparr>"

definition sample_signer :: state_signer where
  "sample_signer = \<lparr>ss_public_key = replicate 32 1, ss_sign_ed25519 = (\<lambda>m. Some [])\<rparr>"

definition sample_objects :: object_env where
  "sample_objects = \<lparr>oe_fails = (\<lambda>k. False), oe_random = (\<lambda>k n. Some []), oe_partial = (\<lambda>k. 0)\<rparr>"

definition empty_objects :: object_dir where
  "empty_objects = \<lparr>od_nodes = (\<lambda>n. None), od_calls = 0\<rparr>"

definition sample_keys :: chunk_keys where
  "sample_keys = chunk_keys_new plain_crates [] ''l''"

definition sample_manifest :: manifest where
  "sample_manifest = (blank_manifest sample_lineage (replicate 32 1))\<lparr>mf_plaintext_bytes := 2, mf_chunks := [chunk_entry plain_crates sample_keys [1, 2]]\<rparr>"

lemma sample_well_formed:
  "check_well_formed (sc_crates plain_crates) (blank_manifest sample_lineage (replicate 32 1)) = Inr ()"
  "check_well_formed (sc_crates plain_crates) sample_manifest = Inr ()"
  by (simp_all add: check_well_formed_def sample_manifest_def blank_manifest_def sample_lineage_def MANIFEST_VERSION_def MAX_SAFE_INTEGER_def
      chunk_entry_def CHUNK_OVERHEAD_def CHUNK_NONCE_LEN_def CHUNK_TAG_LEN_def checked_add_u64_def u64_max_def)

lemma sample_canonical: "\<exists>b. manifest_canonical_bytes (sc_crates plain_crates) sample_manifest = Inr b"
  by (simp add: manifest_canonical_bytes_def sample_well_formed)
    (simp add: sample_manifest_def blank_manifest_def sample_lineage_def enc_u64_def enc_str_def enc_bytes_def enc_count_def enc_previous_def
      enc_raw_def enc_chunk_def chunk_entry_def u32_max_def as_bytes_def)

lemma sample_write:
  "\<exists>report d. snapshot_write plain_crates sample_objects [[1], [2]] [] sample_lineage None sample_signer empty_objects
     = (Inr (\<lparr>sm_manifest = sample_manifest, sm_signature = []\<rparr>, report), d)"
proof -
  let ?k = "\<lparr>sk_keys = sample_keys, sk_buffer = [], sk_chunks = [], sk_report = \<lparr>wr_chunks_written = 0, wr_chunks_reused = 0\<rparr>\<rparr>"
  have cut: "sc_fastcdc_cut plain_crates b = min (length b) CHUNK_MAX_BYTES" for b by (simp add: plain_crates_def)
  obtain k d where "sink_archive plain_crates sample_objects [[1], [2]] ?k empty_objects = (Inr (), k, d)"
      "sk_chunks k = [chunk_entry plain_crates sample_keys [1, 2]]"
    by (auto simp: sink_write_def sink_flush_all_def sink_cut_while.simps CHUNK_MAX_BYTES_def sink_cut_one_def cut sink_store_def
        object_call_def sample_objects_def empty_objects_def fill_random_def ok_or_def write_object_def random_suffix_def set_object_def
        push_chunk_def chunk_entry_def Let_def)
  moreover have "sign_manifest plain_crates sample_manifest sample_signer = Inr []"
    using sample_canonical
    by (auto simp: sign_manifest_def manifest_digest_def sample_signer_def sample_manifest_def blank_manifest_def map_err_def verify_digest_def
        plain_crates_def ok_or_def)
  ultimately show ?thesis
    using sample_well_formed(1)
    by (simp del: sink_archive.simps add: snapshot_write_def chained_manifest_def sample_signer_def sample_keys_def sample_lineage_def
        sample_manifest_def chunk_entry_def Let_def numeral_2_eq_2)
qed

lemma plain_chunk_id: "keys_chunk_id plain_crates k p = take 32 (p @ replicate 32 0)"
  by (simp add: keys_chunk_id_def plain_fields)

lemma plain_cut: "sc_fastcdc_cut plain_crates b = min (length b) CHUNK_MAX_BYTES"
  by (simp add: plain_crates_def)

lemma plain_sink_laws: "sink_laws plain_crates K (set (stream_cuts plain_crates (concat [[1], [2]])))"
proof -
  have "stream_cuts plain_crates [1, 2] = [[1, 2]]" by (simp add: stream_cuts.simps plain_cut CHUNK_MAX_BYTES_def)
  then show ?thesis by (simp add: sink_laws_def plain_laws plain_hex_laws)
qed

definition sample_trust :: restore_trust where
  "sample_trust = \<lparr>rt_signer = replicate 32 1, rt_previous = None\<rparr>"

theorem snapshot_roundtrip_witness:
  "\<exists>smf report d. snapshot_write plain_crates sample_objects [[1], [2]] [] sample_lineage None sample_signer empty_objects = (Inr (smf, report), d)
     \<and> fst (restore_stream plain_crates sample_objects [5, 5, 5] smf [] sample_trust d) = Inr [1, 2]"
proof -
  obtain smf report d where w: "snapshot_write plain_crates sample_objects [[1], [2]] [] sample_lineage None sample_signer empty_objects = (Inr (smf, report), d)"
    using sample_write by blast
  have "dir_sound plain_crates K P empty_objects" for K P by (simp add: dir_sound_def empty_objects_def)
  then have "fst (restore_stream plain_crates sample_objects [5, 5, 5] smf [] sample_trust d) = Inr (concat [[1], [2]])"
    using snapshot_roundtrip [OF plain_sink_laws _ w, of sample_objects "[5, 5, 5]" sample_trust]
    by (simp add: faultless_def sample_objects_def sample_trust_def sample_signer_def)
  then show ?thesis using w by auto
qed

text \<open>The directory after the sample write holds the one sealed object.\<close>

definition sample_dir :: object_dir where
  "sample_dir = \<lparr>od_nodes = [hex_text (1 # 2 # replicate 30 0) \<mapsto> ObjectFile (CHUNK_FORMAT_VERSION # replicate 12 0 @ [1, 2] @ replicate 16 0)], od_calls = 0\<rparr>"

definition sample_snapshot :: signed_manifest where
  "sample_snapshot = \<lparr>sm_manifest = sample_manifest, sm_signature = []\<rparr>"

lemma sample_restore: "\<exists>d. restore_stream plain_crates sample_objects [5, 5, 5] sample_snapshot [] sample_trust sample_dir = (Inr [1, 2], d)"
proof -
  have "mw_signer_public_key (mf_writer sample_manifest) = replicate 32 1" by (simp add: sample_manifest_def blank_manifest_def)
  moreover have "verify_digest plain_crates b sig k = Inr ()" for b sig k by (simp add: verify_digest_def plain_crates_def)
  ultimately have v: "\<exists>b. verify_signature plain_crates sample_manifest [] (replicate 32 1) = Inr b"
    using sample_canonical by (auto simp: verify_signature_def manifest_digest_def)
  have c: "mf_chunks sample_manifest = [\<lparr>mc_id = 1 # 2 # replicate 30 0, mc_plaintext_bytes = 2, mc_object_bytes = 31\<rparr>]"
    by (simp add: sample_manifest_def chunk_entry_def plain_chunk_id CHUNK_OVERHEAD_def CHUNK_NONCE_LEN_def CHUNK_TAG_LEN_def numeral_2_eq_2)
  have n: "od_nodes sample_dir (hex_text (1 # 2 # replicate 30 0)) = Some (ObjectFile (CHUNK_FORMAT_VERSION # replicate 12 0 @ [1, 2] @ replicate 16 0))"
    by (simp add: sample_dir_def)
  have call: "object_call sample_objects d = (False, d\<lparr>od_calls := od_calls d + 1\<rparr>)" for d by (simp add: object_call_def sample_objects_def)
  have gcm: "sc_gcm_open plain_crates k nonce aad b = Some (take (length b - 16) b)" for k nonce aad b by (simp add: plain_crates_def)
  have o: "keys_open plain_crates k (1 # 2 # replicate 30 0) (CHUNK_FORMAT_VERSION # replicate 12 0 @ [1, 2] @ replicate 16 0) = Inr [1, 2]" for k
    by (simp add: keys_open_def CHUNK_OVERHEAD_def CHUNK_NONCE_LEN_def CHUNK_TAG_LEN_def gcm plain_fields)
  obtain d where d: "restore_checks plain_crates sample_objects sample_snapshot sample_trust sample_dir = (Inr (), d)" "od_nodes d = od_nodes sample_dir"
    using v by (auto simp: restore_checks_def sample_snapshot_def sample_trust_def c check_object_def call plain_fields n MAX_CHUNK_PLAINTEXT_BYTES_def
        CHUNK_OVERHEAD_def CHUNK_NONCE_LEN_def CHUNK_TAG_LEN_def)
  have "\<exists>e. stream_load plain_crates sample_objects k \<lparr>mc_id = 1 # 2 # replicate 30 0, mc_plaintext_bytes = 2, mc_object_bytes = 31\<rparr> d = (Inr [1, 2], e)" for k
    using o [of k] by (simp add: stream_load_def call plain_fields d(2) n map_err_def)
  then obtain e where "stream_load plain_crates sample_objects (chunk_keys_new plain_crates [] (mf_lineage sample_manifest))
      \<lparr>mc_id = 1 # 2 # replicate 30 0, mc_plaintext_bytes = 2, mc_object_bytes = 31\<rparr> d = (Inr [1, 2], e)" by blast
  then show ?thesis using d(1) by (simp add: restore_stream_def c stream_read_def sample_snapshot_def)
qed

lemma sample_typed: "manifest_typed sample_manifest"
  by (simp add: manifest_typed_def sample_manifest_def blank_manifest_def sample_lineage_def chunk_entry_def plain_chunk_id)

theorem restored_stream_authentic_witness:
  "(\<exists>d. restore_stream plain_crates sample_objects [5, 5, 5] sample_snapshot [] sample_trust sample_dir = (Inr [1, 2], d))
     \<and> (\<exists>ps. [1, 2] = concat ps \<and> list_all2 (\<lambda>c p. chunk_id plain_crates [] (mf_lineage sample_manifest) p = mc_id c) (mf_chunks sample_manifest) ps)"
proof -
  obtain d where d: "restore_stream plain_crates sample_objects [5, 5, 5] sample_snapshot [] sample_trust sample_dir = (Inr [1, 2], d)"
    using sample_restore by blast
  then show ?thesis using restored_stream_authentic [OF d] by (simp add: sample_snapshot_def)
qed

theorem canonical_bytes_inject_witness:
  "\<exists>b. manifest_canonical_bytes (sc_crates plain_crates) sample_manifest = Inr b
     \<and> (\<forall>n. \<not> (manifest_typed n \<and> n \<noteq> sample_manifest \<and> manifest_canonical_bytes (sc_crates plain_crates) n = Inr b))"
proof -
  obtain b where b: "manifest_canonical_bytes (sc_crates plain_crates) sample_manifest = Inr b" using sample_canonical by blast
  then show ?thesis using canonical_bytes_inject [OF plain_hex_laws sample_typed _ b] by auto
qed

end
