(* ===== verification/Spec2Isabelle.thy ===== *)
theory Spec2Isabelle
  imports SupervisorProofs Evidence LifecycleProofs IgdProofs FileSecretsProofs ConnectorProofs HealthProofs SnapshotProofs
begin

text \<open>
  Runtime Cargo is the helper that contacts the Liskov control plane before a customer command starts and then
  supervises that command (crate \<open>liskov-runtime-cargo\<close>, sources under \<open>src/src\<close>). This development translates
  its decision-making code into HOL functions and proves what makes it correct.

  \<^bold>\<open>The program.\<close> First contact discovers the identity of the job through a bridge, posts one signed request and
  accepts a response bound to it. From the response come the access block, the restart policy, the signed
  environment and possibly a traversal grant. The helper installs secret files, merges the environment, starts the
  customer command and supervises its process group, restarting it within the policy and reporting health. A
  remote-access connector may run beside it. A traversal grant lets it measure the network path and create short
  port mappings at the local gateway, and report signed evidence. Application state is kept in encrypted snapshots.

  \<^bold>\<open>Common ground.\<close> A fallible function returns \<open>'e + 'a\<close>, \<open>Inl\<close> the error. Structs are records, enums datatypes,
  and every early return is a branch. Packet fields are words of their width; counters, lengths and times are
  naturals with the checked and saturating operations of the code written out. Traits and system calls are records
  of state-passing functions on an arbitrary world, so a statement for every world covers every failure. Crates that
  are not in the repository are fields of the record \<open>crates\<close> (or \<open>snapshot_crates\<close>) and nothing is assumed of them
  beyond what a theorem names (\<open>url_laws\<close>, \<open>hex_laws\<close>, \<open>aead_laws\<close>, \<open>cdc_laws\<close>); each such theorem has a witness
  that instantiates them.

  \<^bold>\<open>Theories.\<close>
  \<^item> \<open>Prelude\<close>, \<open>Externals\<close>: results, machine arithmetic, byte order, JSON values and the crates. The collections
    \<open>res_simps\<close> and \<open>sat_simps\<close> carry the proofs of the components.
  \<^item> \<open>Protocol\<close> (\<open>protocol.rs\<close>): the response and its access block, the supervision policy, request signing
    (\<open>sign_request\<close>) and \<open>validate_response\<close>. The fold over publications is equivalent to its specification.
  \<^item> \<open>Contact\<close> (\<open>contact.rs\<close>, \<open>handoff.rs\<close>): the retry loops. One request goes to one endpoint, within the attempt
    and time budget, and the accepted response names its job, processor and nonce.
  \<^item> \<open>Environment\<close> (\<open>env_names.rs\<close>, \<open>runtime_env.rs\<close>, \<open>customer_environment.rs\<close>): the fetch, repair and merge of the
    environment refine a name-by-name specification, no protected name reaches the customer, and the signed request
    and the response that is accepted for it name the same application, policy, job, deployment and processor. The locale
    \<open>guest_filesystem\<close> is the contract of the file access of the repair.
  \<^item> \<open>Supervisor\<close>, \<open>SupervisorProofs\<close> (\<open>supervisor.rs\<close>): the poll loop, the cleanup of the process group and the
    restart loop as a state and log monad. A monitor over the log gives the bound on restarts, that a group is gone
    before the next start, and where exit codes come from.
  \<^item> \<open>FileSecrets\<close>, \<open>FileSecretsProofs\<close> (\<open>file_secrets.rs\<close>): installation with rollback and recovery on a file system
    in which any call may fail; a group of files is installed as a whole or restored as a whole.
  \<^item> \<open>Connector\<close>, \<open>ConnectorProofs\<close> (\<open>access/cloudflared.rs\<close>, the drain of \<open>access.rs\<close>): the log classifier and the
    supervision as the inductive relation \<open>connector_run\<close>, with the respawn budget and the stop condition by rule
    induction.
  \<^item> \<open>Health\<close>, \<open>HealthProofs\<close> (\<open>thermal.rs\<close>, \<open>memory.rs\<close>): the readers, the process tree as the closure of the parent
    links, and the sampler as a step relation of caller and reading thread.
  \<^item> \<open>Snapshot\<close>, \<open>SnapshotProofs\<close> (\<open>state_snapshot.rs\<close>): sealed chunks, the signed manifest chain, the chunk writer
    and reader. The canonical bytes determine the manifest, a restore delivers only what the manifest names, and a
    restore of a written snapshot is what was written.
  \<^item> \<open>Descriptor\<close> (\<open>network_traversal/mod.rs\<close>, \<open>descriptor.rs\<close>, \<open>reserve.rs\<close>): validation of the grant, consent and the
    reservation of time. \<open>Transcript\<close> (\<open>proof.rs\<close>) and \<open>Evidence\<close> (\<open>auth.rs\<close>, \<open>result.rs\<close>): signed transcripts,
    capabilities, receipts and result blocks, with their round trips.
  \<^item> \<open>Gateway\<close> (\<open>gateway.rs\<close>): the two route sources, the choice of a gateway and the exchanges with it. The locale
    \<open>router_link\<close> is the contract of an exchange, interpreted on the exchange that records its requests.
  \<^item> \<open>PortMapping\<close> (\<open>mapping.rs\<close>), \<open>Soap\<close> and \<open>Upnp\<close> (\<open>mapping/upnp.rs\<close>): PCP, NAT-PMP and UPnP mappings. What is
    sent, under which reservation, that grants are adopted only when finite, round trips of the replies, and that an
    attempt with an honest router succeeds.
  \<^item> \<open>Igd\<close>, \<open>IgdProofs\<close> (\<open>igd.rs\<close>): discovery of a UPnP gateway; all traffic stays at the selected gateway
    (locale \<open>igd_link\<close>) and a printed device description is read back.
  \<^item> \<open>Lifecycle\<close>, \<open>LifecycleProofs\<close> (\<open>lifecycle.rs\<close>): the one-shot mapping run with its budgets. The locales
    \<open>router_advance\<close>, \<open>logged_runtime\<close> and \<open>bounded_run\<close> lift what every exchange preserves to the whole run.
    The predicates \<open>asking\<close> and \<open>deleting\<close> say what a request to the router is from the packets and SOAP actions it
    can be, apart from the code's own \<open>delete_request\<close>; \<open>event_ok\<close> ties the later deadline to the deletions. They
    take nonces to be arrays of twelve bytes and the control path of the gateway to come from a URL, without \<open>#\<close>.

  \<^bold>\<open>Fuel.\<close> Loops that end only when the clock, a socket or a process lets them take fuel, and running out of it is a
  value of its own (\<open>None\<close>). The safety statements on the supervisor also cover runs that are cut off; that a bounded
  supervision and a cleanup return with enough fuel are properties of \<open>SupervisorProofs\<close>, and lemma
  \<open>drain_connector_returns\<close> says the same of the drain. The cutting loops of the snapshot writer take the length of
  the buffer as fuel; by lemma \<open>sink_cut_while_enough\<close> they never run out. The receive loops of \<open>Igd\<close> have no bound
  on their fuel, as a socket may interrupt them for ever. All other loops are structural or have a termination proof.

  \<^bold>\<open>Not modelled.\<close> Sockets, TLS, pipes and threads themselves; the decoders that \<open>serde\<close> derives; the tar archive a
  snapshot carries and the directory a restore unpacks it into; the loading of cargo tasks and access daemons around
  the supervisor; the probes and measurements outside the supervised path (\<open>behaviour.rs\<close>, \<open>discovery\<close>,
  \<open>inbound_reachability\<close>, \<open>network_sample\<close>, \<open>processor_facts\<close>, \<open>precontact\<close>); job secrets, payload delivery, log
  forwarding and the entry points.
\<close>

end
